(* ===== verification/Prelude.thy ===== *)
theory Prelude
  imports Main "HOL-Library.Word" "HOL-Library.Numeral_Type" "HOL-Library.List_Lexorder"
begin

text \<open>
  The vocabulary every component of the development shares.

  \<^item> Machine types: \<open>byte\<close> is Rust's \<open>u8\<close>, \<open>u16\<close>, \<open>u32\<close> and \<open>u64\<close> are words, and the fixed
    arrays \<open>[u8; N]\<close> are the type \<open>'n bytes\<close>, a list of exactly \<open>LENGTH('n)\<close> bytes, with
    \<open>octets\<close> to read it, \<open>arr\<close> to build it and \<open>try_into\<close> for the fallible conversion from a slice.
  \<^item> Errors: \<open>anyhow::Result\<close> is \<open>error + 'a\<close>, where the error holds the message of the \<open>bail!\<close>,
    \<open>anyhow!\<close> or \<open>context\<close> call without the values it interpolates; \<open>and_then\<close>, \<open>context_of\<close> and
    \<open>collect_results\<close> are \<open>?\<close>, \<open>context\<close> and \<open>collect::<Result<Vec<_>>>\<close>.
  \<^item> Slices and strings: a \<open>&str\<close> is the list of its characters (bytes), with the few methods of
    the standard library the program calls.
  \<^item> The big-endian byte order of \<open>to_be_bytes\<close> and \<open>from_be_bytes\<close>.
\<close>

unbundle bit_operations_syntax

named_theorems result_simps \<open>the algebra of results\<close>
named_theorems slice_simps \<open>lengths, prefixes and indices of byte strings\<close>

section \<open>Machine types\<close>

type_synonym byte = "8 word"
type_synonym u16 = "16 word"
type_synonym u32 = "32 word"
type_synonym u64 = "64 word"

text \<open>The fixed-size array \<open>[u8; N]\<close>.\<close>

typedef (overloaded) ('n::len) bytes = "{bs :: byte list. length bs = LENGTH('n)}"
  morphisms octets Abs_bytes
  by (rule exI [of _ "replicate LENGTH('n) 0"]) simp

text \<open>A list of the right length as an array; a longer list is cut and a shorter one padded.\<close>

definition arr :: "byte list \<Rightarrow> ('n::len) bytes" where
  "arr bs = Abs_bytes (take LENGTH('n) (bs @ replicate LENGTH('n) 0))"

text \<open>\<open>[0; N]\<close>.\<close>

definition zeros :: "('n::len) bytes" where
  "zeros = Abs_bytes (replicate LENGTH('n) 0)"

lemma bytes_abstype [code abstype]: "Abs_bytes (octets a) = a"
  by (rule octets_inverse)

lemma octets_arr_eq [code abstract]:
  "octets (arr bs :: ('n::len) bytes) = take LENGTH('n) (bs @ replicate LENGTH('n) 0)"
  by (simp add: arr_def Abs_bytes_inverse)

lemma octets_zeros [simp, code abstract]:
  "octets (zeros :: ('n::len) bytes) = replicate LENGTH('n) 0"
  by (simp add: zeros_def Abs_bytes_inverse)

text \<open>\<open><[u8; N]>::try_from(slice)\<close>: the length must agree.\<close>

definition try_into :: "byte list \<Rightarrow> ('n::len) bytes option" where
  "try_into bs = (if length bs = LENGTH('n) then Some (arr bs) else None)"

lemma length_octets [simp]: "length (octets (a :: ('n::len) bytes)) = LENGTH('n)"
  using octets [of a] by simp

lemma octets_arr [simp]: "length bs = LENGTH('n::len) \<Longrightarrow> octets (arr bs :: 'n bytes) = bs"
  by (simp add: octets_arr_eq)

lemma octets_eq_iff [simp]: "octets a = octets b \<longleftrightarrow> a = b"
  by (rule octets_inject)

lemma arr_octets [simp]: "arr (octets a) = a"
  by (simp flip: octets_eq_iff)

lemma try_into_octets [simp]: "try_into (octets a) = Some a"
  by (simp add: try_into_def)

lemma try_into_Some_iff [simp]: "try_into bs = Some a \<longleftrightarrow> octets a = bs"
  by (auto simp: try_into_def)

lemma try_into_None_iff: "(try_into bs :: ('n::len) bytes option) = None \<longleftrightarrow> length bs \<noteq> LENGTH('n)"
  by (simp add: try_into_def)

lemma arr_eq_iff: "length bs = LENGTH('n::len) \<Longrightarrow> (arr bs = (a :: 'n bytes)) = (bs = octets a)"
  by (auto simp flip: octets_eq_iff)

text \<open>Arrays compare as slices do: equality and lexicographic order of the bytes.\<close>

instantiation bytes :: (len) equal
begin

definition equal_bytes :: "'a bytes \<Rightarrow> 'a bytes \<Rightarrow> bool" where
  "equal_bytes a b = (octets a = octets b)"

instance
  by standard (simp add: equal_bytes_def)

end

instantiation bytes :: (len) linorder
begin

definition less_eq_bytes :: "'a bytes \<Rightarrow> 'a bytes \<Rightarrow> bool" where
  "less_eq_bytes a b = (octets a \<le> octets b)"

definition less_bytes :: "'a bytes \<Rightarrow> 'a bytes \<Rightarrow> bool" where
  "less_bytes a b = (octets a < octets b)"

instance
  by standard (auto simp: less_eq_bytes_def less_bytes_def less_le)

end

section \<open>Results\<close>

text \<open>An \<open>anyhow::Error\<close>, by the message of the place that raised or wrapped it.\<close>

datatype error = Error string

type_synonym 'a res = "error + 'a"

abbreviation Ok :: "'a \<Rightarrow> 'a res" where
  "Ok \<equiv> Inr"

abbreviation Err :: "string \<Rightarrow> 'a res" where
  "Err m \<equiv> Inl (Error m)"

text \<open>Why a run ends without a value: a panic, or more turns of a loop than the fuel allows.\<close>

datatype stop = Panic | Diverged

text \<open>The \<open>?\<close> operator: stop at the first error.\<close>

fun and_then :: "'e + 'a \<Rightarrow> ('a \<Rightarrow> 'e + 'b) \<Rightarrow> 'e + 'b" where
  "and_then (Inl e) f = Inl e"
| "and_then (Inr x) f = f x"

text \<open>\<open>.context(m)\<close>: the outer message replaces the one below.\<close>

fun context_of :: "string \<Rightarrow> 'e + 'a \<Rightarrow> 'a res" where
  "context_of m (Inl e) = Err m"
| "context_of m (Inr x) = Ok x"

text \<open>\<open>.ok_or_else(|| anyhow!(m))\<close>.\<close>

fun ok_or :: "string \<Rightarrow> 'a option \<Rightarrow> 'a res" where
  "ok_or m None = Err m"
| "ok_or m (Some x) = Ok x"

text \<open>\<open>iter.map(f).collect::<Result<Vec<_>>>()\<close>: in order, stopping at the first error.\<close>

fun collect_results :: "('a \<Rightarrow> 'e + 'b) \<Rightarrow> 'a list \<Rightarrow> 'e + 'b list" where
  "collect_results f [] = Inr []"
| "collect_results f (x # xs) =
     and_then (f x) (\<lambda>y. and_then (collect_results f xs) (\<lambda>ys. Inr (y # ys)))"

fun is_ok :: "'e + 'a \<Rightarrow> bool" where
  "is_ok (Inl _) = False"
| "is_ok (Inr _) = True"

lemma and_then_cong [fundef_cong]:
  "r = r' \<Longrightarrow> (\<And>x. r' = Inr x \<Longrightarrow> f x = f' x) \<Longrightarrow> and_then r f = and_then r' f'"
  by (cases r') auto

lemma foldl_and_then_Inl [simp]: "foldl (\<lambda>r x. and_then r (g x)) (Inl e) xs = Inl e"
  by (induction xs) auto

lemma collect_results_cong [fundef_cong]:
  "xs = ys \<Longrightarrow> (\<And>x. x \<in> set ys \<Longrightarrow> f x = g x) \<Longrightarrow> collect_results f xs = collect_results g ys"
  by (induction ys arbitrary: xs) auto

lemma and_then_Inr_iff [result_simps]:
  "and_then r f = Inr y \<longleftrightarrow> (\<exists>x. r = Inr x \<and> f x = Inr y)"
  by (cases r) auto

lemma context_of_Inr_iff [result_simps]: "context_of m r = Inr x \<longleftrightarrow> r = Inr x"
  by (cases r) auto

lemma ok_or_Inr_iff [result_simps]: "ok_or m v = Inr x \<longleftrightarrow> v = Some x"
  by (cases v) auto

lemma is_ok_iff [result_simps]: "is_ok r \<longleftrightarrow> (\<exists>x. r = Inr x)"
  by (cases r) auto

lemma collect_results_Inr_iff:
  "collect_results f xs = Inr ys \<longleftrightarrow> list_all2 (\<lambda>x y. f x = Inr y) xs ys"
proof (induction xs arbitrary: ys)
  case Nil
  then show ?case by auto
next
  case (Cons x xs)
  then show ?case by (cases ys) (auto simp: result_simps)
qed

lemma collect_results_map_Inr:
  "(\<And>x. x \<in> set xs \<Longrightarrow> f x = Inr (g x)) \<Longrightarrow> collect_results f xs = Inr (map g xs)"
  by (induction xs) auto

text \<open>What holds of the value of a result, if it has one.\<close>

definition all_ok :: "('a \<Rightarrow> bool) \<Rightarrow> 'e + 'a \<Rightarrow> bool" where
  "all_ok P r \<longleftrightarrow> (\<forall>x. r = Inr x \<longrightarrow> P x)"

lemma all_ok_simps [simp]: "all_ok P (Inl e)" "all_ok P (Inr x) = P x"
  by (simp_all add: all_ok_def)

lemma all_okD: "all_ok P r \<Longrightarrow> r = Inr x \<Longrightarrow> P x"
  by (simp add: all_ok_def)

lemma all_ok_if: "(b \<Longrightarrow> all_ok P x) \<Longrightarrow> (\<not> b \<Longrightarrow> all_ok P y) \<Longrightarrow> all_ok P (if b then x else y)"
  by simp

lemma all_ok_then: "(\<And>x. r = Inr x \<Longrightarrow> all_ok P (f x)) \<Longrightarrow> all_ok P (and_then r f)"
  by (cases r) simp_all

section \<open>Byte order\<close>

text \<open>The low \<open>n\<close> bytes of a word, most significant first (\<open>to_be_bytes\<close>), and back.\<close>

primrec to_be_bytes :: "nat \<Rightarrow> 'a::len word \<Rightarrow> byte list" where
  "to_be_bytes 0 w = []"
| "to_be_bytes (Suc n) w = to_be_bytes n (drop_bit 8 w) @ [ucast w]"

definition from_be_bytes :: "byte list \<Rightarrow> 'a::len word" where
  "from_be_bytes bs = foldl (\<lambda>acc b. push_bit 8 acc OR ucast b) 0 bs"

lemma length_to_be_bytes [simp]: "length (to_be_bytes n w) = n"
  by (induction n arbitrary: w) auto

lemma to_be_bytes_2: "to_be_bytes 2 w = [ucast (drop_bit 8 w), ucast w]"
  by (simp add: numeral_2_eq_2)

lemma to_be_bytes_4:
  "to_be_bytes 4 w = [ucast (drop_bit 24 w), ucast (drop_bit 16 w), ucast (drop_bit 8 w), ucast w]"
  by (simp add: eval_nat_numeral)

lemma from_be_bytes_snoc:
  "from_be_bytes (bs @ [b]) = push_bit 8 (from_be_bytes bs) OR ucast b"
  by (simp add: from_be_bytes_def)

lemma from_be_bytes_Nil [simp]: "from_be_bytes [] = 0"
  by (simp add: from_be_bytes_def)

lemma push_take_or: "push_bit 8 (take_bit n (drop_bit 8 w)) OR ucast (ucast w :: byte)
    = (take_bit (8 + n) w :: 'a::len word)"
  by (rule bit_word_eqI) (auto simp: bit_simps)

lemma from_to_be_bytes_take: "from_be_bytes (to_be_bytes n w) = take_bit (8 * n) w"
  by (induction n arbitrary: w) (simp_all add: from_be_bytes_snoc push_take_or)

lemma from_to_be_bytes [simp]:
  "LENGTH('a) \<le> 8 * n \<Longrightarrow> from_be_bytes (to_be_bytes n w) = (w :: 'a::len word)"
  by (simp add: from_to_be_bytes_take take_bit_word_eq_self)

text \<open>
  The converse: the bytes of a number that was read from \<open>n\<close> bytes are those bytes, if the
  word is wide enough to hold them.
\<close>

lemma to_be_bytes_take:
  "8 * n \<le> m \<Longrightarrow> m \<le> LENGTH('a) \<Longrightarrow> to_be_bytes n (take_bit m w) = to_be_bytes n (w :: 'a::len word)"
proof (induction n arbitrary: w m)
  case 0
  then show ?case by simp
next
  case (Suc n)
  have "drop_bit 8 (take_bit m w) = take_bit (m - 8) (drop_bit 8 w)"
    by (rule bit_word_eqI) (use Suc.prems in \<open>auto simp: bit_simps\<close>)
  moreover have "ucast (take_bit m w) = (ucast w :: byte)"
    by (rule bit_word_eqI) (use Suc.prems in \<open>auto simp: bit_simps\<close>)
  ultimately show ?case using Suc by simp
qed

lemma to_from_be_bytes:
  "8 * length bs \<le> LENGTH('a) \<Longrightarrow> to_be_bytes (length bs) (from_be_bytes bs :: 'a::len word) = bs"
proof (induction bs rule: rev_induct)
  case Nil
  then show ?case by simp
next
  case (snoc b bs)
  let ?v = "from_be_bytes bs :: 'a word"
  have "drop_bit 8 (push_bit 8 ?v OR ucast b) = take_bit (LENGTH('a) - 8) ?v"
    by (rule bit_word_eqI) (use snoc.prems in \<open>auto simp: bit_simps dest: bit_imp_le_length\<close>)
  moreover have "ucast (push_bit 8 ?v OR ucast b) = b"
    by (rule bit_word_eqI) (use snoc.prems in \<open>auto simp: bit_simps\<close>)
  ultimately show ?case
    using snoc by (simp add: from_be_bytes_snoc to_be_bytes_take)
qed

section \<open>Slices and strings\<close>

text \<open>\<open>slice.starts_with(p)\<close> and \<open>str.strip_prefix(p)\<close>, and the same at the end.\<close>

definition starts_with :: "'a list \<Rightarrow> 'a list \<Rightarrow> bool" where
  "starts_with xs p = (take (length p) xs = p)"

definition strip_prefix :: "'a list \<Rightarrow> 'a list \<Rightarrow> 'a list option" where
  "strip_prefix p xs = (if starts_with xs p then Some (drop (length p) xs) else None)"

definition ends_with :: "'a list \<Rightarrow> 'a list \<Rightarrow> bool" where
  "ends_with xs p = (length p \<le> length xs \<and> drop (length xs - length p) xs = p)"

definition strip_suffix :: "'a list \<Rightarrow> 'a list \<Rightarrow> 'a list option" where
  "strip_suffix p xs = (if ends_with xs p then Some (take (length xs - length p) xs) else None)"

lemma starts_with_append [simp]: "starts_with (p @ xs) p"
  by (simp add: starts_with_def)

lemma starts_with_iff [slice_simps]: "starts_with xs p \<longleftrightarrow> (\<exists>ys. xs = p @ ys)"
  by (metis append_take_drop_id append_eq_conv_conj starts_with_def)

lemma strip_prefix_append [simp]: "strip_prefix p (p @ xs) = Some xs"
  by (simp add: strip_prefix_def)

lemma strip_prefix_Some_iff: "strip_prefix p xs = Some ys \<longleftrightarrow> xs = p @ ys"
  by (auto simp: strip_prefix_def starts_with_iff)

lemma ends_with_append [simp]: "ends_with (xs @ p) p"
  by (simp add: ends_with_def)

lemma strip_suffix_append [simp]: "strip_suffix p (xs @ p) = Some xs"
  by (simp add: strip_suffix_def)

lemma strip_suffix_Some_iff: "strip_suffix p xs = Some ys \<longleftrightarrow> xs = ys @ p"
  by (auto simp: strip_suffix_def ends_with_def) (metis append_take_drop_id)

text \<open>\<open>str.split(c)\<close>: the pieces between the separators, one more than there are separators.\<close>

fun split_on :: "'a \<Rightarrow> 'a list \<Rightarrow> 'a list list" where
  "split_on c [] = [[]]"
| "split_on c (x # xs) =
     (if x = c then [] # split_on c xs
      else (case split_on c xs of [] \<Rightarrow> [[x]] | p # ps \<Rightarrow> (x # p) # ps))"

text \<open>\<open>str.split_once(c)\<close> cuts at the first separator, \<open>str.rsplit_once(c)\<close> at the last.\<close>

fun split_once :: "'a \<Rightarrow> 'a list \<Rightarrow> ('a list \<times> 'a list) option" where
  "split_once c [] = None"
| "split_once c (x # xs) =
     (if x = c then Some ([], xs)
      else map_option (\<lambda>(l, r). (x # l, r)) (split_once c xs))"

definition rsplit_once :: "'a \<Rightarrow> 'a list \<Rightarrow> ('a list \<times> 'a list) option" where
  "rsplit_once c xs = map_option (\<lambda>(l, r). (rev r, rev l)) (split_once c (rev xs))"

lemma split_on_not_Nil [simp]: "split_on c xs \<noteq> []"
  by (induction xs) (auto split: list.splits)

lemma split_on_no_sep: "p \<in> set (split_on c xs) \<Longrightarrow> c \<notin> set p"
proof (induction xs arbitrary: p)
  case Nil
  then show ?case by simp
next
  case (Cons x xs)
  then show ?case
    by (cases "split_on c xs") (auto split: if_splits)
qed

lemma split_on_id: "c \<notin> set xs \<Longrightarrow> split_on c xs = [xs]"
  by (induction xs) auto

lemma split_on_append: "c \<notin> set p \<Longrightarrow> split_on c (p @ c # xs) = p # split_on c xs"
  by (induction p) auto

lemma split_once_Some_iff:
  "split_once c xs = Some (l, r) \<longleftrightarrow> xs = l @ c # r \<and> c \<notin> set l"
proof (induction xs arbitrary: l)
  case Nil
  then show ?case by simp
next
  case (Cons x xs)
  then show ?case by (cases l) auto
qed

lemma split_once_None_iff: "split_once c xs = None \<longleftrightarrow> c \<notin> set xs"
  by (induction xs) auto

lemma rsplit_once_Some_iff:
  "rsplit_once c xs = Some (l, r) \<longleftrightarrow> xs = l @ c # r \<and> c \<notin> set r"
proof -
  have "rsplit_once c xs = Some (l, r) \<longleftrightarrow> split_once c (rev xs) = Some (rev r, rev l)"
    by (auto simp: rsplit_once_def)
  also have "\<dots> \<longleftrightarrow> rev xs = rev (l @ c # r) \<and> c \<notin> set r"
    by (simp add: split_once_Some_iff)
  finally show ?thesis by (simp only: rev_is_rev_conv)
qed

lemma rsplit_once_None_iff: "rsplit_once c xs = None \<longleftrightarrow> c \<notin> set xs"
  by (auto simp: rsplit_once_def split_once_None_iff)

text \<open>\<open>chunks_exact(n)\<close> on a slice whose length is a multiple of \<open>n\<close>; a shorter rest is dropped.\<close>

function chunks_exact :: "nat \<Rightarrow> 'a list \<Rightarrow> 'a list list" where
  "chunks_exact n xs =
     (if n = 0 \<or> length xs < n then [] else take n xs # chunks_exact n (drop n xs))"
  by pat_completeness auto
termination
  by (relation "measure (\<lambda>(n, xs). length xs)") auto

declare chunks_exact.simps [simp del]

lemma chunks_exact_Nil [simp]: "chunks_exact n [] = []"
  by (subst chunks_exact.simps) auto

lemma chunks_exact_append [simp]:
  "length c = n \<Longrightarrow> 0 < n \<Longrightarrow> chunks_exact n (c @ xs) = c # chunks_exact n xs"
  by (subst chunks_exact.simps) auto

lemma length_in_chunks_exact: "c \<in> set (chunks_exact n xs) \<Longrightarrow> length c = n"
proof (induction n xs rule: chunks_exact.induct)
  case (1 n xs)
  then show ?case
    by (subst (asm) (2) chunks_exact.simps) (auto split: if_splits)
qed

section \<open>Decimal numbers\<close>

definition is_digit :: "char \<Rightarrow> bool" where
  "is_digit c = (48 \<le> (of_char c :: nat) \<and> (of_char c :: nat) \<le> 57)"

definition digit_of :: "nat \<Rightarrow> char" where
  "digit_of n = char_of (48 + n)"

text \<open>\<open>to_string\<close> of an unsigned integer, and the value of a string of digits.\<close>

fun dec :: "nat \<Rightarrow> string" where
  "dec n = (if n < 10 then [digit_of n] else dec (n div 10) @ [digit_of (n mod 10)])"

declare dec.simps [simp del]

definition digits_value :: "string \<Rightarrow> nat" where
  "digits_value s = foldl (\<lambda>a c. 10 * a + (of_char c - 48)) 0 s"

text \<open>\<open>to_string\<close> of a signed integer.\<close>

definition dec_int :: "int \<Rightarrow> string" where
  "dec_int i = (if i < 0 then CHR ''-'' # dec (nat (- i)) else dec (nat i))"

lemma of_char_digit_of [simp]: "n < 10 \<Longrightarrow> (of_char (digit_of n) :: nat) = 48 + n"
  by (simp add: digit_of_def)

lemma is_digit_digit_of [simp]: "n < 10 \<Longrightarrow> is_digit (digit_of n)"
  by (simp add: is_digit_def)

lemma dec_digits [simp]: "list_all is_digit (dec n)"
proof (induction n rule: dec.induct)
  case (1 n)
  then show ?case by (subst dec.simps) auto
qed

lemma dec_not_Nil [simp]: "dec n \<noteq> []"
  by (subst dec.simps) auto

lemma digits_value_dec [simp]: "digits_value (dec n) = n"
proof (induction n rule: dec.induct)
  case (1 n)
  then show ?case
    by (subst dec.simps) (auto simp: digits_value_def)
qed

lemma dec_inject [simp]: "dec m = dec n \<longleftrightarrow> m = n"
  by (metis digits_value_dec)

lemma not_digit_notin_dec: "\<not> is_digit c \<Longrightarrow> c \<notin> set (dec n)"
  using dec_digits [of n] by (auto simp: list_all_iff)

lemma dec_int_not_Nil [simp]: "dec_int i \<noteq> []"
  by (simp add: dec_int_def)

section \<open>Text\<close>

text \<open>
  The ASCII part of Rust's text methods: \<open>char::is_whitespace\<close>, \<open>str::trim\<close>, \<open>split_whitespace\<close>,
  \<open>eq_ignore_ascii_case\<close> and \<open>lines\<close>. (The non-ASCII white space of Unicode is not modelled.)
\<close>

definition is_ws :: "char \<Rightarrow> bool" where
  "is_ws c = (let n = of_char c :: nat in n = 32 \<or> (9 \<le> n \<and> n \<le> 13))"

definition trim :: "string \<Rightarrow> string" where
  "trim s = rev (dropWhile is_ws (rev (dropWhile is_ws s)))"

definition split_whitespace :: "string \<Rightarrow> string list" where
  "split_whitespace s =
     filter (\<lambda>w. w \<noteq> []) (split_on CHR '' '' (map (\<lambda>c. if is_ws c then CHR '' '' else c) s))"

definition ascii_lower :: "char \<Rightarrow> char" where
  "ascii_lower c = (let n = of_char c :: nat in if 65 \<le> n \<and> n \<le> 90 then char_of (n + 32) else c)"

definition eq_ignore_ascii_case :: "string \<Rightarrow> string \<Rightarrow> bool" where
  "eq_ignore_ascii_case a b = (map ascii_lower a = map ascii_lower b)"

definition lines :: "string \<Rightarrow> string list" where
  "lines s =
     (let ls = split_on (CHR 0x0A) s;
          ls = (if last ls = [] then butlast ls else ls)
      in map (\<lambda>l. case strip_suffix [CHR 0x0D] l of Some r \<Rightarrow> r | None \<Rightarrow> l) ls)"

text \<open>
  \<open>str::from_utf8\<close>: the well-formed byte sequences of Unicode (no overlong forms, no surrogates,
  nothing above \<open>U+10FFFF\<close>).
\<close>

definition utf8_cont :: "byte \<Rightarrow> bool" where
  "utf8_cont b = (0x80 \<le> b \<and> b \<le> 0xBF)"

fun utf8_valid :: "byte list \<Rightarrow> bool" where
  "utf8_valid [] = True"
| "utf8_valid (a # bs) =
     (if a \<le> 0x7F then utf8_valid bs
      else if 0xC2 \<le> a \<and> a \<le> 0xDF then
        (case bs of b # bs \<Rightarrow> utf8_cont b \<and> utf8_valid bs | _ \<Rightarrow> False)
      else if 0xE0 \<le> a \<and> a \<le> 0xEF then
        (case bs of b # c # bs \<Rightarrow>
           utf8_cont b \<and> utf8_cont c \<and> (a = 0xE0 \<longrightarrow> 0xA0 \<le> b) \<and> (a = 0xED \<longrightarrow> b \<le> 0x9F) \<and> utf8_valid bs
         | _ \<Rightarrow> False)
      else if 0xF0 \<le> a \<and> a \<le> 0xF4 then
        (case bs of b # c # d # bs \<Rightarrow>
           utf8_cont b \<and> utf8_cont c \<and> utf8_cont d \<and> (a = 0xF0 \<longrightarrow> 0x90 \<le> b) \<and> (a = 0xF4 \<longrightarrow> b \<le> 0x8F) \<and>
           utf8_valid bs
         | _ \<Rightarrow> False)
      else False)"

definition chars :: "byte list \<Rightarrow> string" where
  "chars bs = map (\<lambda>b. char_of (unat b)) bs"

definition from_utf8 :: "byte list \<Rightarrow> string option" where
  "from_utf8 bs = (if utf8_valid bs then Some (chars bs) else None)"

definition as_bytes :: "string \<Rightarrow> byte list" where
  "as_bytes s = map (\<lambda>c. of_nat (of_char c)) s"

lemma chars_as_bytes [simp]: "chars (as_bytes s) = s"
proof -
  have "char_of (unat (of_nat (of_char c) :: byte)) = c" for c :: char
    by (simp add: unat_of_nat)
  then show ?thesis by (simp add: chars_def as_bytes_def comp_def)
qed

lemma as_bytes_chars [simp]: "as_bytes (chars bs) = bs"
proof -
  have "unat b < 256" for b :: byte using unsigned_less [of b] by simp
  then have "of_nat (of_char (char_of (unat b))) = b" for b :: byte by simp
  then show ?thesis by (simp add: chars_def as_bytes_def comp_def)
qed

lemma length_as_bytes [simp]: "length (as_bytes s) = length s"
  by (simp add: as_bytes_def)

section \<open>Reading from a byte stream\<close>

text \<open>\<open>read_exact\<close> on the bytes still to come: what was read, and the rest.\<close>

definition read_exact :: "nat \<Rightarrow> byte list \<Rightarrow> (byte list \<times> byte list) res" where
  "read_exact n inp = (if n \<le> length inp then Ok (take n inp, drop n inp) else Err ''early eof'')"

lemma read_exact_append [simp]: "length a = n \<Longrightarrow> read_exact n (a @ b) = Ok (a, b)"
  by (simp add: read_exact_def)

lemma read_exact_Ok_iff [result_simps]: "read_exact n inp = Ok (a, b) \<longleftrightarrow> inp = a @ b \<and> length a = n"
  by (auto simp: read_exact_def)

end
