(* ===== verification/Framing.thy ===== *)
theory Framing
  imports Prelude
begin

text \<open>
  Two interfaces several components share.

  \<^item> \<open>framing\<close>: a self-delimiting encoding. The provider promises that reading gives back what was
    written and leaves the bytes after it alone, and that reading consumes something; the client
    gets that a stream of encodings reads back as the same sequence, and that no two sequences have
    the same bytes. DERP frames, the length-prefixed strings of SFTP extended requests and SFTP
    packets are such encodings.
  \<^item> \<open>bounded_table\<close>: a table with a capacity, and steps that never take its size past the
    capacity; the client gets that no sequence of steps does.
\<close>

section \<open>Self-delimiting encodings\<close>

text \<open>Reading \<open>n\<close> items in a row.\<close>

primrec get_many :: "(byte list \<Rightarrow> ('f \<times> byte list) res) \<Rightarrow> nat \<Rightarrow> byte list \<Rightarrow> ('f list \<times> byte list) res" where
  "get_many get 0 inp = Ok ([], inp)"
| "get_many get (Suc n) inp =
     and_then (get inp) (\<lambda>(f, inp).
     and_then (get_many get n inp) (\<lambda>(fs, inp). Ok (f # fs, inp)))"

locale framing =
  fixes put :: "'f \<Rightarrow> byte list"
    and get :: "byte list \<Rightarrow> ('f \<times> byte list) res"
    and fits :: "'f \<Rightarrow> bool"
  assumes get_put: "fits f \<Longrightarrow> get (put f @ rest) = Ok (f, rest)"
    and get_consumes: "get inp = Ok (f, rest) \<Longrightarrow> length rest < length inp"
begin

lemma get_many_put:
  "list_all fits fs \<Longrightarrow> get_many get (length fs) (concat (map put fs) @ rest) = Ok (fs, rest)"
  by (induction fs) (simp_all add: get_put)

lemma put_prefix_free:
  assumes "fits f" "fits g" "put f @ r = put g @ s"
  shows "f = g \<and> r = s"
proof -
  have "get (put f @ r) = get (put g @ s)" using assms(3) by simp
  then show ?thesis using assms(1,2) by (simp add: get_put)
qed

lemma put_not_Nil: "fits f \<Longrightarrow> put f \<noteq> []"
  using get_put [of f "[]"] get_consumes [of "put f" f "[]"] by auto

lemma put_stream_inject:
  assumes "list_all fits fs" "list_all fits gs" "concat (map put fs) = concat (map put gs)"
  shows "fs = gs"
  using assms
proof (induction fs arbitrary: gs)
  case Nil
  then show ?case by (cases gs) (auto simp: put_not_Nil)
next
  case (Cons f fs)
  show ?case
  proof (cases gs)
    case Nil
    with Cons.prems show ?thesis by (auto simp: put_not_Nil)
  next
    case (Cons g gs')
    with Cons.prems have "f = g \<and> concat (map put fs) = concat (map put gs')"
      by (intro put_prefix_free) auto
    with Cons.IH Cons.prems Cons show ?thesis by auto
  qed
qed

end

section \<open>Bounded tables\<close>

text \<open>
  \<open>step\<close> is any operation on the state, \<open>occupancy\<close> the number of entries of the table it owns. A
  step may add an entry only below the capacity.
\<close>

locale bounded_table =
  fixes step :: "'op \<Rightarrow> 's \<Rightarrow> 's"
    and occupancy :: "'s \<Rightarrow> nat"
    and capacity :: nat
  assumes step_bounded: "occupancy s \<le> capacity \<Longrightarrow> occupancy (step op s) \<le> capacity"
begin

lemma steps_bounded: "occupancy s \<le> capacity \<Longrightarrow> occupancy (fold step ops s) \<le> capacity"
  by (induction ops arbitrary: s) (auto intro: step_bounded)

end

end
