(* ===== verification/Wire.thy ===== *)
theory Wire
  imports Framing
begin

text \<open>
  The wire vocabulary of \<open>src/protocol.rs\<close>: node keys and their text form, the internal IPv6
  addresses and NAT64, the meow registration packets, NaCl boxes, disco packets and the
  call-me-maybe payload; and the functions of \<open>src/runtime.rs\<close> on the same data (\<open>to_ipv6\<close>,
  \<open>from_ipv6\<close>, \<open>ip16\<close> and the runtime's own disco sealing).

  The \<open>hex\<close>, \<open>x25519-dalek\<close>, \<open>hmac\<close>/\<open>sha2\<close> and \<open>crypto_box\<close> crates are arguments: the records
  \<open>hex_crate\<close> and \<open>crypto\<close> name the functions the program calls, and the predicates \<open>hex_law\<close>,
  \<open>box_opens\<close> and \<open>box_overhead\<close> state the documented behaviour the round trips rely on.
\<close>

section \<open>Keys\<close>

type_synonym key = "32 bytes"
type_synonym nonce = "24 bytes"

record hex_crate =
  hex_encode :: "byte list \<Rightarrow> string"
  hex_decode :: "string \<Rightarrow> byte list option"

record crypto =
  x25519_base :: "key \<Rightarrow> key"
  hmac_sha256 :: "byte list \<Rightarrow> string \<Rightarrow> key"
  salsa_encrypt :: "key \<Rightarrow> key \<Rightarrow> nonce \<Rightarrow> byte list \<Rightarrow> byte list option"
  salsa_decrypt :: "key \<Rightarrow> key \<Rightarrow> nonce \<Rightarrow> byte list \<Rightarrow> byte list option"

text \<open>Decoding undoes encoding (\<open>hex\<close>).\<close>

definition hex_law :: "hex_crate \<Rightarrow> bool" where
  "hex_law H \<longleftrightarrow> (\<forall>bs. hex_decode H (hex_encode H bs) = Some bs)"

text \<open>
  A box sealed with one secret key for another public key opens with the other secret key and
  the sender's public key (both ends derive the same shared secret), and is 16 bytes longer than
  the message (the Poly1305 tag).
\<close>

definition box_opens :: "crypto \<Rightarrow> bool" where
  "box_opens C \<longleftrightarrow> (\<forall>a b n m c.
     salsa_encrypt C (x25519_base C b) a n m = Some c \<longrightarrow>
     salsa_decrypt C (x25519_base C a) b n c = Some m)"

definition box_overhead :: "crypto \<Rightarrow> bool" where
  "box_overhead C \<longleftrightarrow> (\<forall>p s n m c. salsa_encrypt C p s n m = Some c \<longrightarrow> length c = length m + 16)"

definition clamp :: "key \<Rightarrow> key" where
  "clamp raw =
     (let bs = octets raw;
          bs = bs[0 := bs ! 0 AND 248];
          bs = bs[31 := bs ! 31 AND 127];
          bs = bs[31 := bs ! 31 OR 64]
      in arr bs)"

text \<open>\<open>PrivateKey::new\<close>: the argument is what \<open>OsRng.fill_bytes\<close> wrote.\<close>

definition private_key_new :: "key \<Rightarrow> key" where
  "private_key_new raw = clamp raw"

definition public :: "crypto \<Rightarrow> key \<Rightarrow> key" where
  "public C k = x25519_base C k"

definition disco_private :: "crypto \<Rightarrow> key \<Rightarrow> key" where
  "disco_private C k =
     clamp (hmac_sha256 C (octets k) ''github.com/tailscale/tailcat disco key v1'')"

definition disco_public :: "crypto \<Rightarrow> key \<Rightarrow> key" where
  "disco_public C k = x25519_base C (disco_private C k)"

definition parse_hex_key :: "hex_crate \<Rightarrow> string \<Rightarrow> string \<Rightarrow> key res" where
  "parse_hex_key H s prefix =
     and_then (ok_or ''key must start with prefix'' (strip_prefix prefix s)) (\<lambda>hex.
     context_of ''key must contain exactly 32 hex-encoded bytes''
       (ok_or ''hex'' (Option.bind (hex_decode H hex) try_into)))"

definition private_key_to_string :: "hex_crate \<Rightarrow> key \<Rightarrow> string" where
  "private_key_to_string H k = ''privkey:'' @ hex_encode H (octets k)"

definition private_key_from_str :: "hex_crate \<Rightarrow> string \<Rightarrow> key res" where
  "private_key_from_str H s = parse_hex_key H s ''privkey:''"

text \<open>The \<open>serialize_with\<close> and \<open>deserialize_with\<close> functions of the JSON form of \<open>ConnInfo\<close>.\<close>

definition serialize_node_key :: "hex_crate \<Rightarrow> key \<Rightarrow> string" where
  "serialize_node_key H k = ''nodekey:'' @ hex_encode H (octets k)"

definition deserialize_node_key :: "hex_crate \<Rightarrow> string \<Rightarrow> key res" where
  "deserialize_node_key H s = parse_hex_key H s ''nodekey:''"

definition serialize_disco_key :: "hex_crate \<Rightarrow> key option \<Rightarrow> string option" where
  "serialize_disco_key H k = map_option (\<lambda>k. ''discokey:'' @ hex_encode H (octets k)) k"

definition deserialize_disco_key :: "hex_crate \<Rightarrow> string option \<Rightarrow> key option res" where
  "deserialize_disco_key H v =
     (case v of None \<Rightarrow> Ok None
      | Some s \<Rightarrow> and_then (parse_hex_key H s ''discokey:'') (\<lambda>k. Ok (Some k)))"

definition serialize_psk :: "hex_crate \<Rightarrow> key option \<Rightarrow> string option" where
  "serialize_psk H k = map_option (\<lambda>k. ''psk:'' @ hex_encode H (octets k)) k"

text \<open>\<open>Option::filter(|k| *k != [0; 32])\<close>, which the address code applies to optional keys.\<close>

definition nonzero :: "('n::len) bytes option \<Rightarrow> 'n bytes option" where
  "nonzero k = (case k of None \<Rightarrow> None | Some x \<Rightarrow> if x = zeros then None else Some x)"

definition deserialize_psk :: "hex_crate \<Rightarrow> string option \<Rightarrow> key option res" where
  "deserialize_psk H v =
     (case v of None \<Rightarrow> Ok None
      | Some s \<Rightarrow> and_then (parse_hex_key H s ''psk:'') (\<lambda>k. Ok (nonzero (Some k))))"

lemma nonzero_simps [simp]:
  "nonzero None = None"
  "nonzero (Some k) = (if k = zeros then None else Some k)"
  "nonzero (nonzero v) = nonzero v"
  by (auto simp: nonzero_def split: option.splits)

lemma octets_clamp:
  "octets (clamp raw) =
     (octets raw)[0 := octets raw ! 0 AND 248, 31 := (octets raw ! 31 AND 127) OR 64]"
  by (simp add: clamp_def Let_def)

lemma clamp_bits: "(b :: byte) AND 127 OR 64 \<noteq> 0"
proof
  assume "b AND 127 OR 64 = 0"
  then have "\<not> bit (b AND 127 OR 64) 6" by simp
  then show False by (simp add: bit_simps)
qed

lemma clamp_not_zeros [simp]: "clamp raw \<noteq> zeros"
proof
  assume "clamp raw = zeros"
  then have "octets (clamp raw) ! 31 = 0" by simp
  then show False using clamp_bits by (simp add: octets_clamp)
qed

lemma clamp_clamp: "clamp (clamp raw) = clamp raw"
proof -
  have 1: "(b AND 248) AND 248 = (b AND 248 :: byte)" for b
    by (rule bit_word_eqI) (auto simp: bit_simps)
  have 2: "((b AND 127 OR 64) AND 127) OR 64 = (b AND 127 OR 64 :: byte)" for b
    by (rule bit_word_eqI) (auto simp: bit_simps)
  show ?thesis
    by (simp add: octets_clamp 1 2 list_update_swap flip: octets_eq_iff)
qed

lemma disco_private_not_zeros [simp]: "disco_private C k \<noteq> zeros"
  by (simp add: disco_private_def)

lemma parse_hex_key_encode [simp]:
  "hex_law H \<Longrightarrow> parse_hex_key H (p @ hex_encode H (octets k)) p = Ok k"
  by (simp add: parse_hex_key_def hex_law_def)

section \<open>Addresses\<close>

text \<open>\<open>std::net::IpAddr\<close> and \<open>SocketAddr\<close>: the octets of an IPv4 or IPv6 address, and a port.\<close>

type_synonym ipv4 = "4 bytes"
type_synonym ipv6 = "16 bytes"

datatype ip_addr = V4 ipv4 | V6 ipv6

type_synonym sock_addr = "ip_addr \<times> u16"

text \<open>\<open>Ipv4Addr::to_ipv6_mapped\<close> and \<open>Ipv6Addr::to_ipv4_mapped\<close> of the standard library.\<close>

definition mapped_prefix :: "byte list" where
  "mapped_prefix = [0, 0, 0, 0, 0, 0, 0, 0, 0, 0, 0xff, 0xff]"

definition to_ipv6_mapped :: "ipv4 \<Rightarrow> ipv6" where
  "to_ipv6_mapped a = arr (mapped_prefix @ octets a)"

definition to_ipv4_mapped :: "ipv6 \<Rightarrow> ipv4 option" where
  "to_ipv4_mapped a =
     (if take 12 (octets a) = mapped_prefix then Some (arr (drop 12 (octets a))) else None)"

definition nat64_prefix :: "byte list" where
  "nat64_prefix = [0, 0x64, 0xff, 0x9b, 0, 0, 0, 0, 0, 0, 0, 0]"

definition tc_prefix :: "byte list" where
  "tc_prefix = [0xfd, 0x7a, 0x11, 0x5c, 0xa1, 0xe0]"

text \<open>\<open>raw[6..].copy_from_slice(&key[..10])\<close> over the constant with that prefix.\<close>

definition tc_addr_for_key :: "key \<Rightarrow> ipv6" where
  "tc_addr_for_key k = arr (tc_prefix @ take 10 (octets k))"

fun nat64_addr :: "ip_addr \<Rightarrow> ipv6" where
  "nat64_addr (V6 a) = a"
| "nat64_addr (V4 a) = arr (nat64_prefix @ octets a)"

definition unmap_nat64 :: "ipv6 \<Rightarrow> ip_addr" where
  "unmap_nat64 a =
     (if take 12 (octets a) = nat64_prefix then V4 (arr (drop 12 (octets a))) else V6 a)"

text \<open>\<open>to_ipv6\<close>, \<open>from_ipv6\<close> and \<open>ip16\<close> of the runtime.\<close>

definition to_ipv6 :: "sock_addr \<Rightarrow> sock_addr" where
  "to_ipv6 addr =
     (case fst addr of
        V6 _ \<Rightarrow> addr
      | V4 ip \<Rightarrow> (V6 (arr (nat64_prefix @ octets ip)), snd addr))"

definition from_ipv6 :: "sock_addr \<Rightarrow> sock_addr" where
  "from_ipv6 addr =
     (case fst addr of
        V6 ip \<Rightarrow>
          if take 12 (octets ip) = nat64_prefix then (V4 (arr (drop 12 (octets ip))), snd addr)
          else addr
      | V4 _ \<Rightarrow> addr)"

fun ip16 :: "ip_addr \<Rightarrow> ipv6" where
  "ip16 (V4 a) = to_ipv6_mapped a"
| "ip16 (V6 a) = a"

text \<open>\<open>to_ipv4_mapped().map(IpAddr::V4).unwrap_or(IpAddr::V6(a))\<close>, as several parsers write it.\<close>

definition demap :: "ipv6 \<Rightarrow> ip_addr" where
  "demap a = (case to_ipv4_mapped a of Some v4 \<Rightarrow> V4 v4 | None \<Rightarrow> V6 a)"

text \<open>\<open>unmap\<close> of \<open>src/cli/util.rs\<close>: an IPv4-mapped address as the IPv4 address it holds.\<close>

fun unmap :: "ip_addr \<Rightarrow> ip_addr" where
  "unmap (V6 v6) = (case to_ipv4_mapped v6 of Some v4 \<Rightarrow> V4 v4 | None \<Rightarrow> V6 v6)"
| "unmap (V4 a) = V4 a"

lemma length_prefixes [simp]:
  "length mapped_prefix = 12" "length nat64_prefix = 12" "length tc_prefix = 6"
  by (simp_all add: mapped_prefix_def nat64_prefix_def tc_prefix_def)

lemma take_drop_octets_eq:
  "take 12 (octets a) = p \<Longrightarrow> p @ drop 12 (octets (a :: ipv6)) = octets a"
  by (metis append_take_drop_id)

lemma octets_to_ipv6_mapped [simp]: "octets (to_ipv6_mapped a) = mapped_prefix @ octets a"
  by (simp add: to_ipv6_mapped_def)

lemma to_ipv4_mapped_to_ipv6_mapped [simp]: "to_ipv4_mapped (to_ipv6_mapped a) = Some a"
  by (simp add: to_ipv4_mapped_def)

lemma to_ipv4_mapped_Some_iff: "to_ipv4_mapped a = Some v \<longleftrightarrow> a = to_ipv6_mapped v"
  by (auto simp: to_ipv4_mapped_def take_drop_octets_eq to_ipv6_mapped_def)

lemma octets_nat64_V4 [simp]: "octets (nat64_addr (V4 a)) = nat64_prefix @ octets a"
  by simp

lemma octets_tc_addr [simp]: "octets (tc_addr_for_key k) = tc_prefix @ take 10 (octets k)"
  by (simp add: tc_addr_for_key_def)

lemma demap_ip16: "demap (ip16 a) = unmap a"
  by (cases a) (auto simp: demap_def split: option.splits)

lemma ip16_demap [simp]: "ip16 (demap a) = a"
  by (auto simp: demap_def to_ipv4_mapped_Some_iff split: option.splits)

lemma unmap_idem [simp]: "unmap (unmap a) = unmap a"
  by (cases a) (auto split: option.splits)

lemma to_ipv6_eq: "to_ipv6 addr = (V6 (nat64_addr (fst addr)), snd addr)"
  by (cases addr; cases "fst addr") (auto simp: to_ipv6_def)

lemma from_ipv6_eq:
  "from_ipv6 (V6 a, p) = (unmap_nat64 a, p)" "from_ipv6 (V4 b, p) = (V4 b, p)"
  by (auto simp: from_ipv6_def unmap_nat64_def)

lemma unmap_nat64_V4 [simp]: "unmap_nat64 (nat64_addr (V4 a)) = V4 a"
  by (simp add: unmap_nat64_def del: nat64_addr.simps)

lemma nat64_unmap_nat64 [simp]: "nat64_addr (unmap_nat64 a) = a"
  by (auto simp: unmap_nat64_def take_drop_octets_eq)

section \<open>Meow packets\<close>

text \<open>\<open>b"meow"\<close>, \<open>b"meow\x01"\<close>, \<open>b"meow\x02"\<close> and \<open>DISCO_MAGIC\<close>.\<close>

definition meow_magic :: "byte list" where
  "meow_magic = [109, 101, 111, 119]"

definition disco_magic :: "byte list" where
  "disco_magic = [84, 83, 0xf0, 0x9f, 0x92, 0xac]"

definition encode_meow_ping :: "key \<Rightarrow> key \<Rightarrow> byte list" where
  "encode_meow_ping node disco = meow_magic @ [1] @ octets node @ octets disco"

definition encode_meowed :: "byte list" where
  "encode_meowed = meow_magic @ [2]"

definition is_meow_packet :: "byte list \<Rightarrow> bool" where
  "is_meow_packet b = starts_with b meow_magic"

definition is_meowed_packet :: "byte list \<Rightarrow> bool" where
  "is_meowed_packet b = starts_with b (meow_magic @ [2])"

text \<open>\<open>b[i..j]\<close>, for \<open>i \<le> j\<close> within the slice.\<close>

definition slice :: "nat \<Rightarrow> nat \<Rightarrow> 'a list \<Rightarrow> 'a list" where
  "slice i j xs = take (j - i) (drop i xs)"

lemma length_slice [slice_simps]: "j \<le> length xs \<Longrightarrow> length (slice i j xs) = j - i"
  by (simp add: slice_def)

lemma slice_append_mid [slice_simps]:
  "length p = i \<Longrightarrow> i + length m = j \<Longrightarrow> slice i j (p @ m @ r) = m"
  by (auto simp: slice_def)

definition parse_meow_ping :: "byte list \<Rightarrow> (key \<times> key) option" where
  "parse_meow_ping b =
     (if length b < 69 \<or> \<not> starts_with b (meow_magic @ [1]) then None
      else Option.bind (try_into (slice 37 69 b)) (\<lambda>disco.
        if disco = zeros then None
        else Option.bind (try_into (slice 5 37 b)) (\<lambda>node. Some (node, disco))))"

lemma length_meow_magic [simp]: "length meow_magic = 4" "length disco_magic = 6"
  by (simp_all add: meow_magic_def disco_magic_def)

lemma length_encode_meow_ping [simp]: "length (encode_meow_ping node disco) = 69"
  by (simp add: encode_meow_ping_def)

lemma drop_slice: "i \<le> j \<Longrightarrow> drop i b = slice i j b @ drop j b"
  using append_take_drop_id [of "j - i" "drop i b"] by (simp add: slice_def)

lemma split_at_slices: "i \<le> j \<Longrightarrow> b = take i b @ slice i j b @ drop j b"
  by (simp flip: drop_slice)

lemma parse_meow_ping_iff:
  "parse_meow_ping b = Some (node, disco) \<longleftrightarrow>
     disco \<noteq> zeros \<and> (\<exists>rest. b = encode_meow_ping node disco @ rest)"
proof
  assume p: "parse_meow_ping b = Some (node, disco)"
  then have len: "69 \<le> length b" and sw: "starts_with b (meow_magic @ [1])"
    by (auto simp: parse_meow_ping_def split: if_splits)
  from p have d: "octets disco = slice 37 69 b" "disco \<noteq> zeros" and n: "octets node = slice 5 37 b"
    by (auto simp: parse_meow_ping_def bind_eq_Some_conv split: if_splits)
  have "b = take 5 b @ slice 5 37 b @ drop 37 b" by (rule split_at_slices) simp
  moreover have "drop 37 b = slice 37 69 b @ drop 69 b" by (rule drop_slice) simp
  moreover have "take 5 b = meow_magic @ [1]" using sw by (simp add: starts_with_def)
  ultimately show "disco \<noteq> zeros \<and> (\<exists>rest. b = encode_meow_ping node disco @ rest)"
    using d n by (metis append_assoc encode_meow_ping_def)
next
  assume "disco \<noteq> zeros \<and> (\<exists>rest. b = encode_meow_ping node disco @ rest)"
  then obtain rest where b: "b = encode_meow_ping node disco @ rest" and nz: "disco \<noteq> zeros" by auto
  have "slice 37 69 b = octets disco"
    unfolding b encode_meow_ping_def
    using slice_append_mid [of "meow_magic @ [1] @ octets node" 37 "octets disco" 69 rest] by simp
  moreover have "slice 5 37 b = octets node"
    unfolding b encode_meow_ping_def
    using slice_append_mid [of "meow_magic @ [1]" 5 "octets node" 37 "octets disco @ rest"] by simp
  moreover have "starts_with b (meow_magic @ [1])"
    by (auto simp: b encode_meow_ping_def starts_with_iff)
  ultimately show "parse_meow_ping b = Some (node, disco)"
    using nz by (simp add: parse_meow_ping_def b)
qed

section \<open>NaCl boxes and disco packets\<close>

text \<open>\<open>seal_box\<close>: the nonce is the one \<open>SalsaBox::generate_nonce\<close> drew.\<close>

definition seal_box :: "crypto \<Rightarrow> nonce \<Rightarrow> key \<Rightarrow> key \<Rightarrow> byte list \<Rightarrow> byte list res" where
  "seal_box C nonce private pub payload =
     (if private = zeros \<or> pub = zeros then Err ''cannot seal with zero key''
      else and_then (ok_or ''NaCl box encryption failed'' (salsa_encrypt C pub private nonce payload))
        (\<lambda>c. Ok (octets nonce @ c)))"

definition open_box :: "crypto \<Rightarrow> key \<Rightarrow> key \<Rightarrow> byte list \<Rightarrow> byte list res" where
  "open_box C private pub payload =
     (if private = zeros \<or> pub = zeros \<or> length payload < 40 then Err ''invalid NaCl box''
      else ok_or ''NaCl box authentication failed''
        (salsa_decrypt C pub private (arr (take 24 payload)) (drop 24 payload)))"

definition seal_disco :: "crypto \<Rightarrow> nonce \<Rightarrow> key \<Rightarrow> key \<Rightarrow> byte list \<Rightarrow> byte list res" where
  "seal_disco C nonce key peer_disco payload =
     and_then (seal_box C nonce (disco_private C key) peer_disco payload) (\<lambda>sealed.
     Ok (disco_magic @ octets (disco_public C key) @ sealed))"

definition open_disco :: "crypto \<Rightarrow> key \<Rightarrow> byte list \<Rightarrow> (key \<times> byte list) res" where
  "open_disco C key packet =
     (if length packet < 78 \<or> \<not> starts_with packet disco_magic then Err ''invalid disco wrapper''
      else and_then (ok_or ''slice'' (try_into (slice 6 38 packet))) (\<lambda>pub.
           and_then (open_box C (disco_private C key) pub (drop 38 packet)) (\<lambda>m.
           Ok (pub, m))))"

text \<open>
  The runtime has its own pair (\<open>seal_disco\<close> and \<open>open_disco\<close> of \<open>src/runtime.rs\<close>): the same
  bytes, without the zero-key checks, opened with the disco key already known for the peer.
\<close>

definition rt_seal_disco :: "crypto \<Rightarrow> nonce \<Rightarrow> key \<Rightarrow> key \<Rightarrow> byte list \<Rightarrow> byte list res" where
  "rt_seal_disco C nonce key peer data =
     and_then (ok_or ''disco encryption failed''
       (salsa_encrypt C peer (disco_private C key) nonce data)) (\<lambda>encrypted.
     Ok (disco_magic @ octets (disco_public C key) @ octets nonce @ encrypted))"

definition rt_open_disco :: "crypto \<Rightarrow> key \<Rightarrow> key \<Rightarrow> byte list \<Rightarrow> byte list res" where
  "rt_open_disco C key peer data =
     (if length data < 78 then Err ''short disco packet''
      else ok_or ''invalid disco authentication''
        (salsa_decrypt C peer (disco_private C key) (arr (slice 38 62 data)) (drop 62 data)))"

lemma open_seal_box:
  assumes "box_opens C" "box_overhead C" "x25519_base C a \<noteq> zeros" "b \<noteq> zeros"
    and "seal_box C n a (x25519_base C b) m = Ok p"
  shows "open_box C b (x25519_base C a) p = Ok m"
proof -
  from assms(5) obtain c where c: "salsa_encrypt C (x25519_base C b) a n m = Some c"
    and p: "p = octets n @ c" by (auto simp: seal_box_def result_simps split: if_splits)
  from c have "salsa_decrypt C (x25519_base C a) b n c = Some m" "length c = length m + 16"
    using assms(1,2) by (auto simp: box_opens_def box_overhead_def)
  with assms(3,4) show ?thesis by (simp add: open_box_def p)
qed

lemma seal_box_length:
  "box_overhead C \<Longrightarrow> seal_box C n a b m = Ok p \<Longrightarrow> length p = length m + 40"
  by (auto simp: seal_box_def box_overhead_def result_simps split: if_splits)

text \<open>What a packet that opens looks like: the magic, the sender's key, a box for this key.\<close>

lemma open_disco_Ok_iff:
  "open_disco C key packet = Ok (pub, m) \<longleftrightarrow>
     (\<exists>sealed. packet = disco_magic @ octets pub @ sealed \<and>
        open_box C (disco_private C key) pub sealed = Ok m)"
proof
  assume o: "open_disco C key packet = Ok (pub, m)"
  then have pub: "octets pub = slice 6 38 packet" and op: "open_box C (disco_private C key) pub (drop 38 packet) = Ok m"
    and sw: "take 6 packet = disco_magic"
    by (auto simp: open_disco_def result_simps starts_with_def split: if_splits)
  have "packet = take 6 packet @ slice 6 38 packet @ drop 38 packet" by (rule split_at_slices) simp
  then have "packet = disco_magic @ octets pub @ drop 38 packet" using pub sw by simp
  with op show "\<exists>sealed. packet = disco_magic @ octets pub @ sealed \<and>
      open_box C (disco_private C key) pub sealed = Ok m" by blast
next
  assume "\<exists>sealed. packet = disco_magic @ octets pub @ sealed \<and>
      open_box C (disco_private C key) pub sealed = Ok m"
  then obtain sealed where p: "packet = disco_magic @ octets pub @ sealed"
    and op: "open_box C (disco_private C key) pub sealed = Ok m" by auto
  from op have "40 \<le> length sealed" by (auto simp: open_box_def split: if_splits)
  moreover have "slice 6 38 packet = octets pub"
    unfolding p by (rule slice_append_mid) auto
  ultimately show "open_disco C key packet = Ok (pub, m)"
    using op by (simp add: open_disco_def p)
qed

lemma rt_open_seal:
  assumes "box_opens C" "box_overhead C"
    and "rt_seal_disco C n a (disco_public C b) m = Ok p"
  shows "rt_open_disco C b (disco_public C a) p = Ok m \<and> take 6 p = disco_magic \<and>
    slice 6 38 p = octets (disco_public C a) \<and> length p = length m + 78"
proof -
  from assms(3) obtain c where c: "salsa_encrypt C (disco_public C b) (disco_private C a) n m = Some c"
    and p: "p = disco_magic @ octets (disco_public C a) @ octets n @ c"
    by (auto simp: rt_seal_disco_def result_simps)
  from c have d: "salsa_decrypt C (disco_public C a) (disco_private C b) n c = Some m"
    and l: "length c = length m + 16"
    using assms(1,2) by (auto simp: box_opens_def box_overhead_def disco_public_def)
  have "slice 38 62 p = octets n"
    unfolding p using slice_append_mid [of "disco_magic @ octets (disco_public C a)" 38 "octets n" 62 c]
    by simp
  moreover have "slice 6 38 p = octets (disco_public C a)"
    unfolding p by (rule slice_append_mid) auto
  ultimately show ?thesis using d l by (simp add: rt_open_disco_def p)
qed

section \<open>Call-me-maybe\<close>

definition encode_endpoint :: "sock_addr \<Rightarrow> byte list" where
  "encode_endpoint ep = octets (ip16 (fst ep)) @ to_be_bytes 2 (snd ep)"

definition encode_call_me_maybe :: "sock_addr list \<Rightarrow> byte list" where
  "encode_call_me_maybe endpoints = [3, 0] @ concat (map encode_endpoint endpoints)"

text \<open>One 18-byte chunk: 16 bytes of address and the port.\<close>

definition parse_endpoint :: "byte list \<Rightarrow> sock_addr" where
  "parse_endpoint p = (demap (arr (take 16 p)), from_be_bytes [p ! 16, p ! 17])"

definition parse_call_me_maybe :: "byte list \<Rightarrow> sock_addr list" where
  "parse_call_me_maybe payload =
     (if length payload < 2 \<or> take 2 payload \<noteq> [3, 0] \<or> (length payload - 2) mod 18 \<noteq> 0 then []
      else map parse_endpoint (chunks_exact 18 (drop 2 payload)))"

definition canon_endpoint :: "sock_addr \<Rightarrow> sock_addr" where
  "canon_endpoint ep = (unmap (fst ep), snd ep)"

lemma length_encode_endpoint [simp]: "length (encode_endpoint ep) = 18"
  by (simp add: encode_endpoint_def)

lemma list_of_length_2: "length xs = 2 \<Longrightarrow> [xs ! 0, xs ! 1] = xs"
  by (cases xs; cases "tl xs") auto

lemma parse_encode_endpoint [simp]: "parse_endpoint (encode_endpoint ep) = canon_endpoint ep"
proof -
  have "[to_be_bytes 2 (snd ep) ! 0, to_be_bytes 2 (snd ep) ! 1] = to_be_bytes 2 (snd ep)"
    by (rule list_of_length_2) simp
  then show ?thesis
    by (simp add: parse_endpoint_def encode_endpoint_def canon_endpoint_def demap_ip16 nth_append)
qed

lemma encode_parse_endpoint: "length p = 18 \<Longrightarrow> encode_endpoint (parse_endpoint p) = p"
proof -
  assume l: "length p = 18"
  then have "[drop 16 p ! 0, drop 16 p ! 1] = drop 16 p" by (intro list_of_length_2) simp
  then have d: "[p ! 16, p ! 17] = drop 16 p" using l by simp
  have "to_be_bytes 2 (from_be_bytes [p ! 16, p ! 17] :: u16) = [p ! 16, p ! 17]"
    using to_from_be_bytes [of "[p ! 16, p ! 17]", where 'a = 16] by (simp add: to_be_bytes_2)
  then show ?thesis using l by (simp add: encode_endpoint_def parse_endpoint_def d)
qed

lemma chunks_of_endpoints [simp]:
  "chunks_exact 18 (concat (map encode_endpoint eps)) = map encode_endpoint eps"
  by (induction eps) auto

lemma length_concat_endpoints [simp]: "length (concat (map encode_endpoint eps)) = 18 * length eps"
  by (induction eps) auto

lemma concat_chunks_exact: "0 < n \<Longrightarrow> n dvd length xs \<Longrightarrow> concat (chunks_exact n xs) = xs"
proof (induction n xs rule: chunks_exact.induct)
  case (1 n xs)
  show ?case
  proof (cases "length xs < n")
    case True
    with "1.prems" show ?thesis by (subst chunks_exact.simps) (auto dest: dvd_imp_le)
  next
    case False
    with "1.prems" have "n dvd length (drop n xs)" by (simp add: dvd_diff_nat)
    with False "1" show ?thesis by (subst chunks_exact.simps) auto
  qed
qed

section \<open>A reference instance of the crates\<close>

text \<open>
  Concrete functions that satisfy the laws, on which the witnesses run. \<open>ref_hex\<close> is base 16 with
  lower-case digits. \<open>ref_crypto\<close> is no cipher: every public key is the same one, and a box is the
  message followed by sixteen zero bytes; it only shows that the laws can hold together.
\<close>

definition hex_digit :: "nat \<Rightarrow> char" where
  "hex_digit n = (if n < 10 then char_of (48 + n) else char_of (87 + n))"

definition hex_value :: "char \<Rightarrow> nat option" where
  "hex_value c =
     (let n = of_char c :: nat in
      if 48 \<le> n \<and> n \<le> 57 then Some (n - 48)
      else if 97 \<le> n \<and> n \<le> 102 then Some (n - 87)
      else if 65 \<le> n \<and> n \<le> 70 then Some (n - 55)
      else None)"

fun ref_hex_decode :: "string \<Rightarrow> byte list option" where
  "ref_hex_decode [] = Some []"
| "ref_hex_decode [_] = None"
| "ref_hex_decode (a # b # s) =
     (case (hex_value a, hex_value b, ref_hex_decode s) of
        (Some x, Some y, Some r) \<Rightarrow> Some (of_nat (16 * x + y) # r)
      | _ \<Rightarrow> None)"

definition ref_hex_encode :: "byte list \<Rightarrow> string" where
  "ref_hex_encode bs = concat (map (\<lambda>b. [hex_digit (unat b div 16), hex_digit (unat b mod 16)]) bs)"

definition ref_hex :: hex_crate where
  "ref_hex = \<lparr>hex_encode = ref_hex_encode, hex_decode = ref_hex_decode\<rparr>"

definition ref_key :: key where
  "ref_key = arr [7]"

definition ref_crypto :: crypto where
  "ref_crypto =
     \<lparr>x25519_base = (\<lambda>_. ref_key),
      hmac_sha256 = (\<lambda>_ _. zeros),
      salsa_encrypt = (\<lambda>_ _ _ m. Some (m @ replicate 16 0)),
      salsa_decrypt = (\<lambda>_ _ _ c. Some (take (length c - 16) c))\<rparr>"

lemma hex_value_digit [simp]: "n < 16 \<Longrightarrow> hex_value (hex_digit n) = Some n"
  by (auto simp: hex_value_def hex_digit_def Let_def)

lemma ref_hex_law [simp]: "hex_law ref_hex"
proof -
  have "ref_hex_decode (ref_hex_encode bs) = Some bs" for bs
  proof (induction bs)
    case Nil
    then show ?case by (simp add: ref_hex_encode_def)
  next
    case (Cons b bs)
    have "unat b < 256" using unsigned_less [of b] by simp
    then have "unat b div 16 < 16" by simp
    with Cons show ?case by (simp add: ref_hex_encode_def)
  qed
  then show ?thesis by (simp add: hex_law_def ref_hex_def)
qed

lemma ref_crypto_laws [simp]: "box_opens ref_crypto" "box_overhead ref_crypto"
  by (auto simp: box_opens_def box_overhead_def ref_crypto_def)

lemma ref_key_not_zeros [simp]: "ref_key \<noteq> zeros"
proof
  assume "ref_key = zeros"
  then have "octets ref_key ! 0 = 0" by simp
  then show False by (simp add: ref_key_def octets_arr_eq)
qed

section \<open>Properties\<close>

text \<open>
  A meow ping parses to a node key and a disco key exactly when it starts with the packet
  \<open>encode_meow_ping\<close> builds for those keys and the disco key is not zero: every shorter packet and
  every other type byte is refused, and trailing bytes are ignored.
\<close>

theorem meow_ping_parse_exact:
  "parse_meow_ping b = Some (node, disco) \<longleftrightarrow>
     disco \<noteq> zeros \<and> (\<exists>rest. b = encode_meow_ping node disco @ rest)"
  by (rule parse_meow_ping_iff)

text \<open>
  A disco packet sealed by \<open>a\<close> for the disco key of \<open>b\<close> opens at \<open>b\<close>, giving \<open>a\<close>'s disco public
  key and the payload, and is 78 bytes longer than the payload; the runtime's own opener, given
  the disco key it knows for \<open>a\<close>, recovers the same payload from the same packet.
\<close>

theorem disco_seal_open_roundtrip:
  assumes "box_opens C" "box_overhead C" "disco_public C a \<noteq> zeros"
    and "seal_disco C n a (disco_public C b) payload = Ok packet"
  shows "open_disco C b packet = Ok (disco_public C a, payload) \<and>
    rt_open_disco C b (disco_public C a) packet = Ok payload \<and>
    length packet = length payload + 78"
proof -
  from assms(4) obtain sealed
    where sealed: "seal_box C n (disco_private C a) (disco_public C b) payload = Ok sealed"
      and packet: "packet = disco_magic @ octets (disco_public C a) @ sealed"
    by (auto simp: seal_disco_def result_simps)
  have "open_box C (disco_private C b) (disco_public C a) sealed = Ok payload"
    using open_seal_box [OF assms(1,2) _ _ sealed [unfolded disco_public_def]] assms(3)
    by (simp add: disco_public_def)
  then have "open_disco C b packet = Ok (disco_public C a, payload)"
    unfolding open_disco_Ok_iff using packet by blast
  moreover have "rt_seal_disco C n a (disco_public C b) payload = Ok packet"
    using sealed by (auto simp: rt_seal_disco_def seal_box_def packet result_simps split: if_splits)
  ultimately show ?thesis using rt_open_seal [OF assms(1,2)] by blast
qed

theorem disco_seal_open_roundtrip_witness:
  "\<exists>packet. open_disco ref_crypto ref_key packet = Ok (disco_public ref_crypto ref_key, [1, 2, 3])"
proof -
  have pub: "disco_public ref_crypto ref_key = ref_key"
    by (simp add: disco_public_def ref_crypto_def)
  have "seal_disco ref_crypto zeros ref_key (disco_public ref_crypto ref_key) [1, 2, 3] =
      Ok (disco_magic @ octets ref_key @ replicate 24 0 @ [1, 2, 3] @ replicate 16 0)"
    unfolding pub by (simp add: seal_disco_def seal_box_def pub) (simp add: ref_crypto_def)
  from disco_seal_open_roundtrip [OF ref_crypto_laws _ this] show ?thesis
    by (auto simp: pub)
qed

text \<open>
  NAT64 is a faithful encoding: an IPv4 address survives the tunnel and every IPv6 address
  is the image of the address it is read back as; \<open>from_ipv6\<close> undoes \<open>to_ipv6\<close> on every IPv4
  socket address and keeps the port.
\<close>

theorem nat64_roundtrip:
  "unmap_nat64 (nat64_addr (V4 a)) = V4 a \<and>
   nat64_addr (unmap_nat64 x) = x \<and>
   from_ipv6 (to_ipv6 (V4 a, p)) = (V4 a, p) \<and>
   to_ipv6 (from_ipv6 (V6 x, p)) = (V6 x, p)"
  unfolding to_ipv6_eq from_ipv6_eq fst_conv snd_conv unmap_nat64_V4 nat64_unmap_nat64 by simp

text \<open>
  Call-me-maybe payloads: parsing the encoding of a list of endpoints gives the same list,
  with IPv4-mapped addresses written as IPv4, and any payload that is accepted as non-empty is
  the encoding of the endpoints it parses to.
\<close>

theorem call_me_maybe_roundtrip:
  "parse_call_me_maybe (encode_call_me_maybe eps) = map canon_endpoint eps \<and>
   (parse_call_me_maybe payload = [] \<or>
    encode_call_me_maybe (parse_call_me_maybe payload) = payload)"
proof
  show "parse_call_me_maybe (encode_call_me_maybe eps) = map canon_endpoint eps"
    by (simp add: parse_call_me_maybe_def encode_call_me_maybe_def)
  show "parse_call_me_maybe payload = [] \<or>
      encode_call_me_maybe (parse_call_me_maybe payload) = payload"
  proof (cases "length payload < 2 \<or> take 2 payload \<noteq> [3, 0] \<or> (length payload - 2) mod 18 \<noteq> 0")
    case True
    then show ?thesis by (auto simp: parse_call_me_maybe_def)
  next
    case False
    let ?cs = "chunks_exact 18 (drop 2 payload)"
    have "18 dvd length (drop 2 payload)" using False by auto
    then have "concat ?cs = drop 2 payload" by (intro concat_chunks_exact) auto
    moreover have "map (encode_endpoint \<circ> parse_endpoint) ?cs = ?cs"
      by (rule map_idI) (simp add: encode_parse_endpoint length_in_chunks_exact)
    ultimately have "encode_call_me_maybe (parse_call_me_maybe payload) = [3, 0] @ drop 2 payload"
      using False by (simp add: parse_call_me_maybe_def encode_call_me_maybe_def)
    also have "\<dots> = payload" using False by (metis append_take_drop_id)
    finally show ?thesis ..
  qed
qed

text \<open>
  Two node keys get the same internal address exactly when their first ten bytes agree, and
  the address is in the \<open>fd7a:115c:a1e0::/48\<close> prefix, so it is never in the NAT64 prefix.
\<close>

theorem tc_addr_identifies_key:
  "(tc_addr_for_key k = tc_addr_for_key k' \<longleftrightarrow> take 10 (octets k) = take 10 (octets k')) \<and>
   take 6 (octets (tc_addr_for_key k)) = [0xfd, 0x7a, 0x11, 0x5c, 0xa1, 0xe0] \<and>
   unmap_nat64 (tc_addr_for_key k) = V6 (tc_addr_for_key k)"
proof (intro conjI)
  show "tc_addr_for_key k = tc_addr_for_key k' \<longleftrightarrow> take 10 (octets k) = take 10 (octets k')"
    by (simp flip: octets_eq_iff)
  show "take 6 (octets (tc_addr_for_key k)) = [0xfd, 0x7a, 0x11, 0x5c, 0xa1, 0xe0]"
    by (simp add: tc_prefix_def)
  show "unmap_nat64 (tc_addr_for_key k) = V6 (tc_addr_for_key k)"
    by (simp add: unmap_nat64_def tc_prefix_def nat64_prefix_def)
qed

text \<open>
  The text form of every key reads back as the key, a key never reads back under another
  prefix's reader, and a zero pre-shared key in a saved file is read as no key.
\<close>

theorem key_text_roundtrip:
  assumes "hex_law H"
  shows "private_key_from_str H (private_key_to_string H k) = Ok k \<and>
    deserialize_node_key H (serialize_node_key H k) = Ok k \<and>
    deserialize_disco_key H (serialize_disco_key H d) = Ok d \<and>
    deserialize_psk H (serialize_psk H d) = Ok (nonzero d) \<and>
    \<not> is_ok (deserialize_node_key H (private_key_to_string H k))"
  using assms
  by (cases d) (simp_all add: private_key_from_str_def private_key_to_string_def
      deserialize_node_key_def serialize_node_key_def deserialize_disco_key_def
      serialize_disco_key_def deserialize_psk_def serialize_psk_def parse_hex_key_def
      strip_prefix_def starts_with_def hex_law_def)

theorem key_text_roundtrip_witness:
  "private_key_from_str ref_hex (private_key_to_string ref_hex ref_key) = Ok ref_key"
  using key_text_roundtrip [OF ref_hex_law] by blast

end
