(* ===== verification/Address.thy ===== *)
theory Address
  imports Wire
begin

text \<open>
  Compact addresses (\<open>src/protocol.rs\<close>): the connection info of a server, its encoding as a CBOR
  map, \<open>encode_addr\<close>, \<open>decode_addr\<close>, \<open>parse_addr\<close> and the diagnostic \<open>parse_addr_raw\<close>, and the
  expansion of a region identifier through the DERP map (\<open>expand\<close>, \<open>pick_best_region\<close>,
  \<open>resolve_addr\<close>).

  The \<open>base64\<close> and \<open>ciborium\<close> crates are the record \<open>addr_crates\<close>; \<open>b64_law\<close> and \<open>cbor_law\<close> say
  that decoding undoes encoding. \<open>encode_addr\<close> is \<open>addr_value\<close> (the CBOR value) followed by the
  crates, \<open>parse_addr\<close> is \<open>decode_addr\<close> followed by \<open>parse_value\<close>, so the facts about the vocabulary
  itself need no law at all.
\<close>

section \<open>Data\<close>

text \<open>\<open>i64\<close> and \<open>i32\<close>, read with \<open>sint\<close>.\<close>

type_synonym i64 = "64 word"
type_synonym i32 = "32 word"

record node =
  node_name :: string
  node_region_id :: i64
  host_name :: string
  cert_name :: string
  node_ipv4 :: string
  node_ipv6 :: string
  stun_port :: i32
  derp_port :: i32
  insecure_for_tests :: bool
  stun_only :: bool

record region =
  region_id :: i64
  region_code :: string
  region_name :: string
  nodes :: "node list"

record conn_info =
  server_public :: key
  server_disco_public :: "key option"
  preshared_key :: "key option"
  regions :: "region list"
  ci_region_id :: i64

definition node_default :: node where
  "node_default =
     \<lparr>node_name = [], node_region_id = 0, host_name = [], cert_name = [], node_ipv4 = [],
      node_ipv6 = [], stun_port = 0, derp_port = 0, insecure_for_tests = False, stun_only = False\<rparr>"

definition conn_info_for_key :: "crypto \<Rightarrow> key \<Rightarrow> conn_info" where
  "conn_info_for_key C k =
     \<lparr>server_public = public C k, server_disco_public = Some (disco_public C k),
      preshared_key = None, regions = [], ci_region_id = 0\<rparr>"

text \<open>
  \<open>ciborium::Value\<close>, with the constructors the program matches on; \<open>COther\<close> stands for the floats
  and tags it refuses everywhere. An integer is the mathematical integer it holds.
\<close>

datatype cbor =
    CNull
  | CBool bool
  | CInteger int
  | CText string
  | CBytes "byte list"
  | CArray "cbor list"
  | CMap "(cbor \<times> cbor) list"
  | COther nat

record addr_crates =
  base64_encode :: "byte list \<Rightarrow> string"
  base64_decode :: "string \<Rightarrow> byte list option"
  cbor_write :: "cbor \<Rightarrow> byte list option"
  cbor_read :: "byte list \<Rightarrow> (cbor \<times> byte list) option"

definition b64_law :: "addr_crates \<Rightarrow> bool" where
  "b64_law A \<longleftrightarrow> (\<forall>bs. base64_decode A (base64_encode A bs) = Some bs)"

text \<open>Reading back what was written for the value \<open>v\<close> consumes everything and gives \<open>v\<close>.\<close>

definition cbor_law :: "addr_crates \<Rightarrow> cbor \<Rightarrow> bool" where
  "cbor_law A v \<longleftrightarrow> (\<forall>bs. cbor_write A v = Some bs \<longrightarrow> cbor_read A bs = Some (v, []))"

section \<open>Encoding\<close>

definition field :: "string \<Rightarrow> cbor \<Rightarrow> cbor \<times> cbor" where
  "field name v = (CText name, v)"

definition push_string :: "(cbor \<times> cbor) list \<Rightarrow> string \<Rightarrow> string \<Rightarrow> (cbor \<times> cbor) list" where
  "push_string fs name txt = (if txt \<noteq> [] then fs @ [field name (CText txt)] else fs)"

definition push_int :: "(cbor \<times> cbor) list \<Rightarrow> string \<Rightarrow> int \<Rightarrow> (cbor \<times> cbor) list" where
  "push_int fs name number =
     (if number \<noteq> 0 then fs @ [field name (CInteger number)] else fs)"

definition push_key :: "(cbor \<times> cbor) list \<Rightarrow> string \<Rightarrow> key option \<Rightarrow> (cbor \<times> cbor) list" where
  "push_key fs name k =
     (case nonzero k of Some k \<Rightarrow> fs @ [field name (CBytes (octets k))] | None \<Rightarrow> fs)"

definition node_fields :: "node \<Rightarrow> (cbor \<times> cbor) list" where
  "node_fields n =
     (let fs = [];
          fs = (if host_name n = [] then push_string fs ''n'' (node_name n) else fs);
          fs = push_string fs ''h'' (host_name n);
          fs = push_string fs ''t'' (cert_name n);
          fs = push_string fs ''4'' (node_ipv4 n);
          fs = push_string fs ''6'' (node_ipv6 n);
          fs = push_int fs ''s'' (sint (stun_port n));
          fs = push_int fs ''d'' (sint (derp_port n));
          fs = (if insecure_for_tests n then fs @ [field ''x'' (CBool True)] else fs)
      in fs)"

definition node_value :: "node \<Rightarrow> cbor" where
  "node_value n = CMap (node_fields n)"

definition region_value :: "region \<Rightarrow> cbor" where
  "region_value r =
     (let ns = map node_value (filter (\<lambda>n. \<not> stun_only n) (nodes r))
      in CMap (if ns = [] then [] else [field ''N'' (CArray ns)]))"

definition addr_value :: "conn_info \<Rightarrow> cbor" where
  "addr_value ci =
     (let fs = [field ''p'' (CBytes (octets (server_public ci)))];
          fs = push_key fs ''k'' (server_disco_public ci);
          fs = push_key fs ''q'' (preshared_key ci);
          fs = (if regions ci \<noteq> []
                    then fs @ [field ''r'' (CArray (map region_value (regions ci)))]
                    else fs);
          fs = push_int fs ''i'' (sint (ci_region_id ci))
      in CMap fs)"

definition encode_addr :: "addr_crates \<Rightarrow> conn_info \<Rightarrow> string res" where
  "encode_addr A ci =
     and_then (ok_or ''CBOR marshal'' (cbor_write A (addr_value ci))) (\<lambda>bs.
     Ok (''tc'' @ base64_encode A bs))"

section \<open>Decoding\<close>

definition max_address_bytes :: nat where
  "max_address_bytes = 1048576"

definition decode_addr :: "addr_crates \<Rightarrow> string \<Rightarrow> cbor res" where
  "decode_addr A addr =
     and_then (ok_or ''tailcat address doesn't start with tc'' (strip_prefix ''tc'' addr)) (\<lambda>rest.
     if max_address_bytes * 4 div 3 + 4 < length rest then Err ''tailcat address is too large''
     else and_then (ok_or ''base64 decode'' (base64_decode A rest)) (\<lambda>bs.
     and_then (ok_or ''CBOR unmarshal'' (cbor_read A bs)) (\<lambda>(value, reader).
     if reader \<noteq> [] then Err ''trailing data after CBOR address'' else Ok value)))"

fun as_map :: "cbor \<Rightarrow> (cbor \<times> cbor) list res" where
  "as_map (CMap m) = Ok m"
| "as_map _ = Err ''expected CBOR map''"

fun as_text :: "cbor \<Rightarrow> string option" where
  "as_text (CText t) = Some t"
| "as_text _ = None"

fun find_text :: "string \<Rightarrow> (cbor \<times> cbor) list \<Rightarrow> cbor option" where
  "find_text name [] = None"
| "find_text name ((k, v) # fs) = (if as_text k = Some name then Some v else find_text name fs)"

text \<open>The last entry with that text key: \<open>iter().rev().find_map\<close>.\<close>

definition lookup :: "(cbor \<times> cbor) list \<Rightarrow> string \<Rightarrow> cbor option" where
  "lookup fs name = find_text name (rev fs)"

definition read_int :: "(cbor \<times> cbor) list \<Rightarrow> string \<Rightarrow> i64 res" where
  "read_int fs name =
     (case lookup fs name of
        None \<Rightarrow> Ok 0
      | Some CNull \<Rightarrow> Ok 0
      | Some (CInteger i) \<Rightarrow>
          if - (2 ^ 63) \<le> i \<and> i < 2 ^ 63 then Ok (word_of_int i) else Err ''integer out of range''
      | _ \<Rightarrow> Err ''must be an integer'')"

definition read_string :: "(cbor \<times> cbor) list \<Rightarrow> string \<Rightarrow> string res" where
  "read_string fs name =
     (case lookup fs name of
        None \<Rightarrow> Ok []
      | Some CNull \<Rightarrow> Ok []
      | Some (CText s) \<Rightarrow> Ok s
      | _ \<Rightarrow> Err ''must be text'')"

definition read_bool :: "(cbor \<times> cbor) list \<Rightarrow> string \<Rightarrow> bool res" where
  "read_bool fs name =
     (case lookup fs name of
        None \<Rightarrow> Ok False
      | Some CNull \<Rightarrow> Ok False
      | Some (CBool b) \<Rightarrow> Ok b
      | _ \<Rightarrow> Err ''must be a boolean'')"

definition read_array :: "(cbor \<times> cbor) list \<Rightarrow> string \<Rightarrow> cbor list res" where
  "read_array fs name =
     (case lookup fs name of
        None \<Rightarrow> Ok []
      | Some CNull \<Rightarrow> Ok []
      | Some (CArray a) \<Rightarrow> Ok a
      | _ \<Rightarrow> Err ''must be an array'')"

definition read_key :: "(cbor \<times> cbor) list \<Rightarrow> string \<Rightarrow> key option res" where
  "read_key fs name =
     (case lookup fs name of
        None \<Rightarrow> Ok None
      | Some CNull \<Rightarrow> Ok None
      | Some (CBytes b) \<Rightarrow>
          and_then (ok_or ''invalid public key length'' (try_into b)) (\<lambda>k. Ok (Some k))
      | _ \<Rightarrow> Err ''must be a 32-byte CBOR byte string'')"

text \<open>\<open>i32::try_from(i64)\<close>.\<close>

definition try_i32 :: "string \<Rightarrow> i64 \<Rightarrow> i32 res" where
  "try_i32 m w = (if - (2 ^ 31) \<le> sint w \<and> sint w < 2 ^ 31 then Ok (word_of_int (sint w)) else Err m)"

definition parse_node :: "i64 \<Rightarrow> cbor \<Rightarrow> node res" where
  "parse_node rid value =
     (if value = CNull then Err ''invalid tailcat address: node is null''
      else and_then (as_map value) (\<lambda>fs.
      and_then (read_string fs ''n'') (\<lambda>name.
      and_then (read_int fs ''i'') (\<lambda>id.
      and_then (read_string fs ''h'') (\<lambda>host.
      and_then (read_string fs ''t'') (\<lambda>cert.
      and_then (read_string fs ''4'') (\<lambda>v4.
      and_then (read_string fs ''6'') (\<lambda>v6.
      and_then (read_int fs ''s'') (\<lambda>s. and_then (try_i32 ''invalid STUN port'' s) (\<lambda>stun.
      and_then (read_int fs ''d'') (\<lambda>d. and_then (try_i32 ''invalid DERP port'' d) (\<lambda>derp.
      and_then (read_bool fs ''x'') (\<lambda>x.
      Ok \<lparr>node_name = (if name = [] then host else name),
          node_region_id = (if id = 0 then rid else id),
          host_name = host, cert_name = cert, node_ipv4 = v4, node_ipv6 = v6,
          stun_port = stun, derp_port = derp, insecure_for_tests = x, stun_only = False\<rparr>)))))))))))))"

definition parse_region :: "nat \<Rightarrow> cbor \<Rightarrow> region res" where
  "parse_region ri value =
     (if value = CNull then Err ''invalid tailcat address: region is null''
      else and_then (as_map value) (\<lambda>fs.
      and_then (read_int fs ''i'') (\<lambda>id.
      let rid = (if id = 0 then of_nat ri + 1 else id) in
      and_then (read_string fs ''c'') (\<lambda>code.
      and_then (read_string fs ''m'') (\<lambda>name.
      and_then (read_array fs ''N'') (\<lambda>a.
      and_then (collect_results (parse_node rid) a) (\<lambda>ns.
      Ok \<lparr>region_id = rid,
          region_code = (if code = [] then dec_int (sint rid) else code),
          region_name = name, nodes = ns\<rparr>)))))))"

definition parse_value :: "cbor \<Rightarrow> conn_info res" where
  "parse_value value =
     and_then (as_map value) (\<lambda>fs.
     and_then (read_key fs ''p'') (\<lambda>p.
     and_then (read_key fs ''k'') (\<lambda>k.
     and_then (read_key fs ''q'') (\<lambda>q.
     and_then (read_int fs ''i'') (\<lambda>i.
     and_then (read_array fs ''r'') (\<lambda>a.
     and_then (collect_results (\<lambda>(ri, v). parse_region ri v) (enumerate 0 a)) (\<lambda>rs.
     Ok \<lparr>server_public = (case p of Some x \<Rightarrow> x | None \<Rightarrow> zeros),
         server_disco_public = k,
         preshared_key = nonzero q,
         regions = rs,
         ci_region_id = i\<rparr>)))))))"

definition parse_addr :: "addr_crates \<Rightarrow> string \<Rightarrow> conn_info res" where
  "parse_addr A addr = and_then (decode_addr A addr) parse_value"

section \<open>Lookup in encoded maps\<close>

lemma find_text_append:
  "find_text name (xs @ ys) = (case find_text name xs of None \<Rightarrow> find_text name ys | Some v \<Rightarrow> Some v)"
  by (induction xs rule: find_text.induct) auto

lemma lookup_Nil [simp]: "lookup [] name = None"
  by (simp add: lookup_def)

lemma lookup_snoc [simp]:
  "lookup (fs @ [field n v]) name = (if n = name then Some v else lookup fs name)"
  by (simp add: lookup_def field_def)

lemma lookup_single [simp]: "lookup [field n v] name = (if n = name then Some v else None)"
  by (simp add: lookup_def field_def)

lemma lookup_push_string [simp]:
  "lookup (push_string fs n t) name =
     (if n = name \<and> t \<noteq> [] then Some (CText t) else lookup fs name)"
  by (simp add: push_string_def)

lemma lookup_push_int [simp]:
  "lookup (push_int fs n i) name =
     (if n = name \<and> i \<noteq> 0 then Some (CInteger i) else lookup fs name)"
  by (simp add: push_int_def)

lemma lookup_push_key [simp]:
  "lookup (push_key fs n k) name =
     (if n = name \<and> nonzero k \<noteq> None then Some (CBytes (octets (the (nonzero k))))
      else lookup fs name)"
  by (auto simp: push_key_def split: option.splits)

lemma sint_i64_range: "- (2 ^ 63) \<le> sint (w :: i64)" "sint (w :: i64) < 2 ^ 63"
  using sint_range_size [of w] by (simp_all add: word_size)

lemma sint_i32_range: "- (2 ^ 31) \<le> sint (w :: i32)" "sint (w :: i32) < 2 ^ 31"
  using sint_range_size [of w] by (simp_all add: word_size)

lemma try_i32_scast [simp]: "try_i32 m (scast (w :: i32) :: i64) = Ok w"
proof -
  have "sint (word_of_int (sint w) :: i64) = sint w"
    using sint_i32_range [of w]
    by (subst sint_sbintrunc') (auto intro: signed_take_bit_int_eq_self)
  then have "sint (scast w :: i64) = sint w" by simp
  then show ?thesis using sint_i32_range [of w] by (simp add: try_i32_def)
qed

section \<open>What survives the round trip\<close>

text \<open>
  The canonical form of a connection info: what the decoder reconstructs of it. Zero keys are
  absent; STUN-only nodes are gone; a region is numbered by its position and has the number as
  its code; a node is in that region and is called by its host name if it has one.
\<close>

definition canon_node :: "i64 \<Rightarrow> node \<Rightarrow> node" where
  "canon_node rid n =
     n\<lparr>node_name := (if host_name n = [] then node_name n else host_name n),
       node_region_id := rid, stun_only := False\<rparr>"

definition canon_region :: "nat \<Rightarrow> region \<Rightarrow> region" where
  "canon_region ri r =
     (let rid = of_nat ri + 1
      in \<lparr>region_id = rid, region_code = dec_int (sint rid), region_name = [],
          nodes = map (canon_node rid) (filter (\<lambda>n. \<not> stun_only n) (nodes r))\<rparr>)"

definition canon :: "conn_info \<Rightarrow> conn_info" where
  "canon ci =
     ci\<lparr>server_disco_public := nonzero (server_disco_public ci),
        preshared_key := nonzero (preshared_key ci),
        regions := map (\<lambda>(ri, r). canon_region ri r) (enumerate 0 (regions ci))\<rparr>"

lemma read_node_fields [simp]:
  "read_string (node_fields n) ''n'' = Ok (if host_name n = [] then node_name n else [])"
  "read_string (node_fields n) ''h'' = Ok (host_name n)"
  "read_string (node_fields n) ''t'' = Ok (cert_name n)"
  "read_string (node_fields n) ''4'' = Ok (node_ipv4 n)"
  "read_string (node_fields n) ''6'' = Ok (node_ipv6 n)"
  "read_int (node_fields n) ''i'' = Ok 0"
  "read_int (node_fields n) ''s'' = Ok (word_of_int (sint (stun_port n)))"
  "read_int (node_fields n) ''d'' = Ok (word_of_int (sint (derp_port n)))"
  "read_bool (node_fields n) ''x'' = Ok (insecure_for_tests n)"
  using sint_i32_range [of "stun_port n"] sint_i32_range [of "derp_port n"]
  by (simp_all add: node_fields_def Let_def read_string_def read_int_def read_bool_def
      del: of_int_sint)

lemma parse_node_value: "parse_node rid (node_value n) = Ok (canon_node rid n)"
  by (simp add: parse_node_def node_value_def canon_node_def)

lemma parse_region_value: "parse_region ri (region_value r) = Ok (canon_region ri r)"
proof -
  have "collect_results (parse_node rid) (map node_value ns) = Ok (map (canon_node rid) ns)" for rid ns
    by (induction ns) (simp_all add: parse_node_value)
  then show ?thesis
    by (simp add: parse_region_def region_value_def canon_region_def Let_def read_int_def
        read_string_def read_array_def)
qed

lemma sint_eq_0_iff [simp]: "sint w = 0 \<longleftrightarrow> w = 0"
  by (rule signed_eq_0_iff)

definition addr_fields :: "conn_info \<Rightarrow> (cbor \<times> cbor) list" where
  "addr_fields ci = (case addr_value ci of CMap fs \<Rightarrow> fs | _ \<Rightarrow> [])"

lemma addr_value_eq: "addr_value ci = CMap (addr_fields ci)"
  by (simp add: addr_fields_def addr_value_def Let_def)

lemma read_addr_fields [simp]:
  "read_key (addr_fields ci) ''p'' = Ok (Some (server_public ci))"
  "read_key (addr_fields ci) ''k'' = Ok (nonzero (server_disco_public ci))"
  "read_key (addr_fields ci) ''q'' = Ok (nonzero (preshared_key ci))"
  "read_int (addr_fields ci) ''i'' = Ok (ci_region_id ci)"
  "read_array (addr_fields ci) ''r'' = Ok (map region_value (regions ci))"
  using sint_i64_range [of "ci_region_id ci"]
  by (auto simp: addr_fields_def addr_value_def Let_def read_key_def read_int_def read_array_def)

lemma parse_addr_value: "parse_value (addr_value ci) = Ok (canon ci)"
proof -
  have "collect_results (\<lambda>(ri, v). parse_region ri v) (enumerate i (map region_value rs)) =
      Ok (map (\<lambda>(ri, r). canon_region ri r) (enumerate i rs))" for i rs
    by (induction rs arbitrary: i) (simp_all add: parse_region_value)
  then show ?thesis
    by (simp add: parse_value_def addr_value_eq canon_def)
qed

section \<open>The diagnostic decoder\<close>

text \<open>\<open>serde_json::Value\<close>; an object is the list of its entries in the order they are inserted.\<close>

datatype json =
    JNull
  | JBool bool
  | JNumber int
  | JString string
  | JArray "json list"
  | JObject "(string \<times> json) list"

definition raw_keys :: "hex_crate \<Rightarrow> (cbor \<times> cbor) list \<Rightarrow> (string \<times> json) list res" where
  "raw_keys H fs =
     and_then (read_key fs ''p'') (\<lambda>p.
     and_then (read_key fs ''q'') (\<lambda>q.
     and_then (read_key fs ''k'') (\<lambda>k.
     Ok ([(''ServerPublic'', JString (''nodekey:'' @ hex_encode H (octets (case p of Some x \<Rightarrow> x | None \<Rightarrow> zeros))))]
       @ (case q of Some x \<Rightarrow> [(''PresharedKey'', JString (''psk:'' @ hex_encode H (octets x)))] | None \<Rightarrow> [])
       @ (case k of Some x \<Rightarrow> [(''ServerDiscoPublic'', JString (''discokey:'' @ hex_encode H (octets x)))] | None \<Rightarrow> [])))))"

definition raw_int :: "(cbor \<times> cbor) list \<Rightarrow> string \<times> string \<Rightarrow> (string \<times> json) list res" where
  "raw_int fs sl =
     and_then (read_int fs (fst sl)) (\<lambda>v. Ok (if v \<noteq> 0 then [(snd sl, JNumber (sint v))] else []))"

definition raw_string :: "(cbor \<times> cbor) list \<Rightarrow> string \<times> string \<Rightarrow> (string \<times> json) list res" where
  "raw_string fs sl =
     and_then (read_string fs (fst sl)) (\<lambda>v. Ok (if v \<noteq> [] then [(snd sl, JString v)] else []))"

text \<open>The scalar entries of one map, in the order the code inserts them.\<close>

definition raw_scalars :: "hex_crate \<Rightarrow> nat \<Rightarrow> (cbor \<times> cbor) list \<Rightarrow> (string \<times> json) list res" where
  "raw_scalars H level fs =
     and_then (if level = 0 then raw_keys H fs else Ok []) (\<lambda>ks.
     and_then (collect_results (raw_int fs)
       [(''i'', ''RegionID''), (''s'', ''STUNPort''), (''d'', ''DERPPort'')]) (\<lambda>ints.
     and_then (collect_results (raw_string fs)
       [(''c'', ''RegionCode''), (''m'', ''RegionName''), (''n'', ''Name''), (''h'', ''HostName''),
        (''t'', ''CertName''), (''4'', ''IPv4''), (''6'', ''IPv6'')]) (\<lambda>strs.
     and_then (read_bool fs ''x'') (\<lambda>x.
     Ok (ks @ concat ints @ concat strs @ (if x then [(''InsecureForTests'', JBool True)] else []))))))"

lemma find_text_in: "find_text name fs = Some v \<Longrightarrow> \<exists>k. (k, v) \<in> set fs"
  by (induction fs rule: find_text.induct) (auto split: if_splits)

lemma lookup_in: "lookup fs name = Some v \<Longrightarrow> \<exists>k. (k, v) \<in> set fs"
  by (fastforce simp: lookup_def dest: find_text_in)

lemma read_array_elem_size:
  assumes "read_array fs name = Ok a" "v \<in> set a"
  shows "size v < size (CMap fs)"
proof -
  from assms have "lookup fs name = Some (CArray a)"
    by (auto simp: read_array_def split: option.splits cbor.splits)
  then obtain k where "(k, CArray a) \<in> set fs" by (auto dest: lookup_in)
  then have "size (CArray a) \<le> size_list (size_prod size size) fs"
    by (intro size_list_estimation') auto
  moreover have "size v \<le> size_list size a" using assms(2) by (intro size_list_estimation') auto
  ultimately show ?thesis by simp
qed

function convert :: "hex_crate \<Rightarrow> nat \<Rightarrow> cbor \<Rightarrow> json res" where
  "convert H level value =
     (if value = CNull then Ok JNull
      else and_then (as_map value) (\<lambda>fs.
      and_then (raw_scalars H level fs) (\<lambda>out.
      let (short, long) = (if level = 0 then (''r'', ''Region'') else (''N'', ''Nodes'')) in
      and_then (read_array fs short) (\<lambda>a.
      if a = [] then Ok (JObject out)
      else and_then (collect_results (\<lambda>v. convert H (level + 1) v) a) (\<lambda>vs.
           Ok (JObject (out @ [(long, JArray vs)])))))))"
  by pat_completeness auto
termination
proof (relation "measure (\<lambda>(H, level, value). size value)", goal_cases)
  case 1
  then show ?case by simp
next
  case (2 H level val fs out p short long a v)
  from "2"(2) have "val = CMap fs" by (cases val) auto
  with "2" show ?case using read_array_elem_size by force
qed

declare convert.simps [simp del]

definition parse_addr_raw :: "addr_crates \<Rightarrow> hex_crate \<Rightarrow> string \<Rightarrow> json res" where
  "parse_addr_raw A H addr = and_then (decode_addr A addr) (convert H 0)"

section \<open>Expanding a region identifier\<close>

text \<open>\<open>DerpMap.regions\<close>, a \<open>BTreeMap\<close>, as its entries in key order.\<close>

type_synonym derp_map = "(i64 \<times> region) list"

text \<open>The STUN probes of \<open>pick_best_region\<close>: at most two nodes of each region.\<close>

definition probe_targets :: "derp_map \<Rightarrow> (i64 \<times> node) list" where
  "probe_targets dm =
     concat (map (\<lambda>(rid, r). map (Pair rid) (take 2 (filter (\<lambda>n. 0 \<le> sint (stun_port n)) (nodes r)))) dm)"

definition stun_host :: "node \<Rightarrow> string" where
  "stun_host n = (if node_ipv4 n \<noteq> [] \<and> node_ipv4 n \<noteq> ''none'' then node_ipv4 n else host_name n)"

definition stun_port_of :: "node \<Rightarrow> u16" where
  "stun_port_of n = (if stun_port n = 0 then 3478 else ucast (stun_port n))"

text \<open>The binding request with transaction \<open>txid\<close>, and the test of what came back.\<close>

definition stun_request :: "12 bytes \<Rightarrow> byte list" where
  "stun_request txid = [0, 1, 0, 0, 0x21, 0x12, 0xa4, 0x42] @ octets txid"

definition valid_stun_reply :: "byte list \<Rightarrow> bool \<Rightarrow> byte list \<Rightarrow> bool" where
  "valid_stun_reply request from_target response =
     (\<not> (\<not> from_target \<or> length response < 20 \<or> take 2 response \<noteq> [1, 1] \<or>
        slice 4 20 response \<noteq> slice 4 20 request))"

text \<open>One finished probe: \<open>None\<close> if it failed or timed out, else its latency.\<close>

definition best_step :: "(i64 \<times> nat) option \<Rightarrow> i64 \<times> nat option \<Rightarrow> (i64 \<times> nat) option" where
  "best_step best r =
     (case r of
        (_, None) \<Rightarrow> best
      | (rid, Some latency) \<Rightarrow>
          (case best of
             None \<Rightarrow> Some (rid, latency)
           | Some (_, b) \<Rightarrow> if latency < b then Some (rid, latency) else best))"

text \<open>
  \<open>order\<close> is the order in which the probe tasks finish and \<open>probe\<close> what the network answers.
\<close>

definition pick_best_region ::
  "((i64 \<times> node) list \<Rightarrow> (i64 \<times> node) list) \<Rightarrow> (node \<Rightarrow> nat option) \<Rightarrow> derp_map \<Rightarrow> i64 option" where
  "pick_best_region order probe dm =
     (if length dm = 1 then Some (fst (hd dm))
      else map_option fst
        (foldl best_step None (map (\<lambda>(rid, n). (rid, probe n)) (order (probe_targets dm)))))"

definition default_region_ids :: "region \<Rightarrow> region" where
  "default_region_ids r =
     (let rid = (if region_id r = 0 then 1 else region_id r)
      in r\<lparr>region_id := rid,
           nodes := map (\<lambda>n. if node_region_id n = 0 then n\<lparr>node_region_id := rid\<rparr> else n) (nodes r)\<rparr>)"

text \<open>
  \<open>fetched\<close> is the result of \<open>fetch_derp_map\<close>, \<open>shuffle\<close> the random permutation of a region's
  nodes, \<open>best\<close> the measurement above and \<open>pick\<close> the random choice among the keys; the
  \<open>expect("known region")\<close> is an error here.
\<close>

definition expand ::
  "derp_map res \<Rightarrow> (node list \<Rightarrow> node list) \<Rightarrow> (derp_map \<Rightarrow> i64 option) \<Rightarrow> (i64 list \<Rightarrow> i64) \<Rightarrow>
   conn_info \<Rightarrow> conn_info res" where
  "expand fetched shuffle best pick ci =
     (let ci = ci\<lparr>regions := map default_region_ids (regions ci)\<rparr> in
      if regions ci \<noteq> [] \<or> ci_region_id ci = 0 then Ok ci
      else and_then fetched (\<lambda>dm.
        if ci_region_id ci = -1 then
          if dm = [] then Err ''failed to auto-detect any regions''
          else
            let dm = map (\<lambda>(i, r). (i, r\<lparr>nodes := shuffle (nodes r)\<rparr>)) dm;
                rid = (case best dm of Some i \<Rightarrow> i | None \<Rightarrow> pick (map fst dm))
            in and_then (ok_or ''known region'' (map_of dm rid)) (\<lambda>r.
               Ok (ci\<lparr>regions := [r], ci_region_id := 0\<rparr>))
        else
          and_then (ok_or ''no such DERP region'' (map_of dm (ci_region_id ci))) (\<lambda>r.
          Ok (ci\<lparr>regions := regions ci @ [r]\<rparr>))))"

text \<open>\<open>resolve_addr\<close>, given its call of \<open>expand\<close>.\<close>

definition resolve_addr ::
  "addr_crates \<Rightarrow> (conn_info \<Rightarrow> conn_info res) \<Rightarrow> string \<Rightarrow> string res" where
  "resolve_addr A expand_ci addr =
     and_then (parse_addr A addr) (\<lambda>ci.
     if regions ci \<noteq> [] then Ok addr
     else and_then (expand_ci ci) (\<lambda>ci.
       let ci = ci\<lparr>regions := map (\<lambda>r. r\<lparr>nodes := take 2 (nodes r)\<rparr>) (regions ci), ci_region_id := 0\<rparr>
       in encode_addr A ci))"

section \<open>Facts about parsed addresses\<close>

lemma addr_value_canon: "addr_value (canon ci) = addr_value ci"
proof -
  have node: "node_value (canon_node rid n) = node_value n" for rid n
    by (simp add: node_value_def node_fields_def canon_node_def Let_def push_string_def)
  have filt: "filter (\<lambda>n. \<not> stun_only n) (map (canon_node rid) ns) = map (canon_node rid) ns" for rid ns
    by (induction ns) (auto simp: canon_node_def)
  have reg: "region_value (canon_region ri r) = region_value r" for ri r
    by (simp add: region_value_def canon_region_def Let_def filt node comp_def)
  have "map region_value (map (\<lambda>(ri, r). canon_region ri r) (enumerate i rs)) = map region_value rs" for i rs
    by (induction rs arbitrary: i) (simp_all add: reg)
  then have "map region_value (regions (canon ci)) = map region_value (regions ci)"
    by (simp add: canon_def)
  moreover have "(regions (canon ci) = []) = (regions ci = [])"
    by (cases "regions ci") (simp_all add: canon_def)
  moreover have "push_key fs name (nonzero k) = push_key fs name k" for fs name k
    by (simp add: push_key_def)
  ultimately show ?thesis by (simp add: addr_value_def Let_def) (simp add: canon_def)
qed

lemma parse_node_facts:
  assumes "parse_node rid v = Ok n"
  shows "v \<noteq> CNull \<and> \<not> stun_only n \<and> (node_name n = [] \<longrightarrow> host_name n = []) \<and>
    (node_region_id n = 0 \<longrightarrow> rid = 0)"
  using assms by (auto simp: parse_node_def result_simps split: if_splits)

lemma dec_int_code: "(if code = [] then dec_int i else code) \<noteq> []"
  by simp

lemma parse_region_facts:
  assumes "parse_region ri v = Ok r"
  shows "v \<noteq> CNull \<and> region_code r \<noteq> [] \<and>
    (\<forall>n \<in> set (nodes r). \<not> stun_only n \<and> (node_name n = [] \<longrightarrow> host_name n = []) \<and>
       (node_region_id n = 0 \<longrightarrow> region_id r = 0))"
proof -
  from assms obtain a where v: "v \<noteq> CNull"
    and c: "collect_results (parse_node (region_id r)) a = Ok (nodes r)"
    and code: "region_code r \<noteq> []"
    by (auto simp: parse_region_def result_simps Let_def split: if_splits)
  have "\<exists>v. parse_node (region_id r) v = Ok n" if "n \<in> set (nodes r)" for n
    using c that by (auto simp: collect_results_Inr_iff list_all2_conv_all_nth in_set_conv_nth)
  then show ?thesis using v code parse_node_facts by blast
qed

lemma parse_value_regions:
  assumes "parse_value v = Ok ci"
  obtains fs a where "v = CMap fs" "read_array fs ''r'' = Ok a"
    "list_all2 (\<lambda>(ri, v) r. parse_region ri v = Ok r) (enumerate 0 a) (regions ci)"
    "preshared_key ci = nonzero (preshared_key ci)"
proof -
  from assms obtain fs a where "as_map v = Ok fs" "read_array fs ''r'' = Ok a"
    "collect_results (\<lambda>(ri, v). parse_region ri v) (enumerate 0 a) = Ok (regions ci)"
    "preshared_key ci = nonzero (preshared_key ci)"
    by (auto simp: parse_value_def result_simps)
  moreover from this(1) have "v = CMap fs" by (cases v) auto
  ultimately show thesis using that by (simp add: collect_results_Inr_iff case_prod_unfold)
qed

lemma best_step_min:
  assumes "foldl best_step b rs = Some (i, l)"
  shows "(b = Some (i, l) \<or> (i, Some l) \<in> set rs) \<and>
    (\<forall>l'. (\<exists>i'. b = Some (i', l') \<or> (i', Some l') \<in> set rs) \<longrightarrow> l \<le> l')"
  using assms
proof (induction rs arbitrary: b)
  case Nil
  then show ?case by auto
next
  case (Cons r rs)
  obtain j m where r: "r = (j, m)" by (cases r)
  from Cons.IH [of "best_step b r"] Cons.prems
  have ih: "(best_step b r = Some (i, l) \<or> (i, Some l) \<in> set rs) \<and>
    (\<forall>l'. (\<exists>i'. best_step b r = Some (i', l') \<or> (i', Some l') \<in> set rs) \<longrightarrow> l \<le> l')" by simp
  show ?case
  proof (cases m)
    case None
    then have "best_step b r = b" by (simp add: best_step_def r)
    with ih None r show ?thesis by auto
  next
    case (Some lm)
    show ?thesis
    proof (cases b)
      case None
      then have "best_step b r = Some (j, lm)" using Some by (simp add: best_step_def r)
      with ih None Some r show ?thesis by auto
    next
      case (Some b')
      obtain k lb where b: "b = Some (k, lb)" using Some by (cases b') auto
      have "best_step b r = (if lm < lb then Some (j, lm) else Some (k, lb))"
        using \<open>m = Some lm\<close> by (simp add: best_step_def r b)
      with ih show ?thesis unfolding r \<open>m = Some lm\<close> b
        by (auto split: if_splits)
    qed
  qed
qed

lemma best_step_None:
  "foldl best_step b rs = None \<longleftrightarrow> b = None \<and> (\<forall>r \<in> set rs. snd r = None)"
  by (induction rs arbitrary: b) (auto simp: best_step_def split: option.splits prod.splits if_splits)

text \<open>
  A reference instance of the crates, for one CBOR value: base 16 for base 64 and a one-byte
  serialization.
\<close>

definition ref_addr_crates :: "cbor \<Rightarrow> addr_crates" where
  "ref_addr_crates v =
     \<lparr>base64_encode = ref_hex_encode, base64_decode = ref_hex_decode,
      cbor_write = (\<lambda>_. Some [0xa1]), cbor_read = (\<lambda>_. Some (v, []))\<rparr>"

lemma ref_addr_laws [simp]: "b64_law (ref_addr_crates v)" "cbor_law (ref_addr_crates v) v"
  using ref_hex_law by (auto simp: b64_law_def cbor_law_def ref_addr_crates_def hex_law_def ref_hex_def)

section \<open>Properties\<close>

lemma parse_encoded_addr:
  assumes "b64_law A" "cbor_law A (addr_value ci)" "encode_addr A ci = Ok addr"
    and "length addr \<le> max_address_bytes * 4 div 3 + 6"
  shows "parse_addr A addr = Ok (canon ci) \<and> encode_addr A (canon ci) = Ok addr"
proof -
  from assms(3) obtain bs where w: "cbor_write A (addr_value ci) = Some bs"
    and addr: "addr = ''tc'' @ base64_encode A bs"
    by (auto simp: encode_addr_def result_simps)
  have "decode_addr A addr = Ok (addr_value ci)"
    using assms(1,2,4) w by (simp add: decode_addr_def addr strip_prefix_def starts_with_def
        b64_law_def cbor_law_def)
  then show ?thesis
    using assms(3) by (simp add: parse_addr_def parse_addr_value encode_addr_def addr_value_canon)
qed

text \<open>
  C26. An address that \<open>encode_addr\<close> produced, if it is within the size the decoder accepts, parses
  to the canonical form of the connection info: same keys (zero keys absent), same regions and
  relay nodes up to the identifiers that the encoding leaves out, and encoding the parsed info
  gives the same address again.
\<close>

theorem address_roundtrip:
  assumes "b64_law A" "cbor_law A (addr_value ci)" "encode_addr A ci = Ok addr"
    and "length addr \<le> max_address_bytes * 4 div 3 + 6"
  shows "parse_addr A addr = Ok (canon ci) \<and> encode_addr A (canon ci) = Ok addr"
  using assms by (rule parse_encoded_addr)

theorem address_roundtrip_witness:
  "let ci = conn_info_for_key ref_crypto ref_key\<lparr>preshared_key := Some zeros\<rparr> in
   \<exists>addr. parse_addr (ref_addr_crates (addr_value ci)) addr = Ok (ci\<lparr>preshared_key := None\<rparr>)"
proof -
  let ?ci = "conn_info_for_key ref_crypto ref_key\<lparr>preshared_key := Some zeros\<rparr>"
  let ?A = "ref_addr_crates (addr_value ?ci)"
  have "encode_addr ?A ?ci = Ok (''tc'' @ ref_hex_encode [0xa1])"
    by (simp add: encode_addr_def ref_addr_crates_def)
  from address_roundtrip [OF ref_addr_laws this]
  have "parse_addr ?A (''tc'' @ ref_hex_encode [0xa1]) = Ok (canon ?ci)"
    by (simp add: ref_hex_encode_def max_address_bytes_def)
  moreover have "canon ?ci = ?ci\<lparr>preshared_key := None\<rparr>"
    by (simp add: canon_def conn_info_for_key_def disco_public_def ref_crypto_def)
  ultimately show ?thesis by (auto simp: Let_def)
qed

text \<open>
  The address vocabulary loses nothing else: for every connection info, decoding the CBOR
  value that encodes it succeeds, whatever its strings, ports and flags, and gives its canonical
  form, which no further encoding and decoding changes.
\<close>

theorem address_vocabulary_roundtrip:
  "parse_value (addr_value ci) = Ok (canon ci) \<and> parse_value (addr_value (canon ci)) = Ok (canon ci)"
  by (simp add: parse_addr_value addr_value_canon)



text \<open>
  Region selection is a minimum that does not depend on the order in which the probes finish:
  with other than one region, the chosen region has a probed relay that answered, and no probed
  relay of any region answered faster; no region is chosen exactly when no relay answered.
\<close>

theorem pick_best_region_minimal:
  assumes "length dm \<noteq> 1" and "set (order (probe_targets dm)) = set (probe_targets dm)"
  shows "(pick_best_region order probe dm = None \<longleftrightarrow>
      (\<forall>(rid, n) \<in> set (probe_targets dm). probe n = None)) \<and>
    (\<forall>rid. pick_best_region order probe dm = Some rid \<longrightarrow>
      (\<exists>n l. (rid, n) \<in> set (probe_targets dm) \<and> probe n = Some l \<and>
         (\<forall>(rid', n') \<in> set (probe_targets dm). \<forall>l'. probe n' = Some l' \<longrightarrow> l \<le> l')))"
proof -
  let ?rs = "map (\<lambda>(rid, n). (rid, probe n)) (order (probe_targets dm))"
  have set_rs: "set ?rs = (\<lambda>(rid, n). (rid, probe n)) ` set (probe_targets dm)" using assms(2) by simp
  have pick: "pick_best_region order probe dm = map_option fst (foldl best_step None ?rs)"
    using assms(1) by (simp add: pick_best_region_def)
  have "pick_best_region order probe dm = None \<longleftrightarrow>
      (\<forall>(rid, n) \<in> set (probe_targets dm). probe n = None)"
    unfolding pick option.map_disc_iff best_step_None set_rs by auto
  moreover have "\<exists>n l. (rid, n) \<in> set (probe_targets dm) \<and> probe n = Some l \<and>
         (\<forall>(rid', n') \<in> set (probe_targets dm). \<forall>l'. probe n' = Some l' \<longrightarrow> l \<le> l')"
    if "pick_best_region order probe dm = Some rid" for rid
  proof -
    from that pick obtain l where "foldl best_step None ?rs = Some (rid, l)" by auto
    note min_fact = best_step_min [OF this]
    have min: "l \<le> l'" if "(i, Some l') \<in> set ?rs" for i l'
      using min_fact [THEN conjunct2] that by blast
    have "(rid, Some l) \<in> set ?rs" using min_fact [THEN conjunct1] by blast
    then obtain n where "(rid, n) \<in> set (probe_targets dm)" "probe n = Some l"
      unfolding set_rs by auto
    moreover have "l \<le> l'" if "(rid', n') \<in> set (probe_targets dm)" "probe n' = Some l'" for rid' n' l'
      using min [of rid' l'] that unfolding set_rs by force
    ultimately show ?thesis by blast
  qed
  ultimately show ?thesis by blast
qed

theorem pick_best_region_minimal_witness:
  "pick_best_region rev (\<lambda>n. if host_name n = ''a'' then Some 30 else Some 20)
     [(1, \<lparr>region_id = 1, region_code = [], region_name = [], nodes = [node_default\<lparr>host_name := ''a''\<rparr>]\<rparr>),
      (2, \<lparr>region_id = 2, region_code = [], region_name = [], nodes = [node_default]\<rparr>)] = Some 2 \<and>
   (pick_best_region rev (\<lambda>_. None) [] = None)"
proof
  show "pick_best_region rev (\<lambda>n. if host_name n = ''a'' then Some 30 else Some 20)
     [(1, \<lparr>region_id = 1, region_code = [], region_name = [], nodes = [node_default\<lparr>host_name := ''a''\<rparr>]\<rparr>),
      (2, \<lparr>region_id = 2, region_code = [], region_name = [], nodes = [node_default]\<rparr>)] = Some 2"
    by (simp add: pick_best_region_def probe_targets_def node_default_def best_step_def)
  show "pick_best_region rev (\<lambda>_. None) [] = None"
    using pick_best_region_minimal [of "[]" rev "\<lambda>_. None"] by (simp add: probe_targets_def)
qed

text \<open>
  Expansion: an info with embedded regions, or with no region identifier, never consults the
  DERP map and keeps its identifier; otherwise a successful expansion has exactly one region, an
  entry of the fetched map (the one asked for, or for \<open>-1\<close> a chosen one with its nodes permuted
  and the identifier reset to 0).
\<close>

theorem expand_selects_region:
  assumes "expand fetched shuffle best pick ci = Ok ci'"
  shows "if regions ci \<noteq> [] \<or> ci_region_id ci = 0
    then ci' = ci\<lparr>regions := map default_region_ids (regions ci)\<rparr>
    else (\<exists>dm rid r. fetched = Ok dm \<and> map_of dm rid = Some r \<and>
      (if ci_region_id ci = -1 then regions ci' = [r\<lparr>nodes := shuffle (nodes r)\<rparr>] \<and> ci_region_id ci' = 0
       else rid = ci_region_id ci \<and> regions ci' = [r] \<and> ci_region_id ci' = rid))"
proof (cases "regions ci \<noteq> [] \<or> ci_region_id ci = 0")
  case True
  then show ?thesis using assms by (auto simp: expand_def)
next
  case False
  then obtain dm where dm: "fetched = Ok dm" using assms by (auto simp: expand_def Let_def result_simps)
  show ?thesis
  proof (cases "ci_region_id ci = -1")
    case True
    with assms False dm show ?thesis
      by (auto simp: expand_def Let_def result_simps map_of_map split: if_splits)
        (intro exI conjI, assumption, rule refl)
  next
    case other: False
    with assms False dm show ?thesis
      by (auto simp: expand_def Let_def result_simps split: if_splits)
  qed
qed

theorem expand_selects_region_witness:
  "\<exists>ci'. expand (Ok [(5, \<lparr>region_id = 5, region_code = ''x'', region_name = [], nodes = []\<rparr>)]) rev
     (\<lambda>_. None) hd (conn_info_for_key ref_crypto ref_key\<lparr>ci_region_id := -1\<rparr>) = Ok ci' \<and>
     length (regions ci') = 1"
proof -
  let ?r = "\<lparr>region_id = 5, region_code = ''x'', region_name = [], nodes = []\<rparr>"
  let ?ci = "conn_info_for_key ref_crypto ref_key\<lparr>ci_region_id := -1\<rparr>"
  have e: "expand (Ok [(5, ?r)]) rev (\<lambda>_. None) hd ?ci = Ok (?ci\<lparr>regions := [?r], ci_region_id := 0\<rparr>)"
    by (simp add: expand_def conn_info_for_key_def)
  from expand_selects_region [OF e] have "length (regions (?ci\<lparr>regions := [?r], ci_region_id := 0\<rparr>)) = 1"
    by (simp add: conn_info_for_key_def)
  with e show ?thesis by blast
qed

end
