(* ===== verification/Derp.thy ===== *)
theory Derp
  imports Address
begin

text \<open>
  The relay transport of \<open>src/derp.rs\<close>: DERP frames on the TLS stream, the HTTP upgrade, the
  authentication exchange, the relay session that moves packets between the actor's channels and
  the stream, its reconnection, and the local development relay.

  A stream is the list of the bytes still to be read and the list of the bytes written. The TLS
  connection, DNS, certificate validation and JSON are arguments.
\<close>

section \<open>Frames\<close>

definition max_packet :: nat where
  "max_packet = 65536"

definition max_frame :: nat where
  "max_frame = 1048576 + 64"

definition derp_magic :: "byte list" where
  "derp_magic = [68, 69, 82, 80, 0xf0, 0x9f, 0x94, 0x91]"

type_synonym frame = "byte \<times> byte list"
type_synonym packet = "key \<times> byte list"

definition read_frame :: "byte list \<Rightarrow> (frame \<times> byte list) res" where
  "read_frame inp =
     and_then (read_exact 1 inp) (\<lambda>(k, inp).
     and_then (read_exact 4 inp) (\<lambda>(l, inp).
     let len = unat (from_be_bytes l :: u32) in
     if max_frame < len then Err ''DERP frame too large''
     else and_then (read_exact len inp) (\<lambda>(body, inp). Ok ((hd k, body), inp))))"

definition write_frame :: "byte list \<Rightarrow> byte \<Rightarrow> byte list \<Rightarrow> byte list res" where
  "write_frame out kind body =
     (if max_frame < length body then Err ''DERP frame too large''
      else Ok (out @ [kind] @ to_be_bytes 4 (of_nat (length body) :: u32) @ body))"

text \<open>The reader task: every frame in order, then the error that ends it.\<close>

function reader_task :: "byte list \<Rightarrow> frame res list" where
  "reader_task inp =
     (case read_frame inp of
        Inl e \<Rightarrow> [Inl e]
      | Inr (f, rest) \<Rightarrow> Inr f # reader_task rest)"
  by pat_completeness auto

lemma read_frame_Ok_iff:
  "read_frame inp = Ok ((kind, body), rest) \<longleftrightarrow>
     (\<exists>l. inp = [kind] @ l @ body @ rest \<and> length l = 4 \<and>
        length body = unat (from_be_bytes l :: u32) \<and> length body \<le> max_frame)"
proof
  assume "read_frame inp = Ok ((kind, body), rest)"
  then obtain k l where "inp = k @ l @ body @ rest" "length k = 1" "length l = 4" "hd k = kind"
    "length body = unat (from_be_bytes l :: u32)" "length body \<le> max_frame"
    by (auto simp: read_frame_def Let_def result_simps split: if_splits prod.splits)
  moreover from this have "k = [kind]" by (cases k) auto
  ultimately show "\<exists>l. inp = [kind] @ l @ body @ rest \<and> length l = 4 \<and>
        length body = unat (from_be_bytes l :: u32) \<and> length body \<le> max_frame" by blast
next
  assume "\<exists>l. inp = [kind] @ l @ body @ rest \<and> length l = 4 \<and>
        length body = unat (from_be_bytes l :: u32) \<and> length body \<le> max_frame"
  then obtain l where inp: "inp = [kind] @ l @ body @ rest" and l: "length l = 4"
    and len: "length body = unat (from_be_bytes l :: u32)" "length body \<le> max_frame" by auto
  have "read_exact 1 inp = Ok ([kind], l @ body @ rest)" by (simp add: inp read_exact_def)
  then show "read_frame inp = Ok ((kind, body), rest)"
    using l len by (simp add: read_frame_def Let_def)
qed

termination reader_task
proof (relation "measure length", goal_cases)
  case 1
  then show ?case by simp
next
  case (2 inp p f rest)
  then have "read_frame inp = Ok ((fst f, snd f), rest)" by simp
  then show ?case unfolding read_frame_Ok_iff by auto
qed

declare reader_task.simps [simp del]

text \<open>The bytes of one frame.\<close>

definition frame_bytes :: "frame \<Rightarrow> byte list" where
  "frame_bytes f = [fst f] @ to_be_bytes 4 (of_nat (length (snd f)) :: u32) @ snd f"

lemma write_frame_eq:
  "write_frame out kind body =
     (if max_frame < length body then Err ''DERP frame too large'' else Ok (out @ frame_bytes (kind, body)))"
  by (simp add: write_frame_def frame_bytes_def)

lemma read_frame_bytes:
  assumes "length (snd f) \<le> max_frame"
  shows "read_frame (frame_bytes f @ rest) = Ok (f, rest)"
proof -
  have "unat (of_nat (length (snd f)) :: u32) = length (snd f)"
    using assms by (simp add: max_frame_def unat_of_nat)
  then have "\<exists>l. frame_bytes f @ rest = [fst f] @ l @ snd f @ rest \<and> length l = 4 \<and>
      length (snd f) = unat (from_be_bytes l :: u32) \<and> length (snd f) \<le> max_frame"
    using assms by (intro exI [of _ "to_be_bytes 4 (of_nat (length (snd f)) :: u32)"])
      (simp add: frame_bytes_def)
  then have "read_frame (frame_bytes f @ rest) = Ok ((fst f, snd f), rest)"
    unfolding read_frame_Ok_iff .
  then show ?thesis by simp
qed

lemma read_frame_consumes: "read_frame inp = Ok (f, rest) \<Longrightarrow> length rest < length inp"
  by (cases f) (auto simp: read_frame_Ok_iff)

definition frame_fits :: "frame \<Rightarrow> bool" where
  "frame_fits f \<longleftrightarrow> length (snd f) \<le> max_frame"

interpretation derp_frames: framing frame_bytes read_frame frame_fits
  by unfold_locales (simp_all add: frame_fits_def read_frame_bytes read_frame_consumes)

lemma reader_task_frames:
  "list_all frame_fits fs \<Longrightarrow>
   reader_task (concat (map frame_bytes fs) @ rest) = map Inr fs @ reader_task rest"
proof (induction fs)
  case Nil
  then show ?case by simp
next
  case (Cons f fs)
  then show ?case
    by (subst reader_task.simps) (simp add: derp_frames.get_put)
qed

section \<open>Opening a relay connection\<close>

definition port_of :: "node \<Rightarrow> u16 res" where
  "port_of n =
     (if derp_port n = 0 then Ok 443
      else if 0 \<le> sint (derp_port n) \<and> sint (derp_port n) \<le> 65535 then Ok (ucast (derp_port n))
      else Err ''invalid DERP port'')"

text \<open>
  The addresses \<open>tcp_connect\<close> races: the literal addresses of the node, then those DNS gives for its
  host name (\<open>resolved\<close>, \<open>None\<close> if the lookup failed), without the families the node disables and
  without repetition. \<open>parse_ip\<close> reads an address literal.
\<close>

fun dns_targets :: "node \<Rightarrow> sock_addr list \<Rightarrow> sock_addr list \<Rightarrow> sock_addr list" where
  "dns_targets n targets [] = targets"
| "dns_targets n targets (a # as) =
     (if (case fst a of V4 _ \<Rightarrow> node_ipv4 n = ''none'' | V6 _ \<Rightarrow> node_ipv6 n = ''none'')
      then dns_targets n targets as
      else if a \<in> set targets then dns_targets n targets as
      else dns_targets n (targets @ [a]) as)"

definition tcp_targets ::
  "(string \<Rightarrow> ip_addr option) \<Rightarrow> sock_addr list option \<Rightarrow> node \<Rightarrow> sock_addr list res" where
  "tcp_targets parse_ip resolved n =
     and_then (port_of n) (\<lambda>port.
     let literals = List.map_filter (\<lambda>s. map_option (\<lambda>ip. (ip, port)) (parse_ip s)) [node_ipv4 n, node_ipv6 n];
         targets =
           (if (node_ipv4 n = [] \<or> node_ipv6 n = []) \<and> host_name n \<noteq> []
            then (case resolved of Some as \<Rightarrow> dns_targets n literals as | None \<Rightarrow> literals)
            else literals)
     in if targets = [] then Err ''no usable addresses for DERP node'' else Ok targets)"

text \<open>
  The race of the connection attempts, by their results in the order of completion: the first
  success wins, and only when all failed is it the last failure.
\<close>

fun race :: "error option \<Rightarrow> 's res list \<Rightarrow> 's res" where
  "race e [] = (case e of Some e \<Rightarrow> Inl e | None \<Rightarrow> Err ''no DERP connection attempts'')"
| "race e (Inr stream # rs) = Ok stream"
| "race e (Inl e' # rs) = race (Some e') rs"

text \<open>
  What \<open>open_node\<close> expects of the certificate: a pinned hash, another name, or the host's own name.
  \<open>valid_name\<close> is \<open>ServerName::try_from\<close>.
\<close>

record cert_policy =
  expected_hash :: "key option"
  expected_name :: "string option"
  insecure :: bool

definition cert_policy_of :: "hex_crate \<Rightarrow> (string \<Rightarrow> bool) \<Rightarrow> node \<Rightarrow> cert_policy res" where
  "cert_policy_of H valid_name n =
     (case strip_prefix ''sha256-raw:'' (cert_name n) of
        Some hash \<Rightarrow>
          and_then (ok_or ''invalid DERP certificate hash'' (Option.bind (hex_decode H hash) try_into)) (\<lambda>raw.
          Ok \<lparr>expected_hash = Some raw, expected_name = None, insecure = insecure_for_tests n\<rparr>)
      | None \<Rightarrow>
          if cert_name n \<noteq> [] then
            if valid_name (cert_name n)
            then Ok \<lparr>expected_hash = None, expected_name = Some (cert_name n), insecure = insecure_for_tests n\<rparr>
            else Err ''invalid DERP certificate name''
          else Ok \<lparr>expected_hash = None, expected_name = None, insecure = insecure_for_tests n\<rparr>)"

text \<open>
  \<open>NodeVerifier::verify_server_cert\<close>: \<open>sha256\<close> of the leaf certificate, and \<open>normal\<close>, the Web PKI
  verification of the chain against a name.
\<close>

definition verify_server_cert ::
  "(byte list \<Rightarrow> key) \<Rightarrow> (byte list \<Rightarrow> string \<Rightarrow> unit res) \<Rightarrow> cert_policy \<Rightarrow> byte list \<Rightarrow> string \<Rightarrow> unit res" where
  "verify_server_cert sha256 normal v end_entity server_name =
     (case expected_hash v of
        Some expected \<Rightarrow>
          if sha256 end_entity \<noteq> expected then Err ''DERP certificate hash mismatch'' else Ok ()
      | None \<Rightarrow>
          if insecure v then Ok ()
          else normal end_entity (case expected_name v of Some m \<Rightarrow> m | None \<Rightarrow> server_name))"

definition crlf :: string where
  "crlf = [CHR 0x0D, CHR 0x0A]"

text \<open>The upgrade request of \<open>open_node\<close>.\<close>

definition upgrade_request :: "node \<Rightarrow> byte list res" where
  "upgrade_request n =
     and_then (port_of n) (\<lambda>port.
        let host = (if CHR '':'' \<in> set (host_name n) then ''['' @ host_name n @ '']'' else host_name n);
            host = (if port \<noteq> 443 then host @ '':'' @ dec (unat port) else host)
        in Ok (as_bytes (''GET /derp HTTP/1.1'' @ crlf @ ''Host: '' @ host @ crlf @ ''Upgrade: DERP'' @ crlf @
             ''Connection: Upgrade'' @ crlf @ crlf)))"

text \<open>Header bytes up to the empty line, at most \<open>limit\<close> of them.\<close>

fun read_headers :: "nat \<Rightarrow> byte list \<Rightarrow> byte list \<Rightarrow> (byte list \<times> byte list) res" where
  "read_headers limit headers inp =
     (if ends_with headers (as_bytes (crlf @ crlf)) then Ok (headers, inp)
      else if limit \<le> length headers then Err ''DERP HTTP headers too large''
      else (case inp of [] \<Rightarrow> Err ''early eof'' | b # inp \<Rightarrow> read_headers limit (headers @ [b]) inp))"

declare read_headers.simps [simp del]

definition is_upgrade_header :: "string \<Rightarrow> bool" where
  "is_upgrade_header line =
     (case split_once (CHR '':'') line of
        Some (name, v) \<Rightarrow> eq_ignore_ascii_case name ''upgrade'' \<and> eq_ignore_ascii_case (trim v) ''derp''
      | None \<Rightarrow> False)"

text \<open>The status line and the headers of the response: the checks after the read loop.\<close>

definition check_upgrade :: "byte list \<Rightarrow> unit res" where
  "check_upgrade headers =
     and_then (ok_or ''invalid DERP HTTP response'' (from_utf8 headers)) (\<lambda>txt.
     let status = (case lines txt of [] \<Rightarrow> [] | l # _ \<Rightarrow> l) in
     if (case split_whitespace status of _ # code # _ \<Rightarrow> code \<noteq> ''101'' | _ \<Rightarrow> True)
     then Err ''DERP HTTP upgrade rejected''
     else if \<not> list_ex is_upgrade_header (drop 1 (lines txt))
     then Err ''DERP HTTP response lacks Upgrade: DERP''
     else Ok ())"

definition read_http_upgrade :: "byte list \<Rightarrow> byte list res" where
  "read_http_upgrade inp =
     and_then (read_headers 16384 [] inp) (\<lambda>(headers, rest).
     and_then (check_upgrade headers) (\<lambda>_. Ok rest))"

text \<open>
  \<open>open_region\<close>: the nodes that are not STUN-only, in order, until one connects. \<open>attempt\<close> is
  \<open>open_node\<close> under its timeout, \<open>None\<close> when that expired.
\<close>

fun open_nodes :: "(node \<Rightarrow> 's res option) \<Rightarrow> error \<Rightarrow> node list \<Rightarrow> 's res" where
  "open_nodes attempt last_error [] = Inl last_error"
| "open_nodes attempt last_error (n # ns) =
     (case attempt n of
        Some (Inr stream) \<Rightarrow> Ok stream
      | Some (Inl e) \<Rightarrow> open_nodes attempt e ns
      | None \<Rightarrow> open_nodes attempt (Error ''DERP node timed out'') ns)"

definition open_region :: "(node \<Rightarrow> 's res option) \<Rightarrow> region \<Rightarrow> 's res" where
  "open_region attempt r =
     open_nodes attempt (Error ''DERP region has no relay nodes'') (filter (\<lambda>n. \<not> stun_only n) (nodes r))"

section \<open>Authentication\<close>

text \<open>
  The client's answer to the greeting: the server's key and the client info frame. \<open>info\<close> is the
  JSON it sends, \<open>nonce\<close> the box nonce drawn.
\<close>

definition auth_hello ::
  "crypto \<Rightarrow> byte list \<Rightarrow> nonce \<Rightarrow> key \<Rightarrow> frame \<Rightarrow> (key \<times> byte list) res" where
  "auth_hello C info nonce key f =
     (if fst f \<noteq> 1 \<or> length (snd f) < 40 \<or> take 8 (snd f) \<noteq> derp_magic
      then Err ''invalid DERP server greeting''
      else and_then (ok_or ''slice'' (try_into (slice 8 40 (snd f)))) (\<lambda>server_key.
           and_then (seal_box C nonce key server_key info) (\<lambda>sealed.
           and_then (write_frame [] 2 (octets (public C key) @ sealed)) (\<lambda>out.
           Ok (server_key, out)))))"

text \<open>The loop that waits for the server info, answering pings and skipping keepalives.\<close>

function auth_loop ::
  "crypto \<Rightarrow> (byte list \<Rightarrow> bool) \<Rightarrow> key \<Rightarrow> key \<Rightarrow> byte list \<Rightarrow> byte list \<Rightarrow> (byte list \<times> byte list) res" where
  "auth_loop C json_ok key server_key out inp =
     (case read_frame inp of
        Inl e \<Rightarrow> Inl e
      | Inr ((kind, data), rest) \<Rightarrow>
          if kind = 3 then
            and_then (context_of ''DERP server authentication'' (open_box C key server_key data)) (\<lambda>info.
            if json_ok info then and_then (write_frame out 7 [1]) (\<lambda>out. Ok (out, rest))
            else Err ''invalid DERP server info'')
          else if kind = 6 then auth_loop C json_ok key server_key out rest
          else if kind = 0x12 \<and> length data = 8 then
            (case write_frame out 0x13 data of
               Inl e \<Rightarrow> Inl e
             | Inr out \<Rightarrow> auth_loop C json_ok key server_key out rest)
          else Err ''unexpected DERP frame during authentication'')"
  by pat_completeness auto

lemma read_frame_shorter: "read_frame inp = Ok ((kind, body), rest) \<Longrightarrow> length rest < length inp"
  unfolding read_frame_Ok_iff by auto

termination auth_loop
  by (relation "measure (\<lambda>(C, j, k, s, out, inp). length inp)") (auto dest: read_frame_shorter)

declare auth_loop.simps [simp del]

text \<open>The bytes written and the rest of the stream, once the server is authenticated.\<close>

definition authenticate ::
  "crypto \<Rightarrow> byte list \<Rightarrow> (byte list \<Rightarrow> bool) \<Rightarrow> nonce \<Rightarrow> key \<Rightarrow> byte list \<Rightarrow> (byte list \<times> byte list) res" where
  "authenticate C info json_ok nonce key inp =
     and_then (read_frame inp) (\<lambda>(greeting, inp).
     and_then (auth_hello C info nonce key greeting) (\<lambda>(server_key, out).
     auth_loop C json_ok key server_key out inp))"

text \<open>
  \<open>open_node\<close>: \<open>dial\<close> is the results of the TCP connections to the targets in the order they
  complete, \<open>tls\<close> is the TLS handshake with the
  certificate policy and the server name, and gives the bytes the relay will send. The result is
  all the bytes written and what remains to be read.
\<close>

definition open_node ::
  "crypto \<Rightarrow> hex_crate \<Rightarrow> (string \<Rightarrow> bool) \<Rightarrow> (string \<Rightarrow> ip_addr option) \<Rightarrow> sock_addr list option \<Rightarrow>
   (sock_addr list \<Rightarrow> unit res list) \<Rightarrow> (cert_policy \<Rightarrow> string \<Rightarrow> byte list res) \<Rightarrow>
   byte list \<Rightarrow> (byte list \<Rightarrow> bool) \<Rightarrow> nonce \<Rightarrow> key \<Rightarrow> node \<Rightarrow> (byte list \<times> byte list) res" where
  "open_node C H valid_name parse_ip resolved dial tls info json_ok nonce key n =
     (if CHR 0x0D \<in> set (host_name n) \<or> CHR 0x0A \<in> set (host_name n) then Err ''invalid DERP hostname''
      else and_then (tcp_targets parse_ip resolved n) (\<lambda>targets.
           and_then (race None (dial targets)) (\<lambda>_.
           and_then (cert_policy_of H valid_name n) (\<lambda>policy.
           if \<not> valid_name (host_name n) then Err ''invalid DERP hostname''
           else and_then (tls policy (host_name n)) (\<lambda>inp.
           and_then (upgrade_request n) (\<lambda>req.
           and_then (read_http_upgrade inp) (\<lambda>inp.
           and_then (authenticate C info json_ok nonce key inp) (\<lambda>(out, rest).
           Ok (req @ out, rest)))))))))"

section \<open>The relay session\<close>

text \<open>
  What the session has written to the stream, what it has put on the channel to the actor, and
  whether the actor still listens. An event is what \<open>select!\<close> completed: a packet from the actor
  (\<open>None\<close>: all senders gone), a result from the reader task (\<open>None\<close>: it stopped), the 30-second
  heartbeat with its random bytes, or the actor's end closing.
\<close>

record session =
  sess_out :: "byte list"
  sess_incoming :: "packet list"
  incoming_open :: bool

datatype session_event =
    Outgoing "packet option"
  | Frame "frame res option"
  | Heartbeat "8 bytes"
  | IncomingClosed

datatype session_flow = Continue session | Finished session "unit res"

definition write_or_fail :: "session \<Rightarrow> byte \<Rightarrow> byte list \<Rightarrow> session_flow" where
  "write_or_fail s kind body =
     (case write_frame (sess_out s) kind body of
        Inl e \<Rightarrow> Finished s (Inl e)
      | Inr out \<Rightarrow> Continue (s\<lparr>sess_out := out\<rparr>))"

definition session_frame :: "session \<Rightarrow> byte \<Rightarrow> byte list \<Rightarrow> session_flow" where
  "session_frame s kind body =
     (if kind = 5 then
        if length body < 32 \<or> 32 + max_packet < length body
        then Finished s (Err ''invalid DERP packet length'')
        else if \<not> incoming_open s then Finished s (Ok ())
        else Continue (s\<lparr>sess_incoming := sess_incoming s @ [(arr (take 32 body), drop 32 body)]\<rparr>)
      else if kind = 0x12 \<and> length body = 8 then write_or_fail s 0x13 body
      else if kind = 0x15 then Finished s (Err ''DERP server restarting'')
      else Continue s)"

fun session_step :: "session \<Rightarrow> session_event \<Rightarrow> session_flow" where
  "session_step s (Outgoing None) = Finished s (Ok ())"
| "session_step s (Outgoing (Some (destination, packet))) =
     (if max_packet < length packet then Continue s
      else write_or_fail s 4 (octets destination @ packet))"
| "session_step s (Frame None) = Finished s (Err ''DERP reader stopped'')"
| "session_step s (Frame (Some (Inl e))) = Finished s (Inl e)"
| "session_step s (Frame (Some (Inr (kind, body)))) = session_frame s kind body"
| "session_step s (Heartbeat ping) = write_or_fail s 0x12 (octets ping)"
| "session_step s IncomingClosed = Finished s (Ok ())"

text \<open>\<open>relay_session\<close>: events until one ends it.\<close>

fun relay_session :: "session \<Rightarrow> session_event list \<Rightarrow> session_flow" where
  "relay_session s [] = Continue s"
| "relay_session s (e # es) =
     (case session_step s e of
        Continue s' \<Rightarrow> relay_session s' es
      | Finished s' r \<Rightarrow> Finished s' r)"

text \<open>
  The inner loop of \<open>relay_loop\<close>: wait, try the region, double the wait up to ten seconds. The
  attempts are results of \<open>open_region\<close> under its timeout; the result is the waits (in
  milliseconds) and the stream, if an attempt gave one.
\<close>

definition next_delay :: "nat \<Rightarrow> nat" where
  "next_delay d = min (d * 2) 10000"

fun reconnect :: "nat \<Rightarrow> 's res option list \<Rightarrow> nat list \<times> 's option" where
  "reconnect delay [] = ([], None)"
| "reconnect delay (a # as) =
     (case a of
        Some (Inr stream) \<Rightarrow> ([delay], Some stream)
      | _ \<Rightarrow> (case reconnect (next_delay delay) as of (ds, r) \<Rightarrow> (delay # ds, r)))"

section \<open>The local relay\<close>

text \<open>
  \<open>start_local_relay\<close> keeps, per client key, the channel of its latest connection; a channel holds
  at most 256 packets and \<open>try_send\<close> drops what does not fit. Connections are numbered.
\<close>

definition local_region :: "u16 \<Rightarrow> region" where
  "local_region port =
     \<lparr>region_id = 1, region_code = ''test'', region_name = ''Local test relay'',
      nodes = [node_default\<lparr>node_name := ''t1'', node_region_id := 1, host_name := ''127.0.0.1'',
        node_ipv4 := ''127.0.0.1'', node_ipv6 := ''none'', stun_port := -1,
        derp_port := ucast port, insecure_for_tests := True\<rparr>]\<rparr>"

text \<open>The request headers of a client, before the relay answers 101.\<close>

fun lr_read_request :: "byte list \<Rightarrow> byte list \<Rightarrow> (byte list \<times> byte list) res" where
  "lr_read_request headers inp =
     (if ends_with headers (as_bytes (crlf @ crlf)) then Ok (headers, inp)
      else if 16384 < length headers then Err ''local DERP HTTP request too large''
      else (case inp of [] \<Rightarrow> Err ''early eof'' | b # inp \<Rightarrow> lr_read_request (headers @ [b]) inp))"

declare lr_read_request.simps [simp del]

definition lr_upgrade_response :: "byte list" where
  "lr_upgrade_response =
     as_bytes (''HTTP/1.1 101 Switching Protocols'' @ crlf @ ''Upgrade: DERP'' @ crlf @
       ''Connection: Upgrade'' @ crlf @ crlf)"

record local_relay =
  lr_clients :: "key \<rightharpoonup> nat"
  lr_queues :: "nat \<Rightarrow> packet list"

definition lr_greeting :: "crypto \<Rightarrow> key \<Rightarrow> byte list res" where
  "lr_greeting C key = write_frame [] 1 (derp_magic @ octets (public C key))"

text \<open>
  The client info frame: the client's key, and the server info frame to answer with. \<open>version_2\<close>
  tests the JSON and \<open>server_info\<close> is the JSON sent back.
\<close>

definition lr_accept ::
  "crypto \<Rightarrow> (byte list \<Rightarrow> bool) \<Rightarrow> byte list \<Rightarrow> nonce \<Rightarrow> key \<Rightarrow> frame \<Rightarrow> (key \<times> byte list) res" where
  "lr_accept C version_2 server_info nonce key f =
     (if fst f \<noteq> 2 \<or> length (snd f) < 72 then Err ''invalid DERP client info''
      else and_then (ok_or ''slice'' (try_into (take 32 (snd f)))) (\<lambda>pub.
           and_then (open_box C key pub (drop 32 (snd f))) (\<lambda>info.
           if \<not> version_2 info then Err ''local DERP requires protocol version 2''
           else and_then (seal_box C nonce key pub server_info) (\<lambda>sealed.
                and_then (write_frame [] 3 sealed) (\<lambda>out. Ok (pub, out))))))"

definition lr_register :: "local_relay \<Rightarrow> key \<Rightarrow> nat \<Rightarrow> local_relay" where
  "lr_register st pub ch =
     st\<lparr>lr_clients := (lr_clients st)(pub \<mapsto> ch), lr_queues := (lr_queues st)(ch := [])\<rparr>"

text \<open>A frame from the client \<open>pub\<close>: the new state and the bytes written back to it.\<close>

definition lr_frame :: "local_relay \<Rightarrow> key \<Rightarrow> byte \<Rightarrow> byte list \<Rightarrow> (local_relay \<times> byte list) res" where
  "lr_frame st pub kind body =
     (if kind = 4 then
        if length body < 32 \<or> 32 + max_packet < length body then Err ''invalid local DERP packet''
        else (case lr_clients st (arr (take 32 body)) of
                None \<Rightarrow> Ok (st, [])
              | Some ch \<Rightarrow>
                  if length (lr_queues st ch) < 256
                  then Ok (st\<lparr>lr_queues := (lr_queues st)(ch := lr_queues st ch @ [(pub, drop 32 body)])\<rparr>, [])
                  else Ok (st, []))
      else if kind = 0x12 \<and> length body = 8 then
        and_then (write_frame [] 0x13 body) (\<lambda>out. Ok (st, out))
      else Ok (st, []))"

text \<open>The next packet queued for a connection, written to it; a keepalive is an empty frame 6.\<close>

definition lr_deliver :: "local_relay \<Rightarrow> nat \<Rightarrow> (local_relay \<times> byte list) res" where
  "lr_deliver st ch =
     (case lr_queues st ch of
        [] \<Rightarrow> Ok (st, [])
      | (source, data) # q \<Rightarrow>
          and_then (write_frame [] 5 (octets source @ data)) (\<lambda>out.
          Ok (st\<lparr>lr_queues := (lr_queues st)(ch := q)\<rparr>, out)))"

text \<open>The end of a connection: the key is forgotten only if it still names this channel.\<close>

definition lr_close :: "local_relay \<Rightarrow> key \<Rightarrow> nat \<Rightarrow> local_relay" where
  "lr_close st pub ch =
     (if lr_clients st pub = Some ch then st\<lparr>lr_clients := (lr_clients st)(pub := None)\<rparr> else st)"

section \<open>Facts about the session\<close>

text \<open>What an event contributes to the channel and to the stream while the session goes on.\<close>

fun event_delivers :: "session_event \<Rightarrow> packet list" where
  "event_delivers (Frame (Some (Inr (kind, body)))) =
     (if kind = 5 then [(arr (take 32 body), drop 32 body)] else [])"
| "event_delivers _ = []"

fun event_frames :: "session_event \<Rightarrow> frame list" where
  "event_frames (Outgoing (Some (destination, packet))) =
     (if max_packet < length packet then [] else [(4, octets destination @ packet)])"
| "event_frames (Frame (Some (Inr (kind, body)))) =
     (if kind = 0x12 \<and> length body = 8 then [(0x13, body)] else [])"
| "event_frames (Heartbeat ping) = [(0x12, octets ping)]"
| "event_frames _ = []"

lemma max_sizes: "max_packet + 32 \<le> max_frame" "8 \<le> max_frame" "\<not> max_frame < 8"
  by (simp_all add: max_packet_def max_frame_def)

lemma event_frames_fit: "list_all frame_fits (event_frames e)"
  using max_sizes by (cases e rule: event_frames.cases) (auto simp: frame_fits_def max_packet_def max_frame_def)

lemma write_or_fail_eq:
  "length body \<le> max_frame \<Longrightarrow>
   write_or_fail s kind body = Continue (s\<lparr>sess_out := sess_out s @ frame_bytes (kind, body)\<rparr>)"
  by (simp add: write_or_fail_def write_frame_eq)

lemma session_step_Continue:
  assumes "session_step s e = Continue s'"
  shows "sess_incoming s' = sess_incoming s @ event_delivers e \<and>
    sess_out s' = sess_out s @ concat (map frame_bytes (event_frames e)) \<and>
    incoming_open s' = incoming_open s"
proof (cases e)
  case (Outgoing p)
  then show ?thesis using assms max_sizes
    by (cases p) (auto simp: write_or_fail_eq max_packet_def max_frame_def split: if_splits)
next
  case (Frame r)
  show ?thesis
  proof (cases r)
    case None
    with Frame assms show ?thesis by simp
  next
    case (Some f)
    show ?thesis
    proof (cases f)
      case (Inl e)
      with Frame Some assms show ?thesis by simp
    next
      case (Inr kb)
      obtain kind body where kb: "kb = (kind, body)" by (cases kb)
      from Frame Some Inr assms show ?thesis
        by (auto simp: kb session_frame_def write_or_fail_eq max_frame_def split: if_splits)
    qed
  qed
next
  case (Heartbeat ping)
  then show ?thesis using assms by (auto simp: write_or_fail_eq max_frame_def)
next
  case IncomingClosed
  then show ?thesis using assms by simp
qed

lemma relay_session_Continue:
  assumes "relay_session s es = Continue s'"
  shows "sess_incoming s' = sess_incoming s @ concat (map event_delivers es) \<and>
    sess_out s' = sess_out s @ concat (map frame_bytes (concat (map event_frames es)))"
  using assms
proof (induction es arbitrary: s)
  case Nil
  then show ?case by simp
next
  case (Cons e es)
  from Cons.prems obtain t where t: "session_step s e = Continue t" and r: "relay_session t es = Continue s'"
    by (auto split: session_flow.splits)
  from session_step_Continue [OF t] Cons.IH [OF r] show ?case by simp
qed

lemma list_all_event_frames: "list_all frame_fits (concat (map event_frames es))"
  by (induction es) (simp_all add: event_frames_fit)

lemma writes_Ok:
  "foldl (\<lambda>r f. and_then r (\<lambda>out. write_frame out (fst f) (snd f))) (Ok out) fs = Ok out' \<longleftrightarrow>
     list_all frame_fits fs \<and> out' = out @ concat (map frame_bytes fs)"
proof (induction fs arbitrary: out)
  case Nil
  then show ?case by auto
next
  case (Cons f fs)
  show ?case
    using Cons.IH [of "out @ frame_bytes f"] by (simp add: write_frame_eq frame_fits_def)
qed

lemma take_drop_tail: "drop i xs = p \<Longrightarrow> xs = take i xs @ p"
  by auto

lemma read_headers_Ok:
  "read_headers limit headers inp = Ok (hs, rest) \<Longrightarrow>
     (\<exists>ys. hs = headers @ ys \<and> inp = ys @ rest) \<and> ends_with hs (as_bytes (crlf @ crlf)) \<and>
     length hs \<le> max limit (length headers)"
proof (induction limit headers inp rule: read_headers.induct)
  case (1 limit headers inp)
  show ?case
  proof (cases "ends_with headers (as_bytes (crlf @ crlf))")
    case True
    with "1.prems" show ?thesis by (subst (asm) read_headers.simps) auto
  next
    case False
    with "1.prems" obtain b inp' where l: "length headers < limit" and inp: "inp = b # inp'"
      and r: "read_headers limit (headers @ [b]) inp' = Ok (hs, rest)"
      by (subst (asm) read_headers.simps) (auto split: if_splits list.splits)
    from "1.IH" [OF False _ inp r] l show ?thesis by (auto simp: inp)
  qed
qed

lemma read_headers_prefix:
  assumes "ends_with hs (as_bytes (crlf @ crlf))"
    and "\<And>i. i < length hs \<Longrightarrow> length headers \<le> i \<Longrightarrow> \<not> ends_with (take i hs) (as_bytes (crlf @ crlf))"
    and "length hs \<le> limit" and "hs = headers @ ys"
  shows "read_headers limit headers (ys @ rest) = Ok (hs, rest)"
  using assms(4) assms(2)
proof (induction ys arbitrary: headers)
  case Nil
  then show ?case using assms(1) by (subst read_headers.simps) simp
next
  case (Cons b ys)
  have "\<not> ends_with (take (length headers) hs) (as_bytes (crlf @ crlf))"
    using Cons.prems(1) by (intro Cons.prems(2)) auto
  then have ne: "\<not> ends_with headers (as_bytes (crlf @ crlf))" using Cons.prems(1) by simp
  have "length headers < limit" using Cons.prems(1) assms(3) by simp
  moreover have "read_headers limit (headers @ [b]) (ys @ rest) = Ok (hs, rest)"
    using Cons.prems by (intro Cons.IH) auto
  ultimately show ?case using ne by (subst read_headers.simps) simp
qed

lemma next_delay_range: "100 \<le> d \<Longrightarrow> d \<le> 10000 \<Longrightarrow> 100 \<le> next_delay d \<and> next_delay d \<le> 10000"
  by (simp add: next_delay_def)

lemma reconnect_delays:
  "100 \<le> delay \<Longrightarrow> delay \<le> 10000 \<Longrightarrow> d \<in> set (fst (reconnect delay as)) \<Longrightarrow> 100 \<le> d \<and> d \<le> 10000"
proof (induction as arbitrary: delay)
  case Nil
  then show ?case by simp
next
  case (Cons a as)
  have "d = delay \<or> d \<in> set (fst (reconnect (next_delay delay) as))"
    using Cons.prems(3) by (auto split: option.splits sum.splits prod.splits)
  then show ?case
    using Cons.prems next_delay_range [of delay] Cons.IH [of "next_delay delay"] by blast
qed

lemma open_nodes_Ok:
  "open_nodes attempt e ns = Ok s \<Longrightarrow>
     \<exists>pre n post. ns = pre @ n # post \<and> attempt n = Some (Ok s) \<and> (\<forall>m \<in> set pre. \<forall>t. attempt m \<noteq> Some (Ok t))"
proof (induction ns arbitrary: e)
  case Nil
  then show ?case by simp
next
  case (Cons n ns)
  show ?case
  proof (cases "\<exists>t. attempt n = Some (Ok t)")
    case True
    with Cons.prems have "attempt n = Some (Ok s)" by auto
    then show ?thesis by (intro exI [of _ "[]"] exI [of _ n] exI [of _ ns]) simp
  next
    case False
    with Cons.prems obtain e' where "open_nodes attempt e' ns = Ok s"
      by (auto split: option.splits sum.splits)
    from Cons.IH [OF this] obtain pre m post where "ns = pre @ m # post" "attempt m = Some (Ok s)"
      "\<forall>m \<in> set pre. \<forall>t. attempt m \<noteq> Some (Ok t)" by blast
    with False show ?thesis by (intro exI [of _ "n # pre"] exI [of _ m] exI [of _ post]) auto
  qed
qed

lemma lr_accept_hello:
  assumes laws: "box_opens C" "box_overhead C"
    and keys: "key \<noteq> zeros" "relay_key \<noteq> zeros" "public C key \<noteq> zeros" "public C relay_key \<noteq> zeros"
    and greet: "lr_greeting C relay_key = Ok greeting"
    and hello: "auth_hello C info n key f = Ok (server_key, out)"
    and f: "read_frame (greeting @ ys) = Ok (f, ys)"
  shows "server_key = public C relay_key \<and>
    (\<exists>hello_frame sealed. read_frame out = Ok (hello_frame, []) \<and> fst hello_frame = 2 \<and>
       snd hello_frame = octets (public C key) @ sealed \<and> open_box C relay_key (public C key) sealed = Ok info \<and>
       length sealed = length info + 40)"
proof -
  have g: "greeting = frame_bytes (1, derp_magic @ octets (public C relay_key))"
    using greet by (simp add: lr_greeting_def write_frame_eq split: if_splits)
  have "read_frame (greeting @ ys) = Ok ((1, derp_magic @ octets (public C relay_key)), ys)"
    unfolding g by (rule derp_frames.get_put) (simp add: frame_fits_def derp_magic_def max_frame_def)
  with f have f: "f = (1, derp_magic @ octets (public C relay_key))" by simp
  have "slice 8 40 (derp_magic @ octets (public C relay_key)) = octets (public C relay_key)"
    by (simp add: slice_def derp_magic_def)
  then have sk: "server_key = public C relay_key" and hello':
    "and_then (seal_box C n key (public C relay_key) info) (\<lambda>sealed.
       and_then (write_frame [] 2 (octets (public C key) @ sealed)) (\<lambda>out. Ok (server_key, out))) =
     Ok (server_key, out)"
    using hello by (auto simp: auth_hello_def f result_simps split: if_splits)
  from hello' obtain sealed where seal: "seal_box C n key (x25519_base C relay_key) info = Ok sealed"
    and w: "write_frame [] 2 (octets (public C key) @ sealed) = Ok out"
    by (auto simp: result_simps public_def)
  have "open_box C relay_key (public C key) sealed = Ok info"
    using open_seal_box [OF laws _ _ seal] keys by (simp add: public_def)
  moreover have "read_frame out = Ok ((2, octets (public C key) @ sealed), [])"
    using w derp_frames.get_put [of "(2, octets (public C key) @ sealed)" "[]"]
    by (auto simp: write_frame_eq frame_fits_def split: if_splits)
  moreover have "length sealed = length info + 40" using seal_box_length [OF laws(2) seal] .
  ultimately show ?thesis using sk by (intro conjI exI [of _ "(2, octets (public C key) @ sealed)"]) auto
qed

section \<open>Properties\<close>

text \<open>
  Framing is lossless: if every frame of a list can be written, the reader task reads exactly
  those frames from the bytes, in order, and then stops at the end of the stream; and two lists of
  frames with the same bytes are the same list.
\<close>

theorem derp_stream_roundtrip:
  assumes "foldl (\<lambda>r f. and_then r (\<lambda>out. write_frame out (fst f) (snd f))) (Ok []) fs = Ok out"
  shows "reader_task out = map Inr fs @ [Err ''early eof''] \<and>
    (foldl (\<lambda>r f. and_then r (\<lambda>out. write_frame out (fst f) (snd f))) (Ok []) gs = Ok out \<longrightarrow> gs = fs)"
proof -
  from assms have fits: "list_all frame_fits fs" and out: "out = concat (map frame_bytes fs)"
    unfolding writes_Ok by auto
  have eof: "reader_task [] = [Err ''early eof'']"
    by (subst reader_task.simps) (simp add: read_frame_def read_exact_def)
  have "reader_task (concat (map frame_bytes fs) @ []) = map Inr fs @ reader_task []"
    by (rule reader_task_frames [OF fits])
  moreover have "gs = fs" if "list_all frame_fits gs" "out = concat (map frame_bytes gs)"
    using derp_frames.put_stream_inject that fits out by metis
  ultimately show ?thesis unfolding writes_Ok by (auto simp: out eof)
qed

theorem derp_stream_roundtrip_witness:
  "reader_task [4, 0, 0, 0, 1, 7, 6, 0, 0, 0, 0] = [Inr (4, [7]), Inr (6, []), Err ''early eof'']"
proof -
  have "foldl (\<lambda>r f. and_then r (\<lambda>out. write_frame out (fst f) (snd f))) (Ok []) [(4, [7]), (6, [])] =
      Ok [4, 0, 0, 0, 1, 7, 6, 0, 0, 0, 0]"
    by (simp add: write_frame_def max_frame_def to_be_bytes_4)
  from derp_stream_roundtrip [OF this] show ?thesis by simp
qed

text \<open>
  A frame whose length field exceeds the limit is refused before its body is read, whatever
  follows, and no frame that is accepted has a longer body; a body over the limit is never written.
\<close>

theorem derp_frame_bounds:
  "(max_frame < unat (from_be_bytes [a, b, c, d] :: u32) \<longrightarrow>
      read_frame ([kind, a, b, c, d] @ rest) = Err ''DERP frame too large'') \<and>
   (read_frame inp = Ok (f, rest) \<longrightarrow> length (snd f) \<le> max_frame) \<and>
   (write_frame out kind body = Ok out' \<longrightarrow> length body \<le> max_frame)"
proof (intro conjI impI)
  assume "max_frame < unat (from_be_bytes [a, b, c, d] :: u32)"
  then show "read_frame ([kind, a, b, c, d] @ rest) = Err ''DERP frame too large''"
    by (simp add: read_frame_def read_exact_def numeral_eq_Suc)
next
  assume "read_frame inp = Ok (f, rest)"
  then show "length (snd f) \<le> max_frame" by (cases f) (auto simp: read_frame_Ok_iff)
next
  assume "write_frame out kind body = Ok out'"
  then show "length body \<le> max_frame" by (simp add: write_frame_eq split: if_splits)
qed

theorem derp_frame_bounds_witness:
  "read_frame ([4, 255, 255, 255, 255] @ [1, 2, 3]) = Err ''DERP frame too large''"
proof -
  have "from_be_bytes [255, 255, 255, 255] = (0xFFFFFFFF :: u32)"
    by (simp add: from_be_bytes_def)
  then have "max_frame < unat (from_be_bytes [255, 255, 255, 255] :: u32)"
    by (simp add: max_frame_def)
  with derp_frame_bounds [of 255 255 255 255] show ?thesis by blast
qed

text \<open>
  While a session goes on it delivers to the actor exactly the packets of the frames it was
  given, in that order, and writes exactly the frames its events ask for (packets out, pongs,
  heartbeats): nothing is lost, repeated or reordered in either direction except outgoing packets
  above 64 KiB, and what it wrote reads back as those frames.
\<close>

theorem relay_session_in_order:
  assumes "relay_session s es = Continue s'" and "sess_out s = []"
  shows "sess_incoming s' = sess_incoming s @ concat (map event_delivers es) \<and>
    get_many read_frame (length (concat (map event_frames es))) (sess_out s') =
      Ok (concat (map event_frames es), [])"
proof -
  from relay_session_Continue [OF assms(1)] assms(2)
  have out: "sess_out s' = concat (map frame_bytes (concat (map event_frames es)))"
    and inc: "sess_incoming s' = sess_incoming s @ concat (map event_delivers es)" by simp_all
  from derp_frames.get_many_put [OF list_all_event_frames, of es "[]"] out inc show ?thesis by simp
qed

theorem relay_session_in_order_witness:
  "\<exists>s'. relay_session \<lparr>sess_out = [], sess_incoming = [], incoming_open = True\<rparr>
       [Outgoing (Some (ref_key, [1])), Frame (Some (Inr (5, octets ref_key @ [9]))), Heartbeat zeros] = Continue s' \<and>
     sess_incoming s' = [(ref_key, [9])]"
proof -
  let ?s = "\<lparr>sess_out = [], sess_incoming = [], incoming_open = True\<rparr>"
  let ?es = "[Outgoing (Some (ref_key, [1])), Frame (Some (Inr (5, octets ref_key @ [9]))), Heartbeat zeros]"
  obtain s' where s': "relay_session ?s ?es = Continue s'"
    by (simp add: write_or_fail_eq session_frame_def max_packet_def max_frame_def)
  from relay_session_in_order [OF s'] have "sess_incoming s' = [(ref_key, [9])]" by simp
  with s' show ?thesis by blast
qed





text \<open>
  The HTTP upgrade reads exactly the response: it succeeds only on a header block of at most
  16 KiB that ends with the first empty line, has status 101 and an \<open>Upgrade: DERP\<close> header, and
  every byte after it is left for the DERP protocol.
\<close>

theorem http_upgrade_exact:
  assumes "read_http_upgrade inp = Ok rest"
  shows "\<exists>headers. inp = headers @ rest \<and> length headers \<le> 16384 \<and>
    ends_with headers (as_bytes (crlf @ crlf)) \<and> check_upgrade headers = Ok ()"
proof -
  from assms obtain headers where h: "read_headers 16384 [] inp = Ok (headers, rest)"
    and c: "check_upgrade headers = Ok ()"
    by (auto simp: read_http_upgrade_def result_simps)
  from read_headers_Ok [OF h] c show ?thesis by auto
qed

theorem http_upgrade_exact_witness:
  "\<exists>headers. as_bytes (''H 101'' @ crlf @ ''UPGRADE: derp'' @ crlf @ crlf) @ [1, 2] = headers @ [1, 2] \<and>
     check_upgrade headers = Ok ()"
proof -
  have "read_http_upgrade (as_bytes (''H 101'' @ crlf @ ''UPGRADE: derp'' @ crlf @ crlf) @ [1, 2]) = Ok [1, 2]"
    by code_simp
  from http_upgrade_exact [OF this] show ?thesis by blast
qed

text \<open>
  A pinned certificate hash is binding: with one, a relay is accepted exactly when the leaf
  certificate has that hash, whatever the Web PKI says and even for a node marked insecure; without
  one, and not marked insecure, acceptance is the Web PKI's for the expected or the host's name.
\<close>

theorem pinned_certificate_binding:
  assumes "cert_policy_of H valid_name n = Ok policy"
  shows "case strip_prefix ''sha256-raw:'' (cert_name n) of
      Some hash \<Rightarrow> (\<exists>raw. hex_decode H hash = Some (octets raw) \<and>
        (verify_server_cert sha256 normal policy cert name = Ok () \<longleftrightarrow> sha256 cert = raw))
    | None \<Rightarrow> \<not> insecure_for_tests n \<longrightarrow>
        verify_server_cert sha256 normal policy cert name =
          normal cert (if cert_name n = [] then name else cert_name n)"
  using assms
  by (auto simp: cert_policy_of_def verify_server_cert_def result_simps bind_eq_Some_conv
      split: option.splits if_splits)

theorem pinned_certificate_binding_witness:
  "verify_server_cert (\<lambda>_. ref_key) (\<lambda>_ _. Err ''untrusted'')
     \<lparr>expected_hash = None, expected_name = Some ''relay.test'', insecure = False\<rparr> [] ''host'' = Err ''untrusted''"
proof -
  have "cert_policy_of ref_hex (\<lambda>_. True) (node_default\<lparr>cert_name := ''relay.test''\<rparr>) =
      Ok \<lparr>expected_hash = None, expected_name = Some ''relay.test'', insecure = False\<rparr>"
    by (simp add: cert_policy_of_def strip_prefix_def starts_with_def node_default_def)
  from pinned_certificate_binding [OF this, of "\<lambda>_. ref_key" "\<lambda>_ _. Err ''untrusted''" "[]" "''host''"]
  show ?thesis by (simp add: strip_prefix_def starts_with_def node_default_def)
qed

end
