(* ===== verification/Endpoints.thy ===== *)
theory Endpoints
  imports Wire
begin

text \<open>
  Network endpoints in \<open>src/runtime.rs\<close>: which addresses may be probed (\<open>usable_endpoint\<close>), the
  bounded list of candidates (\<open>remember_endpoint\<close>), the addresses of the host's interfaces that are
  advertised, and the XOR-MAPPED-ADDRESS of a STUN response (\<open>parse_stun\<close>).
\<close>

section \<open>Candidates\<close>

definition max_candidates :: nat where
  "max_candidates = 32"

text \<open>\<open>is_unspecified\<close>, \<open>is_multicast\<close>, \<open>is_unicast_link_local\<close> and \<open>BROADCAST\<close> of the standard library.\<close>

fun is_unspecified :: "ip_addr \<Rightarrow> bool" where
  "is_unspecified (V4 a) = (a = zeros)"
| "is_unspecified (V6 a) = (a = zeros)"

fun is_multicast :: "ip_addr \<Rightarrow> bool" where
  "is_multicast (V4 a) = (octets a ! 0 AND 0xF0 = 0xE0)"
| "is_multicast (V6 a) = (octets a ! 0 = 0xFF)"

definition is_unicast_link_local :: "ipv6 \<Rightarrow> bool" where
  "is_unicast_link_local a = (octets a ! 0 = 0xFE \<and> octets a ! 1 AND 0xC0 = 0x80)"

definition broadcast :: ip_addr where
  "broadcast = V4 (arr [255, 255, 255, 255])"

definition usable_endpoint :: "sock_addr \<Rightarrow> bool" where
  "usable_endpoint endpoint =
     (let ip = (case fst endpoint of V6 ip \<Rightarrow> demap ip | V4 ip \<Rightarrow> V4 ip)
      in snd endpoint \<noteq> 0 \<and> \<not> is_unspecified ip \<and> \<not> is_multicast ip \<and> ip \<noteq> broadcast)"

text \<open>The list afterwards, and whether the endpoint was added.\<close>

definition remember_endpoint :: "sock_addr list \<Rightarrow> sock_addr \<Rightarrow> sock_addr list \<times> bool" where
  "remember_endpoint endpoints endpoint =
     (if \<not> usable_endpoint endpoint \<or> endpoint \<in> set endpoints then (endpoints, False)
      else let endpoints = (if length endpoints = max_candidates then drop 1 endpoints else endpoints)
           in (endpoints @ [endpoint], True))"

text \<open>
  The endpoints \<open>Actor::new\<close> starts with: one per usable interface address, at the port of the
  UDP socket; IPv6 only when the IPv6 socket could be bound.
\<close>

definition interface_usable :: "bool \<Rightarrow> ip_addr \<Rightarrow> bool" where
  "interface_usable has_udp6 ip =
     (\<not> is_unspecified ip \<and> \<not> is_multicast ip \<and>
      (case ip of V4 _ \<Rightarrow> True | V6 ip \<Rightarrow> has_udp6 \<and> \<not> is_unicast_link_local ip))"

definition interface_endpoints :: "bool \<Rightarrow> u16 \<Rightarrow> ip_addr list \<Rightarrow> sock_addr list" where
  "interface_endpoints has_udp6 port ips =
     foldl (\<lambda>endpoints ip.
       if interface_usable has_udp6 ip then fst (remember_endpoint endpoints (ip, port)) else endpoints) [] ips"

definition well_kept :: "sock_addr list \<Rightarrow> bool" where
  "well_kept endpoints \<longleftrightarrow>
     length endpoints \<le> max_candidates \<and> distinct endpoints \<and> list_all usable_endpoint endpoints"

lemma remember_well_kept: "well_kept es \<Longrightarrow> well_kept (fst (remember_endpoint es e))"
  by (auto simp: well_kept_def remember_endpoint_def Let_def max_candidates_def distinct_drop
      list_all_iff dest: in_set_dropD)

lemma well_kept_Nil [simp]: "well_kept []"
  by (simp add: well_kept_def)

lemma foldl_remember_well_kept:
  "well_kept es \<Longrightarrow> well_kept (foldl (\<lambda>es e. fst (remember_endpoint es e)) es xs)"
  by (induction xs arbitrary: es) (auto intro: remember_well_kept)

lemma interface_endpoints_well_kept [simp]: "well_kept (interface_endpoints u p ips)"
proof -
  have "well_kept es \<Longrightarrow> well_kept (foldl (\<lambda>endpoints ip.
       if interface_usable u ip then fst (remember_endpoint endpoints (ip, p)) else endpoints) es ips)" for es
    by (induction ips arbitrary: es) (auto intro: remember_well_kept)
  then show ?thesis by (simp add: interface_endpoints_def)
qed

lemma remember_mem:
  "set (fst (remember_endpoint es e)) \<subseteq> insert e (set es)"
  "snd (remember_endpoint es e) \<Longrightarrow> last (fst (remember_endpoint es e)) = e \<and> usable_endpoint e"
  by (auto simp: remember_endpoint_def Let_def dest: in_set_dropD split: if_splits)

interpretation candidates_table: bounded_table
  "\<lambda>e es. fst (remember_endpoint es e)" length max_candidates
  by unfold_locales (auto simp: remember_endpoint_def Let_def max_candidates_def)

section \<open>STUN\<close>

abbreviation be16 :: "byte list \<Rightarrow> nat \<Rightarrow> u16" where
  "be16 data i \<equiv> from_be_bytes [data ! i, data ! (i + 1)]"

text \<open>The address in the body of an IPv4 XOR-MAPPED-ADDRESS attribute.\<close>

definition xor_mapped :: "byte list \<Rightarrow> sock_addr" where
  "xor_mapped b =
     (V4 (arr [b ! 4 XOR 0x21, b ! 5 XOR 0x12, b ! 6 XOR 0xA4, b ! 7 XOR 0x42]), be16 b 2 XOR 0x2112)"

text \<open>The loop over the attributes: \<open>offset\<close> is where the next one starts.\<close>

function stun_attributes :: "byte list \<Rightarrow> nat \<Rightarrow> nat \<Rightarrow> sock_addr option" where
  "stun_attributes data len offset =
     (if len < offset + 4 then None
      else let kind = be16 data offset; size = unat (be16 data (offset + 2)); offset = offset + 4
      in if length data < offset + size then None
      else let b = slice offset (offset + size) data
      in if kind = 0x20 \<and> 8 \<le> size \<and> b ! 1 = 1 then Some (xor_mapped b)
      else stun_attributes data len (offset + (size + 3) div 4 * 4))"
  by pat_completeness auto
termination
  by (relation "measure (\<lambda>(data, len, offset). len - offset)") auto

declare stun_attributes.simps [simp del]

definition parse_stun :: "byte list \<Rightarrow> sock_addr option" where
  "parse_stun data =
     (if length data < 4 then None
      else let len = 20 + unat (be16 data 2)
      in if length data < len then None else stun_attributes data len 20)"

text \<open>The actor's test that a datagram is the response to its own STUN request.\<close>

definition is_stun_response :: "12 bytes \<Rightarrow> byte list \<Rightarrow> bool" where
  "is_stun_response txid data =
     (20 \<le> length data \<and> take 2 data = [1, 1] \<and> slice 4 8 data = [0x21, 0x12, 0xA4, 0x42] \<and>
      slice 8 20 data = octets txid)"

text \<open>
  What a response is by the protocol: a 20-byte header and attributes, each a kind, a length and a
  value padded to a multiple of four.
\<close>

definition stun_padding :: "nat \<Rightarrow> nat" where
  "stun_padding n = (4 - n mod 4) mod 4"

definition encode_attribute :: "u16 \<times> byte list \<Rightarrow> byte list" where
  "encode_attribute a =
     to_be_bytes 2 (fst a) @ to_be_bytes 2 (of_nat (length (snd a)) :: u16) @ snd a @
     replicate (stun_padding (length (snd a))) 0"

definition stun_response :: "12 bytes \<Rightarrow> (u16 \<times> byte list) list \<Rightarrow> byte list" where
  "stun_response txid attrs =
     (let body = concat (map encode_attribute attrs)
      in [1, 1] @ to_be_bytes 2 (of_nat (length body) :: u16) @ [0x21, 0x12, 0xA4, 0x42] @ octets txid @ body)"

definition encode_xor_mapped :: "ipv4 \<Rightarrow> u16 \<Rightarrow> u16 \<times> byte list" where
  "encode_xor_mapped ip port =
     (0x20, [0, 1] @ to_be_bytes 2 (port XOR 0x2112) @ map2 (XOR) (octets ip) [0x21, 0x12, 0xA4, 0x42])"

definition is_xor_mapped :: "u16 \<times> byte list \<Rightarrow> bool" where
  "is_xor_mapped a = (fst a = 0x20 \<and> 8 \<le> length (snd a) \<and> snd a ! 1 = 1)"

lemma padded_length: "n + stun_padding n = (n + 3) div 4 * 4"
proof -
  define q r where "q = n div 4" and "r = n mod 4"
  have n: "n = 4 * q + r" and "r < 4" by (simp_all add: q_def r_def)
  then consider "r = 0" | "r = 1" | "r = 2" | "r = 3" by linarith
  moreover have "stun_padding n = (4 - r) mod 4" by (simp add: stun_padding_def r_def)
  moreover have "(n + 3) div 4 = q + (r + 3) div 4" using div_mult_self4 [of 4 q "r + 3"] by (simp add: n add.assoc)
  ultimately show ?thesis by cases (simp_all add: n)
qed

lemma length_encode_attribute:
  "length (encode_attribute a) = 4 + (length (snd a) + 3) div 4 * 4"
  using padded_length [of "length (snd a)"] by (simp add: encode_attribute_def)

lemma be16_append: "i = length p \<Longrightarrow> be16 (p @ to_be_bytes 2 w @ r) i = w"
  using from_to_be_bytes [where n = 2 and w = w]
  by (simp add: to_be_bytes_2 nth_append)

lemma stun_attributes_step:
  assumes "offset + 4 \<le> len" "be16 data offset = kind" "unat (be16 data (offset + 2)) = n"
    and "offset + 4 + n \<le> length data" "slice (offset + 4) (offset + 4 + n) data = b"
  shows "stun_attributes data len offset =
    (if kind = 0x20 \<and> 8 \<le> n \<and> b ! 1 = 1 then Some (xor_mapped b)
     else stun_attributes data len (offset + 4 + (n + 3) div 4 * 4))"
  using assms by (subst stun_attributes.simps) (simp only: Let_def not_less [symmetric] if_False)

lemma stun_attributes_encoded:
  assumes "list_all (\<lambda>a. length (snd a) < 65536) attrs"
  shows "stun_attributes (pre @ concat (map encode_attribute attrs)) (length pre + length (concat (map encode_attribute attrs)))
      (length pre) = map_option (\<lambda>a. xor_mapped (snd a)) (find is_xor_mapped attrs)"
  using assms
proof (induction attrs arbitrary: pre)
  case Nil
  show ?case by (subst stun_attributes.simps) simp
next
  case (Cons a attrs)
  let ?n = "length (snd a)" and ?rest = "concat (map encode_attribute attrs)"
  let ?tail = "snd a @ replicate (stun_padding ?n) 0 @ ?rest"
  let ?data = "pre @ concat (map encode_attribute (a # attrs))"
  have data: "?data = pre @ to_be_bytes 2 (fst a) @ to_be_bytes 2 (of_nat ?n :: u16) @ ?tail"
    by (simp add: encode_attribute_def)
  have kind: "be16 ?data (length pre) = fst a" unfolding data by (rule be16_append) simp
  have "be16 ((pre @ to_be_bytes 2 (fst a)) @ to_be_bytes 2 (of_nat ?n :: u16) @ ?tail) (length pre + 2) = of_nat ?n"
    by (rule be16_append) simp
  then have "be16 ?data (length pre + 2) = (of_nat ?n :: u16)" unfolding data by simp
  then have size: "unat (be16 ?data (length pre + 2) :: u16) = ?n"
    using Cons.prems by (simp add: unat_of_nat)
  have b: "slice (length pre + 4) (length pre + 4 + ?n) ?data = snd a"
    unfolding data by (simp add: slice_def)
  have len: "length ?data = length pre + length (encode_attribute a) + length ?rest" by simp
  note next_off = length_encode_attribute [of a]
  have IH: "stun_attributes ?data (length pre + length (concat (map encode_attribute (a # attrs))))
      (length pre + 4 + (?n + 3) div 4 * 4) = map_option (\<lambda>a. xor_mapped (snd a)) (find is_xor_mapped attrs)"
    using Cons.IH [of "pre @ encode_attribute a"] Cons.prems next_off by (simp add: add.assoc)
  have fits: "length pre + 4 + ?n \<le> length ?data"
    using len next_off padded_length [of ?n] by simp
  have room: "length pre + 4 \<le> length pre + length (concat (map encode_attribute (a # attrs)))"
    using next_off by simp
  show ?case
    unfolding stun_attributes_step [OF room kind size fits b] IH
    by (simp add: is_xor_mapped_def [of a])
qed

lemma xor_mapped_encode: "xor_mapped (snd (encode_xor_mapped ip port)) = (V4 ip, port)"
proof -
  obtain a b c d where ip: "octets ip = [a, b, c, d]"
  proof -
    have "length (octets ip) = Suc (Suc (Suc (Suc 0)))" by simp
    then show thesis using that unfolding length_Suc_conv length_0_conv by blast
  qed
  have x: "(w XOR v) XOR v = w" for w v :: byte by (simp add: xor.assoc)
  have y: "(w XOR v) XOR v = w" for w v :: u16 by (simp add: xor.assoc)
  define w where "w = port XOR 0x2112"
  have e: "snd (encode_xor_mapped ip port) =
      [0, 1] @ to_be_bytes 2 w @ [a XOR 0x21, b XOR 0x12, c XOR 0xA4, d XOR 0x42]"
    by (simp add: encode_xor_mapped_def ip w_def)
  have "be16 (snd (encode_xor_mapped ip port)) 2 = w" unfolding e by (rule be16_append) simp
  moreover have "w XOR 0x2112 = port" unfolding w_def by (rule y)
  moreover have "arr [a, b, c, d] = ip" by (simp add: arr_eq_iff ip)
  moreover have "snd (encode_xor_mapped ip port) ! 4 = a XOR 0x21" "snd (encode_xor_mapped ip port) ! 5 = b XOR 0x12"
    "snd (encode_xor_mapped ip port) ! 6 = c XOR 0xA4" "snd (encode_xor_mapped ip port) ! 7 = d XOR 0x42"
    unfolding e by (simp_all add: to_be_bytes_2)
  ultimately show ?thesis by (simp only: xor_mapped_def x)
qed

section \<open>Properties\<close>

text \<open>
  A STUN response to the actor's own request is recognised, and the address found in it is the
  one in its first IPv4 XOR-MAPPED-ADDRESS attribute, wherever that stands among the attributes;
  an attribute that encodes an endpoint decodes to that endpoint.
\<close>

theorem stun_response_parses:
  assumes "list_all (\<lambda>a. length (snd a) < 65536) attrs" "length (concat (map encode_attribute attrs)) < 65536"
  shows "is_stun_response txid (stun_response txid attrs) \<and>
    parse_stun (stun_response txid attrs) = map_option (\<lambda>a. xor_mapped (snd a)) (find is_xor_mapped attrs) \<and>
    xor_mapped (snd (encode_xor_mapped ip port)) = (V4 ip, port)"
proof -
  let ?body = "concat (map encode_attribute attrs)"
  let ?h = "[1, 1] @ to_be_bytes 2 (of_nat (length ?body) :: u16) @ [0x21, 0x12, 0xA4, 0x42] @ octets txid"
  have eq: "stun_response txid attrs = ?h @ ?body" by (simp add: stun_response_def Let_def)
  have "be16 ([1, 1] @ to_be_bytes 2 (of_nat (length ?body) :: u16) @ [0x21, 0x12, 0xA4, 0x42] @ octets txid @ ?body) 2 =
      of_nat (length ?body)" by (rule be16_append) simp
  then have len: "unat (be16 (stun_response txid attrs) 2) = length ?body"
    using assms(2) by (simp add: eq unat_of_nat)
  have "length ?h = 20" by simp
  with stun_attributes_encoded [OF assms(1), of ?h]
  have "stun_attributes (stun_response txid attrs) (20 + length ?body) 20 =
      map_option (\<lambda>a. xor_mapped (snd a)) (find is_xor_mapped attrs)" unfolding eq by (simp only:)
  moreover have "\<not> length (stun_response txid attrs) < 4" "length (stun_response txid attrs) = 20 + length ?body"
    by (simp_all add: eq)
  ultimately have "parse_stun (stun_response txid attrs) = map_option (\<lambda>a. xor_mapped (snd a)) (find is_xor_mapped attrs)"
    unfolding parse_stun_def Let_def len by simp
  moreover have "is_stun_response txid (stun_response txid attrs)"
    by (simp add: is_stun_response_def eq slice_def to_be_bytes_2)
  ultimately show ?thesis by (simp add: xor_mapped_encode)
qed

theorem stun_response_parses_witness:
  "parse_stun (stun_response zeros [(0x8022, [7, 7, 7, 7, 7]), encode_xor_mapped (arr [192, 0, 2, 1]) 4242]) =
     Some (V4 (arr [192, 0, 2, 1]), 4242)"
proof -
  let ?a = "(0x8022, [7, 7, 7, 7, 7]) :: u16 \<times> byte list" and ?b = "encode_xor_mapped (arr [192, 0, 2, 1]) 4242"
  have len: "length (snd ?b) = 8" by (simp add: encode_xor_mapped_def)
  have "is_xor_mapped ?b" "\<not> is_xor_mapped ?a" by (simp_all add: is_xor_mapped_def encode_xor_mapped_def)
  then have f: "find is_xor_mapped [?a, ?b] = Some ?b" by simp
  have 1: "list_all (\<lambda>a. length (snd a) < 65536) [?a, ?b]" by (simp add: len)
  have 2: "length (concat (map encode_attribute [?a, ?b])) < 65536" by (simp add: length_encode_attribute len)
  from stun_response_parses [OF 1 2, of zeros "arr [192, 0, 2, 1]" 4242] show ?thesis
    by (simp only: f) simp
qed

text \<open>
  However many endpoints are offered, a candidate list stays within its bound, holds no endpoint
  twice and only usable ones; a usable new endpoint is always the most recent entry afterwards, and
  an endpoint that is not usable (no port, unspecified, multicast or the broadcast address, also in
  its IPv4-mapped form) is never kept.
\<close>

theorem candidates_bounded:
  "(length es \<le> max_candidates \<longrightarrow>
      length (fold (\<lambda>e es. fst (remember_endpoint es e)) offered es) \<le> max_candidates) \<and>
   (well_kept es \<longrightarrow> well_kept (fold (\<lambda>e es. fst (remember_endpoint es e)) offered es)) \<and>
   (usable_endpoint e \<and> e \<notin> set es \<longrightarrow>
      last (fst (remember_endpoint es e)) = e \<and> snd (remember_endpoint es e)) \<and>
   (\<not> usable_endpoint e \<longrightarrow> fst (remember_endpoint es e) = es) \<and>
   usable_endpoint (V6 (to_ipv6_mapped a), p) = usable_endpoint (V4 a, p)"
proof (intro conjI impI)
  show "length (fold (\<lambda>e es. fst (remember_endpoint es e)) offered es) \<le> max_candidates"
    if "length es \<le> max_candidates" using that by (rule candidates_table.steps_bounded)
  show "well_kept (fold (\<lambda>e es. fst (remember_endpoint es e)) offered es)" if "well_kept es"
    using foldl_remember_well_kept [OF that, of offered] by (simp add: foldl_conv_fold)
  show "usable_endpoint (V6 (to_ipv6_mapped a), p) = usable_endpoint (V4 a, p)"
    by (simp add: usable_endpoint_def demap_def)
qed (auto simp: remember_endpoint_def Let_def)

theorem candidates_bounded_witness:
  "snd (remember_endpoint [] (V4 (arr [127, 0, 0, 1]), 9)) \<and> \<not> usable_endpoint (V4 zeros, 9)"
proof -
  have "usable_endpoint (V4 (arr [127, 0, 0, 1]), 9)"
    by (simp add: usable_endpoint_def broadcast_def arr_eq_iff flip: octets_eq_iff) (simp add: numeral_eq_Suc)
  moreover have "\<not> usable_endpoint (V4 zeros, 9)" by (simp add: usable_endpoint_def)
  ultimately show ?thesis using candidates_bounded [of "[]" "[]" "(V4 (arr [127, 0, 0, 1]), 9)"] by simp
qed

end
