(* ===== verification/ActorState.thy ===== *)
theory ActorState
  imports Endpoints Address "HOL-Library.AList"
begin

text \<open>
  The state of the task that owns the network (\<open>Actor\<close> in \<open>src/runtime.rs\<close>), the types of its
  commands and results, and the way it reaches the outside.

  Everything that is not code of the repository is behind one environment record, \<open>env\<close>: the
  WireGuard tunnels of boringtun (one per peer, named by the peer's key), the TCP stack, sockets and
  parsers of smoltcp, tokio's channels, pipes and cancellation tokens, the sockets of the operating
  system and randomness. Its functions work on a type \<open>'w\<close>, the outside world, which the actor
  state carries and every such call threads. What the actor asked the outside to do is in the log
  \<open>sent\<close>, in order.

  A handler runs at one reading of the clock. Instants are integers, in nanoseconds.
\<close>

named_theorems actor_frame \<open>which parts of the state an operation leaves alone\<close>

section \<open>Types\<close>

type_synonym instant = int
type_synonym txid = "12 bytes"
type_synonym chan = nat
type_synonym flow = "sock_addr \<times> sock_addr"
type_synonym ip_endpoint = "ipv6 \<times> u16"

definition secs :: "int \<Rightarrow> instant" where
  "secs n = 1000000000 * n"

definition millis :: "int \<Rightarrow> instant" where
  "millis n = 1000000 * n"

datatype tunn_result =
    TunnDone
  | TunnErr
  | WriteToNetwork "byte list"
  | WriteToTunnelV4 "byte list"
  | WriteToTunnelV6 "byte list"

datatype tcp_state =
    Closed | Listen | SynSent | SynReceived | Established | FinWait1 | FinWait2 | CloseWait
  | Closing | LastAck | TimeWait

text \<open>\<open>Poll\<close> of the pipe operations: not ready, an amount or bytes, or an I/O error.\<close>

datatype 'a poll = Pending | Ready 'a | Failed

record ip6 =
  ip_version :: byte
  next_header :: byte
  src_addr :: ipv6
  dst_addr :: ipv6
  ip_payload :: "byte list"

datatype tcp_control = CtlNone | CtlPsh | CtlSyn | CtlFin | CtlRst

record tcp_repr =
  tcp_src :: u16
  tcp_dst :: u16
  control :: tcp_control
  ack_number :: "u32 option"

record udp_repr =
  udp_src :: u16
  udp_dst :: u16
  udp_payload :: "byte list"

record datagram_stream =
  ds_flow :: flow
  ds_incoming :: chan
  ds_closed :: chan

datatype accepted = AcceptedTcp chan | AcceptedUdp datagram_stream

datatype message = Datagram "byte list" | Accept accepted

record 'w env =
  crypto_lib :: crypto
  hash_order :: "key list \<Rightarrow> key list"
  random_txid :: "'w \<Rightarrow> txid \<times> 'w"
  random_nonce :: "'w \<Rightarrow> nonce \<times> 'w"
  tunn_new :: "'w \<Rightarrow> key \<Rightarrow> key \<Rightarrow> key option \<Rightarrow> u32 \<Rightarrow> 'w"
  tunn_decapsulate :: "'w \<Rightarrow> key \<Rightarrow> ip_addr option \<Rightarrow> byte list \<Rightarrow> tunn_result \<times> 'w"
  tunn_encapsulate :: "'w \<Rightarrow> key \<Rightarrow> byte list \<Rightarrow> tunn_result \<times> 'w"
  tunn_update_timers :: "'w \<Rightarrow> key \<Rightarrow> tunn_result \<times> 'w"
  tunn_stats :: "'w \<Rightarrow> key \<Rightarrow> instant option \<times> u64 \<times> u64"
  relay_try_send :: "'w \<Rightarrow> key \<Rightarrow> byte list \<Rightarrow> 'w"
  udp_send_to :: "'w \<Rightarrow> bool \<Rightarrow> sock_addr \<Rightarrow> byte list \<Rightarrow> bool \<times> 'w"
  channel_new :: "'w \<Rightarrow> nat \<Rightarrow> chan \<times> 'w"
  channel_closed :: "'w \<Rightarrow> chan \<Rightarrow> bool"
  try_send :: "'w \<Rightarrow> chan \<Rightarrow> message \<Rightarrow> bool \<times> 'w"
  reply_closed :: "'w \<Rightarrow> chan \<Rightarrow> bool"
  token_new :: "'w \<Rightarrow> chan \<times> 'w"
  token_cancel :: "'w \<Rightarrow> chan \<Rightarrow> 'w"
  token_cancelled :: "'w \<Rightarrow> chan \<Rightarrow> bool"
  ipv6_packet :: "byte list \<Rightarrow> ip6 option"
  parse_tcp :: "byte list \<Rightarrow> ipv6 \<Rightarrow> ipv6 \<Rightarrow> tcp_repr option"
  parse_udp :: "byte list \<Rightarrow> ipv6 \<Rightarrow> ipv6 \<Rightarrow> udp_repr option"
  udp_checksum :: "ipv6 \<Rightarrow> ipv6 \<Rightarrow> byte list \<Rightarrow> u16"
  stack_poll :: "'w \<Rightarrow> instant \<Rightarrow> byte list list \<Rightarrow> byte list list \<times> byte list list \<times> 'w"
  sock_connect :: "'w \<Rightarrow> ip_endpoint \<Rightarrow> ip_endpoint \<Rightarrow> nat res \<times> 'w"
  sock_listen :: "'w \<Rightarrow> ip_endpoint \<Rightarrow> nat option \<times> 'w"
  sock_remove :: "'w \<Rightarrow> nat \<Rightarrow> 'w"
  sock_state :: "'w \<Rightarrow> nat \<Rightarrow> tcp_state"
  sock_can_send :: "'w \<Rightarrow> nat \<Rightarrow> bool"
  sock_can_recv :: "'w \<Rightarrow> nat \<Rightarrow> bool"
  sock_may_recv :: "'w \<Rightarrow> nat \<Rightarrow> bool"
  sock_room :: "'w \<Rightarrow> nat \<Rightarrow> nat"
  sock_abort :: "'w \<Rightarrow> nat \<Rightarrow> 'w"
  sock_close :: "'w \<Rightarrow> nat \<Rightarrow> 'w"
  sock_send :: "'w \<Rightarrow> nat \<Rightarrow> byte list \<Rightarrow> 'w"
  sock_received :: "'w \<Rightarrow> nat \<Rightarrow> byte list"
  sock_consume :: "'w \<Rightarrow> nat \<Rightarrow> nat \<Rightarrow> 'w"
  duplex :: "'w \<Rightarrow> nat \<Rightarrow> (chan \<times> chan) \<times> 'w"
  pipe_read :: "'w \<Rightarrow> chan \<Rightarrow> nat \<Rightarrow> byte list poll \<times> 'w"
  pipe_write :: "'w \<Rightarrow> chan \<Rightarrow> byte list \<Rightarrow> nat poll \<times> 'w"
  pipe_shutdown :: "'w \<Rightarrow> chan \<Rightarrow> bool \<times> 'w"

text \<open>
  What the program relies on of smoltcp's IPv6 parser: the version is the first four bits, and the
  source, destination, next header and payload are the bytes at their places in the header.
\<close>

definition ipv6_law :: "'w env \<Rightarrow> bool" where
  "ipv6_law E \<longleftrightarrow>
     (\<forall>p ip. ipv6_packet E p = Some ip \<longrightarrow>
        40 \<le> length p \<and> octets (src_addr ip) = slice 8 24 p \<and> octets (dst_addr ip) = slice 24 40 p)"

text \<open>The iteration order of a hash map is some order of its keys.\<close>

definition hash_order_law :: "'w env \<Rightarrow> bool" where
  "hash_order_law E \<longleftrightarrow>
     (\<forall>ks. set (hash_order E ks) = set ks \<and> (distinct ks \<longrightarrow> distinct (hash_order E ks)))"

section \<open>Configuration, peers and links\<close>

record server_config =
  cfg_key :: "key option"
  cfg_preshared_key :: "key option"
  disable_preshared_key :: bool
  cfg_region :: "region option"
  cfg_region_id :: i64
  allowed_clients :: "key list"
  on_tcp :: "(u16 \<Rightarrow> nat option) option"
  on_tcp_forward :: "(sock_addr \<Rightarrow> nat option) option"
  served_tcp_ports :: "(u16 \<times> u16) list option"
  on_udp :: "(u16 \<Rightarrow> nat option) option"
  on_udp_forward :: "(sock_addr \<Rightarrow> nat option) option"
  served_udp_ports :: "(u16 \<times> u16) list option"
  udp_idle_timeout :: "instant option"

text \<open>A TCP handler: one of the configuration's, or the one that hands the stream to a listener.\<close>

datatype tcp_handler = Service nat | ToListener chan

record connection_info =
  peer_key_of :: key
  remote_addr :: sock_addr
  local_addr :: sock_addr

record peer =
  peer_key :: key
  disco_key :: key
  direct :: "(sock_addr \<times> instant) option"
  candidates :: "sock_addr list"

record link =
  socket :: nat
  link_flow :: "ip_endpoint \<times> ip_endpoint"
  pipe :: chan
  app :: "chan option"
  connected :: "chan option"
  handler :: "tcp_handler option"
  write_closed :: bool
  read_closed :: bool
  link_started :: instant

record pending_ping =
  ping_started :: instant
  ping_sent :: instant
  ping_disco :: bool
  ping_txid :: txid
  ping_result :: chan

record udp_flow =
  flow_tx :: chan
  flow_closed :: chan
  touched :: instant

record ping_answer =
  latency :: instant
  answer_endpoint :: "sock_addr option"
  answer_region_id :: i64

record peer_status =
  ps_public_key :: key
  ps_address :: ipv6
  direct_endpoint :: "sock_addr option"
  handshake_age :: "instant option"
  tx_bytes :: u64
  rx_bytes :: u64

record runtime_status =
  rs_address :: ipv6
  rs_public_key :: key
  rs_region_id :: i64
  active_tcp_connections :: nat
  rs_peers :: "peer_status list"

text \<open>What is sent on the one-shot channel of a command.\<close>

datatype reply =
    ListenReply "(u16 \<times> chan) res"
  | FlowReply "datagram_stream res"
  | SentReply
  | StatusReply runtime_status
  | StreamReply "chan res"
  | PingReply "ping_answer res"
  | DrainReply

datatype effect =
    RelaySend key "byte list"
  | UdpSend sock_addr "byte list"
  | Deliver chan message
  | Reply chan reply
  | SpawnTcp tcp_handler chan connection_info
  | SpawnUdp nat datagram_stream
  | StunRequests "(string \<times> u16) list" "byte list"

datatype command =
    CmdListen bool u16 chan
  | CmdDialUdp sock_addr chan
  | CmdSendUdp flow "byte list" chan chan
  | CmdStatus chan
  | CmdDial sock_addr chan
  | CmdPing bool chan
  | CmdDrain chan
  | CmdAllow key

section \<open>The actor\<close>

record 'w actor =
  own_key :: key
  local_ip :: ipv6
  own_region :: region
  config :: "server_config option"
  server :: "key option"
  psk :: "key option"
  peers :: "(key \<times> peer) list"
  dev_incoming :: "byte list list"
  dev_outgoing :: "byte list list"
  links :: "link list"
  udp_flows :: "(flow \<times> udp_flow) list"
  listeners :: "((bool \<times> u16) \<times> chan) list"
  has_udp6 :: bool
  endpoints :: "sock_addr list"
  next_port :: u16
  last_timers :: instant
  last_advertise :: instant
  pings :: "pending_ping list"
  probes :: "(txid \<times> (key \<times> sock_addr \<times> instant)) list"
  drains :: "chan list"
  stun_txid :: txid
  clock :: instant
  world :: 'w
  sent :: "effect list"

text \<open>\<open>Instant::elapsed\<close>, which saturates at zero.\<close>

definition elapsed :: "'w actor \<Rightarrow> instant \<Rightarrow> instant" where
  "elapsed s t = max 0 (clock s - t)"

definition buffer_size :: nat where "buffer_size = 256 * 1024"
definition max_peers :: nat where "max_peers = 1024"
definition max_connections :: nat where "max_connections = 256"
definition max_pending_pings :: nat where "max_pending_pings = 128"
definition max_probes :: nat where "max_probes = 4096"

definition emit :: "effect \<Rightarrow> 'w actor \<Rightarrow> 'w actor" where
  "emit e s = s\<lparr>sent := sent s @ [e]\<rparr>"

abbreviation reply :: "chan \<Rightarrow> reply \<Rightarrow> 'w actor \<Rightarrow> 'w actor" where
  "reply c r \<equiv> emit (Reply c r)"

text \<open>\<open>let _ = self.relay.outgoing.try_send((key, data))\<close>.\<close>

definition relay_send :: "'w env \<Rightarrow> key \<Rightarrow> byte list \<Rightarrow> 'w actor \<Rightarrow> 'w actor" where
  "relay_send E key data s =
     (emit (RelaySend key data) s)\<lparr>world := relay_try_send E (world s) key data\<rparr>"

text \<open>\<open>send_udp\<close>: whether the socket took the datagram.\<close>

definition send_udp :: "'w env \<Rightarrow> byte list \<Rightarrow> sock_addr \<Rightarrow> 'w actor \<Rightarrow> bool \<times> 'w actor" where
  "send_udp E data endpoint s =
     (if (case fst endpoint of V4 _ \<Rightarrow> True | V6 _ \<Rightarrow> has_udp6 s) then
        (case udp_send_to E (world s) (case fst endpoint of V4 _ \<Rightarrow> False | V6 _ \<Rightarrow> True) endpoint data of
           (ok, w) \<Rightarrow> (ok, (emit (UdpSend endpoint data) s)\<lparr>world := w\<rparr>))
      else (False, s))"

definition draw_txid :: "'w env \<Rightarrow> 'w actor \<Rightarrow> txid \<times> 'w actor" where
  "draw_txid E s = (case random_txid E (world s) of (t, w) \<Rightarrow> (t, s\<lparr>world := w\<rparr>))"

text \<open>\<open>seal_disco\<close> with a fresh nonce, to the disco key of a peer.\<close>

definition seal_to :: "'w env \<Rightarrow> key \<Rightarrow> byte list \<Rightarrow> 'w actor \<Rightarrow> byte list res \<times> 'w actor" where
  "seal_to E peer_disco data s =
     (case random_nonce E (world s) of
        (n, w) \<Rightarrow> (rt_seal_disco (crypto_lib E) n (own_key s) peer_disco data, s\<lparr>world := w\<rparr>))"

text \<open>
  \<open>send_packet\<close>: on the direct path if it was confirmed less than fifteen seconds ago and the
  socket takes the datagram, and through the relay otherwise.
\<close>

definition direct_path :: "'w actor \<Rightarrow> key \<Rightarrow> sock_addr option" where
  "direct_path s key =
     (case Option.bind (map_of (peers s) key) direct of
        Some (endpoint, when) \<Rightarrow> if elapsed s when < secs 15 then Some endpoint else None
      | None \<Rightarrow> None)"

definition send_packet :: "'w env \<Rightarrow> key \<Rightarrow> byte list \<Rightarrow> 'w actor \<Rightarrow> 'w actor" where
  "send_packet E key packet s =
     (case direct_path s key of
        Some endpoint \<Rightarrow>
          (case send_udp E packet endpoint s of
             (True, s) \<Rightarrow> s
           | (False, s) \<Rightarrow> relay_send E key packet s)
      | None \<Rightarrow> relay_send E key packet s)"

section \<open>What the outgoing operations leave alone\<close>

text \<open>
  \<open>outgoing s s'\<close>: from \<open>s\<close> to \<open>s'\<close> only the outside world was called and the log has grown.
\<close>

definition outgoing :: "'w actor \<Rightarrow> 'w actor \<Rightarrow> bool" where
  "outgoing s s' \<longleftrightarrow> (\<exists>es w. s' = s\<lparr>sent := sent s @ es, world := w\<rparr>)"

lemma outgoingI: "s' = s\<lparr>sent := sent s @ es, world := w\<rparr> \<Longrightarrow> outgoing s s'"
  unfolding outgoing_def by blast

lemma outgoing_refl [simp, intro]: "outgoing s s"
  by (rule outgoingI [where es = "[]" and w = "world s"]) simp

lemma outgoing_trans [trans]: "outgoing s t \<Longrightarrow> outgoing t u \<Longrightarrow> outgoing s u"
proof -
  assume "outgoing s t" "outgoing t u"
  then obtain es w es' w' where "t = s\<lparr>sent := sent s @ es, world := w\<rparr>"
    "u = t\<lparr>sent := sent t @ es', world := w'\<rparr>" unfolding outgoing_def by blast
  then show "outgoing s u" by (intro outgoingI [where es = "es @ es'" and w = w']) simp
qed

lemma outgoing_frame:
  assumes "outgoing s s'"
  shows "own_key s' = own_key s" "local_ip s' = local_ip s" "own_region s' = own_region s"
    "config s' = config s" "server s' = server s" "psk s' = psk s" "peers s' = peers s"
    "dev_incoming s' = dev_incoming s" "dev_outgoing s' = dev_outgoing s" "links s' = links s"
    "udp_flows s' = udp_flows s" "listeners s' = listeners s" "has_udp6 s' = has_udp6 s"
    "endpoints s' = endpoints s" "next_port s' = next_port s" "last_timers s' = last_timers s"
    "last_advertise s' = last_advertise s" "pings s' = pings s" "probes s' = probes s"
    "drains s' = drains s" "stun_txid s' = stun_txid s" "clock s' = clock s"
  using assms by (auto simp: outgoing_def)

lemma outgoing_emit [simp]: "outgoing s (emit e s)"
  by (rule outgoingI [where es = "[e]" and w = "world s"]) (simp add: emit_def)

lemma outgoing_relay_send [simp]: "outgoing s (relay_send E key data s)"
  by (rule outgoingI [where es = "[RelaySend key data]"]) (simp add: relay_send_def emit_def)

lemma outgoing_send_udp [simp]: "outgoing s (snd (send_udp E data endpoint s))"
  by (auto simp: send_udp_def emit_def split: prod.splits intro: outgoingI [where es = "[UdpSend endpoint data]"])

lemma outgoing_draw_txid [simp]: "outgoing s (snd (draw_txid E s))"
  by (auto simp: draw_txid_def split: prod.splits intro: outgoingI [where es = "[]"])

lemma outgoing_seal_to [simp]: "outgoing s (snd (seal_to E k d s))"
  by (auto simp: seal_to_def split: prod.splits intro: outgoingI [where es = "[]"])

lemma outgoing_send_packet [simp]: "outgoing s (send_packet E key packet s)"
proof -
  have "outgoing s t" if "send_udp E packet ep s = (b, t)" for ep b t
    using outgoing_send_udp [of s E packet ep] that by simp
  then show ?thesis
    by (auto simp: send_packet_def split: option.splits prod.splits bool.splits
        intro: outgoing_trans [OF _ outgoing_relay_send])
qed

lemmas outgoing_ops [actor_frame] =
  outgoing_frame [OF outgoing_emit] outgoing_frame [OF outgoing_relay_send]
  outgoing_frame [OF outgoing_send_udp] outgoing_frame [OF outgoing_draw_txid]
  outgoing_frame [OF outgoing_seal_to] outgoing_frame [OF outgoing_send_packet]

lemma elapsed_nonneg [simp]: "0 \<le> elapsed s t"
  by (simp add: elapsed_def)

section \<open>An environment to evaluate in\<close>

text \<open>
  A concrete environment for the examples: parsers for the two headers, sockets and channels that
  always accept, tunnels that yield nothing.
\<close>

definition ref_ipv6_packet :: "byte list \<Rightarrow> ip6 option" where
  "ref_ipv6_packet p =
     (if length p < 40 \<or> length p < 40 + unat (be16 p 4) then None
      else Some \<lparr>ip_version = drop_bit 4 (p ! 0), next_header = p ! 6, src_addr = arr (slice 8 24 p),
        dst_addr = arr (slice 24 40 p), ip_payload = slice 40 (40 + unat (be16 p 4)) p\<rparr>)"

definition ref_parse_udp :: "byte list \<Rightarrow> ipv6 \<Rightarrow> ipv6 \<Rightarrow> udp_repr option" where
  "ref_parse_udp p src dst =
     (if length p < 8 \<or> be16 p 2 = 0 then None
      else Some \<lparr>udp_src = be16 p 0, udp_dst = be16 p 2, udp_payload = drop 8 p\<rparr>)"

definition ref_parse_tcp :: "byte list \<Rightarrow> ipv6 \<Rightarrow> ipv6 \<Rightarrow> tcp_repr option" where
  "ref_parse_tcp p src dst =
     (if length p < 20 then None
      else Some \<lparr>tcp_src = be16 p 0, tcp_dst = be16 p 2,
        control = (if p ! 13 = 2 then CtlSyn else CtlNone), ack_number = None\<rparr>)"

definition ref_env :: "unit env" where
  "ref_env =
     \<lparr>crypto_lib = ref_crypto, hash_order = (\<lambda>ks. ks),
      random_txid = (\<lambda>w. (zeros, w)), random_nonce = (\<lambda>w. (zeros, w)),
      tunn_new = (\<lambda>w _ _ _ _. w), tunn_decapsulate = (\<lambda>w _ _ _. (TunnDone, w)),
      tunn_encapsulate = (\<lambda>w _ p. (WriteToNetwork p, w)), tunn_update_timers = (\<lambda>w _. (TunnDone, w)),
      tunn_stats = (\<lambda>_ _. (None, 0, 0)),
      relay_try_send = (\<lambda>w _ _. w), udp_send_to = (\<lambda>w _ _ _. (True, w)),
      channel_new = (\<lambda>w _. (1, w)), channel_closed = (\<lambda>_ _. False), try_send = (\<lambda>w _ _. (True, w)),
      reply_closed = (\<lambda>_ _. False),
      token_new = (\<lambda>w. (2, w)), token_cancel = (\<lambda>w _. w), token_cancelled = (\<lambda>_ _. False),
      ipv6_packet = ref_ipv6_packet, parse_tcp = ref_parse_tcp, parse_udp = ref_parse_udp,
      udp_checksum = (\<lambda>_ _ _. 0xFFFF),
      stack_poll = (\<lambda>w _ _. ([], [], w)),
      sock_connect = (\<lambda>w _ _. (Ok 3, w)), sock_listen = (\<lambda>w _. (Some 3, w)), sock_remove = (\<lambda>w _. w),
      sock_state = (\<lambda>_ _. Established), sock_can_send = (\<lambda>_ _. False), sock_can_recv = (\<lambda>_ _. False),
      sock_may_recv = (\<lambda>_ _. True), sock_room = (\<lambda>_ _. 0), sock_abort = (\<lambda>w _. w), sock_close = (\<lambda>w _. w),
      sock_send = (\<lambda>w _ _. w), sock_received = (\<lambda>_ _. []), sock_consume = (\<lambda>w _ _. w),
      duplex = (\<lambda>w _. ((4, 5), w)), pipe_read = (\<lambda>w _ _. (Pending, w)), pipe_write = (\<lambda>w _ _. (Pending, w)),
      pipe_shutdown = (\<lambda>w _. (False, w))\<rparr>"

definition ref_config :: server_config where
  "ref_config =
     \<lparr>cfg_key = None, cfg_preshared_key = None, disable_preshared_key = False, cfg_region = None,
      cfg_region_id = 0, allowed_clients = [], on_tcp = None, on_tcp_forward = None, served_tcp_ports = None,
      on_udp = None, on_udp_forward = None, served_udp_ports = None, udp_idle_timeout = None\<rparr>"

definition ref_actor :: "unit actor" where
  "ref_actor =
     \<lparr>own_key = ref_key, local_ip = tc_addr_for_key ref_key,
      own_region = \<lparr>region_id = 1, region_code = [], region_name = [], nodes = []\<rparr>,
      config = Some ref_config, server = None, psk = None, peers = [], dev_incoming = [], dev_outgoing = [],
      links = [], udp_flows = [], listeners = [], has_udp6 = True, endpoints = [], next_port = 32768,
      last_timers = 0, last_advertise = 0, pings = [], probes = [], drains = [], stun_txid = zeros,
      clock = secs 100, world = (), sent = []\<rparr>"

lemma ref_env_laws [simp]: "ipv6_law ref_env" "hash_order_law ref_env"
  by (auto simp: ipv6_law_def hash_order_law_def ref_env_def ref_ipv6_packet_def slice_def split: if_splits)

end
