(* ===== verification/Datagram.thy ===== *)
theory Datagram
  imports ActorState
begin

text \<open>
  The UDP flows of \<open>src/runtime/datagram.rs\<close>: the table of flows the actor keeps, datagrams that
  arrive in IPv6 packets (\<open>udp_input\<close>, with the port policy that decides which may open a flow),
  datagrams the application sends (\<open>udp_output\<close>), expiry, and the application's ends of a flow and
  of a listener.
\<close>

section \<open>Flows\<close>

definition put_flow :: "'w env \<Rightarrow> flow \<Rightarrow> udp_flow \<Rightarrow> 'w actor \<Rightarrow> 'w actor" where
  "put_flow E flow f s =
     (let w = (case map_of (udp_flows s) flow of
                 Some old \<Rightarrow> token_cancel E (world s) (flow_closed old)
               | None \<Rightarrow> world s)
      in s\<lparr>udp_flows := AList.update flow f (udp_flows s), world := w\<rparr>)"

definition new_udp_flow :: "'w env \<Rightarrow> flow \<Rightarrow> 'w actor \<Rightarrow> datagram_stream \<times> 'w actor" where
  "new_udp_flow E flow s =
     (case channel_new E (world s) 32 of (tx, w) \<Rightarrow>
      case token_new E w of (closed, w) \<Rightarrow>
        (\<lparr>ds_flow = flow, ds_incoming = tx, ds_closed = closed\<rparr>,
         put_flow E flow \<lparr>flow_tx = tx, flow_closed = closed, touched = clock s\<rparr> (s\<lparr>world := w\<rparr>)))"

text \<open>A claim whose listener still exists, and whether a port is within the served ranges.\<close>

definition open_listener :: "'w env \<Rightarrow> 'w actor \<Rightarrow> bool \<Rightarrow> u16 \<Rightarrow> chan option" where
  "open_listener E s udp port =
     (case map_of (listeners s) (udp, port) of
        Some tx \<Rightarrow> if channel_closed E (world s) tx then None else Some tx
      | None \<Rightarrow> None)"

definition port_served :: "(u16 \<times> u16) list option \<Rightarrow> u16 \<Rightarrow> bool" where
  "port_served ports port =
     (case ports of None \<Rightarrow> True | Some rs \<Rightarrow> list_ex (\<lambda>(a, b). a \<le> port \<and> port \<le> b) rs)"

section \<open>Input\<close>

definition flow_of :: "ip6 \<Rightarrow> udp_repr \<Rightarrow> flow" where
  "flow_of ip r = ((V6 (dst_addr ip), udp_dst r), (V6 (src_addr ip), udp_src r))"

text \<open>A flow whose stream was dropped is forgotten before the datagram is looked at.\<close>

definition forget_closed :: "'w env \<Rightarrow> flow \<Rightarrow> 'w actor \<Rightarrow> 'w actor" where
  "forget_closed E flow s =
     (case map_of (udp_flows s) flow of
        Some f \<Rightarrow>
          if token_cancelled E (world s) (flow_closed f)
          then s\<lparr>udp_flows := AList.delete flow (udp_flows s), world := token_cancel E (world s) (flow_closed f)\<rparr>
          else s
      | None \<Rightarrow> s)"

text \<open>What may take a datagram that belongs to no flow: a listener or a handler.\<close>

definition udp_taker :: "'w env \<Rightarrow> server_config \<Rightarrow> ip6 \<Rightarrow> u16 \<Rightarrow> 'w actor \<Rightarrow> (chan + nat) option" where
  "udp_taker E cfg ip port s =
     (let here = dst_addr ip = local_ip s;
          listener = (if here then open_listener E s True port else None);
          handler = (if here then Option.bind (on_udp cfg) (\<lambda>f. f port)
                     else Option.bind (on_udp_forward cfg) (\<lambda>f. f (from_ipv6 (V6 (dst_addr ip), port))))
      in if listener = None \<and> here \<and> \<not> port_served (served_udp_ports cfg) port then None
         else case listener of Some tx \<Rightarrow> Some (Inl tx) | None \<Rightarrow> map_option Inr handler)"

definition open_flow :: "'w env \<Rightarrow> ip6 \<Rightarrow> u16 \<Rightarrow> flow \<Rightarrow> 'w actor \<Rightarrow> 'w actor" where
  "open_flow E ip port flow s =
     (case config s of
        None \<Rightarrow> s
      | Some cfg \<Rightarrow>
          if max_connections \<le> length (udp_flows s) then s
          else case udp_taker E cfg ip port s of
              None \<Rightarrow> s
            | Some (Inl tx) \<Rightarrow>
                (case new_udp_flow E flow s of (stream, s) \<Rightarrow>
                 case try_send E (world s) tx (Accept (AcceptedUdp stream)) of (ok, w) \<Rightarrow>
                   (emit (Deliver tx (Accept (AcceptedUdp stream))) s)
                     \<lparr>world := if ok then w else token_cancel E w (ds_closed stream)\<rparr>)
            | Some (Inr h) \<Rightarrow>
                (case new_udp_flow E flow s of (stream, s) \<Rightarrow> emit (SpawnUdp h stream) s))"

definition deliver_udp :: "'w env \<Rightarrow> flow \<Rightarrow> byte list \<Rightarrow> 'w actor \<Rightarrow> 'w actor" where
  "deliver_udp E flow data s =
     (case map_of (udp_flows s) flow of
        Some f \<Rightarrow>
          (emit (Deliver (flow_tx f) (Datagram data)) s)
            \<lparr>udp_flows := AList.update flow (f\<lparr>touched := clock s\<rparr>) (udp_flows s),
             world := snd (try_send E (world s) (flow_tx f) (Datagram data))\<rparr>
      | None \<Rightarrow> s)"

definition udp_input :: "'w env \<Rightarrow> ip6 \<Rightarrow> 'w actor \<Rightarrow> 'w actor" where
  "udp_input E ip s =
     (case parse_udp E (ip_payload ip) (src_addr ip) (dst_addr ip) of
        None \<Rightarrow> s
      | Some r \<Rightarrow>
          if udp_src r = 0 \<or> udp_dst r = 0 then s
          else let flow = flow_of ip r; s = forget_closed E flow s;
                   s = (if map_of (udp_flows s) flow = None then open_flow E ip (udp_dst r) flow s else s)
               in deliver_udp E flow (udp_payload r) s)"

section \<open>Output and expiry\<close>

text \<open>The IPv6 packet of a datagram; the lengths are truncated to 16 bits.\<close>

definition udp_header :: "u16 \<Rightarrow> u16 \<Rightarrow> u16 \<Rightarrow> u16 \<Rightarrow> byte list" where
  "udp_header src dst len checksum =
     to_be_bytes 2 src @ to_be_bytes 2 dst @ to_be_bytes 2 len @ to_be_bytes 2 checksum"

definition ip6_header :: "u16 \<Rightarrow> byte \<Rightarrow> byte \<Rightarrow> ipv6 \<Rightarrow> ipv6 \<Rightarrow> byte list" where
  "ip6_header len next hops src dst =
     [0x60, 0, 0, 0] @ to_be_bytes 2 len @ [next, hops] @ octets src @ octets dst"

definition udp_packet_bytes :: "'w env \<Rightarrow> flow \<Rightarrow> byte list \<Rightarrow> byte list" where
  "udp_packet_bytes E flow data =
     (let src = nat64_addr (fst (fst flow)); dst = nat64_addr (fst (snd flow));
          sport = snd (fst flow); dport = snd (snd flow); len = of_nat (8 + length data);
          checksum = udp_checksum E src dst (udp_header sport dport len 0 @ data)
      in ip6_header len 17 64 src dst @ udp_header sport dport len checksum @ data)"

definition udp_output :: "'w env \<Rightarrow> flow \<Rightarrow> byte list \<Rightarrow> chan \<Rightarrow> 'w actor \<Rightarrow> 'w actor" where
  "udp_output E flow data generation s =
     (if token_cancelled E (world s) generation then s
      else case map_of (udp_flows s) flow of
          None \<Rightarrow> s
        | Some f \<Rightarrow>
            s\<lparr>udp_flows := AList.update flow (f\<lparr>touched := clock s\<rparr>) (udp_flows s),
              dev_outgoing := dev_outgoing s @ [udp_packet_bytes E flow data]\<rparr>)"

definition idle_timeout :: "'w actor \<Rightarrow> instant" where
  "idle_timeout s =
     (case Option.bind (config s) udp_idle_timeout of Some t \<Rightarrow> t | None \<Rightarrow> secs 120)"

definition flow_live :: "'w env \<Rightarrow> 'w actor \<Rightarrow> udp_flow \<Rightarrow> bool" where
  "flow_live E s f =
     (\<not> token_cancelled E (world s) (flow_closed f) \<and> \<not> channel_closed E (world s) (flow_tx f) \<and>
      elapsed s (touched f) < idle_timeout s)"

definition expire_udp :: "'w env \<Rightarrow> 'w actor \<Rightarrow> 'w actor" where
  "expire_udp E s =
     (let expired = filter (\<lambda>(k, f). \<not> flow_live E s f) (udp_flows s);
          w = fold (\<lambda>(k, f) w. token_cancel E w (flow_closed f)) expired (world s)
      in s\<lparr>udp_flows := filter (\<lambda>(k, f). flow_live E s f) (udp_flows s),
           listeners := filter (\<lambda>(k, tx). \<not> channel_closed E w tx) (listeners s), world := w\<rparr>)"

section \<open>The application's ends\<close>

definition stream_local_addr :: "datagram_stream \<Rightarrow> sock_addr" where
  "stream_local_addr st = from_ipv6 (fst (ds_flow st))"

definition stream_peer_addr :: "datagram_stream \<Rightarrow> sock_addr" where
  "stream_peer_addr st = from_ipv6 (snd (ds_flow st))"

text \<open>\<open>DatagramStream::send\<close>: the command it sends to the actor, once it may.\<close>

definition stream_send :: "bool \<Rightarrow> datagram_stream \<Rightarrow> byte list \<Rightarrow> chan \<Rightarrow> command res" where
  "stream_send cancelled st data result =
     (if 65507 < length data then Err ''UDP datagram is too large''
      else if cancelled then Err ''UDP flow is closed''
      else Ok (CmdSendUdp (ds_flow st) data (ds_closed st) result))"

text \<open>
  \<open>recv\<close> and \<open>accept\<close>: \<open>None\<close> says the flow's token was cancelled first, \<open>Some None\<close> that the channel
  is closed and empty.
\<close>

definition stream_recv :: "byte list option option \<Rightarrow> byte list res" where
  "stream_recv outcome =
     (case outcome of
        None \<Rightarrow> Err ''UDP flow is closed''
      | Some packet \<Rightarrow> ok_or ''UDP flow is closed'' packet)"

definition listener_accept :: "accepted option \<Rightarrow> accepted res" where
  "listener_accept received = ok_or ''listener is closed'' received"

section \<open>Facts\<close>

lemma length_update:
  "length (AList.update k v al) = (if k \<in> dom (map_of al) then length al else Suc (length al))"
  by (induction al) (auto simp: dom_def)

lemma length_delete: "length (AList.delete k al) \<le> length al"
  by (simp add: AList.delete_eq)

lemma set_update_subset: "set (AList.update k v al) \<subseteq> insert (k, v) (set al)"
  by (induction al) auto

text \<open>
  \<open>udp_only s s'\<close>: from \<open>s\<close> to \<open>s'\<close> only the flows, the outgoing packets, the log and the world changed.
\<close>

definition udp_only :: "'w actor \<Rightarrow> 'w actor \<Rightarrow> bool" where
  "udp_only s s' \<longleftrightarrow>
     (\<exists>fs out es w. s' = s\<lparr>udp_flows := fs, dev_outgoing := out, sent := es, world := w\<rparr>)"

lemma udp_onlyI: "s' = s\<lparr>udp_flows := fs, dev_outgoing := out, sent := es, world := w\<rparr> \<Longrightarrow> udp_only s s'"
  unfolding udp_only_def by blast

lemma udp_only_refl [simp, intro]: "udp_only s s"
  by (rule udp_onlyI [where fs = "udp_flows s" and out = "dev_outgoing s" and es = "sent s" and w = "world s"]) simp

lemma udp_only_trans [trans]: "udp_only s t \<Longrightarrow> udp_only t u \<Longrightarrow> udp_only s u"
proof -
  assume "udp_only s t" "udp_only t u"
  then obtain fs out es w fs' out' es' w' where
    "t = s\<lparr>udp_flows := fs, dev_outgoing := out, sent := es, world := w\<rparr>"
    "u = t\<lparr>udp_flows := fs', dev_outgoing := out', sent := es', world := w'\<rparr>"
    unfolding udp_only_def by blast
  then show "udp_only s u" by (intro udp_onlyI [where fs = fs' and out = out' and es = es' and w = w']) simp
qed

lemma udp_only_frame:
  assumes "udp_only s s'"
  shows "own_key s' = own_key s" "local_ip s' = local_ip s" "own_region s' = own_region s"
    "config s' = config s" "server s' = server s" "psk s' = psk s" "peers s' = peers s"
    "dev_incoming s' = dev_incoming s" "links s' = links s"
    "listeners s' = listeners s" "has_udp6 s' = has_udp6 s"
    "endpoints s' = endpoints s" "next_port s' = next_port s" "last_timers s' = last_timers s"
    "last_advertise s' = last_advertise s" "pings s' = pings s" "probes s' = probes s"
    "drains s' = drains s" "stun_txid s' = stun_txid s" "clock s' = clock s"
  using assms by (auto simp: udp_only_def)

lemma put_flow_simps [simp]:
  "udp_flows (put_flow E flow f s) = AList.update flow f (udp_flows s)"
  "sent (put_flow E flow f s) = sent s" "dev_outgoing (put_flow E flow f s) = dev_outgoing s"
  "udp_only s (put_flow E flow f s)"
  by (auto simp: put_flow_def Let_def intro!: udp_onlyI [where out = "dev_outgoing s" and es = "sent s"])

lemma new_udp_flow_simps:
  assumes "new_udp_flow E flow s = (stream, s')"
  shows "udp_only s s'" "ds_flow stream = flow" "sent s' = sent s" "dev_outgoing s' = dev_outgoing s"
    "udp_flows s' = AList.update flow \<lparr>flow_tx = ds_incoming stream, flow_closed = ds_closed stream, touched = clock s\<rparr> (udp_flows s)"
proof -
  obtain tx w closed w' where w: "channel_new E (world s) 32 = (tx, w)" "token_new E w = (closed, w')"
    by (metis surj_pair)
  from assms have eq: "stream = \<lparr>ds_flow = flow, ds_incoming = tx, ds_closed = closed\<rparr>"
    "s' = put_flow E flow \<lparr>flow_tx = tx, flow_closed = closed, touched = clock s\<rparr> (s\<lparr>world := w'\<rparr>)"
    by (simp_all add: new_udp_flow_def w)
  have "udp_only s (s\<lparr>world := w'\<rparr>)"
    by (rule udp_onlyI [where fs = "udp_flows s" and out = "dev_outgoing s" and es = "sent s" and w = w']) simp
  then show "udp_only s s'" unfolding eq(2) by (rule udp_only_trans) simp
  show "ds_flow stream = flow" "sent s' = sent s" "dev_outgoing s' = dev_outgoing s"
    "udp_flows s' = AList.update flow \<lparr>flow_tx = ds_incoming stream, flow_closed = ds_closed stream, touched = clock s\<rparr> (udp_flows s)"
    by (simp_all add: eq)
qed

lemma forget_closed_simps [simp]:
  "udp_only s (forget_closed E flow s)"
  "length (udp_flows (forget_closed E flow s)) \<le> length (udp_flows s)"
  "dom (map_of (udp_flows (forget_closed E flow s))) \<subseteq> dom (map_of (udp_flows s))"
  "k \<noteq> flow \<Longrightarrow> map_of (udp_flows (forget_closed E flow s)) k = map_of (udp_flows s) k"
  by (auto simp: forget_closed_def length_delete delete_conv' split: option.splits if_splits
      intro!: udp_onlyI [where out = "dev_outgoing s" and es = "sent s"])

lemma distinct_forget_closed:
  "distinct (map fst (udp_flows s)) \<Longrightarrow> distinct (map fst (udp_flows (forget_closed E flow s)))"
  by (auto simp: forget_closed_def distinct_delete split: option.splits)

text \<open>Opening a flow: either nothing happens, or exactly this flow is added, below the limit.\<close>

lemma open_flow_cases:
  obtains (no) "open_flow E ip port flow s = s"
  | (yes) cfg taker f where "config s = Some cfg" "udp_taker E cfg ip port s = Some taker"
      "length (udp_flows s) < max_connections"
      "udp_flows (open_flow E ip port flow s) = AList.update flow f (udp_flows s)"
      "udp_only s (open_flow E ip port flow s)"
proof (cases "\<exists>cfg taker. config s = Some cfg \<and> udp_taker E cfg ip port s = Some taker \<and>
    length (udp_flows s) < max_connections")
  case False
  then have "open_flow E ip port flow s = s"
    by (auto simp: open_flow_def not_le [symmetric] split: option.splits)
  then show thesis by (rule no)
next
  case True
  then obtain cfg taker where c: "config s = Some cfg" "udp_taker E cfg ip port s = Some taker"
    "length (udp_flows s) < max_connections" by blast
  obtain stream t where n: "new_udp_flow E flow s = (stream, t)" by (metis surj_pair)
  note N = new_udp_flow_simps [OF n]
  obtain es w where o: "open_flow E ip port flow s = t\<lparr>sent := es, world := w\<rparr>"
  proof (cases taker)
    case (Inl tx)
    obtain ok w where "try_send E (world t) tx (Accept (AcceptedUdp stream)) = (ok, w)" by (metis surj_pair)
    with c n Inl show thesis by (intro that) (simp add: open_flow_def emit_def)
  next
    case (Inr h)
    with c n have "open_flow E ip port flow s = t\<lparr>sent := sent t @ [SpawnUdp h stream], world := world t\<rparr>"
      by (simp add: open_flow_def emit_def)
    then show thesis by (rule that)
  qed
  have "udp_only s (open_flow E ip port flow s)"
    unfolding o using N(1)
    by (rule udp_only_trans) (rule udp_onlyI [where fs = "udp_flows t" and out = "dev_outgoing t" and es = es and w = w], simp)
  with c N(5) show thesis by (intro yes) (simp_all add: o)
qed

lemma open_flow_only [simp]: "udp_only s (open_flow E ip port flow s)"
  by (rule open_flow_cases [of E ip port flow s]) auto

lemma deliver_udp_simps [simp]:
  "udp_only s (deliver_udp E flow data s)"
  "dom (map_of (udp_flows (deliver_udp E flow data s))) = dom (map_of (udp_flows s))"
  "length (udp_flows (deliver_udp E flow data s)) = length (udp_flows s)"
  "distinct (map fst (udp_flows (deliver_udp E flow data s))) = distinct (map fst (udp_flows s))"
proof -
  have "udp_only s (deliver_udp E flow data s) \<and>
    dom (map_of (udp_flows (deliver_udp E flow data s))) = dom (map_of (udp_flows s)) \<and>
    map fst (udp_flows (deliver_udp E flow data s)) = map fst (udp_flows s)"
  proof (cases "map_of (udp_flows s) flow")
    case None
    then show ?thesis by (simp add: deliver_udp_def)
  next
    case (Some f)
    have "flow \<in> set (map fst (udp_flows s))" using map_of_SomeD [OF Some] by force
    then have "map fst (AList.update flow (f\<lparr>touched := clock s\<rparr>) (udp_flows s)) = map fst (udp_flows s)"
      by (simp add: AList.update_keys)
    moreover have "udp_only s (deliver_udp E flow data s)"
      by (rule udp_onlyI [where fs = "AList.update flow (f\<lparr>touched := clock s\<rparr>) (udp_flows s)" and out = "dev_outgoing s"
            and es = "sent s @ [Deliver (flow_tx f) (Datagram data)]"
            and w = "snd (try_send E (world s) (flow_tx f) (Datagram data))"])
        (simp add: deliver_udp_def emit_def Some)
    ultimately show ?thesis using Some by (auto simp: deliver_udp_def emit_def update_conv')
  qed
  moreover from this have "length (udp_flows (deliver_udp E flow data s)) = length (udp_flows s)"
    by (metis length_map)
  ultimately show "udp_only s (deliver_udp E flow data s)"
    "dom (map_of (udp_flows (deliver_udp E flow data s))) = dom (map_of (udp_flows s))"
    "length (udp_flows (deliver_udp E flow data s)) = length (udp_flows s)"
    "distinct (map fst (udp_flows (deliver_udp E flow data s))) = distinct (map fst (udp_flows s))"
    by simp_all
qed

lemma udp_input_only [simp]: "udp_only s (udp_input E ip s)"
proof (cases "parse_udp E (ip_payload ip) (src_addr ip) (dst_addr ip)")
  case None
  then show ?thesis by (simp add: udp_input_def)
next
  case (Some r)
  let ?f = "forget_closed E (flow_of ip r) s"
  have "udp_only s (if map_of (udp_flows ?f) (flow_of ip r) = None
      then open_flow E ip (udp_dst r) (flow_of ip r) ?f else ?f)"
    by (auto intro: udp_only_trans [OF forget_closed_simps(1) open_flow_only])
  then show ?thesis using Some by (auto simp: udp_input_def Let_def intro: udp_only_trans)
qed

lemma udp_output_only [simp]: "udp_only s (udp_output E flow data g s)"
  by (auto simp: udp_output_def split: option.splits
      intro!: udp_onlyI [where es = "sent s" and w = "world s"])

lemma forget_closed_absent: "map_of (udp_flows s) flow = None \<Longrightarrow> forget_closed E flow s = s"
  by (simp add: forget_closed_def)

lemma forget_closed_live:
  "map_of (udp_flows s) flow = Some f \<Longrightarrow> \<not> token_cancelled E (world s) (flow_closed f) \<Longrightarrow>
   forget_closed E flow s = s"
  by (simp add: forget_closed_def)

lemma udp_input_flows:
  "length (udp_flows s) \<le> max_connections \<Longrightarrow> length (udp_flows (udp_input E ip s)) \<le> max_connections"
  "distinct (map fst (udp_flows s)) \<Longrightarrow> distinct (map fst (udp_flows (udp_input E ip s)))"
proof -
  have "(length (udp_flows s) \<le> max_connections \<longrightarrow> length (udp_flows (udp_input E ip s)) \<le> max_connections) \<and>
    (distinct (map fst (udp_flows s)) \<longrightarrow> distinct (map fst (udp_flows (udp_input E ip s))))"
  proof (cases "parse_udp E (ip_payload ip) (src_addr ip) (dst_addr ip)")
    case None
    then show ?thesis by (simp add: udp_input_def)
  next
    case (Some r)
    let ?k = "flow_of ip r"
    let ?f = "forget_closed E ?k s"
    have f: "length (udp_flows ?f) \<le> length (udp_flows s)" by simp
    have o: "length (udp_flows (open_flow E ip (udp_dst r) ?k ?f)) \<le> max_connections"
      if "length (udp_flows s) \<le> max_connections"
      by (rule open_flow_cases [of E ip "udp_dst r" ?k ?f]) (use le_trans [OF f that] in \<open>auto simp: length_update\<close>)
    have o': "distinct (map fst (udp_flows ?f)) \<longrightarrow> distinct (map fst (udp_flows (open_flow E ip (udp_dst r) ?k ?f)))"
      by (rule open_flow_cases [of E ip "udp_dst r" ?k ?f]) (auto simp: distinct_update)
    show ?thesis
      using Some o o' f distinct_forget_closed [of s E ?k]
      by (auto simp: udp_input_def Let_def simp del: forget_closed_simps)
  qed
  then show "length (udp_flows s) \<le> max_connections \<Longrightarrow> length (udp_flows (udp_input E ip s)) \<le> max_connections"
    "distinct (map fst (udp_flows s)) \<Longrightarrow> distinct (map fst (udp_flows (udp_input E ip s)))" by auto
qed

interpretation udp_flow_table: bounded_table "udp_input E" "\<lambda>s. length (udp_flows s)" max_connections for E
  by unfold_locales (rule udp_input_flows)

lemma udp_output_flows:
  "length (udp_flows (udp_output E flow data g s)) = length (udp_flows s)"
  "distinct (map fst (udp_flows s)) \<Longrightarrow> distinct (map fst (udp_flows (udp_output E flow data g s)))"
  by (auto simp: udp_output_def length_update distinct_update split: option.splits)

lemma expire_udp_simps [simp]:
  "length (udp_flows (expire_udp E s)) \<le> length (udp_flows s)"
  "distinct (map fst (udp_flows s)) \<Longrightarrow> distinct (map fst (udp_flows (expire_udp E s)))"
  "own_key (expire_udp E s) = own_key s" "local_ip (expire_udp E s) = local_ip s"
  "own_region (expire_udp E s) = own_region s" "config (expire_udp E s) = config s"
  "server (expire_udp E s) = server s" "psk (expire_udp E s) = psk s" "peers (expire_udp E s) = peers s"
  "dev_incoming (expire_udp E s) = dev_incoming s" "dev_outgoing (expire_udp E s) = dev_outgoing s"
  "links (expire_udp E s) = links s" "has_udp6 (expire_udp E s) = has_udp6 s"
  "endpoints (expire_udp E s) = endpoints s" "next_port (expire_udp E s) = next_port s"
  "last_timers (expire_udp E s) = last_timers s" "last_advertise (expire_udp E s) = last_advertise s"
  "pings (expire_udp E s) = pings s" "probes (expire_udp E s) = probes s" "drains (expire_udp E s) = drains s"
  "stun_txid (expire_udp E s) = stun_txid s" "clock (expire_udp E s) = clock s" "sent (expire_udp E s) = sent s"
  by (simp_all add: expire_udp_def Let_def distinct_map_filter)

section \<open>The UDP parsers\<close>

text \<open>
  The documented behaviour of smoltcp's parsers on well-formed input: an IPv6 packet with a payload
  of the length its header says, and a UDP datagram with the checksum smoltcp computes.
\<close>

definition ipv6_builds :: "'w env \<Rightarrow> bool" where
  "ipv6_builds E \<longleftrightarrow>
     (\<forall>len next hops src dst body. length body = unat len \<longrightarrow>
        ipv6_packet E (ip6_header len next hops src dst @ body) =
          Some \<lparr>ip_version = 6, next_header = next, src_addr = src, dst_addr = dst, ip_payload = body\<rparr>)"

definition udp_parses :: "'w env \<Rightarrow> bool" where
  "udp_parses E \<longleftrightarrow>
     (\<forall>src dst sport dport data. dport \<noteq> 0 \<and> length data < 65528 \<longrightarrow>
        parse_udp E (udp_header sport dport (of_nat (8 + length data))
            (udp_checksum E src dst (udp_header sport dport (of_nat (8 + length data)) 0 @ data)) @ data) src dst =
          Some \<lparr>udp_src = sport, udp_dst = dport, udp_payload = data\<rparr>)"

lemma ref_udp_parses [simp]: "udp_parses ref_env"
proof -
  have "be16 (udp_header a b c d @ r) 0 = a \<and> be16 (udp_header a b c d @ r) 2 = b" for a b c d r
    using be16_append [of 0 "[]" a] be16_append [of 2 "to_be_bytes 2 a" b] by (simp add: udp_header_def)
  then show ?thesis by (simp add: udp_parses_def ref_env_def ref_parse_udp_def udp_header_def)
qed

lemma ref_ipv6_builds [simp]: "ipv6_builds ref_env"
  unfolding ipv6_builds_def
proof (intro allI impI)
  fix len :: u16 and nh hops :: byte and src dst :: ipv6 and body :: "byte list"
  assume l: "length body = unat len"
  let ?p = "ip6_header len nh hops src dst @ body"
  have "be16 ([0x60, 0, 0, 0] @ to_be_bytes 2 len @ [nh, hops] @ octets src @ octets dst @ body) 4 = len"
    by (rule be16_append) simp
  then have len: "be16 ?p 4 = len" by (simp add: ip6_header_def)
  have v: "drop_bit 4 (0x60 :: byte) = 6" by code_simp
  have "length ?p = 40 + unat len" by (simp add: ip6_header_def l)
  moreover have "slice 8 24 ?p = octets src" "slice 24 40 ?p = octets dst" "slice 40 (40 + unat len) ?p = body"
    "?p ! 0 = 0x60" "?p ! 6 = nh"
    using l by (simp_all add: ip6_header_def slice_def to_be_bytes_2)
  ultimately show "ipv6_packet ref_env ?p =
      Some \<lparr>ip_version = 6, next_header = nh, src_addr = src, dst_addr = dst, ip_payload = body\<rparr>"
    by (simp add: ref_env_def ref_ipv6_packet_def len [simplified] v)
qed

section \<open>Properties\<close>

text \<open>
  C22. A datagram crosses: what one side sends on a flow becomes one IPv6 packet, and when that
  packet reaches the other side, where the mirrored flow is open, exactly these bytes are delivered
  to that flow's receiver, empty datagrams included.
\<close>

theorem datagram_end_to_end:
  assumes "ipv6_builds E" "udp_parses E" "length data \<le> 65507" "p \<noteq> 0" "q \<noteq> 0"
    and "map_of (udp_flows a) ((V6 x, p), (V6 y, q)) = Some f" "\<not> token_cancelled E (world a) g"
    and "map_of (udp_flows b) ((V6 y, q), (V6 x, p)) = Some h" "\<not> token_cancelled E (world b) (flow_closed h)"
  shows "\<exists>packet ip. dev_outgoing (udp_output E ((V6 x, p), (V6 y, q)) data g a) = dev_outgoing a @ [packet] \<and>
    ipv6_packet E packet = Some ip \<and> next_header ip = 17 \<and> dst_addr ip = y \<and>
    sent (udp_input E ip b) = sent b @ [Deliver (flow_tx h) (Datagram data)]"
proof -
  let ?flow = "((V6 x, p), (V6 y, q))" and ?len = "of_nat (8 + length data) :: u16"
  let ?udp = "udp_header p q ?len (udp_checksum E x y (udp_header p q ?len 0 @ data)) @ data"
  let ?ip = "\<lparr>ip_version = 6, next_header = 17, src_addr = x, dst_addr = y, ip_payload = ?udp\<rparr>"
  have "unat ?len = 8 + length data" using assms(3) by (subst unat_of_nat) simp
  then have l: "length ?udp = unat ?len" by (simp add: udp_header_def)
  have pk: "udp_packet_bytes E ?flow data = ip6_header ?len 17 64 x y @ ?udp"
    by (simp add: udp_packet_bytes_def Let_def)
  have ip: "ipv6_packet E (udp_packet_bytes E ?flow data) = Some ?ip"
    using assms(1) l unfolding pk ipv6_builds_def by blast
  have r: "parse_udp E ?udp x y = Some \<lparr>udp_src = p, udp_dst = q, udp_payload = data\<rparr>"
    using assms(2,3,5) unfolding udp_parses_def by simp
  have "sent (udp_input E ?ip b) = sent b @ [Deliver (flow_tx h) (Datagram data)]"
    using r assms(4,5,8,9)
    by (simp add: udp_input_def flow_of_def forget_closed_live Let_def deliver_udp_def emit_def)
  with ip show ?thesis
    using assms(6,7) by (intro exI [of _ "udp_packet_bytes E ?flow data"] exI [of _ ?ip]) (simp add: udp_output_def)
qed

theorem datagram_end_to_end_witness:
  "\<exists>packet ip. ipv6_packet ref_env packet = Some ip \<and>
     sent (udp_input ref_env ip (ref_actor\<lparr>udp_flows := [(((V6 zeros, 9), (V6 (to_ipv6_mapped zeros), 7)),
        \<lparr>flow_tx = 1, flow_closed = 2, touched = 0\<rparr>)]\<rparr>)) = [Deliver 1 (Datagram [104, 105])]"
proof -
  let ?f = "\<lparr>flow_tx = 1, flow_closed = 2, touched = 0\<rparr>"
  let ?x = "V6 (to_ipv6_mapped zeros)" and ?y = "V6 zeros"
  let ?a = "ref_actor\<lparr>udp_flows := [(((?x, 7), (?y, 9)), ?f)]\<rparr>"
  let ?b = "ref_actor\<lparr>udp_flows := [(((?y, 9), (?x, 7)), ?f)]\<rparr>"
  have "\<not> token_cancelled ref_env w c" for w c by (simp add: ref_env_def)
  with datagram_end_to_end [of ref_env "[104, 105]" 7 9 ?a "to_ipv6_mapped zeros" zeros ?f 2 ?b ?f]
  show ?thesis by (auto simp: ref_actor_def)
qed

text \<open>
  C27. The port policy for datagrams: a datagram opens a flow only on a server, only below the limit
  on flows, only with both ports nonzero and a datagram the parser accepts, and only if someone takes
  it: at the server's own address a listener for the port, or a handler and a port in the served
  ranges; at another address a forwarding handler for it. The flow is the one of its addresses.
\<close>

theorem udp_flow_policy:
  assumes "flow \<in> dom (map_of (udp_flows (udp_input E ip s)))" "flow \<notin> dom (map_of (udp_flows s))"
  shows "\<exists>cfg r. config s = Some cfg \<and> length (udp_flows s) < max_connections \<and>
    parse_udp E (ip_payload ip) (src_addr ip) (dst_addr ip) = Some r \<and> udp_src r \<noteq> 0 \<and> udp_dst r \<noteq> 0 \<and>
    flow = flow_of ip r \<and>
    (if dst_addr ip = local_ip s
     then open_listener E s True (udp_dst r) \<noteq> None \<or>
       port_served (served_udp_ports cfg) (udp_dst r) \<and> (\<exists>f h. on_udp cfg = Some f \<and> f (udp_dst r) = Some h)
     else \<exists>f h. on_udp_forward cfg = Some f \<and> f (from_ipv6 (V6 (dst_addr ip), udp_dst r)) = Some h)"
proof -
  obtain r where r: "parse_udp E (ip_payload ip) (src_addr ip) (dst_addr ip) = Some r"
    "udp_src r \<noteq> 0" "udp_dst r \<noteq> 0"
    using assms by (auto simp: udp_input_def split: option.splits if_splits)
  let ?k = "flow_of ip r" and ?f = "forget_closed E (flow_of ip r) s"
  have fs: "dom (map_of (udp_flows ?f)) \<subseteq> dom (map_of (udp_flows s))" by simp
  with assms r have new: "map_of (udp_flows ?f) ?k = None"
    and in_open: "flow \<in> dom (map_of (udp_flows (open_flow E ip (udp_dst r) ?k ?f)))"
    by (auto simp: udp_input_def Let_def split: if_splits simp del: forget_closed_simps)
  show ?thesis
  proof (rule open_flow_cases [of E ip "udp_dst r" ?k ?f])
    assume same: "open_flow E ip (udp_dst r) ?k ?f = ?f"
    show ?thesis using in_open fs assms(2) unfolding same by blast
  next
    fix cfg taker f
    assume o: "config ?f = Some cfg" "udp_taker E cfg ip (udp_dst r) ?f = Some taker"
      "length (udp_flows ?f) < max_connections"
      "udp_flows (open_flow E ip (udp_dst r) ?k ?f) = AList.update ?k f (udp_flows ?f)"
    have k: "flow = ?k" using in_open fs assms(2) o(4) by (auto simp: update_conv' split: if_splits)
    then have "?f = s" using assms(2) by (simp add: forget_closed_absent domIff)
    with o k r show ?thesis
      by (auto simp: udp_taker_def Let_def bind_eq_Some_conv split: if_splits option.splits)
  qed
qed

theorem udp_flow_policy_witness:
  "\<exists>cfg. config (ref_actor\<lparr>listeners := [((True, 9), 6)]\<rparr>) = Some cfg \<and>
     open_listener ref_env (ref_actor\<lparr>listeners := [((True, 9), 6)]\<rparr>) True 9 = Some 6"
proof -
  let ?s = "ref_actor\<lparr>listeners := [((True, 9), 6)]\<rparr>"
  let ?p = "udp_header 7 9 8 0xFFFF"
  let ?ip = "\<lparr>ip_version = 6, next_header = 17, src_addr = zeros, dst_addr = local_ip ref_actor, ip_payload = ?p\<rparr>"
  have b: "be16 (udp_header a b c d) 0 = a \<and> be16 (udp_header a b c d) 2 = b" for a b c d
    using be16_append [of 0 "[]" a] be16_append [of 2 "to_be_bytes 2 a" b] by (simp add: udp_header_def)
  have r: "parse_udp ref_env ?p src dst = Some \<lparr>udp_src = 7, udp_dst = 9, udp_payload = []\<rparr>" for src dst
    using b [of 7 9 8 "0xFFFF"] by (simp add: ref_env_def ref_parse_udp_def udp_header_def)
  have "((V6 (local_ip ref_actor), 9), (V6 zeros, 7)) \<in> dom (map_of (udp_flows (udp_input ref_env ?ip ?s)))"
    by (simp add: udp_input_def r flow_of_def Let_def)
      (simp add: forget_closed_def open_flow_def udp_taker_def open_listener_def new_udp_flow_def put_flow_def emit_def
        ref_actor_def ref_env_def ref_config_def max_connections_def Let_def deliver_udp_def)
  from udp_flow_policy [OF this] show ?thesis
    by (auto simp: ref_actor_def open_listener_def ref_env_def)
qed

text \<open>
  The UDP flow table never exceeds its limit and never holds two entries for one flow, whatever
  sequence of packets arrives.
\<close>

theorem udp_flows_bounded:
  assumes "length (udp_flows s) \<le> max_connections" "distinct (map fst (udp_flows s))"
  shows "length (udp_flows (fold (udp_input E) ips s)) \<le> max_connections \<and>
    distinct (map fst (udp_flows (fold (udp_input E) ips s)))"
proof
  show "length (udp_flows (fold (udp_input E) ips s)) \<le> max_connections"
    using assms(1) by (rule udp_flow_table.steps_bounded)
  show "distinct (map fst (udp_flows (fold (udp_input E) ips s)))"
    using assms(2) by (induction ips arbitrary: s) (auto intro: udp_input_flows)
qed

theorem udp_flows_bounded_witness:
  "length (udp_flows (fold (udp_input ref_env) ([] :: ip6 list) ref_actor)) \<le> 256"
  using udp_flows_bounded [of ref_actor ref_env "[]"] by (simp add: ref_actor_def max_connections_def)

end
