(* ===== verification/Actor.thy ===== *)
theory Actor
  imports Datagram
begin

text \<open>
  The task that owns the network (\<open>impl Actor\<close> in \<open>src/runtime.rs\<close>): peers and their registration,
  disco probing and direct paths, packets from the relay and from UDP, the IPv6 filter in front of the
  TCP stack, the links between TCP sockets and application pipes, commands, and the periodic work.

  Where the code would panic the model stops with \<open>Panic\<close>. Where it loops as long as a tunnel asks
  to be called again, the model has fuel, and running out of it is \<open>Diverged\<close>.
\<close>

section \<open>Peers\<close>

definition add_peer :: "'w env \<Rightarrow> key \<Rightarrow> key \<Rightarrow> 'w actor \<Rightarrow> 'w actor" where
  "add_peer E key disco s =
     (if map_of (peers s) key \<noteq> None \<or> max_peers \<le> length (peers s) \<or> key = zeros \<or> disco = zeros then s
      else let index = of_nat (length (peers s) + 1)
           in s\<lparr>peers := peers s @ [(key, \<lparr>peer_key = key, disco_key = disco, direct = None, candidates = []\<rparr>)],
                world := tunn_new E (world s) (own_key s) key (psk s) index\<rparr>)"

text \<open>\<open>self.peers.get_mut(&key)\<close> and an assignment to the peer.\<close>

definition update_peer :: "key \<Rightarrow> (peer \<Rightarrow> peer) \<Rightarrow> 'w actor \<Rightarrow> 'w actor" where
  "update_peer key f s = s\<lparr>peers := map (\<lambda>(k, p). (k, if k = key then f p else p)) (peers s)\<rparr>"

definition iter_keys :: "'w env \<Rightarrow> 'w actor \<Rightarrow> key list" where
  "iter_keys E s = hash_order E (map fst (peers s))"

section \<open>Probes and advertisement\<close>

definition ping_payload :: "'w env \<Rightarrow> txid \<Rightarrow> 'w actor \<Rightarrow> byte list" where
  "ping_payload E txid s = [1, 0] @ octets txid @ octets (public (crypto_lib E) (own_key s))"

definition probe :: "'w env \<Rightarrow> key \<Rightarrow> sock_addr \<Rightarrow> 'w actor \<Rightarrow> 'w actor" where
  "probe E key endpoint s =
     (if \<not> usable_endpoint endpoint then s
      else case draw_txid E s of (txid, s) \<Rightarrow>
        (case map_of (peers s) key of
           None \<Rightarrow> s
         | Some p \<Rightarrow>
             (case seal_to E (disco_key p) (ping_payload E txid s) s of
                (Inl _, s) \<Rightarrow> s
              | (Inr packet, s) \<Rightarrow>
                  if length (probes s) < max_probes
                  then snd (send_udp E packet endpoint
                         (s\<lparr>probes := AList.update txid (key, endpoint, clock s) (probes s)\<rparr>))
                  else s)))"

definition advertise_to :: "'w env \<Rightarrow> byte list \<Rightarrow> key \<Rightarrow> 'w actor \<Rightarrow> 'w actor" where
  "advertise_to E payload key s =
     (case map_of (peers s) key of
        None \<Rightarrow> s
      | Some p \<Rightarrow>
          let s = (case seal_to E (disco_key p) payload s of
                     (Inr packet, s) \<Rightarrow> relay_send E key packet s
                   | (Inl _, s) \<Rightarrow> s)
          in fold (probe E key) (candidates p) s)"

definition advertise :: "'w env \<Rightarrow> 'w actor \<Rightarrow> 'w actor" where
  "advertise E s =
     (let s = s\<lparr>last_advertise := clock s\<rparr>;
          payload = [3, 0] @ concat (map encode_endpoint (endpoints s))
      in fold (advertise_to E payload) (iter_keys E s) s)"

section \<open>Disco packets\<close>

text \<open>The three kinds of payload, once a packet is authenticated as the peer's.\<close>

definition disco_ping :: "'w env \<Rightarrow> key \<Rightarrow> peer \<Rightarrow> byte list \<Rightarrow> sock_addr option \<Rightarrow> 'w actor \<Rightarrow> 'w actor" where
  "disco_ping E key p data source s =
     (let endpoint = (case source of Some src \<Rightarrow> src | None \<Rightarrow> (V4 zeros, 0));
          pong = [2, 0] @ slice 2 14 data @ encode_endpoint endpoint;
          s = (case seal_to E (disco_key p) pong s of
                 (Inl _, s) \<Rightarrow> s
               | (Inr frame, s) \<Rightarrow>
                   (case source of
                      Some src \<Rightarrow> snd (send_udp E frame src s)
                    | None \<Rightarrow> relay_send E key frame s))
      in case source of
           None \<Rightarrow> s
         | Some src \<Rightarrow>
             (case remember_endpoint (candidates p) src of (cs, added) \<Rightarrow>
                let s = update_peer key (\<lambda>p. p\<lparr>candidates := cs\<rparr>) s
                in if added then probe E key src s else s))"

fun take_ping :: "txid \<Rightarrow> pending_ping list \<Rightarrow> (pending_ping \<times> pending_ping list) option" where
  "take_ping txid [] = None"
| "take_ping txid (p # ps) =
     (if ping_disco p \<and> ping_txid p = txid then Some (p, ps)
      else map_option (\<lambda>(q, qs). (q, p # qs)) (take_ping txid ps))"

definition ping_answered :: "pending_ping \<Rightarrow> sock_addr option \<Rightarrow> 'w actor \<Rightarrow> 'w actor" where
  "ping_answered p endpoint s =
     reply (ping_result p) (PingReply (Ok \<lparr>latency = elapsed s (ping_started p), answer_endpoint = endpoint,
       answer_region_id = region_id (own_region s)\<rparr>)) s"

definition disco_pong :: "key \<Rightarrow> byte list \<Rightarrow> sock_addr option \<Rightarrow> 'w actor \<Rightarrow> 'w actor" where
  "disco_pong key data source s =
     (let txid = arr (slice 2 14 data);
          s = (case map_of (probes s) txid of
                 Some (expected, endpoint, when) \<Rightarrow>
                   if expected = key \<and> source = Some endpoint \<and> elapsed s when < secs 10
                   then update_peer key (\<lambda>p. p\<lparr>direct := Some (endpoint, clock s)\<rparr>)
                          (s\<lparr>probes := AList.delete txid (probes s)\<rparr>)
                   else s
               | None \<Rightarrow> s)
      in case take_ping txid (pings s) of
           Some (p, ps) \<Rightarrow> ping_answered p source (s\<lparr>pings := ps\<rparr>)
         | None \<Rightarrow> s)"

definition call_me_maybe :: "'w env \<Rightarrow> key \<Rightarrow> byte list \<Rightarrow> 'w actor \<Rightarrow> 'w actor" where
  "call_me_maybe E key data s =
     (let announced = map parse_endpoint (chunks_exact 18 (drop 2 data));
          eps = foldl (\<lambda>eps e. fst (remember_endpoint eps e)) [] (take max_candidates announced)
      in fold (probe E key) eps (update_peer key (\<lambda>p. p\<lparr>candidates := eps\<rparr>) s))"

definition disco_packet :: "'w env \<Rightarrow> key \<Rightarrow> byte list \<Rightarrow> sock_addr option \<Rightarrow> 'w actor \<Rightarrow> 'w actor" where
  "disco_packet E key packet source s =
     (case map_of (peers s) key of
        None \<Rightarrow> s
      | Some p \<Rightarrow>
          if length packet < 78 \<or> slice 6 38 packet \<noteq> octets (disco_key p) then s
          else (case rt_open_disco (crypto_lib E) (own_key s) (disco_key p) packet of
              Inl _ \<Rightarrow> s
            | Inr data \<Rightarrow>
                if length data < 2 \<or> data ! 1 \<noteq> 0 \<or>
                   (case source of Some src \<Rightarrow> \<not> usable_endpoint src | None \<Rightarrow> False) then s
                else if data ! 0 = 1 \<and> 14 \<le> length data then disco_ping E key p data source s
                else if data ! 0 = 2 \<and> 32 \<le> length data then disco_pong key data source s
                else if data ! 0 = 3 \<and> source = None \<and> 18 dvd (length data - 2) then call_me_maybe E key data s
                else s))"

section \<open>The IPv6 filter\<close>

text \<open>
  The handler of a connection attempt to \<open>(dest, port)\<close>: a listener's claim comes first at the
  server's own address, then the port handlers; other addresses are for the forward handler.
\<close>

definition syn_handler :: "'w env \<Rightarrow> server_config \<Rightarrow> ipv6 \<Rightarrow> u16 \<Rightarrow> 'w actor \<Rightarrow> tcp_handler option" where
  "syn_handler E cfg dest port s =
     (case (if dest = local_ip s then open_listener E s False port else None) of
        Some tx \<Rightarrow> Some (ToListener tx)
      | None \<Rightarrow>
          if dest = local_ip s then map_option Service (Option.bind (on_tcp cfg) (\<lambda>f. f port))
          else map_option Service (Option.bind (on_tcp_forward cfg) (\<lambda>f. f (from_ipv6 (V6 dest, port)))))"

definition accept_syn :: "'w env \<Rightarrow> server_config \<Rightarrow> ip_endpoint \<times> ip_endpoint \<Rightarrow> 'w actor \<Rightarrow> 'w actor" where
  "accept_syn E cfg flow s =
     (if list_ex (\<lambda>l. link_flow l = flow) (links s) \<or> max_connections \<le> length (links s) then s
      else case syn_handler E cfg (fst (fst flow)) (snd (fst flow)) s of
          None \<Rightarrow> s
        | Some h \<Rightarrow>
            (case sock_listen E (world s) (fst flow) of
               (None, w) \<Rightarrow> s\<lparr>world := w\<rparr>
             | (Some sock, w) \<Rightarrow>
                 (case duplex E w buffer_size of ((a, pip), w) \<Rightarrow>
                    s\<lparr>links := links s @ [\<lparr>socket = sock, link_flow = flow, pipe = pip, app = Some a,
                        connected = None, handler = Some h, write_closed = False, read_closed = False,
                        link_started = clock s\<rparr>], world := w\<rparr>)))"

definition to_stack :: "byte list \<Rightarrow> 'w actor \<Rightarrow> 'w actor" where
  "to_stack packet s = s\<lparr>dev_incoming := dev_incoming s @ [packet]\<rparr>"

definition receive_tcp :: "'w env \<Rightarrow> server_config \<Rightarrow> ip6 \<Rightarrow> byte list \<Rightarrow> 'w actor \<Rightarrow> 'w actor" where
  "receive_tcp E cfg ip packet s =
     (case parse_tcp E (ip_payload ip) (src_addr ip) (dst_addr ip) of
        None \<Rightarrow> s
      | Some t \<Rightarrow>
          if dst_addr ip = local_ip s \<and> open_listener E s False (tcp_dst t) = None \<and>
             \<not> port_served (served_tcp_ports cfg) (tcp_dst t) then s
          else to_stack packet
            (if control t = CtlSyn \<and> ack_number t = None
             then accept_syn E cfg ((dst_addr ip, tcp_dst t), (src_addr ip, tcp_src t)) s
             else s))"

definition receive_ip :: "'w env \<Rightarrow> byte list \<Rightarrow> 'w actor \<Rightarrow> 'w actor" where
  "receive_ip E packet s =
     (case ipv6_packet E packet of
        None \<Rightarrow> s
      | Some ip \<Rightarrow>
          if ip_version ip \<noteq> 6 then s
          else if next_header ip = 17 then udp_input E ip s
          else (case config s of
              None \<Rightarrow> to_stack packet s
            | Some cfg \<Rightarrow>
                if next_header ip = 6 then receive_tcp E cfg ip packet s
                else if dst_addr ip \<noteq> local_ip s then s
                else to_stack packet s))"

section \<open>Incoming packets\<close>

text \<open>The registration request of a client that this server accepts: the disco key it announces.\<close>

definition meow_request :: "server_config \<Rightarrow> key \<Rightarrow> byte list \<Rightarrow> key option" where
  "meow_request cfg key data =
     (if 69 \<le> length data \<and> data ! 4 = 1 \<and> slice 5 37 data = octets key \<and>
         slice 37 69 data \<noteq> replicate 32 0 \<and> (allowed_clients cfg = [] \<or> key \<in> set (allowed_clients cfg))
      then Some (arr (slice 37 69 data)) else None)"

fun meowed_pings :: "pending_ping list \<Rightarrow> 'w actor \<Rightarrow> pending_ping list \<times> 'w actor" where
  "meowed_pings [] s = ([], s)"
| "meowed_pings (p # ps) s =
     (if ping_disco p then (case meowed_pings ps s of (qs, s) \<Rightarrow> (p # qs, s))
      else meowed_pings ps (ping_answered p None s))"

definition incoming_meow :: "'w env \<Rightarrow> key \<Rightarrow> byte list \<Rightarrow> 'w actor \<Rightarrow> 'w actor" where
  "incoming_meow E key data s =
     (case config s of
        Some cfg \<Rightarrow>
          (case meow_request cfg key data of
             Some disco \<Rightarrow>
               let s = add_peer E key disco s
               in if map_of (peers s) key \<noteq> None then advertise E (relay_send E key encode_meowed s) else s
           | None \<Rightarrow> s)
      | None \<Rightarrow>
          if Some key = server s \<and> 5 \<le> length data \<and> data ! 4 = 2
          then (case meowed_pings (pings s) s of (ps, s) \<Rightarrow> s\<lparr>pings := ps\<rparr>)
          else s)"

text \<open>
  A packet a tunnel yields is taken only if it is long enough for its source address, which on a
  server must be the address of the peer whose tunnel it came through.
\<close>

definition source_allowed :: "'w actor \<Rightarrow> key \<Rightarrow> byte list \<Rightarrow> bool" where
  "source_allowed s key b =
     (40 \<le> length b \<and> (config s = None \<or> slice 8 24 b = octets (tc_addr_for_key key)))"

fun decapsulate :: "'w env \<Rightarrow> nat \<Rightarrow> key \<Rightarrow> ip_addr option \<Rightarrow> byte list \<Rightarrow> 'w actor \<Rightarrow> stop + 'w actor" where
  "decapsulate E 0 key src packet s = Inl Diverged"
| "decapsulate E (Suc fuel) key src packet s =
     (if map_of (peers s) key = None then Inl Panic
      else case tunn_decapsulate E (world s) key src packet of (r, w) \<Rightarrow>
        (let s = s\<lparr>world := w\<rparr> in
         case r of
           WriteToNetwork b \<Rightarrow> decapsulate E fuel key src [] (send_packet E key b s)
         | WriteToTunnelV6 b \<Rightarrow>
             decapsulate E fuel key src [] (if source_allowed s key b then receive_ip E b s else s)
         | _ \<Rightarrow> Inr s))"

definition incoming ::
  "'w env \<Rightarrow> nat \<Rightarrow> key \<Rightarrow> byte list \<Rightarrow> sock_addr option \<Rightarrow> 'w actor \<Rightarrow> stop + 'w actor" where
  "incoming E fuel key data source s =
     (if starts_with data meow_magic then
        (if source \<noteq> None then Inr s else Inr (incoming_meow E key data s))
      else if starts_with data disco_magic then Inr (disco_packet E key data source s)
      else if map_of (peers s) key = None then Inr s
      else decapsulate E fuel key (map_option fst source) data s)"

text \<open>A datagram on the UDP sockets: STUN, disco, or WireGuard tried for every peer it may be from.\<close>

fun incoming_each ::
  "'w env \<Rightarrow> nat \<Rightarrow> key list \<Rightarrow> byte list \<Rightarrow> sock_addr option \<Rightarrow> 'w actor \<Rightarrow> stop + 'w actor" where
  "incoming_each E fuel [] data source s = Inr s"
| "incoming_each E fuel (k # ks) data source s =
     and_then (incoming E fuel k data source s) (incoming_each E fuel ks data source)"

definition may_be_from :: "peer \<Rightarrow> sock_addr \<Rightarrow> bool" where
  "may_be_from p source =
     ((case direct p of Some (ep, _) \<Rightarrow> ep = source | None \<Rightarrow> False) \<or> source \<in> set (candidates p))"

definition udp_packet :: "'w env \<Rightarrow> nat \<Rightarrow> byte list \<Rightarrow> sock_addr \<Rightarrow> 'w actor \<Rightarrow> stop + 'w actor" where
  "udp_packet E fuel data source s =
     (if is_stun_response (stun_txid s) data then
        Inr (case parse_stun data of
               Some endpoint \<Rightarrow>
                 (case remember_endpoint (endpoints s) endpoint of (es, added) \<Rightarrow>
                    let s = s\<lparr>endpoints := es\<rparr>
                    in if added then s\<lparr>last_advertise := clock s - secs 60\<rparr> else s)
             | None \<Rightarrow> s)
      else if starts_with data disco_magic \<and> 38 \<le> length data then
        (case find (\<lambda>k. map_option (\<lambda>p. octets (disco_key p)) (map_of (peers s) k) = Some (slice 6 38 data)) (iter_keys E s) of
           Some k \<Rightarrow> incoming E fuel k data (Some source) s
         | None \<Rightarrow> Inr s)
      else
        incoming_each E fuel
          (filter (\<lambda>k. case map_of (peers s) k of Some p \<Rightarrow> may_be_from p source | None \<Rightarrow> False) (iter_keys E s))
          data (Some source) s)"

end
