(* ===== verification/ActorLoop.thy ===== *)
theory ActorLoop
  imports Actor
begin

text \<open>
  The rest of \<open>impl Actor\<close>: the commands of the public API, the links between TCP sockets and the
  application's pipes (\<open>poll_links\<close>), the periodic work (\<open>tick\<close>), the loop (\<open>run\<close>), the state it
  starts in, and the client's and server's ends of it (\<open>Server::start\<close>, \<open>Client::connect\<close>).
\<close>

section \<open>Pings and status\<close>

definition send_ping :: "'w env \<Rightarrow> pending_ping \<Rightarrow> 'w actor \<Rightarrow> pending_ping \<times> 'w actor" where
  "send_ping E p s =
     (case server s of
        None \<Rightarrow> (p, s)
      | Some key \<Rightarrow>
          let p = p\<lparr>ping_sent := clock s\<rparr>
          in (p,
            if ping_disco p then
              (case map_of (peers s) key of
                 None \<Rightarrow> s
               | Some peer \<Rightarrow>
                   (case seal_to E (disco_key peer) (ping_payload E (ping_txid p) s) s of
                      (Inr frame, s) \<Rightarrow> send_packet E key frame s
                    | (Inl _, s) \<Rightarrow> s))
            else relay_send E key
                   (encode_meow_ping (public (crypto_lib E) (own_key s)) (disco_public (crypto_lib E) (own_key s))) s))"

definition peer_status_of :: "'w env \<Rightarrow> 'w actor \<Rightarrow> peer \<Rightarrow> peer_status" where
  "peer_status_of E s p =
     (case tunn_stats E (world s) (peer_key p) of (age, tx, rx) \<Rightarrow>
        \<lparr>ps_public_key = peer_key p, ps_address = tc_addr_for_key (peer_key p),
         direct_endpoint =
           (case direct p of Some (ep, when) \<Rightarrow> if elapsed s when < secs 15 then Some ep else None | None \<Rightarrow> None),
         handshake_age = age, tx_bytes = tx, rx_bytes = rx\<rparr>)"

definition status :: "'w env \<Rightarrow> 'w actor \<Rightarrow> runtime_status" where
  "status E s =
     \<lparr>rs_address = local_ip s, rs_public_key = public (crypto_lib E) (own_key s),
      rs_region_id = region_id (own_region s),
      active_tcp_connections =
        length (filter (\<lambda>l. sock_state E (world s) (socket l) \<notin> {Closed, TimeWait}) (links s)),
      rs_peers = sort_key ps_public_key (map (\<lambda>(k, p). peer_status_of E s p) (peers s))\<rparr>"

section \<open>Commands\<close>

text \<open>Ports 49152 to 65535, and 32768 to 65535, in order.\<close>

definition dynamic_ports :: "u16 list" where
  "dynamic_ports = map of_nat [49152..<65536]"

definition client_ports :: "u16 list" where
  "client_ports = map of_nat [32768..<65536]"

definition cmd_listen :: "'w env \<Rightarrow> bool \<Rightarrow> u16 \<Rightarrow> chan \<Rightarrow> 'w actor \<Rightarrow> 'w actor" where
  "cmd_listen E udp port result s =
     (let s = s\<lparr>listeners := filter (\<lambda>(k, tx). \<not> channel_closed E (world s) tx) (listeners s)\<rparr>;
          port = (if port = 0
                  then (case find (\<lambda>p. map_of (listeners s) (udp, p) = None) dynamic_ports of Some p \<Rightarrow> p | None \<Rightarrow> 0)
                  else port)
      in if port = 0 \<or> map_of (listeners s) (udp, port) \<noteq> None
         then reply result (ListenReply (Err ''port is already in use'')) s
         else case channel_new E (world s) 32 of (tx, w) \<Rightarrow>
           reply result (ListenReply (Ok (port, tx)))
             (s\<lparr>listeners := AList.update (udp, port) tx (listeners s), world := w\<rparr>))"

definition cmd_dial_udp :: "'w env \<Rightarrow> sock_addr \<Rightarrow> chan \<Rightarrow> 'w actor \<Rightarrow> 'w actor" where
  "cmd_dial_udp E target result s =
     (if max_connections \<le> length (udp_flows s)
      then reply result (FlowReply (Err ''too many UDP flows'')) s
      else case find (\<lambda>p. map_of (udp_flows s) ((V6 (local_ip s), p), target) = None) client_ports of
          None \<Rightarrow> reply result (FlowReply (Err ''no UDP ports available'')) s
        | Some port \<Rightarrow>
            (case new_udp_flow E ((V6 (local_ip s), port), target) s of (stream, s) \<Rightarrow>
               reply result (FlowReply (Ok stream)) s))"

definition cmd_dial :: "'w env \<Rightarrow> sock_addr \<Rightarrow> chan \<Rightarrow> 'w actor \<Rightarrow> 'w actor" where
  "cmd_dial E target result s =
     (if reply_closed E (world s) result then s
      else if max_connections \<le> length (links s)
      then reply result (StreamReply (Err ''too many connections'')) s
      else let port = next_port s;
               s = s\<lparr>next_port := if port = 65535 then 32768 else port + 1\<rparr>;
               target = (nat64_addr (fst target), snd target)
           in case sock_connect E (world s) target (local_ip s, port) of
                (Inl e, w) \<Rightarrow> reply result (StreamReply (Err ''TCP connect'')) (s\<lparr>world := w\<rparr>)
              | (Inr sock, w) \<Rightarrow>
                  (case duplex E w buffer_size of ((a, pip), w) \<Rightarrow>
                     advertise E (s\<lparr>links := links s @ [\<lparr>socket = sock, link_flow = ((local_ip s, port), target),
                         pipe = pip, app = Some a, connected = Some result, handler = None, write_closed = False,
                         read_closed = False, link_started = clock s\<rparr>], world := w\<rparr>)))"

definition cmd_ping :: "'w env \<Rightarrow> bool \<Rightarrow> chan \<Rightarrow> 'w actor \<Rightarrow> 'w actor" where
  "cmd_ping E disco result s =
     (if reply_closed E (world s) result then s
      else let s = s\<lparr>pings := filter (\<lambda>p. \<not> reply_closed E (world s) (ping_result p)) (pings s)\<rparr>
      in if max_pending_pings \<le> length (pings s)
         then reply result (PingReply (Err ''too many pending pings'')) s
         else case draw_txid E s of (txid, s) \<Rightarrow>
              case send_ping E \<lparr>ping_started = clock s, ping_sent = clock s, ping_disco = disco, ping_txid = txid,
                  ping_result = result\<rparr> s of (p, s) \<Rightarrow>
                let s = s\<lparr>pings := pings s @ [p]\<rparr> in if disco then advertise E s else s)"

definition cmd_allow :: "key \<Rightarrow> 'w actor \<Rightarrow> 'w actor" where
  "cmd_allow key s =
     (case config s of
        Some c \<Rightarrow>
          if key \<in> set (allowed_clients c) then s
          else s\<lparr>config := Some (c\<lparr>allowed_clients := allowed_clients c @ [key]\<rparr>)\<rparr>
      | None \<Rightarrow> s)"

fun command :: "'w env \<Rightarrow> command \<Rightarrow> 'w actor \<Rightarrow> 'w actor" where
  "command E (CmdListen udp port result) s = cmd_listen E udp port result s"
| "command E (CmdDialUdp target result) s = cmd_dial_udp E target result s"
| "command E (CmdSendUdp flow data generation result) s =
     reply result SentReply (udp_output E flow data generation s)"
| "command E (CmdStatus result) s = reply result (StatusReply (status E s)) s"
| "command E (CmdDial target result) s = cmd_dial E target result s"
| "command E (CmdPing disco result) s = cmd_ping E disco result s"
| "command E (CmdDrain tx) s = s\<lparr>drains := drains s @ [tx]\<rparr>"
| "command E (CmdAllow key) s = cmd_allow key s"

section \<open>Links\<close>

text \<open>
  One link's turn in \<open>poll_links\<close>, step by step: hand the stream over once the connection stands,
  give up on a cancelled or overdue connection, move bytes from the pipe to the socket and from the
  socket to the pipe, pass on the end of input, and decide whether the link is finished.
\<close>

definition peer_at :: "'w env \<Rightarrow> 'w actor \<Rightarrow> ipv6 \<Rightarrow> key" where
  "peer_at E s addr =
     (case find (\<lambda>k. tc_addr_for_key k = addr) (iter_keys E s) of Some k \<Rightarrow> k | None \<Rightarrow> zeros)"

definition sock_abort_in :: "'w env \<Rightarrow> link \<Rightarrow> 'w actor \<Rightarrow> 'w actor" where
  "sock_abort_in E l s = s\<lparr>world := sock_abort E (world s) (socket l)\<rparr>"

definition link_open :: "'w env \<Rightarrow> link \<Rightarrow> 'w actor \<Rightarrow> link \<times> 'w actor" where
  "link_open E l s =
     (case app l of
        Some a \<Rightarrow>
          if sock_state E (world s) (socket l) \<in> {Established, CloseWait} then
            let l = l\<lparr>app := None\<rparr> in
            (case connected l of
               Some result \<Rightarrow>
                 (l\<lparr>connected := None\<rparr>,
                  let s' = reply result (StreamReply (Ok a)) s
                  in if reply_closed E (world s) result then sock_abort_in E l s' else s')
             | None \<Rightarrow>
                 (case handler l of
                    Some h \<Rightarrow>
                      (l\<lparr>handler := None\<rparr>,
                       emit (SpawnTcp h a
                         \<lparr>peer_key_of = peer_at E s (fst (snd (link_flow l))),
                          remote_addr = (V6 (fst (snd (link_flow l))), snd (snd (link_flow l))),
                          local_addr = (V6 (fst (fst (link_flow l))), snd (fst (link_flow l)))\<rparr>) s)
                  | None \<Rightarrow> (l, s)))
          else (l, s)
      | None \<Rightarrow> (l, s))"

definition link_abandon :: "'w env \<Rightarrow> link \<Rightarrow> 'w actor \<Rightarrow> 'w actor" where
  "link_abandon E l s =
     (let s = (case connected l of
                 Some r \<Rightarrow> if reply_closed E (world s) r then sock_abort_in E l s else s
               | None \<Rightarrow> s)
      in if app l \<noteq> None \<and> secs 20 < elapsed s (link_started l) then sock_abort_in E l s else s)"

definition link_send :: "'w env \<Rightarrow> link \<Rightarrow> 'w actor \<Rightarrow> link \<times> 'w actor" where
  "link_send E l s =
     (if sock_can_send E (world s) (socket l) \<and> \<not> write_closed l \<and> app l = None then
        (case pipe_read E (world s) (pipe l) (min (sock_room E (world s) (socket l)) 16384) of
           (Ready [], w) \<Rightarrow> (l\<lparr>write_closed := True\<rparr>, s\<lparr>world := sock_close E w (socket l)\<rparr>)
         | (Ready data, w) \<Rightarrow> (l, s\<lparr>world := sock_send E w (socket l) data\<rparr>)
         | (Failed, w) \<Rightarrow> (l, s\<lparr>world := sock_abort E w (socket l)\<rparr>)
         | (Pending, w) \<Rightarrow> (l, s\<lparr>world := w\<rparr>))
      else (l, s))"

definition link_receive :: "'w env \<Rightarrow> link \<Rightarrow> 'w actor \<Rightarrow> link \<times> 'w actor" where
  "link_receive E l s =
     (if sock_can_recv E (world s) (socket l) \<and> app l = None then
        let data = sock_received E (world s) (socket l) in
        (case pipe_write E (world s) (pipe l) data of
           (Ready n, w) \<Rightarrow> (l, s\<lparr>world := sock_consume E w (socket l) n\<rparr>)
         | (Failed, w) \<Rightarrow> (l\<lparr>read_closed := True\<rparr>, s\<lparr>world := sock_consume E w (socket l) (length data)\<rparr>)
         | (Pending, w) \<Rightarrow> (l, s\<lparr>world := sock_consume E w (socket l) 0\<rparr>))
      else (l, s))"

definition link_shutdown :: "'w env \<Rightarrow> link \<Rightarrow> 'w actor \<Rightarrow> link \<times> 'w actor" where
  "link_shutdown E l s =
     (if \<not> sock_may_recv E (world s) (socket l) \<and> \<not> read_closed l \<and> app l = None then
        (case pipe_shutdown E (world s) (pipe l) of
           (True, w) \<Rightarrow> (l\<lparr>read_closed := True\<rparr>, s\<lparr>world := w\<rparr>)
         | (False, w) \<Rightarrow> (l, s\<lparr>world := w\<rparr>))
      else (l, s))"

definition link_finished :: "'w env \<Rightarrow> link \<Rightarrow> 'w actor \<Rightarrow> bool" where
  "link_finished E l s =
     (sock_state E (world s) (socket l) = Closed \<and>
      (\<not> sock_can_recv E (world s) (socket l) \<or> read_closed l))"

definition poll_link :: "'w env \<Rightarrow> link \<Rightarrow> 'w actor \<Rightarrow> link \<times> bool \<times> 'w actor" where
  "poll_link E l s =
     (case link_open E l s of (l, s) \<Rightarrow>
      case link_send E l (link_abandon E l s) of (l, s) \<Rightarrow>
      case link_receive E l s of (l, s) \<Rightarrow>
      case link_shutdown E l s of (l, s) \<Rightarrow>
      if link_finished E l s then
        (case connected l of
           Some r \<Rightarrow> (l\<lparr>connected := None\<rparr>, True,
             reply r (StreamReply (Err ''TCP connection refused or closed'')) s)
         | None \<Rightarrow> (l, True, s))
      else (l, False, s))"

text \<open>All links in order, each with whether it is to be removed.\<close>

fun poll_each :: "'w env \<Rightarrow> link list \<Rightarrow> 'w actor \<Rightarrow> (link \<times> bool) list \<times> 'w actor" where
  "poll_each E [] s = ([], s)"
| "poll_each E (l # ls) s =
     (case poll_link E l s of (l, gone, s) \<Rightarrow>
      case poll_each E ls s of (rs, s) \<Rightarrow> ((l, gone) # rs, s))"

definition swap_remove :: "nat \<Rightarrow> 'a list \<Rightarrow> 'a list" where
  "swap_remove i xs = butlast (xs[i := last xs])"

definition poll_links :: "'w env \<Rightarrow> 'w actor \<Rightarrow> 'w actor" where
  "poll_links E s =
     (case poll_each E (links s) s of (rs, s) \<Rightarrow>
        let remove = filter (\<lambda>i. snd (rs ! i)) [0..<length rs]
        in foldl (\<lambda>s i. s\<lparr>world := sock_remove E (world s) (socket (links s ! i)), links := swap_remove i (links s)\<rparr>)
             (s\<lparr>links := map fst rs\<rparr>) (rev remove))"

section \<open>The tick\<close>

definition poll_stack :: "'w env \<Rightarrow> 'w actor \<Rightarrow> 'w actor" where
  "poll_stack E s =
     (case stack_poll E (world s) (clock s) (dev_incoming s) of (inp, out, w) \<Rightarrow>
        s\<lparr>dev_incoming := inp, dev_outgoing := dev_outgoing s @ out, world := w\<rparr>)"

text \<open>
  The key a packet of the TCP stack is encrypted for: the server of a client, and on a server the
  peer with the destination address.
\<close>

definition key_for :: "'w env \<Rightarrow> 'w actor \<Rightarrow> byte list \<Rightarrow> key option" where
  "key_for E s packet =
     (case server s of
        Some k \<Rightarrow> Some k
      | None \<Rightarrow> find (\<lambda>k. octets (tc_addr_for_key k) = slice 24 40 packet) (iter_keys E s))"

definition send_ip :: "'w env \<Rightarrow> byte list \<Rightarrow> 'w actor \<Rightarrow> stop + 'w actor" where
  "send_ip E packet s =
     (if length packet < 40 then Inr s
      else case key_for E s packet of
          None \<Rightarrow> Inr s
        | Some key \<Rightarrow>
            if map_of (peers s) key = None then Inl Panic
            else (case tunn_encapsulate E (world s) key packet of
                (WriteToNetwork b, w) \<Rightarrow> Inr (send_packet E key b (s\<lparr>world := w\<rparr>))
              | (_, w) \<Rightarrow> Inr (s\<lparr>world := w\<rparr>)))"

fun send_all :: "'w env \<Rightarrow> byte list list \<Rightarrow> 'w actor \<Rightarrow> stop + 'w actor" where
  "send_all E [] s = Inr s"
| "send_all E (p # ps) s = and_then (send_ip E p s) (send_all E ps)"

definition tunnel_timer :: "'w env \<Rightarrow> key \<Rightarrow> 'w actor \<Rightarrow> 'w actor" where
  "tunnel_timer E key s =
     (case tunn_update_timers E (world s) key of
        (WriteToNetwork b, w) \<Rightarrow> send_packet E key b (s\<lparr>world := w\<rparr>)
      | (_, w) \<Rightarrow> s\<lparr>world := w\<rparr>)"

fun resend_pings :: "'w env \<Rightarrow> pending_ping list \<Rightarrow> 'w actor \<Rightarrow> pending_ping list \<times> 'w actor" where
  "resend_pings E [] s = ([], s)"
| "resend_pings E (p # ps) s =
     (if reply_closed E (world s) (ping_result p) then resend_pings E ps s
      else if secs 10 < elapsed s (ping_started p)
      then resend_pings E ps (reply (ping_result p) (PingReply (Err ''ping timed out'')) s)
      else case (if secs 1 \<le> elapsed s (ping_sent p) then send_ping E p s else (p, s)) of (p, s) \<Rightarrow>
           case resend_pings E ps s of (qs, s) \<Rightarrow> (p # qs, s))"

definition run_timers :: "'w env \<Rightarrow> 'w actor \<Rightarrow> 'w actor" where
  "run_timers E s =
     (if elapsed s (last_timers s) < millis 250 then s
      else let s = fold (tunnel_timer E) (iter_keys E s) (s\<lparr>last_timers := clock s\<rparr>)
           in case resend_pings E (pings s) s of (ps, s) \<Rightarrow>
             s\<lparr>pings := ps, probes := filter (\<lambda>(t, k, e, when). elapsed s when < secs 10) (probes s)\<rparr>)"

text \<open>
  \<open>send_stun\<close>: a request to each of the first three nodes that has a STUN port. The host is
  resolved and the packet sent in a task of its own; what is recorded is the targets and the packet.
\<close>

definition stun_targets :: "region \<Rightarrow> (string \<times> u16) list" where
  "stun_targets r =
     List.map_filter (\<lambda>n.
       if sint (stun_port n) < 0 then None
       else Some (if node_ipv4 n \<noteq> [] \<and> node_ipv4 n \<noteq> ''none'' then node_ipv4 n else host_name n,
                  if stun_port n = 0 then 3478 else ucast (stun_port n)))
       (take 3 (nodes r))"

definition stun_request_packet :: "txid \<Rightarrow> byte list" where
  "stun_request_packet txid = [0, 1, 0, 0, 0x21, 0x12, 0xA4, 0x42] @ octets txid"

definition send_stun :: "'w actor \<Rightarrow> 'w actor" where
  "send_stun s = emit (StunRequests (stun_targets (own_region s)) (stun_request_packet (stun_txid s))) s"

definition settle_drains :: "'w env \<Rightarrow> 'w actor \<Rightarrow> 'w actor" where
  "settle_drains E s =
     (if drains s \<noteq> [] \<and>
         list_all (\<lambda>l. sock_state E (world s) (socket l) \<in> {Closed, TimeWait, FinWait2}) (links s) \<and>
         dev_outgoing s = []
      then fold (\<lambda>tx. reply tx DrainReply) (drains s) (s\<lparr>drains := []\<rparr>)
      else s)"

definition tick :: "'w env \<Rightarrow> 'w actor \<Rightarrow> stop + 'w actor" where
  "tick E s =
     (let s = poll_stack E (poll_links E (poll_stack E (expire_udp E s)))
      in and_then (send_all E (dev_outgoing s) (s\<lparr>dev_outgoing := []\<rparr>)) (\<lambda>s.
         let s = run_timers E s;
             s = (if secs 5 < elapsed s (last_advertise s) then send_stun (advertise E s) else s)
         in Inr (settle_drains E s)))"

section \<open>The loop\<close>

text \<open>What \<open>select!\<close> completed; the interval's tick brings nothing but the tick itself.\<close>

datatype event =
    Command command
  | FromRelay key "byte list"
  | RelayGone
  | FromUdp "byte list" sock_addr
  | IntervalTick
  | Cancelled

definition handle :: "'w env \<Rightarrow> nat \<Rightarrow> event \<Rightarrow> 'w actor \<Rightarrow> stop + 'w actor" where
  "handle E fuel e s =
     (case e of
        Command c \<Rightarrow> Inr (command E c s)
      | FromRelay key data \<Rightarrow> incoming E fuel key data None s
      | FromUdp data source \<Rightarrow> udp_packet E fuel data source s
      | _ \<Rightarrow> Inr s)"

text \<open>One iteration, at the time \<open>t\<close>: the event, then the tick.\<close>

definition iteration :: "'w env \<Rightarrow> nat \<Rightarrow> instant \<times> event \<Rightarrow> 'w actor \<Rightarrow> stop + 'w actor" where
  "iteration E fuel te s =
     and_then (handle E fuel (snd te) (s\<lparr>clock := max (clock s) (fst te)\<rparr>)) (tick E)"

text \<open>\<open>run\<close>: until cancelled or the relay is gone. The flag says whether it is still running.\<close>

fun run :: "'w env \<Rightarrow> nat \<Rightarrow> (instant \<times> event) list \<Rightarrow> 'w actor \<Rightarrow> stop + bool \<times> 'w actor" where
  "run E fuel [] s = Inr (True, s)"
| "run E fuel ((t, e) # es) s =
     (if e = Cancelled \<or> e = RelayGone then Inr (False, s)
      else and_then (iteration E fuel (t, e) s) (run E fuel es))"

end
