(* ===== verification/ActorInv.thy ===== *)
theory ActorInv
  imports ActorLoop
begin

text \<open>
  The invariant of the actor and its preservation by every operation: the tables are within their
  limits and hold no key twice, peers carry nonzero keys and usable endpoints, probes go to usable
  endpoints, and the server of a client is among its peers.
\<close>

section \<open>The invariant\<close>

definition peer_ok :: "key \<times> peer \<Rightarrow> bool" where
  "peer_ok kp \<longleftrightarrow>
     peer_key (snd kp) = fst kp \<and> fst kp \<noteq> zeros \<and> disco_key (snd kp) \<noteq> zeros \<and>
     well_kept (candidates (snd kp)) \<and>
     (case direct (snd kp) of Some (ep, _) \<Rightarrow> usable_endpoint ep | None \<Rightarrow> True)"

definition peers_ok :: "(key \<times> peer) list \<Rightarrow> bool" where
  "peers_ok ps \<longleftrightarrow> distinct (map fst ps) \<and> length ps \<le> max_peers \<and> list_all peer_ok ps"

definition probes_ok :: "(txid \<times> (key \<times> sock_addr \<times> instant)) list \<Rightarrow> bool" where
  "probes_ok ps \<longleftrightarrow>
     distinct (map fst ps) \<and> length ps \<le> max_probes \<and> list_all (\<lambda>(t, k, e, w). usable_endpoint e) ps"

definition flows_ok :: "(flow \<times> udp_flow) list \<Rightarrow> bool" where
  "flows_ok fs \<longleftrightarrow> distinct (map fst fs) \<and> length fs \<le> max_connections"

definition actor_inv :: "'w actor \<Rightarrow> bool" where
  "actor_inv s \<longleftrightarrow>
     peers_ok (peers s) \<and> probes_ok (probes s) \<and> flows_ok (udp_flows s) \<and>
     length (links s) \<le> max_connections \<and> length (pings s) \<le> max_pending_pings \<and>
     well_kept (endpoints s) \<and> (\<forall>k. server s = Some k \<longrightarrow> k \<in> set (map fst (peers s)))"

lemma actor_inv_other [simp]:
  "actor_inv (s\<lparr>world := w\<rparr>) = actor_inv s" "actor_inv (s\<lparr>sent := es\<rparr>) = actor_inv s"
  "actor_inv (s\<lparr>clock := t\<rparr>) = actor_inv s" "actor_inv (s\<lparr>last_timers := t\<rparr>) = actor_inv s"
  "actor_inv (s\<lparr>last_advertise := t\<rparr>) = actor_inv s" "actor_inv (s\<lparr>next_port := p\<rparr>) = actor_inv s"
  "actor_inv (s\<lparr>listeners := ls\<rparr>) = actor_inv s" "actor_inv (s\<lparr>dev_incoming := q\<rparr>) = actor_inv s"
  "actor_inv (s\<lparr>dev_outgoing := q\<rparr>) = actor_inv s" "actor_inv (s\<lparr>drains := d\<rparr>) = actor_inv s"
  "actor_inv (s\<lparr>config := c\<rparr>) = actor_inv s"
  by (simp_all add: actor_inv_def)

lemma actor_inv_outgoing: "outgoing s t \<Longrightarrow> actor_inv t = actor_inv s"
  by (auto simp: outgoing_def)

lemma actor_inv_ops [simp]:
  "actor_inv (emit e s) = actor_inv s" "actor_inv (relay_send E k d s) = actor_inv s"
  "actor_inv (snd (send_udp E d ep s)) = actor_inv s" "actor_inv (snd (draw_txid E s)) = actor_inv s"
  "actor_inv (snd (seal_to E k d s)) = actor_inv s" "actor_inv (send_packet E k d s) = actor_inv s"
  "actor_inv (to_stack p s) = actor_inv s"
  by (simp_all add: actor_inv_outgoing to_stack_def)

lemma actor_inv_updates:
  "actor_inv s \<Longrightarrow> probes_ok ps \<Longrightarrow> actor_inv (s\<lparr>probes := ps\<rparr>)"
  "actor_inv s \<Longrightarrow> flows_ok fs \<Longrightarrow> actor_inv (s\<lparr>udp_flows := fs\<rparr>)"
  "actor_inv s \<Longrightarrow> length ls \<le> max_connections \<Longrightarrow> actor_inv (s\<lparr>links := ls\<rparr>)"
  "actor_inv s \<Longrightarrow> length qs \<le> max_pending_pings \<Longrightarrow> actor_inv (s\<lparr>pings := qs\<rparr>)"
  "actor_inv s \<Longrightarrow> well_kept es \<Longrightarrow> actor_inv (s\<lparr>endpoints := es\<rparr>)"
  by (simp_all add: actor_inv_def)

lemma actor_inv_udp_only:
  "udp_only s t \<Longrightarrow> actor_inv s \<Longrightarrow> flows_ok (udp_flows t) \<Longrightarrow> actor_inv t"
  unfolding udp_only_def by (auto simp: actor_inv_def)

lemma probes_ok_update:
  "probes_ok ps \<Longrightarrow> length ps < max_probes \<Longrightarrow> usable_endpoint e \<Longrightarrow> probes_ok (AList.update t (k, e, w) ps)"
  using set_update_subset [of t "(k, e, w)" ps]
  by (auto simp: probes_ok_def length_update distinct_update list_all_iff)

lemma probes_ok_filter: "probes_ok ps \<Longrightarrow> probes_ok (filter P ps)"
  using length_filter_le [of P ps]
  by (auto simp: probes_ok_def list_all_iff distinct_map_filter simp del: length_filter_le)

lemma probes_ok_delete: "probes_ok ps \<Longrightarrow> probes_ok (AList.delete t ps)"
  by (simp add: AList.delete_eq probes_ok_filter)

lemma update_peer_keys [simp]: "map fst (peers (update_peer k f s)) = map fst (peers s)"
  by (induction "peers s" arbitrary: s) (auto simp: update_peer_def comp_def case_prod_beta)

lemma actor_inv_update_peer:
  assumes "actor_inv s" "\<And>p. peer_ok (k, p) \<Longrightarrow> peer_ok (k, f p)"
  shows "actor_inv (update_peer k f s)"
proof -
  have "peers_ok (peers (update_peer k f s))"
    using assms by (auto simp: actor_inv_def peers_ok_def list_all_iff update_peer_def comp_def case_prod_beta)
  moreover have "server (update_peer k f s) = server s" by (simp add: update_peer_def)
  ultimately show ?thesis using assms(1) by (simp add: actor_inv_def) (simp add: update_peer_def)
qed

lemma peer_ok_lookup: "actor_inv s \<Longrightarrow> map_of (peers s) k = Some p \<Longrightarrow> peer_ok (k, p)"
  by (auto simp: actor_inv_def peers_ok_def list_all_iff dest: map_of_SomeD)

lemma peer_ok_updates:
  "peer_ok (k, p) \<Longrightarrow> well_kept cs \<Longrightarrow> peer_ok (k, p\<lparr>candidates := cs\<rparr>)"
  "peer_ok (k, p) \<Longrightarrow> usable_endpoint ep \<Longrightarrow> peer_ok (k, p\<lparr>direct := Some (ep, t)\<rparr>)"
  by (auto simp: peer_ok_def)

section \<open>Peers and disco\<close>

lemma actor_inv_add_peer: "actor_inv s \<Longrightarrow> actor_inv (add_peer E k d s)"
  by (auto simp: add_peer_def actor_inv_def peers_ok_def peer_ok_def Let_def map_of_eq_None_iff split: option.splits)

lemma actor_inv_probe: "actor_inv s \<Longrightarrow> actor_inv (probe E k ep s)"
proof -
  assume inv: "actor_inv s"
  obtain txid s1 where d: "draw_txid E s = (txid, s1)" by (metis surj_pair)
  have i1: "actor_inv s1" using inv actor_inv_ops(4) [of E s] by (simp add: d)
  show ?thesis
  proof (cases "usable_endpoint ep \<and> map_of (peers s1) k \<noteq> None")
    case False
    with inv i1 show ?thesis by (auto simp: probe_def d)
  next
    case True
    then obtain p where p: "map_of (peers s1) k = Some p" by auto
    obtain r s2 where r: "seal_to E (disco_key p) (ping_payload E txid s1) s1 = (r, s2)" by (metis surj_pair)
    have i2: "actor_inv s2"
      using i1 actor_inv_ops(5) [of E "disco_key p" "ping_payload E txid s1" s1] by (simp add: r)
    then have "probes_ok (probes s2)" by (simp add: actor_inv_def)
    with i2 True p r show ?thesis
      by (auto simp: probe_def d split: sum.splits intro!: actor_inv_updates probes_ok_update)
  qed
qed

lemma actor_inv_fold: "(\<And>x s. actor_inv s \<Longrightarrow> actor_inv (f x s)) \<Longrightarrow> actor_inv s \<Longrightarrow> actor_inv (fold f xs s)"
  by (induction xs arbitrary: s) auto

lemma actor_inv_sealed:
  assumes "actor_inv s" "\<And>x t. actor_inv t \<Longrightarrow> actor_inv (f x t)"
  shows "actor_inv (case seal_to E k d s of (Inl e, t) \<Rightarrow> t | (Inr x, t) \<Rightarrow> f x t)"
proof -
  obtain r t where r: "seal_to E k d s = (r, t)" by (metis surj_pair)
  then have "actor_inv t" using assms(1) actor_inv_ops(5) [of E k d s] by simp
  with assms(2) r show ?thesis by (auto split: sum.splits)
qed

lemma actor_inv_advertise: "actor_inv s \<Longrightarrow> actor_inv (advertise E s)"
proof -
  have *: "actor_inv (advertise_to E payload k t)" if "actor_inv t" for payload k t
  proof (cases "map_of (peers t) k")
    case None
    with that show ?thesis by (simp add: advertise_to_def)
  next
    case (Some p)
    have "actor_inv (case seal_to E (disco_key p) payload t of (Inl e, s) \<Rightarrow> s | (Inr packet, s) \<Rightarrow> relay_send E k packet s)"
      by (rule actor_inv_sealed) (use that in auto)
    then show ?thesis
      by (simp add: advertise_to_def Some Let_def)
        (rule actor_inv_fold, auto intro: actor_inv_probe)
  qed
  assume "actor_inv s"
  then show ?thesis unfolding advertise_def Let_def
    by (intro actor_inv_fold [where f = "advertise_to E _"]) (auto intro: *)
qed

lemma remember_ok: "well_kept es \<Longrightarrow> remember_endpoint es e = (es', b) \<Longrightarrow> well_kept es'"
  using remember_well_kept [of es e] by simp

lemma actor_inv_disco_ping:
  assumes "actor_inv s" "map_of (peers s) k = Some p"
  shows "actor_inv (disco_ping E k p data source s)"
proof -
  let ?pong = "[2, 0] @ slice 2 14 data @ encode_endpoint (case source of Some src \<Rightarrow> src | None \<Rightarrow> (V4 zeros, 0))"
  let ?s = "case seal_to E (disco_key p) ?pong s of (Inl e, s) \<Rightarrow> s
     | (Inr frame, s) \<Rightarrow> (case source of Some src \<Rightarrow> snd (send_udp E frame src s) | None \<Rightarrow> relay_send E k frame s)"
  have i: "actor_inv ?s" by (rule actor_inv_sealed) (use assms(1) in \<open>auto split: option.splits\<close>)
  show ?thesis
  proof (cases source)
    case None
    show ?thesis using i unfolding None by (simp add: disco_ping_def Let_def)
  next
    case (Some src)
    obtain cs added where r: "remember_endpoint (candidates p) src = (cs, added)" by (metis surj_pair)
    have "well_kept cs" using peer_ok_lookup [OF assms] remember_ok [OF _ r] by (simp add: peer_ok_def)
    then have "actor_inv (update_peer k (\<lambda>p. p\<lparr>candidates := cs\<rparr>) ?s)"
      by (intro actor_inv_update_peer i peer_ok_updates)
    then show ?thesis unfolding Some by (auto simp: disco_ping_def Let_def r intro: actor_inv_probe)
  qed
qed

lemma take_ping_length: "take_ping t ps = Some (q, qs) \<Longrightarrow> length qs \<le> length ps"
  by (induction ps arbitrary: qs) (auto split: if_splits)

lemma actor_inv_disco_pong: "actor_inv s \<Longrightarrow> actor_inv (disco_pong k data source s)"
proof -
  assume inv: "actor_inv s"
  let ?txid = "arr (slice 2 14 data) :: txid"
  let ?s = "case map_of (probes s) ?txid of
       Some (expected, endpoint, when) \<Rightarrow>
         if expected = k \<and> source = Some endpoint \<and> elapsed s when < secs 10
         then update_peer k (\<lambda>p. p\<lparr>direct := Some (endpoint, clock s)\<rparr>) (s\<lparr>probes := AList.delete ?txid (probes s)\<rparr>)
         else s
     | None \<Rightarrow> s"
  have po: "probes_ok (probes s)" using inv by (simp add: actor_inv_def)
  have i: "actor_inv ?s"
  proof (cases "map_of (probes s) ?txid")
    case None
    with inv show ?thesis by simp
  next
    case (Some kew)
    obtain e ep w where kew: "kew = (e, ep, w)" by (cases kew)
    have "usable_endpoint ep"
      using po map_of_SomeD [OF Some] by (auto simp: probes_ok_def list_all_iff kew)
    with inv po Some show ?thesis
      by (auto simp: kew intro!: actor_inv_update_peer actor_inv_updates probes_ok_delete peer_ok_updates)
  qed
  then have "length (pings ?s) \<le> max_pending_pings" by (simp add: actor_inv_def)
  with i show ?thesis
    by (auto simp: disco_pong_def Let_def ping_answered_def split: option.splits
        intro!: actor_inv_updates dest: take_ping_length)
qed

lemma actor_inv_call_me_maybe: "actor_inv s \<Longrightarrow> actor_inv (call_me_maybe E k data s)"
  unfolding call_me_maybe_def Let_def
  by (intro actor_inv_fold actor_inv_probe actor_inv_update_peer peer_ok_updates foldl_remember_well_kept) simp_all

lemma actor_inv_disco_packet: "actor_inv s \<Longrightarrow> actor_inv (disco_packet E k packet source s)"
  by (auto simp: disco_packet_def split: option.splits sum.splits
      intro: actor_inv_disco_ping actor_inv_disco_pong actor_inv_call_me_maybe)

section \<open>Incoming packets\<close>

lemma actor_inv_links_le: "actor_inv s \<Longrightarrow> length (links s) \<le> max_connections"
  by (simp add: actor_inv_def)

lemma actor_inv_accept_syn: "actor_inv s \<Longrightarrow> actor_inv (accept_syn E cfg flow s)"
  by (auto simp: accept_syn_def split: option.splits prod.splits intro!: actor_inv_updates)

lemma flows_ok_udp_input: "flows_ok (udp_flows s) \<Longrightarrow> flows_ok (udp_flows (udp_input E ip s))"
  by (simp add: flows_ok_def udp_input_flows)

lemma actor_inv_udp_input: "actor_inv s \<Longrightarrow> actor_inv (udp_input E ip s)"
  by (rule actor_inv_udp_only [OF udp_input_only]) (simp_all add: actor_inv_def flows_ok_udp_input)

lemma actor_inv_receive_ip: "actor_inv s \<Longrightarrow> actor_inv (receive_ip E packet s)"
  by (auto simp: receive_ip_def receive_tcp_def split: option.splits
      intro: actor_inv_udp_input actor_inv_accept_syn)

lemma meowed_pings_only: "meowed_pings ps s = (qs, t) \<Longrightarrow> outgoing s t \<and> length qs \<le> length ps"
proof (induction ps arbitrary: qs s t)
  case Nil
  then show ?case by simp
next
  case (Cons p ps)
  show ?case
  proof (cases "ping_disco p")
    case True
    obtain qs' u where u: "meowed_pings ps s = (qs', u)" by (metis surj_pair)
    with Cons.IH [OF u] Cons.prems True show ?thesis by auto
  next
    case False
    with Cons.prems Cons.IH [of "ping_answered p None s" qs t] show ?thesis
      by (auto simp: ping_answered_def intro: outgoing_trans [OF outgoing_emit])
  qed
qed

lemma actor_inv_incoming_meow: "actor_inv s \<Longrightarrow> actor_inv (incoming_meow E k data s)"
proof -
  assume inv: "actor_inv s"
  obtain ps t where m: "meowed_pings (pings s) s = (ps, t)" by (metis surj_pair)
  have "length (pings s) \<le> max_pending_pings" using inv by (simp add: actor_inv_def)
  with meowed_pings_only [OF m] have "length ps \<le> max_pending_pings" by simp
  moreover have "actor_inv t" using meowed_pings_only [OF m] inv actor_inv_outgoing [of s t] by simp
  ultimately have "actor_inv (t\<lparr>pings := ps\<rparr>)" by (intro actor_inv_updates)
  with inv m show ?thesis
    by (auto simp: incoming_meow_def Let_def split: option.splits
        intro!: actor_inv_advertise actor_inv_add_peer)
qed

text \<open>What every step of the tunnel loop keeps, the loop keeps.\<close>

lemma decapsulate_rule:
  assumes "decapsulate E fuel k src packet s = Inr t" "I s"
    and world: "\<And>s w. I s \<Longrightarrow> I (s\<lparr>world := w\<rparr>)"
    and send: "\<And>s b. I s \<Longrightarrow> I (send_packet E k b s)"
    and receive: "\<And>s b. I s \<Longrightarrow> source_allowed s k b \<Longrightarrow> I (receive_ip E b s)"
  shows "I t"
  using assms(1,2)
proof (induction fuel arbitrary: packet s)
  case 0
  then show ?case by simp
next
  case (Suc fuel)
  obtain r w where r: "tunn_decapsulate E (world s) k src packet = (r, w)" by (metis surj_pair)
  let ?s = "s\<lparr>world := w\<rparr>"
  have k: "map_of (peers s) k \<noteq> None" using Suc.prems(1) by (auto split: if_splits)
  have i: "I ?s" using Suc.prems(2) by (rule world)
  show ?case
  proof (cases r)
    case (WriteToNetwork b)
    with Suc.prems(1) k r have "decapsulate E fuel k src [] (send_packet E k b ?s) = Inr t" by (simp add: Let_def)
    then show ?thesis using send [OF i] by (rule Suc.IH)
  next
    case (WriteToTunnelV6 b)
    with Suc.prems(1) k r
    have "decapsulate E fuel k src [] (if source_allowed ?s k b then receive_ip E b ?s else ?s) = Inr t"
      by (simp add: Let_def)
    then show ?thesis by (rule Suc.IH) (use i receive in auto)
  qed (use Suc.prems(1) k i r in \<open>auto simp: Let_def\<close>)
qed

lemma actor_inv_decapsulate:
  "actor_inv s \<Longrightarrow> decapsulate E fuel k src packet s = Inr t \<Longrightarrow> actor_inv t"
  by (rule decapsulate_rule [where I = actor_inv]) (auto intro: actor_inv_receive_ip)

lemma actor_inv_incoming:
  "actor_inv s \<Longrightarrow> incoming E fuel k data source s = Inr t \<Longrightarrow> actor_inv t"
  by (auto simp: incoming_def split: if_splits
      intro: actor_inv_incoming_meow actor_inv_disco_packet actor_inv_decapsulate)

lemma actor_inv_incoming_each:
  "actor_inv s \<Longrightarrow> incoming_each E fuel ks data source s = Inr t \<Longrightarrow> actor_inv t"
  by (induction ks arbitrary: s) (auto simp: result_simps intro: actor_inv_incoming)

lemma actor_inv_udp_packet:
  "actor_inv s \<Longrightarrow> udp_packet E fuel data source s = Inr t \<Longrightarrow> actor_inv t"
proof -
  assume inv: "actor_inv s" and u: "udp_packet E fuel data source s = Inr t"
  have "actor_inv (s\<lparr>endpoints := es\<rparr>)" if "remember_endpoint (endpoints s) e = (es, b)" for e es b
    using inv remember_ok [OF _ that] by (intro actor_inv_updates) (simp_all add: actor_inv_def)
  with inv u show ?thesis
    by (auto simp: udp_packet_def Let_def split: if_splits option.splits prod.splits
        intro: actor_inv_incoming actor_inv_incoming_each)
qed

section \<open>Commands and links\<close>

lemma send_ping_outgoing [simp]: "outgoing s (snd (send_ping E p s))"
proof -
  have "outgoing s (case seal_to E k d s of (Inr frame, t) \<Rightarrow> send_packet E key frame t | (Inl _, t) \<Rightarrow> t)" for k d key
  proof -
    obtain r t where r: "seal_to E k d s = (r, t)" by (metis surj_pair)
    then have "outgoing s t" using outgoing_seal_to [of s E k d] by simp
    with r show ?thesis by (auto split: sum.splits intro: outgoing_trans)
  qed
  then show ?thesis by (auto simp: send_ping_def Let_def split: option.splits)
qed

lemma actor_inv_pings_filter:
  "actor_inv s \<Longrightarrow> actor_inv (s\<lparr>pings := filter P (pings s)\<rparr>)"
  by (rule actor_inv_updates) (auto simp: actor_inv_def intro: le_trans [OF length_filter_le])

lemma actor_inv_new_udp_flow:
  assumes "actor_inv s" "length (udp_flows s) < max_connections" "new_udp_flow E flow s = (stream, t)"
  shows "actor_inv t"
proof (rule actor_inv_udp_only [OF new_udp_flow_simps(1) [OF assms(3)] assms(1)])
  show "flows_ok (udp_flows t)"
    using assms(1,2) unfolding new_udp_flow_simps(5) [OF assms(3)]
    by (simp add: actor_inv_def flows_ok_def length_update distinct_update)
qed

lemma actor_inv_cmd_ping: "actor_inv s \<Longrightarrow> actor_inv (cmd_ping E disco result s)"
proof -
  assume inv: "actor_inv s"
  let ?s = "s\<lparr>pings := filter (\<lambda>p. \<not> reply_closed E (world s) (ping_result p)) (pings s)\<rparr>"
  have i: "actor_inv ?s" by (rule actor_inv_pings_filter [OF inv])
  obtain txid t where d: "draw_txid E ?s = (txid, t)" by (metis surj_pair)
  obtain p u where p: "send_ping E \<lparr>ping_started = clock t, ping_sent = clock t, ping_disco = disco, ping_txid = txid,
      ping_result = result\<rparr> t = (p, u)" by (metis surj_pair)
  have st: "outgoing ?s t" using outgoing_draw_txid [of ?s E] by (simp add: d)
  moreover have "outgoing t u" using send_ping_outgoing [of t E] p by (metis snd_conv)
  ultimately have o: "outgoing ?s u" by (rule outgoing_trans)
  have iu: "actor_inv u" using actor_inv_outgoing [OF o] i by simp
  have "pings u = pings ?s" using outgoing_frame(18) [OF o] .
  then have "actor_inv (u\<lparr>pings := pings u @ [p]\<rparr>)" if "length (pings ?s) < max_pending_pings"
    using that iu by (intro actor_inv_updates) simp_all
  then show ?thesis using inv i
    by (auto simp: cmd_ping_def Let_def d p not_le intro: actor_inv_advertise)
qed

lemma actor_inv_command: "actor_inv s \<Longrightarrow> actor_inv (command E c s)"
proof (cases c)
  case (CmdDialUdp target result)
  assume "actor_inv s"
  with CmdDialUdp show ?thesis
    by (auto simp: cmd_dial_udp_def not_le split: option.splits prod.splits intro: actor_inv_new_udp_flow)
next
  case (CmdSendUdp flow data generation result)
  assume "actor_inv s"
  then have "actor_inv (udp_output E flow data generation s)"
    by (intro actor_inv_udp_only [OF udp_output_only]) (auto simp: actor_inv_def flows_ok_def udp_output_flows)
  with CmdSendUdp show ?thesis by simp
next
  case (CmdDial target result)
  assume "actor_inv s"
  with CmdDial show ?thesis
    by (auto simp: cmd_dial_def Let_def not_le split: option.splits prod.splits sum.splits
        intro!: actor_inv_advertise actor_inv_updates)
next
  case (CmdPing disco result)
  assume "actor_inv s"
  with CmdPing show ?thesis by (simp add: actor_inv_cmd_ping)
qed (auto simp: cmd_listen_def cmd_allow_def Let_def split: option.splits prod.splits)

lemma link_ops_outgoing [simp]:
  "outgoing s (sock_abort_in E l s)" "outgoing s (snd (link_open E l s))" "outgoing s (link_abandon E l s)"
  "outgoing s (snd (link_send E l s))" "outgoing s (snd (link_receive E l s))" "outgoing s (snd (link_shutdown E l s))"
proof -
  have w: "outgoing t (t\<lparr>world := v\<rparr>)" for t :: "'a actor" and v
    by (rule outgoingI [where es = "[]"]) simp
  show a: "outgoing t (sock_abort_in E m t)" for m t by (simp add: sock_abort_in_def w)
  show "outgoing s (snd (link_open E l s))"
    by (auto simp: link_open_def Let_def split: option.splits intro: outgoing_trans [OF outgoing_emit a])
  show "outgoing s (link_abandon E l s)"
    by (auto simp: link_abandon_def Let_def a split: option.splits intro: outgoing_trans [OF a a])
  show "outgoing s (snd (link_send E l s))"
    by (auto simp: link_send_def w split: prod.splits poll.splits list.splits)
  show "outgoing s (snd (link_receive E l s))"
    by (auto simp: link_receive_def Let_def w split: prod.splits poll.splits)
  show "outgoing s (snd (link_shutdown E l s))"
    by (auto simp: link_shutdown_def w split: prod.splits bool.splits)
qed

lemma poll_link_outgoing: "poll_link E l s = (m, gone, t) \<Longrightarrow> outgoing s t"
proof -
  assume p: "poll_link E l s = (m, gone, t)"
  obtain l1 s1 where 1: "link_open E l s = (l1, s1)" by (metis surj_pair)
  obtain l2 s2 where 2: "link_send E l1 (link_abandon E l1 s1) = (l2, s2)" by (metis surj_pair)
  obtain l3 s3 where 3: "link_receive E l2 s2 = (l3, s3)" by (metis surj_pair)
  obtain l4 s4 where 4: "link_shutdown E l3 s3 = (l4, s4)" by (metis surj_pair)
  have "outgoing s s1" using link_ops_outgoing(2) [of s E l] by (simp add: 1)
  also have "outgoing s1 (link_abandon E l1 s1)" by simp
  also have "outgoing (link_abandon E l1 s1) s2"
    using link_ops_outgoing(4) [of "link_abandon E l1 s1" E l1] by (simp add: 2)
  also have "outgoing s2 s3" using link_ops_outgoing(5) [of s2 E l2] by (simp add: 3)
  also have "outgoing s3 s4" using link_ops_outgoing(6) [of s3 E l3] by (simp add: 4)
  also have "outgoing s4 t"
    using p by (auto simp: poll_link_def 1 2 3 4 split: if_splits option.splits)
  finally show ?thesis .
qed

lemma poll_each_outgoing: "poll_each E ls s = (rs, t) \<Longrightarrow> outgoing s t \<and> length rs = length ls"
proof (induction ls arbitrary: s rs t)
  case Nil
  then show ?case by simp
next
  case (Cons l ls)
  obtain m gone u where p: "poll_link E l s = (m, gone, u)" by (metis surj_pair)
  obtain rs' v where r: "poll_each E ls u = (rs', v)" by (metis surj_pair)
  from Cons.prems Cons.IH [OF r] p r show ?case
    by (auto intro: outgoing_trans [OF poll_link_outgoing [OF p]])
qed

lemma actor_inv_poll_links: "actor_inv s \<Longrightarrow> actor_inv (poll_links E s)"
proof -
  assume inv: "actor_inv s"
  obtain rs t where r: "poll_each E (links s) s = (rs, t)" by (metis surj_pair)
  have i: "actor_inv (t\<lparr>links := map fst rs\<rparr>)"
    using poll_each_outgoing [OF r] actor_inv_outgoing [of s t] inv
    by (intro actor_inv_updates) (simp_all add: actor_inv_links_le)
  let ?f = "\<lambda>s i. s\<lparr>world := sock_remove E (world s) (socket (links s ! i)), links := swap_remove i (links s)\<rparr>"
  have "actor_inv u \<Longrightarrow> actor_inv (foldl ?f u is)" for u :: "'a actor" and "is"
  proof (induction "is" arbitrary: u)
    case (Cons i "is")
    have "length (links u) \<le> max_connections" using Cons.prems by (rule actor_inv_links_le)
    then have "actor_inv (?f u i)" using Cons.prems
      by (intro actor_inv_updates) (simp_all add: swap_remove_def)
    with Cons.IH show ?case by simp
  qed simp
  with i show ?thesis by (simp add: poll_links_def r Let_def)
qed

section \<open>The tick and the loop\<close>

lemma send_ip_outgoing: "send_ip E p s = Inr t \<Longrightarrow> outgoing s t"
proof -
  assume h: "send_ip E p s = Inr t"
  have w: "outgoing s (s\<lparr>world := v\<rparr>)" for v by (rule outgoingI [where es = "[]"]) simp
  have "outgoing s (send_packet E k b (s\<lparr>world := v\<rparr>))" for k b v by (rule outgoing_trans [OF w [of v]]) simp
  with h show ?thesis
    by (auto simp: send_ip_def w split: if_splits option.splits prod.splits tunn_result.splits)
qed

lemma send_all_outgoing: "send_all E ps s = Inr t \<Longrightarrow> outgoing s t"
  by (induction ps arbitrary: s) (auto simp: result_simps intro: outgoing_trans send_ip_outgoing)

lemma tunnel_timer_outgoing [simp]: "outgoing s (tunnel_timer E k s)"
proof -
  have w: "outgoing s (s\<lparr>world := v\<rparr>)" for v by (rule outgoingI [where es = "[]"]) simp
  have "outgoing s (send_packet E k b (s\<lparr>world := v\<rparr>))" for b v by (rule outgoing_trans [OF w [of v]]) simp
  then show ?thesis by (auto simp: tunnel_timer_def w split: prod.splits tunn_result.splits)
qed

lemma outgoing_fold: "(\<And>x t. outgoing t (f x t)) \<Longrightarrow> outgoing s (fold f xs s)"
  by (induction xs arbitrary: s) (auto intro: outgoing_trans)

lemma resend_pings_outgoing: "resend_pings E ps s = (qs, t) \<Longrightarrow> outgoing s t \<and> length qs \<le> length ps"
proof (induction ps arbitrary: s qs t)
  case Nil
  then show ?case by simp
next
  case (Cons p ps)
  let ?timeout = "reply (ping_result p) (PingReply (Err ''ping timed out'')) s"
  consider (closed) "reply_closed E (world s) (ping_result p)"
    | (late) "\<not> reply_closed E (world s) (ping_result p)" "secs 10 < elapsed s (ping_started p)"
    | (kept) "\<not> reply_closed E (world s) (ping_result p)" "\<not> secs 10 < elapsed s (ping_started p)" by blast
  then show ?case
  proof cases
    case closed
    with Cons.prems Cons.IH [of s qs t] show ?thesis by auto
  next
    case late
    with Cons.prems Cons.IH [of ?timeout qs t] show ?thesis
      by (auto intro: outgoing_trans [OF outgoing_emit])
  next
    case kept
    obtain p' u where u: "(if secs 1 \<le> elapsed s (ping_sent p) then send_ping E p s else (p, s)) = (p', u)"
      by (metis surj_pair)
    obtain qs' v where v: "resend_pings E ps u = (qs', v)" by (metis surj_pair)
    have "outgoing s u" using send_ping_outgoing [of s E p] u by (auto split: if_splits simp del: send_ping_outgoing)
    with Cons.IH [OF v] Cons.prems kept u v show ?thesis
      by (auto intro: outgoing_trans)
  qed
qed

lemma actor_inv_run_timers: "actor_inv s \<Longrightarrow> actor_inv (run_timers E s)"
proof -
  assume inv: "actor_inv s"
  let ?s = "fold (tunnel_timer E) (iter_keys E s) (s\<lparr>last_timers := clock s\<rparr>)"
  have o: "outgoing (s\<lparr>last_timers := clock s\<rparr>) ?s" by (rule outgoing_fold) simp
  have i: "actor_inv ?s" using actor_inv_outgoing [OF o] inv by simp
  obtain ps t where r: "resend_pings E (pings ?s) ?s = (ps, t)" by (metis surj_pair)
  have it: "actor_inv t" using resend_pings_outgoing [OF r] actor_inv_outgoing [of ?s t] i by simp
  have "length (pings ?s) \<le> max_pending_pings" using i by (simp add: actor_inv_def)
  then have "actor_inv (t\<lparr>pings := ps\<rparr>)"
    using it resend_pings_outgoing [OF r] by (intro actor_inv_updates) simp_all
  moreover have "probes_ok (filter P (probes t))" for P using it by (simp add: actor_inv_def probes_ok_filter)
  ultimately show ?thesis using inv
    by (auto simp: run_timers_def Let_def r intro!: actor_inv_updates)
qed

lemma actor_inv_expire_udp: "actor_inv s \<Longrightarrow> actor_inv (expire_udp E s)"
  using expire_udp_simps(1) [of E s]
  by (auto simp: actor_inv_def flows_ok_def simp del: expire_udp_simps(1))

lemma actor_inv_tick: "actor_inv s \<Longrightarrow> tick E s = Inr t \<Longrightarrow> actor_inv t"
proof -
  assume inv: "actor_inv s" and t: "tick E s = Inr t"
  have ps: "actor_inv u \<Longrightarrow> actor_inv (poll_stack E u)" for u :: "'a actor"
    by (auto simp: poll_stack_def split: prod.splits)
  let ?s = "poll_stack E (poll_links E (poll_stack E (expire_udp E s)))"
  have i: "actor_inv ?s" by (intro ps actor_inv_poll_links actor_inv_expire_udp inv)
  obtain u where u: "send_all E (dev_outgoing ?s) (?s\<lparr>dev_outgoing := []\<rparr>) = Inr u"
    and tu: "t = settle_drains E (if secs 5 < elapsed (run_timers E u) (last_advertise (run_timers E u))
      then send_stun (advertise E (run_timers E u)) else run_timers E u)"
    using t by (auto simp: tick_def Let_def result_simps)
  have "actor_inv u" using actor_inv_outgoing [OF send_all_outgoing [OF u]] i by simp
  moreover have "actor_inv (settle_drains E v)" if "actor_inv v" for v :: "'a actor"
  proof -
    have "actor_inv (fold (\<lambda>tx. reply tx DrainReply) (drains v) (v\<lparr>drains := []\<rparr>))"
      by (rule actor_inv_fold) (simp_all add: that)
    with that show ?thesis by (simp add: settle_drains_def)
  qed
  moreover have "actor_inv (send_stun v) = actor_inv v" for v :: "'a actor" by (simp add: send_stun_def)
  ultimately show ?thesis unfolding tu
    by (auto intro: actor_inv_advertise actor_inv_run_timers)
qed

lemma actor_inv_handle: "actor_inv s \<Longrightarrow> handle E fuel e s = Inr t \<Longrightarrow> actor_inv t"
  by (cases e) (auto simp: handle_def dest: actor_inv_incoming actor_inv_udp_packet intro: actor_inv_command)

lemma actor_inv_iteration: "actor_inv s \<Longrightarrow> iteration E fuel te s = Inr t \<Longrightarrow> actor_inv t"
proof -
  assume inv: "actor_inv s" and it: "iteration E fuel te s = Inr t"
  let ?s = "s\<lparr>clock := max (clock s) (fst te)\<rparr>"
  from it obtain u where h: "handle E fuel (snd te) ?s = Inr u" and k: "tick E u = Inr t"
    by (auto simp: iteration_def result_simps)
  have "actor_inv ?s" using inv by simp
  from actor_inv_tick [OF actor_inv_handle [OF this h] k] show ?thesis .
qed

lemma actor_inv_run: "actor_inv s \<Longrightarrow> run E fuel es s = Inr (b, t) \<Longrightarrow> actor_inv t"
proof (induction es arbitrary: s)
  case Nil
  then show ?case by simp
next
  case (Cons te es)
  then show ?case
    by (cases te) (auto simp: result_simps split: if_splits intro: actor_inv_iteration)
qed

end
