(* ===== verification/ActorSafety.thy ===== *)
theory ActorSafety
  imports ActorInv
begin

text \<open>
  What may change the peers and the direct paths, and what the rest of the actor leaves alone: peers
  are added by the registration of a relay-authenticated client only, and a direct path is set by an
  authenticated pong from the probed endpoint only.
\<close>

section \<open>What leaves the peers alone\<close>

text \<open>The identity of the peers, and of the actor itself.\<close>

definition same_peers :: "'w actor \<Rightarrow> 'w actor \<Rightarrow> bool" where
  "same_peers s t \<longleftrightarrow>
     peers t = peers s \<and> own_key t = own_key s \<and> local_ip t = local_ip s \<and> server t = server s \<and>
     config t = config s \<and> own_region t = own_region s"

lemma same_peers_refl [simp, intro]: "same_peers s s"
  by (simp add: same_peers_def)

lemma same_peers_trans [trans]: "same_peers s t \<Longrightarrow> same_peers t u \<Longrightarrow> same_peers s u"
  by (simp add: same_peers_def)

lemma same_peers_updates [simp]:
  "same_peers s (t\<lparr>world := w\<rparr>) = same_peers s t" "same_peers s (t\<lparr>sent := es\<rparr>) = same_peers s t"
  "same_peers s (t\<lparr>clock := c\<rparr>) = same_peers s t" "same_peers s (t\<lparr>last_timers := c\<rparr>) = same_peers s t"
  "same_peers s (t\<lparr>last_advertise := c\<rparr>) = same_peers s t" "same_peers s (t\<lparr>next_port := p\<rparr>) = same_peers s t"
  "same_peers s (t\<lparr>listeners := ls\<rparr>) = same_peers s t" "same_peers s (t\<lparr>dev_incoming := q\<rparr>) = same_peers s t"
  "same_peers s (t\<lparr>dev_outgoing := q\<rparr>) = same_peers s t" "same_peers s (t\<lparr>drains := d\<rparr>) = same_peers s t"
  "same_peers s (t\<lparr>probes := ps\<rparr>) = same_peers s t" "same_peers s (t\<lparr>pings := qs\<rparr>) = same_peers s t"
  "same_peers s (t\<lparr>links := l\<rparr>) = same_peers s t" "same_peers s (t\<lparr>udp_flows := f\<rparr>) = same_peers s t"
  "same_peers s (t\<lparr>endpoints := e\<rparr>) = same_peers s t"
  by (simp_all add: same_peers_def)

lemma same_peers_left [simp]:
  "same_peers (s\<lparr>world := w\<rparr>) t = same_peers s t" "same_peers (s\<lparr>clock := c\<rparr>) t = same_peers s t"
  "same_peers (s\<lparr>pings := qs\<rparr>) t = same_peers s t" "same_peers (s\<lparr>links := l\<rparr>) t = same_peers s t"
  "same_peers (s\<lparr>probes := ps\<rparr>) t = same_peers s t" "same_peers (s\<lparr>last_timers := c\<rparr>) t = same_peers s t"
  "same_peers (s\<lparr>last_advertise := c\<rparr>) t = same_peers s t" "same_peers (s\<lparr>dev_outgoing := q\<rparr>) t = same_peers s t"
  "same_peers (s\<lparr>drains := d\<rparr>) t = same_peers s t" "same_peers (s\<lparr>listeners := ls\<rparr>) t = same_peers s t"
  by (simp_all add: same_peers_def)

lemma same_peers_outgoing: "outgoing s t \<Longrightarrow> same_peers s t"
  by (simp add: same_peers_def outgoing_frame)

lemma same_peers_eq: "same_peers t u \<Longrightarrow> same_peers s u = same_peers s t"
  by (auto simp: same_peers_def)

lemma same_peers_ops [simp]:
  "same_peers s (emit e t) = same_peers s t" "same_peers s (relay_send E k d t) = same_peers s t"
  "same_peers s (snd (send_udp E d ep t)) = same_peers s t" "same_peers s (send_packet E k d t) = same_peers s t"
  by (simp_all add: same_peers_eq [OF same_peers_outgoing])

lemma same_peers_udp_only: "udp_only s t \<Longrightarrow> same_peers s t"
  by (simp add: same_peers_def udp_only_frame)

lemma same_peers_fold: "(\<And>x t. same_peers t (f x t)) \<Longrightarrow> same_peers s (fold f xs s)"
  by (induction xs arbitrary: s) (auto intro: same_peers_trans)

lemma same_peers_probe [simp]: "same_peers s (probe E k ep s)"
proof -
  obtain txid s1 where d: "draw_txid E s = (txid, s1)" by (metis surj_pair)
  have 1: "same_peers s s1" using outgoing_draw_txid [of s E] same_peers_outgoing by (simp add: d)
  have 2: "same_peers s1 (snd (seal_to E dk d s1))" for dk d by (simp add: same_peers_outgoing)
  show ?thesis
  proof (cases "map_of (peers s1) k")
    case None
    with 1 show ?thesis by (simp add: probe_def d)
  next
    case (Some p)
    obtain r s2 where r: "seal_to E (disco_key p) (ping_payload E txid s1) s1 = (r, s2)" by (metis surj_pair)
    have "same_peers s1 s2" using 2 [of "disco_key p" "ping_payload E txid s1"] by (simp add: r)
    with 1 have "same_peers s s2" by (rule same_peers_trans)
    with Some r 1 show ?thesis by (auto simp: probe_def d split: sum.splits)
  qed
qed

lemma same_peers_advertise_to [simp]: "same_peers t (advertise_to E payload k t)"
proof (cases "map_of (peers t) k")
    case None
    then show ?thesis by (simp add: advertise_to_def)
  next
    case (Some p)
    obtain r u where r: "seal_to E (disco_key p) payload t = (r, u)" by (metis surj_pair)
    have "same_peers t u"
      using outgoing_seal_to [of t E "disco_key p" payload] same_peers_outgoing by (simp add: r)
    then have "same_peers t (case r of Inl _ \<Rightarrow> u | Inr packet \<Rightarrow> relay_send E k packet u)"
      by (auto split: sum.splits)
    then have "same_peers t (fold (probe E k) (candidates p) (case r of Inl _ \<Rightarrow> u | Inr packet \<Rightarrow> relay_send E k packet u))"
      by (rule same_peers_trans) (rule same_peers_fold, simp)
    then show ?thesis by (simp add: advertise_to_def Some r Let_def cong: sum.case_cong)
qed

lemma same_peers_advertise [simp]: "same_peers s (advertise E t) = same_peers s t"
proof (rule same_peers_eq)
  have "same_peers (t\<lparr>last_advertise := clock t\<rparr>) (fold (advertise_to E payload) ks (t\<lparr>last_advertise := clock t\<rparr>))"
    for payload ks by (rule same_peers_fold) simp
  then show "same_peers t (advertise E t)" by (simp add: advertise_def Let_def iter_keys_def)
qed

lemma same_peers_accept_syn [simp]: "same_peers s (accept_syn E cfg flow s)"
  by (auto simp: accept_syn_def split: option.splits prod.splits)

lemma same_peers_receive_ip [simp]: "same_peers s (receive_ip E packet s)"
  by (auto simp: receive_ip_def receive_tcp_def to_stack_def split: option.splits
      intro: same_peers_udp_only)

lemma same_peers_decapsulate: "decapsulate E fuel k src packet s = Inr t \<Longrightarrow> same_peers s t"
proof (rule decapsulate_rule [where I = "same_peers s"])
  show "same_peers s (send_packet E k b u)" if "same_peers s u" for u b
    by (rule same_peers_trans [OF that]) (simp add: same_peers_outgoing)
qed (auto intro: same_peers_trans)

lemma same_peers_command: "same_peers s (command E c s) \<or> (\<exists>key. c = CmdAllow key)"
proof (cases c)
  case (CmdListen udp port result)
  then show ?thesis
    by (auto simp: cmd_listen_def Let_def emit_def split: option.splits prod.splits)
next
  case (CmdDialUdp target result)
  have "same_peers s t" if "new_udp_flow E f s = (st, t)" for f st t
    using new_udp_flow_simps(1) [OF that] by (rule same_peers_udp_only)
  with CmdDialUdp show ?thesis
    by (auto simp: cmd_dial_udp_def emit_def split: option.splits prod.splits)
next
  case (CmdSendUdp flow data generation result)
  have "same_peers s (udp_output E flow data generation s)" by (simp add: same_peers_udp_only)
  with CmdSendUdp show ?thesis by (simp add: emit_def)
next
  case (CmdDial target result)
  with CmdDial show ?thesis
    by (auto simp: cmd_dial_def Let_def split: option.splits prod.splits sum.splits)
next
  case (CmdPing disco result)
  let ?s = "s\<lparr>pings := filter (\<lambda>p. \<not> reply_closed E (world s) (ping_result p)) (pings s)\<rparr>"
  obtain txid t where d: "draw_txid E ?s = (txid, t)" by (metis surj_pair)
  obtain p u where p: "send_ping E \<lparr>ping_started = clock t, ping_sent = clock t, ping_disco = disco, ping_txid = txid,
      ping_result = result\<rparr> t = (p, u)" by (metis surj_pair)
  have "outgoing ?s t" using outgoing_draw_txid [of ?s E] by (simp add: d)
  moreover have "outgoing t u" using send_ping_outgoing [of t E] p by (metis snd_conv)
  ultimately have "same_peers ?s u" by (intro same_peers_outgoing) (rule outgoing_trans)
  then have u: "same_peers s u" by simp
  with CmdPing u show ?thesis by (auto simp: cmd_ping_def Let_def d p emit_def)
qed (auto simp: emit_def)

lemma same_peers_poll_links [simp]: "same_peers s (poll_links E s)"
proof -
  obtain rs t where r: "poll_each E (links s) s = (rs, t)" by (metis surj_pair)
  have t: "same_peers s (t\<lparr>links := map fst rs\<rparr>)"
    using poll_each_outgoing [OF r] by (simp add: same_peers_outgoing)
  let ?f = "\<lambda>s i. s\<lparr>world := sock_remove E (world s) (socket (links s ! i)), links := swap_remove i (links s)\<rparr>"
  have "same_peers s u \<Longrightarrow> same_peers s (foldl ?f u xs)" for u :: "'a actor" and xs
  proof (induction xs arbitrary: u)
    case (Cons i xs)
    have "same_peers s (?f u i)" using Cons.prems by simp
    from Cons.IH [OF this] show ?case by (simp only: foldl_Cons)
  qed simp
  then have "same_peers s (foldl ?f (t\<lparr>links := map fst rs\<rparr>) xs)" for xs using t by blast
  then show ?thesis unfolding poll_links_def r Let_def prod.case by blast
qed

lemma same_peers_run_timers [simp]: "same_peers s (run_timers E s)"
proof -
  let ?s = "fold (tunnel_timer E) (iter_keys E s) (s\<lparr>last_timers := clock s\<rparr>)"
  have 1: "same_peers (s\<lparr>last_timers := clock s\<rparr>) ?s" by (rule same_peers_outgoing, rule outgoing_fold) simp
  obtain ps t where r: "resend_pings E (pings ?s) ?s = (ps, t)" by (metis surj_pair)
  have "same_peers ?s t" using resend_pings_outgoing [OF r] by (simp add: same_peers_outgoing)
  with 1 have "same_peers (s\<lparr>last_timers := clock s\<rparr>) t" by (rule same_peers_trans)
  then show ?thesis by (simp add: run_timers_def Let_def r)
qed

lemma same_peers_settle_drains [simp]: "same_peers s (settle_drains E s)"
proof -
  have "same_peers (s\<lparr>drains := []\<rparr>) (fold (\<lambda>tx. reply tx DrainReply) ds (s\<lparr>drains := []\<rparr>))" for ds
    by (rule same_peers_fold) (simp add: same_peers_outgoing)
  then show ?thesis by (simp add: settle_drains_def)
qed

lemma same_peers_poll_stack [simp]: "same_peers s (poll_stack E s)"
  by (auto simp: poll_stack_def split: prod.splits)

lemma same_peers_expire_udp [simp]: "same_peers s (expire_udp E s)"
  by (simp add: same_peers_def)

lemmas same_peers_stages =
  same_peers_eq [OF same_peers_poll_stack] same_peers_eq [OF same_peers_expire_udp]
  same_peers_eq [OF same_peers_poll_links] same_peers_eq [OF same_peers_run_timers]
  same_peers_eq [OF same_peers_settle_drains]

lemma same_peers_tick: "tick E s = Inr t \<Longrightarrow> same_peers s t"
proof -
  assume t: "tick E s = Inr t"
  let ?s = "poll_stack E (poll_links E (poll_stack E (expire_udp E s)))"
  have i: "same_peers s ?s" by (simp only: same_peers_stages same_peers_refl)
  obtain u where u: "send_all E (dev_outgoing ?s) (?s\<lparr>dev_outgoing := []\<rparr>) = Inr u"
    and tu: "t = settle_drains E (if secs 5 < elapsed (run_timers E u) (last_advertise (run_timers E u))
      then send_stun (advertise E (run_timers E u)) else run_timers E u)"
    using t by (auto simp: tick_def Let_def result_simps)
  have "same_peers ?s u" using same_peers_outgoing [OF send_all_outgoing [OF u]] by simp
  with i have "same_peers s u" by (rule same_peers_trans)
  then show ?thesis unfolding tu by (simp add: same_peers_stages send_stun_def)
qed

section \<open>Direct paths\<close>

text \<open>The direct path and the disco key a state has for a key.\<close>

definition dir :: "'w actor \<Rightarrow> key \<Rightarrow> (sock_addr \<times> instant) option" where
  "dir s k = Option.bind (map_of (peers s) k) direct"

definition disco_of :: "'w actor \<Rightarrow> key \<Rightarrow> key option" where
  "disco_of s k = map_option disco_key (map_of (peers s) k)"

definition same_paths :: "'w actor \<Rightarrow> 'w actor \<Rightarrow> bool" where
  "same_paths s t \<longleftrightarrow> dir t = dir s \<and> own_key t = own_key s"

lemma same_paths_refl [simp]: "same_paths s s"
  by (simp add: same_paths_def)

lemma same_paths_trans: "same_paths s t \<Longrightarrow> same_paths t u \<Longrightarrow> same_paths s u"
  by (simp add: same_paths_def)

lemma same_paths_peers: "same_peers s t \<Longrightarrow> same_paths s t"
  by (auto simp: same_peers_def same_paths_def dir_def)

lemma map_of_update_peer:
  "map_of (peers (update_peer k f s)) j = (if j = k then map_option f (map_of (peers s) k) else map_of (peers s) j)"
proof -
  have "map_of (map (\<lambda>(k', p). (k', if k' = k then f p else p)) ps) j =
      (if j = k then map_option f (map_of ps k) else map_of ps j)" for ps
    by (induction ps) auto
  then show ?thesis by (simp add: update_peer_def)
qed

lemma dir_update_peer:
  "dir (update_peer k f s) j = (if j = k then Option.bind (map_of (peers s) k) (\<lambda>p. direct (f p)) else dir s j)"
  by (auto simp: dir_def map_of_update_peer bind_map_option comp_def split: option.splits)

lemma update_peer_own [simp]: "own_key (update_peer k f s) = own_key s" "probes (update_peer k f s) = probes s"
  "server (update_peer k f s) = server s" "config (update_peer k f s) = config s"
  "local_ip (update_peer k f s) = local_ip s" "clock (update_peer k f s) = clock s"
  by (simp_all add: update_peer_def)

lemma same_paths_candidates [simp]: "same_paths s (update_peer k (\<lambda>p. p\<lparr>candidates := cs\<rparr>) t) = same_paths s t"
proof -
  have "dir (update_peer k (\<lambda>p. p\<lparr>candidates := cs\<rparr>) t) = dir t"
    by (rule ext) (simp add: dir_update_peer, simp add: dir_def)
  then show ?thesis by (simp add: same_paths_def)
qed

lemma same_paths_add_peer: "same_paths s (add_peer E k d s)"
proof -
  have "dir (add_peer E k d s) = dir s"
    by (rule ext) (auto simp: dir_def add_peer_def Let_def map_add_def split: option.splits)
  then show ?thesis by (simp add: same_paths_def add_peer_def Let_def)
qed

lemma same_peers_sealed:
  assumes "\<And>frame t. same_peers t (f frame t)"
  shows "same_peers s (case seal_to E k d s of (Inl e, t) \<Rightarrow> t | (Inr frame, t) \<Rightarrow> f frame t)"
proof -
  obtain r t where r: "seal_to E k d s = (r, t)" by (metis surj_pair)
  then have "same_peers s t" using outgoing_seal_to [of s E k d] same_peers_outgoing by simp
  with assms r show ?thesis by (auto split: sum.splits intro: same_peers_trans)
qed

lemma same_paths_disco_ping: "same_paths s (disco_ping E k p data source s)"
proof -
  let ?pong = "[2, 0] @ slice 2 14 data @ encode_endpoint (case source of Some src \<Rightarrow> src | None \<Rightarrow> (V4 zeros, 0))"
  let ?s = "case seal_to E (disco_key p) ?pong s of (Inl e, s) \<Rightarrow> s
     | (Inr frame, s) \<Rightarrow> (case source of Some src \<Rightarrow> snd (send_udp E frame src s) | None \<Rightarrow> relay_send E k frame s)"
  have i: "same_peers s ?s" by (rule same_peers_sealed) (auto split: option.splits)
  show ?thesis
  proof (cases source)
    case None
    show ?thesis using i unfolding None by (auto simp: disco_ping_def Let_def intro: same_paths_peers)
  next
    case (Some src)
    obtain cs added where r: "remember_endpoint (candidates p) src = (cs, added)" by (metis surj_pair)
    let ?u = "update_peer k (\<lambda>p. p\<lparr>candidates := cs\<rparr>) ?s"
    have u: "same_paths s ?u" using same_paths_peers [OF i] by (simp only: same_paths_candidates)
    then have "same_paths s (probe E k src ?u)"
      using same_paths_peers [OF same_peers_probe] by (rule same_paths_trans)
    with u show ?thesis unfolding Some by (auto simp: disco_ping_def Let_def r)
  qed
qed

lemma same_paths_call_me_maybe: "same_paths s (call_me_maybe E k data s)"
proof -
  have "same_paths s (fold (probe E k) eps (update_peer k (\<lambda>p. p\<lparr>candidates := cs\<rparr>) s))" for eps cs
  proof (rule same_paths_trans)
    show "same_paths s (update_peer k (\<lambda>p. p\<lparr>candidates := cs\<rparr>) s)" by simp
    show "same_paths (update_peer k (\<lambda>p. p\<lparr>candidates := cs\<rparr>) s)
        (fold (probe E k) eps (update_peer k (\<lambda>p. p\<lparr>candidates := cs\<rparr>) s))"
      by (intro same_paths_peers same_peers_fold) simp
  qed
  then show ?thesis unfolding call_me_maybe_def Let_def by blast
qed

text \<open>When a pong sets a direct path: the conditions on the probe it answers.\<close>

lemma ping_reply_paths [simp]: "dir (ping_answered p ep s) = dir s" "dir (s\<lparr>pings := ps\<rparr>) = dir s"
  "dir (s\<lparr>probes := pr\<rparr>) = dir s" "dir (s\<lparr>clock := c\<rparr>) = dir s"
  by (auto simp: dir_def ping_answered_def emit_def)

lemma disco_pong_paths:
  assumes "dir (disco_pong k data source s) j = Some (ep, when)" "dir s j \<noteq> Some (ep, when)"
  shows "j = k \<and> source = Some ep \<and> when = clock s \<and>
    (\<exists>sent0. map_of (probes s) (arr (slice 2 14 data)) = Some (k, ep, sent0) \<and> elapsed s sent0 < secs 10)"
proof -
  let ?txid = "arr (slice 2 14 data) :: txid"
  let ?s = "case map_of (probes s) ?txid of
       Some (expected, endpoint, when) \<Rightarrow>
         if expected = k \<and> source = Some endpoint \<and> elapsed s when < secs 10
         then update_peer k (\<lambda>p. p\<lparr>direct := Some (endpoint, clock s)\<rparr>) (s\<lparr>probes := AList.delete ?txid (probes s)\<rparr>)
         else s
     | None \<Rightarrow> s"
  have "dir (disco_pong k data source s) = dir ?s"
    by (auto simp: disco_pong_def Let_def split: option.splits)
  with assms have d: "dir ?s j = Some (ep, when)" "dir s j \<noteq> Some (ep, when)" by simp_all
  show ?thesis
  proof (cases "map_of (probes s) ?txid")
    case None
    with d show ?thesis by simp
  next
    case (Some kew)
    with d show ?thesis
      by (cases kew) (auto simp: dir_update_peer bind_eq_Some_conv split: if_splits)
  qed
qed

lemma disco_packet_paths:
  assumes "dir (disco_packet E k packet source s) j = Some (ep, when)" "dir s j \<noteq> Some (ep, when)"
  shows "j = k \<and> source = Some ep \<and> when = clock s \<and>
    (\<exists>dk m sent0. disco_of s k = Some dk \<and> slice 6 38 packet = octets dk \<and> 78 \<le> length packet \<and>
       rt_open_disco (crypto_lib E) (own_key s) dk packet = Ok m \<and> take 2 m = [2, 0] \<and>
       map_of (probes s) (arr (slice 2 14 m)) = Some (k, ep, sent0) \<and> elapsed s sent0 < secs 10)"
proof -
  have ne: "disco_packet E k packet source s \<noteq> s" using assms by auto
  then obtain p m where p: "map_of (peers s) k = Some p" "78 \<le> length packet" "slice 6 38 packet = octets (disco_key p)"
    and m: "rt_open_disco (crypto_lib E) (own_key s) (disco_key p) packet = Ok m" "2 \<le> length m" "m ! 1 = 0"
    "\<not> (case source of Some src \<Rightarrow> \<not> usable_endpoint src | None \<Rightarrow> False)"
    by (auto simp: disco_packet_def not_less split: option.splits sum.splits if_splits)
  then have eq: "disco_packet E k packet source s =
     (if m ! 0 = 1 \<and> 14 \<le> length m then disco_ping E k p m source s
      else if m ! 0 = 2 \<and> 32 \<le> length m then disco_pong k m source s
      else if m ! 0 = 3 \<and> source = None \<and> 18 dvd (length m - 2) then call_me_maybe E k m s else s)"
    by (simp add: disco_packet_def)
  have ping: "dir (disco_ping E k p m source s) = dir s" and cmm: "dir (call_me_maybe E k m s) = dir s"
    using same_paths_disco_ping [of s E k p m source] same_paths_call_me_maybe [of s E k m]
    by (simp_all add: same_paths_def)
  from assms eq ping cmm have pong: "m ! 0 = 2" "dir (disco_pong k m source s) j = Some (ep, when)"
    by (auto split: if_splits)
  have t: "take 2 m = [2, 0]" using pong(1) m(2,3) by (cases m; cases "tl m") auto
  from disco_pong_paths [OF pong(2) assms(2)] p m(1) t show ?thesis by (auto simp: disco_of_def)
qed

section \<open>Who the peers are\<close>

text \<open>The keys and disco keys of the peers, the configuration and the actor's own identity.\<close>

definition ids :: "'w actor \<Rightarrow> (key \<times> key) list" where
  "ids s = map (\<lambda>(k, p). (k, disco_key p)) (peers s)"

definition same_ids :: "'w actor \<Rightarrow> 'w actor \<Rightarrow> bool" where
  "same_ids s t \<longleftrightarrow>
     ids t = ids s \<and> config t = config s \<and> server t = server s \<and> own_key t = own_key s \<and> local_ip t = local_ip s"

lemma same_ids_refl [simp]: "same_ids s s"
  by (simp add: same_ids_def)

lemma same_ids_trans: "same_ids s t \<Longrightarrow> same_ids t u \<Longrightarrow> same_ids s u"
  by (simp add: same_ids_def)

lemma same_ids_peers: "same_peers s t \<Longrightarrow> same_ids s t"
  by (simp add: same_peers_def same_ids_def ids_def)

lemma map_of_ids: "map_of (ids s) k = disco_of s k"
proof -
  have "map_of (map (\<lambda>(k, p). (k, disco_key p)) ps) k = map_option disco_key (map_of ps k)" for ps
    by (induction ps) auto
  then show ?thesis by (simp add: ids_def disco_of_def)
qed

lemma keys_ids: "map fst (peers s) = map fst (ids s)"
  by (simp add: ids_def comp_def case_prod_beta)

lemma same_ids_update_peer [simp]:
  "(\<And>p. disco_key (f p) = disco_key p) \<Longrightarrow> same_ids s (update_peer k f t) = same_ids s t"
proof -
  assume "\<And>p. disco_key (f p) = disco_key p"
  then have "ids (update_peer k f t) = ids t" by (auto simp: ids_def update_peer_def)
  then show ?thesis by (simp add: same_ids_def)
qed

lemma same_ids_fields [simp]:
  "same_ids s (t\<lparr>pings := ps\<rparr>) = same_ids s t" "same_ids s (t\<lparr>probes := pr\<rparr>) = same_ids s t"
  "same_ids s (ping_answered p ep t) = same_ids s t" "same_ids s (t\<lparr>endpoints := es\<rparr>) = same_ids s t"
  "same_ids s (t\<lparr>last_advertise := x\<rparr>) = same_ids s t"
  by (simp_all add: same_ids_def ids_def ping_answered_def emit_def)

lemma same_ids_disco_packet: "same_ids s (disco_packet E k packet source s)"
proof -
  have ping: "same_ids s (disco_ping E k p data source s)" for p data source
  proof -
    let ?pong = "[2, 0] @ slice 2 14 data @ encode_endpoint (case source of Some src \<Rightarrow> src | None \<Rightarrow> (V4 zeros, 0))"
    let ?s = "case seal_to E (disco_key p) ?pong s of (Inl e, s) \<Rightarrow> s
       | (Inr frame, s) \<Rightarrow> (case source of Some src \<Rightarrow> snd (send_udp E frame src s) | None \<Rightarrow> relay_send E k frame s)"
    have i: "same_ids s ?s" by (rule same_ids_peers, rule same_peers_sealed) (auto split: option.splits)
    show ?thesis
    proof (cases source)
      case None
      show ?thesis using i unfolding None by (simp add: disco_ping_def Let_def)
    next
      case (Some src)
      obtain cs added where r: "remember_endpoint (candidates p) src = (cs, added)" by (metis surj_pair)
      let ?u = "update_peer k (\<lambda>p. p\<lparr>candidates := cs\<rparr>) ?s"
      have u: "same_ids s ?u" using i by simp
      then have "same_ids s (probe E k src ?u)"
        using same_ids_peers [OF same_peers_probe] by (rule same_ids_trans)
      with u show ?thesis unfolding Some by (auto simp: disco_ping_def Let_def r)
    qed
  qed
  have pong: "same_ids s (disco_pong k data source s)" for data source
    by (auto simp: disco_pong_def Let_def split: option.splits)
  have cmm: "same_ids s (call_me_maybe E k data s)" for data
  proof -
    have "same_ids s (fold (probe E k) eps (update_peer k (\<lambda>p. p\<lparr>candidates := cs\<rparr>) s))" for eps cs
    proof (rule same_ids_trans)
      show "same_ids s (update_peer k (\<lambda>p. p\<lparr>candidates := cs\<rparr>) s)" by simp
      show "same_ids (update_peer k (\<lambda>p. p\<lparr>candidates := cs\<rparr>) s)
          (fold (probe E k) eps (update_peer k (\<lambda>p. p\<lparr>candidates := cs\<rparr>) s))"
        by (intro same_ids_peers same_peers_fold) simp
    qed
    then show ?thesis unfolding call_me_maybe_def Let_def by blast
  qed
  show ?thesis
    by (auto simp: disco_packet_def ping pong cmm split: option.splits sum.splits)
qed

lemma same_ids_incoming:
  assumes "incoming E fuel k data source s = Inr t" "\<not> (starts_with data meow_magic \<and> source = None)"
  shows "same_ids s t"
  using assms
  by (auto simp: incoming_def split: if_splits intro: same_ids_disco_packet same_ids_peers same_peers_decapsulate)

lemma same_ids_incoming_each:
  "incoming_each E fuel ks data (Some source) s = Inr t \<Longrightarrow> same_ids s t"
proof (induction ks arbitrary: s)
  case Nil
  then show ?case by simp
next
  case (Cons k ks)
  then obtain u where u: "incoming E fuel k data (Some source) s = Inr u"
    and r: "incoming_each E fuel ks data (Some source) u = Inr t" by (auto simp: result_simps)
  have "same_ids s u" using same_ids_incoming [OF u] by simp
  then show ?case using Cons.IH [OF r] by (rule same_ids_trans)
qed

text \<open>The three kinds of datagram.\<close>

lemma udp_packet_cases:
  assumes "udp_packet E fuel data source s = Inr t"
  obtains (stun) es la where "t = s\<lparr>endpoints := es, last_advertise := la\<rparr>"
  | (none) "t = s"
  | (disco) k where "starts_with data disco_magic" "incoming E fuel k data (Some source) s = Inr t"
  | (data) ks where "\<not> (starts_with data disco_magic \<and> 38 \<le> length data)"
      "incoming_each E fuel ks data (Some source) s = Inr t"
proof (cases "is_stun_response (stun_txid s) data")
  case True
  show thesis
  proof (cases "parse_stun data")
    case None
    with assms True show thesis by (intro none) (simp add: udp_packet_def)
  next
    case (Some e)
    obtain es b where r: "remember_endpoint (endpoints s) e = (es, b)" by (metis surj_pair)
    with assms True Some have "t = s\<lparr>endpoints := es, last_advertise := (if b then clock s - secs 60 else last_advertise s)\<rparr>"
      by (auto simp: udp_packet_def Let_def)
    then show thesis by (rule stun)
  qed
next
  case False
  show thesis
  proof (cases "starts_with data disco_magic \<and> 38 \<le> length data")
    case True
    with assms False show thesis by (auto simp: udp_packet_def split: option.splits intro: none disco)
  next
    case f: False
    have "udp_packet E fuel data source s = incoming_each E fuel
        (filter (\<lambda>k. case map_of (peers s) k of Some p \<Rightarrow> may_be_from p source | None \<Rightarrow> False) (iter_keys E s)) data (Some source) s"
      using f False unfolding udp_packet_def by (simp only: if_False)
    with assms f show thesis by (intro data) simp_all
  qed
qed

lemma same_ids_udp_packet: "udp_packet E fuel data source s = Inr t \<Longrightarrow> same_ids s t"
  by (erule udp_packet_cases) (auto intro: same_ids_incoming same_ids_incoming_each)

lemma meow_request_parse:
  assumes "starts_with data meow_magic"
  shows "meow_request cfg k data = Some d \<longleftrightarrow>
    parse_meow_ping data = Some (k, d) \<and> (allowed_clients cfg = [] \<or> k \<in> set (allowed_clients cfg))"
proof (cases "69 \<le> length data")
  case False
  then show ?thesis by (simp add: meow_request_def parse_meow_ping_def)
next
  case True
  define D N :: key where "D = arr (slice 37 69 data)" and "N = arr (slice 5 37 data)"
  have l: "length (slice 37 69 data) = 32" "length (slice 5 37 data) = 32" using True by (simp_all add: slice_simps)
  then have o: "octets D = slice 37 69 data" "octets N = slice 5 37 data" by (simp_all add: D_def N_def)
  have "take 5 data = take 4 data @ [data ! 4]" using True by (simp add: take_Suc_conv_app_nth eval_nat_numeral)
  then have m: "starts_with data (meow_magic @ [1]) \<longleftrightarrow> data ! 4 = 1"
    using assms by (simp add: starts_with_def)
  have t: "try_into (slice 37 69 data) = Some D" "try_into (slice 5 37 data) = Some N"
    unfolding o [symmetric] by simp_all
  have z: "slice 37 69 data = replicate 32 0 \<longleftrightarrow> D = zeros" and n: "slice 5 37 data = octets k \<longleftrightarrow> N = k"
    unfolding o [symmetric] by (simp_all flip: octets_eq_iff)
  have "parse_meow_ping data = (if data ! 4 = 1 \<and> D \<noteq> zeros then Some (N, D) else None)"
    unfolding parse_meow_ping_def m t using True by simp
  moreover have "meow_request cfg k data = (if data ! 4 = 1 \<and> N = k \<and> D \<noteq> zeros \<and>
      (allowed_clients cfg = [] \<or> k \<in> set (allowed_clients cfg)) then Some D else None)"
    unfolding meow_request_def z n using True by (simp add: D_def)
  ultimately show ?thesis by auto
qed

end
