(* ===== verification/ActorProps.thy ===== *)
theory ActorProps
  imports ActorSafety
begin

text \<open>
  The properties of the actor: bounded state, no panic and no endless loop, direct paths only after
  authentication, registration and the allow-list, and the attribution of traffic to peers.
\<close>

section \<open>Every iteration returns\<close>

text \<open>
  boringtun's contract for its callers: called with an empty datagram, a tunnel either says it is
  done or yields one of the packets it has queued, of which there are finitely many; nothing else the
  actor calls while it empties a tunnel refills the queue. \<open>q\<close> is the length of the queue.
\<close>

definition tunnel_drains :: "'w env \<Rightarrow> ('w \<Rightarrow> key \<Rightarrow> nat) \<Rightarrow> bool" where
  "tunnel_drains E q \<longleftrightarrow>
     (\<forall>w k src b w'. tunn_decapsulate E w k src [] = (WriteToNetwork b, w') \<or>
        tunn_decapsulate E w k src [] = (WriteToTunnelV6 b, w') \<longrightarrow> q w' k < q w k) \<and>
     (\<forall>w. (\<forall>k d. q (relay_try_send E w k d) = q w) \<and> (\<forall>v ep d. q (snd (udp_send_to E w v ep d)) = q w) \<and>
        (\<forall>c m. q (snd (try_send E w c m)) = q w) \<and> (\<forall>n. q (snd (channel_new E w n)) = q w) \<and>
        q (snd (token_new E w)) = q w \<and> (\<forall>c. q (token_cancel E w c) = q w) \<and>
        (\<forall>ep. q (snd (sock_listen E w ep)) = q w) \<and> (\<forall>n. q (snd (duplex E w n)) = q w))"

lemma drains_fst:
  assumes "tunnel_drains E q"
  shows "tunn_decapsulate E w k src [] = (WriteToNetwork b, w') \<Longrightarrow> q w' k < q w k"
    "tunn_decapsulate E w k src [] = (WriteToTunnelV6 b, w') \<Longrightarrow> q w' k < q w k"
  using assms unfolding tunnel_drains_def by blast+

lemma drains_world:
  assumes "tunnel_drains E q"
  shows "q (relay_try_send E w k d) = q w" "q (snd (udp_send_to E w v ep d)) = q w"
    "q (snd (try_send E w c m)) = q w" "q (snd (channel_new E w n)) = q w"
    "q (snd (token_new E w)) = q w" "q (token_cancel E w c) = q w"
    "q (snd (sock_listen E w ip)) = q w" "q (snd (duplex E w n)) = q w"
  using assms unfolding tunnel_drains_def by blast+

lemma drains_snd:
  assumes "tunnel_drains E q"
  shows "udp_send_to E w v ep d = (b, w') \<Longrightarrow> q w' = q w" "try_send E w c m = (b, w') \<Longrightarrow> q w' = q w"
    "channel_new E w n = (c, w') \<Longrightarrow> q w' = q w" "token_new E w = (c, w') \<Longrightarrow> q w' = q w"
    "sock_listen E w ip = (so, w') \<Longrightarrow> q w' = q w" "duplex E w n = (pp, w') \<Longrightarrow> q w' = q w"
  using drains_world [OF assms] by (metis snd_conv)+

lemma queue_send_packet:
  assumes "tunnel_drains E q"
  shows "q (world (send_packet E k b s)) = q (world s)"
proof -
  have "q (world (snd (send_udp E b ep s))) = q (world s)" for ep
    by (auto simp: send_udp_def emit_def split: prod.splits dest!: drains_snd(1) [OF assms])
  then have "send_udp E b ep s = (x, t) \<Longrightarrow> q (world t) = q (world s)" for ep x t by (metis snd_conv)
  then show ?thesis
    by (auto simp: send_packet_def relay_send_def emit_def drains_world [OF assms]
        split: option.splits prod.splits bool.splits)
qed

lemma queue_new_udp_flow:
  assumes "tunnel_drains E q" "new_udp_flow E f s = (st, t)"
  shows "q (world t) = q (world s)"
  using assms(2)
  by (auto simp: new_udp_flow_def put_flow_def Let_def drains_world [OF assms(1)]
      split: prod.splits option.splits dest!: drains_snd(3,4) [OF assms(1)])

lemma queue_open_flow:
  assumes "tunnel_drains E q"
  shows "q (world (open_flow E ip port f s)) = q (world s)"
proof -
  obtain st t where n: "new_udp_flow E f s = (st, t)" by (metis surj_pair)
  note N = queue_new_udp_flow [OF assms n]
  have "q (snd (try_send E (world t) tx m)) = q (world t)" for tx m by (rule drains_world [OF assms])
  then show ?thesis
    by (simp add: open_flow_def emit_def n N drains_world [OF assms] case_prod_beta split: option.split sum.split)
qed

lemma queue_udp_input:
  assumes "tunnel_drains E q"
  shows "q (world (udp_input E ip s)) = q (world s)"
proof -
  have f: "q (world (forget_closed E f s)) = q (world s)" for f
    by (simp add: forget_closed_def drains_world [OF assms] split: option.splits)
  have d: "q (world (deliver_udp E f data t)) = q (world t)" for f data t
    by (simp add: deliver_udp_def emit_def drains_world [OF assms] split: option.splits)
  show ?thesis
    by (auto simp: udp_input_def Let_def f d queue_open_flow [OF assms] split: option.splits)
qed

lemma queue_receive_ip:
  assumes "tunnel_drains E q"
  shows "q (world (receive_ip E p s)) = q (world s)"
proof -
  have "q (world (accept_syn E cfg f t)) = q (world t)" for cfg f t
    by (auto simp: accept_syn_def split: option.splits prod.splits dest!: drains_snd(5,6) [OF assms])
  then show ?thesis
    by (auto simp: receive_ip_def receive_tcp_def to_stack_def queue_udp_input [OF assms] split: option.splits)
qed

lemma keys_kept: "same_peers s t \<Longrightarrow> map_of (peers t) k = map_of (peers s) k"
  by (simp add: same_peers_def)

lemma decapsulate_empty_returns:
  assumes "tunnel_drains E q"
  shows "map_of (peers s) k \<noteq> None \<Longrightarrow> q (world s) k < fuel \<Longrightarrow> \<exists>t. decapsulate E fuel k src [] s = Inr t"
proof (induction fuel arbitrary: s)
  case 0
  then show ?case by simp
next
  case (Suc fuel)
  obtain r w where r: "tunn_decapsulate E (world s) k src [] = (r, w)" by (metis surj_pair)
  let ?s = "s\<lparr>world := w\<rparr>"
  show ?case
  proof (cases r)
    case (WriteToNetwork b)
    let ?t = "send_packet E k b ?s"
    have "q (world ?t) k < fuel"
      using drains_fst(1) [OF assms r [unfolded WriteToNetwork]] Suc.prems(2) queue_send_packet [OF assms, of k b ?s] by simp
    moreover have "map_of (peers ?t) k \<noteq> None" using Suc.prems(1) by (simp add: actor_frame)
    ultimately have "\<exists>t. decapsulate E fuel k src [] ?t = Inr t" by (intro Suc.IH)
    then show ?thesis using Suc.prems(1) r WriteToNetwork by (simp add: Let_def)
  next
    case (WriteToTunnelV6 b)
    let ?t = "if source_allowed ?s k b then receive_ip E b ?s else ?s"
    have "q (world ?t) k < fuel"
      using drains_fst(2) [OF assms r [unfolded WriteToTunnelV6]] Suc.prems(2) queue_receive_ip [OF assms, of b ?s] by simp
    moreover have "map_of (peers ?t) k \<noteq> None"
      using Suc.prems(1) keys_kept [OF same_peers_receive_ip, of E b ?s k] by simp
    ultimately have "\<exists>t. decapsulate E fuel k src [] ?t = Inr t" by (intro Suc.IH)
    then show ?thesis using Suc.prems(1) r WriteToTunnelV6 by (simp add: Let_def)
  qed (use Suc.prems(1) r in \<open>simp_all add: Let_def\<close>)
qed

lemma decapsulate_mono:
  "decapsulate E fuel k src packet s = Inr t \<Longrightarrow> fuel \<le> fuel' \<Longrightarrow> decapsulate E fuel' k src packet s = Inr t"
proof (induction fuel arbitrary: fuel' packet s)
  case 0
  then show ?case by simp
next
  case (Suc fuel)
  then obtain n where n: "fuel' = Suc n" "fuel \<le> n" by (cases fuel') auto
  obtain r w where r: "tunn_decapsulate E (world s) k src packet = (r, w)" by (metis surj_pair)
  show ?case using Suc.prems Suc.IH [OF _ n(2)] n(1) r
    by (cases r) (auto simp: Let_def split: if_splits)
qed

text \<open>From some amount of fuel on, the result is the same state.\<close>

definition settles :: "(nat \<Rightarrow> stop + 'a) \<Rightarrow> bool" where
  "settles f \<longleftrightarrow> (\<exists>n t. \<forall>fuel\<ge>n. f fuel = Inr t)"

lemma settlesI: "(\<And>fuel. n \<le> fuel \<Longrightarrow> f fuel = Inr t) \<Longrightarrow> settles f"
  unfolding settles_def by blast

lemma settles_Inr [simp]: "settles (\<lambda>_. Inr t)"
  by (rule settlesI [of 0]) simp

lemma settles_if:
  "(b \<Longrightarrow> settles f) \<Longrightarrow> (\<not> b \<Longrightarrow> settles g) \<Longrightarrow> settles (\<lambda>fuel. if b then f fuel else g fuel)"
  by (cases b) simp_all

lemma settles_option:
  "settles f \<Longrightarrow> (\<And>x. settles (g x)) \<Longrightarrow> settles (\<lambda>fuel. case v of None \<Rightarrow> f fuel | Some x \<Rightarrow> g x fuel)"
  by (cases v) simp_all

lemma settles_and_then:
  assumes "settles f" "\<And>n t. f n = Inr t \<Longrightarrow> settles (\<lambda>fuel. g fuel t)"
  shows "settles (\<lambda>fuel. and_then (f fuel) (g fuel))"
proof -
  obtain n t where n: "\<forall>fuel\<ge>n. f fuel = Inr t" using assms(1) unfolding settles_def by blast
  then have "f n = Inr t" by simp
  from assms(2) [OF this] obtain m u where m: "\<forall>fuel\<ge>m. g fuel t = Inr u" unfolding settles_def by blast
  show ?thesis by (rule settlesI [of "max n m" _ u]) (use n m in auto)
qed

lemma settles_decapsulate:
  assumes "tunnel_drains E q" "map_of (peers s) k \<noteq> None"
  shows "settles (\<lambda>fuel. decapsulate E fuel k src packet s)"
proof -
  obtain r w where r: "tunn_decapsulate E (world s) k src packet = (r, w)" by (metis surj_pair)
  let ?s = "s\<lparr>world := w\<rparr>"
  have more: "settles (\<lambda>fuel. decapsulate E fuel k src packet s)"
    if t: "map_of (peers t) k \<noteq> None" "\<And>n. decapsulate E (Suc n) k src packet s = decapsulate E n k src [] t" for t
  proof -
    obtain u where u: "decapsulate E (Suc (q (world t) k)) k src [] t = Inr u"
      using decapsulate_empty_returns [OF assms(1) t(1), of "Suc (q (world t) k)" src] by auto
    show ?thesis
    proof (rule settlesI [of "Suc (Suc (q (world t) k))" _ u])
      fix fuel assume "Suc (Suc (q (world t) k)) \<le> fuel"
      then obtain n where "fuel = Suc n" "Suc (q (world t) k) \<le> n" by (cases fuel) auto
      then show "decapsulate E fuel k src packet s = Inr u" using t(2) decapsulate_mono [OF u] by simp
    qed
  qed
  show ?thesis
  proof (cases r)
    case (WriteToNetwork b)
    show ?thesis
      by (rule more [of "send_packet E k b ?s"]) (use assms(2) r WriteToNetwork in \<open>auto simp: Let_def actor_frame\<close>)
  next
    case (WriteToTunnelV6 b)
    show ?thesis
    proof (rule more [of "if source_allowed ?s k b then receive_ip E b ?s else ?s"])
      show "map_of (peers (if source_allowed ?s k b then receive_ip E b ?s else ?s)) k \<noteq> None"
        using assms(2) keys_kept [OF same_peers_receive_ip, of E b ?s k] by simp
    qed (use assms(2) r WriteToTunnelV6 in \<open>auto simp: Let_def\<close>)
  qed (rule settlesI [of 1 _ ?s], use assms(2) r in \<open>auto simp: Let_def Suc_le_eq dest!: gr0_implies_Suc\<close>)+
qed

lemma settles_incoming: "tunnel_drains E q \<Longrightarrow> settles (\<lambda>fuel. incoming E fuel k data source s)"
  unfolding incoming_def by (intro settles_if settles_Inr settles_decapsulate)

lemma settles_incoming_each:
  "tunnel_drains E q \<Longrightarrow> settles (\<lambda>fuel. incoming_each E fuel ks data source s)"
proof (induction ks arbitrary: s)
  case Nil
  then show ?case by simp
next
  case (Cons k ks)
  then show ?case by (simp add: settles_and_then settles_incoming)
qed

lemma settles_udp_packet: "tunnel_drains E q \<Longrightarrow> settles (\<lambda>fuel. udp_packet E fuel data source s)"
  unfolding udp_packet_def
  by (intro settles_if settles_option settles_Inr settles_incoming settles_incoming_each)

lemma settles_handle: "tunnel_drains E q \<Longrightarrow> settles (\<lambda>fuel. handle E fuel e s)"
  by (cases e) (simp_all add: handle_def settles_udp_packet settles_incoming)

lemma send_all_returns:
  assumes "hash_order_law E"
  shows "actor_inv s \<Longrightarrow> \<exists>t. send_all E ps s = Inr t"
proof (induction ps arbitrary: s)
  case Nil
  then show ?case by simp
next
  case (Cons p ps)
  have "k \<in> set (map fst (peers s))" if "key_for E s p = Some k" for k
    using that Cons.prems assms
    by (auto simp: key_for_def actor_inv_def find_Some_iff iter_keys_def hash_order_law_def split: option.splits)
      (metis list.set_map nth_mem)
  then have "\<exists>t. send_ip E p s = Inr t"
    by (auto simp: send_ip_def map_of_eq_None_iff split: option.splits prod.splits tunn_result.splits)
  then obtain t where t: "send_ip E p s = Inr t" by blast
  moreover have "actor_inv t" using actor_inv_outgoing [OF send_ip_outgoing [OF t]] Cons.prems by simp
  ultimately show ?case using Cons.IH by simp
qed

lemma tick_returns: "hash_order_law E \<Longrightarrow> actor_inv s \<Longrightarrow> \<exists>t. tick E s = Inr t"
proof -
  assume h: "hash_order_law E" and i: "actor_inv s"
  have ps: "actor_inv u \<Longrightarrow> actor_inv (poll_stack E u)" for u :: "'a actor"
    by (auto simp: poll_stack_def split: prod.splits)
  let ?s = "poll_stack E (poll_links E (poll_stack E (expire_udp E s)))"
  have "actor_inv (?s\<lparr>dev_outgoing := []\<rparr>)"
    using ps [OF actor_inv_poll_links [OF ps [OF actor_inv_expire_udp [OF i]]]] by simp
  from send_all_returns [OF h this] obtain t where
    "send_all E (dev_outgoing ?s) (?s\<lparr>dev_outgoing := []\<rparr>) = Inr t" by blast
  then show ?thesis by (simp add: tick_def Let_def)
qed

lemma settles_iteration:
  assumes "tunnel_drains E q" "hash_order_law E" "actor_inv s"
  shows "settles (\<lambda>fuel. iteration E fuel te s)"
  unfolding iteration_def
proof (rule settles_and_then)
  let ?s = "s\<lparr>clock := max (clock s) (fst te)\<rparr>"
  show "settles (\<lambda>fuel. handle E fuel (snd te) ?s)" using assms(1) by (rule settles_handle)
  fix n t assume h: "handle E n (snd te) ?s = Inr t"
  have "actor_inv ?s" using assms(3) by simp
  from this h have "actor_inv t" by (rule actor_inv_handle)
  from tick_returns [OF assms(2) this] obtain u where "tick E t = Inr u" by blast
  then show "settles (\<lambda>_. tick E t)" by simp
qed

end
