(* ===== verification/ActorTheorems.thy ===== *)
theory ActorTheorems
  imports ActorProps
begin

text \<open>
  The properties of the actor that \<open>ActorInv\<close>, \<open>ActorSafety\<close> and \<open>ActorProps\<close> prepare, each over
  whole iterations of its loop or whole runs.
\<close>

section \<open>Frames over an iteration\<close>

lemma same_peers_clock [simp]: "peers (s\<lparr>clock := c\<rparr>) = peers s"
  by simp

lemma iterationE:
  assumes "iteration E fuel te s = Inr t"
  obtains u where "handle E fuel (snd te) (s\<lparr>clock := max (clock s) (fst te)\<rparr>) = Inr u" "same_peers u t"
  using assms by (auto simp: iteration_def result_simps intro: same_peers_tick)

lemma dir_config: "dir (s\<lparr>config := c\<rparr>) = dir s"
  by (rule ext) (simp add: dir_def)

lemma incoming_direct:
  assumes "incoming E fuel k data source s = Inr t" "dir t j = Some (ep, when)" "dir s j \<noteq> Some (ep, when)"
  shows "starts_with data disco_magic \<and> j = k \<and> source = Some ep \<and> when = clock s \<and>
    (\<exists>dk m sent0. disco_of s k = Some dk \<and> slice 6 38 data = octets dk \<and>
       rt_open_disco (crypto_lib E) (own_key s) dk data = Ok m \<and> take 2 m = [2, 0] \<and>
       map_of (probes s) (arr (slice 2 14 m)) = Some (k, ep, sent0) \<and> elapsed s sent0 < secs 10)"
proof -
  have meow: "dir (incoming_meow E k data s) = dir s"
  proof -
    have "same_paths s (advertise E (relay_send E k encode_meowed (add_peer E k d s)))" for d
      by (rule same_paths_trans [OF same_paths_add_peer [of s E k d]]) (simp add: same_paths_peers)
    moreover have "dir (u\<lparr>pings := ps\<rparr>) = dir s" if "meowed_pings (pings s) s = (ps, u)" for ps u
      using meowed_pings_only [OF that] same_paths_peers [OF same_peers_outgoing, of s u]
      by (simp add: same_paths_def)
    ultimately show ?thesis
      using same_paths_add_peer [of s E k]
      by (auto simp: incoming_meow_def Let_def same_paths_def split: option.splits prod.splits)
  qed
  have dec: "dir t = dir s" if "decapsulate E fuel k src data s = Inr t" for src
    using same_paths_peers [OF same_peers_decapsulate [OF that]] by (simp add: same_paths_def)
  have "starts_with data disco_magic \<and> t = disco_packet E k data source s"
  proof (rule ccontr)
    assume "\<not> ?thesis"
    with assms(1) meow have "dir t = dir s"
      by (auto simp: incoming_def split: if_splits dest: dec)
    with assms show False by simp
  qed
  with disco_packet_paths [of E k data source s j ep "when"] assms(2,3) show ?thesis by blast
qed

lemma incoming_each_direct:
  assumes "\<not> (starts_with data disco_magic \<and> 38 \<le> length data)"
    and "incoming_each E fuel ks data (Some source) s = Inr t"
  shows "dir t = dir s"
  using assms(2)
proof (induction ks arbitrary: s)
  case Nil
  then show ?case by simp
next
  case (Cons k ks)
  then obtain u where u: "incoming E fuel k data (Some source) s = Inr u"
    and r: "incoming_each E fuel ks data (Some source) u = Inr t" by (auto simp: result_simps)
  have "disco_packet E k data (Some source) s = s" if "length data < 38"
    using that by (simp add: disco_packet_def split: option.splits)
  with u assms(1) have "u = s \<or> same_peers s u"
    by (auto simp: incoming_def not_le split: if_splits dest: same_peers_decapsulate)
  then have "dir u = dir s" using same_paths_peers [of s u] by (auto simp: same_paths_def)
  with Cons.IH [OF r] show ?case by simp
qed

section \<open>Example states\<close>

lemma ref_tunnel_drains: "tunnel_drains ref_env (\<lambda>_ _. 0)"
  by (simp add: tunnel_drains_def ref_env_def)

lemma ref_actor_inv [simp]: "actor_inv ref_actor"
  by (simp add: actor_inv_def ref_actor_def peers_ok_def probes_ok_def flows_ok_def)

lemma ref_iteration: "actor_inv s \<Longrightarrow> \<exists>n t. iteration ref_env n te s = Inr t"
  using settles_iteration [OF ref_tunnel_drains ref_env_laws(2)] unfolding settles_def by blast

definition ref_probed :: "unit actor" where
  "ref_probed =
     ref_actor\<lparr>peers := [(ref_key, \<lparr>peer_key = ref_key, disco_key = ref_key, direct = None, candidates = []\<rparr>)],
       probes := [(zeros, (ref_key, (V4 (arr [127, 0, 0, 1]), 9), secs 99))]\<rparr>"

definition ref_pong :: "byte list" where
  "ref_pong = disco_magic @ octets ref_key @ replicate 24 0 @ [2, 0] @ replicate 46 0"

lemma loopback_usable [simp]: "usable_endpoint (V4 (arr [127, 0, 0, 1]), 9)"
  by (simp add: usable_endpoint_def broadcast_def arr_eq_iff flip: octets_eq_iff) (simp add: numeral_eq_Suc)

lemma ref_probed_inv [simp]: "actor_inv ref_probed"
  by (simp add: actor_inv_def ref_probed_def ref_actor_def peers_ok_def peer_ok_def probes_ok_def flows_ok_def
      max_peers_def max_probes_def)

lemma ref_pong_opens:
  "rt_open_disco ref_crypto k ref_key ref_pong = Ok ([2, 0] @ replicate 30 0)"
proof -
  have "length ref_pong = 110" "drop 62 ref_pong = [2, 0] @ replicate 46 0"
    by (simp_all add: ref_pong_def)
  then show ?thesis by (simp add: rt_open_disco_def) (simp add: ref_crypto_def)
qed

section \<open>Direct paths\<close>

text \<open>
  C1. A direct path is never taken on trust: an iteration sets a peer's direct path to an endpoint
  only when it handles a disco packet that came from that very endpoint, opens under the disco key
  registered for that peer, and is a pong for a transaction this actor itself sent to that endpoint
  for that peer less than ten seconds ago.
\<close>

theorem direct_path_authenticated:
  assumes "iteration E fuel (now, e) s = Inr t"
    and "dir t k = Some (ep, when)" "dir s k \<noteq> Some (ep, when)"
  shows "\<exists>data dk m sent0. e = FromUdp data ep \<and> starts_with data disco_magic \<and>
    disco_of s k = Some dk \<and> slice 6 38 data = octets dk \<and>
    rt_open_disco (crypto_lib E) (own_key s) dk data = Ok m \<and> take 2 m = [2, 0] \<and>
    map_of (probes s) (arr (slice 2 14 m)) = Some (k, ep, sent0) \<and>
    when = max (clock s) now \<and> max 0 (when - sent0) < secs 10"
proof -
  let ?s = "s\<lparr>clock := max (clock s) now\<rparr>"
  obtain u where h: "handle E fuel e ?s = Inr u" and ut: "same_peers u t"
    using assms(1) by (auto elim: iterationE)
  have du: "dir u k = Some (ep, when)" using assms(2) same_paths_peers [OF ut] by (simp add: same_paths_def)
  have ds: "dir ?s k \<noteq> Some (ep, when)" using assms(3) by simp
  show ?thesis
  proof (cases e)
    case (Command c)
    with h have u: "u = command E c ?s" by (simp add: handle_def)
    have "dir u = dir ?s"
    proof (cases "same_peers ?s u")
      case True
      then show ?thesis using same_paths_peers by (auto simp: same_paths_def)
    next
      case False
      with u obtain key where "c = CmdAllow key" using same_peers_command [of ?s E c] by blast
      with u show ?thesis by (simp add: cmd_allow_def dir_config split: option.splits)
    qed
    with du ds show ?thesis by simp
  next
    case (FromRelay key data)
    with h have "incoming E fuel key data None ?s = Inr u" by (simp add: handle_def)
    from incoming_direct [OF this du ds] show ?thesis by simp
  next
    case (FromUdp data source)
    with h have "udp_packet E fuel data source ?s = Inr u" by (simp add: handle_def)
    then show ?thesis
    proof (cases rule: udp_packet_cases)
      case (stun es la)
      with du ds show ?thesis by (simp add: dir_def)
    next
      case none
      with du ds show ?thesis by simp
    next
      case (disco k')
      from incoming_direct [OF disco(2) du ds] FromUdp show ?thesis
        by (auto simp: disco_of_def elapsed_def)
    next
      case (data ks)
      from incoming_each_direct [OF data] du ds show ?thesis by simp
    qed
  qed (use h du ds in \<open>simp_all add: handle_def\<close>)
qed

theorem direct_path_authenticated_witness:
  "\<exists>m sent0. rt_open_disco (crypto_lib ref_env) (own_key ref_probed) ref_key ref_pong = Ok m \<and>
     map_of (probes ref_probed) (arr (slice 2 14 m)) = Some (ref_key, (V4 (arr [127, 0, 0, 1]), 9), sent0)"
proof -
  let ?ep = "(V4 (arr [127, 0, 0, 1]), 9) :: sock_addr" and ?m = "[2, 0] @ replicate 30 0 :: byte list"
  let ?s = "ref_probed\<lparr>clock := secs 100\<rparr>"
  have E: "crypto_lib ref_env = ref_crypto" by (simp add: ref_env_def)
  have s6: "slice 6 38 ref_pong = octets ref_key"
    unfolding ref_pong_def by (rule slice_append_mid) simp_all
  have len: "length ref_pong = 110" by (simp add: ref_pong_def)
  have txid: "arr (slice 2 14 ?m) = (zeros :: txid)" by (simp add: slice_def arr_eq_iff)
  have d: "disco_packet ref_env ref_key ref_pong (Some ?ep) ?s = disco_pong ref_key ?m (Some ?ep) ?s"
  proof -
    have mp: "map_of (peers ?s) ref_key = Some \<lparr>peer_key = ref_key, disco_key = ref_key, direct = None, candidates = []\<rparr>"
      by (simp add: ref_probed_def)
    have u: "usable_endpoint ?ep" by (rule loopback_usable)
    have c: "rt_open_disco (crypto_lib ref_env) (own_key ?s) ref_key ref_pong = Ok ?m"
      unfolding E by (rule ref_pong_opens)
    have "own_key ?s = own_key ref_probed" by simp
    with c have c': "rt_open_disco (crypto_lib ref_env) (own_key ref_probed) ref_key ref_pong = Ok (2 # 0 # replicate 30 0)"
      by simp
    show ?thesis unfolding disco_packet_def mp using u by (simp add: c' s6 len)
  qed
  have "disco_pong ref_key ?m (Some ?ep) ?s =
      update_peer ref_key (\<lambda>p. p\<lparr>direct := Some (?ep, secs 100)\<rparr>) (?s\<lparr>probes := []\<rparr>)"
  proof -
    have pr: "map_of (probes ?s) zeros = Some (ref_key, ?ep, secs 99)" "AList.delete zeros (probes ?s) = []"
      "elapsed ?s (secs 99) < secs 10" "clock ?s = secs 100"
      by (simp_all add: ref_probed_def elapsed_def secs_def)
    have pi: "pings (update_peer k f u) = pings u" for k f and u :: "unit actor"
      by (simp add: update_peer_def)
    have "pings (?s\<lparr>probes := []\<rparr>) = []" by (simp add: ref_probed_def ref_actor_def)
    then show ?thesis unfolding disco_pong_def Let_def txid pr option.case prod.case by (simp add: pi pr)
  qed
  then have dp: "dir (disco_packet ref_env ref_key ref_pong (Some ?ep) ?s) ref_key = Some (?ep, secs 100)"
    by (simp add: d dir_update_peer) (simp add: ref_probed_def)
  have sw: "starts_with ref_pong disco_magic" "\<not> starts_with ref_pong meow_magic"
    by (simp_all add: ref_pong_def) (simp add: starts_with_def disco_magic_def meow_magic_def)
  have stun: "\<not> is_stun_response (stun_txid ?s) ref_pong"
    by (simp add: is_stun_response_def ref_pong_def disco_magic_def)
  have "find (\<lambda>k. map_option (\<lambda>p. octets (disco_key p)) (map_of (peers ?s) k) = Some (slice 6 38 ref_pong)) (iter_keys ref_env ?s) = Some ref_key"
    unfolding s6 by (simp add: iter_keys_def ref_env_def ref_probed_def)
  then have u: "udp_packet ref_env n ref_pong ?ep ?s = Inr (disco_packet ref_env ref_key ref_pong (Some ?ep) ?s)" for n
    using stun sw len by (simp add: udp_packet_def incoming_def)
  obtain n t where it: "iteration ref_env n (secs 100, FromUdp ref_pong ?ep) ref_probed = Inr t"
    using ref_iteration [OF ref_probed_inv] by blast
  obtain v where h: "handle ref_env n (FromUdp ref_pong ?ep) ?s = Inr v" and vt: "same_peers v t"
  proof -
    have "max (clock ref_probed) (secs 100) = secs 100" by (simp add: ref_probed_def ref_actor_def)
    then show thesis using it that by (auto elim: iterationE)
  qed
  from h u have "v = disco_packet ref_env ref_key ref_pong (Some ?ep) ?s" by (simp add: handle_def)
  with dp same_paths_peers [OF vt] have "dir t ref_key = Some (?ep, secs 100)" by (simp add: same_paths_def)
  moreover have "dir ref_probed ref_key \<noteq> Some (?ep, secs 100)" "disco_of ref_probed ref_key = Some ref_key"
    by (simp_all add: dir_def disco_of_def ref_probed_def)
  ultimately show ?thesis using direct_path_authenticated [OF it, of ref_key ?ep "secs 100"] by auto
qed

section \<open>Registration\<close>

text \<open>The keys of the peers.\<close>

definition keys :: "'w actor \<Rightarrow> key set" where
  "keys s = set (map fst (peers s))"

lemma keys_iff: "k \<in> keys s \<longleftrightarrow> disco_of s k \<noteq> None"
  by (simp add: keys_def disco_of_def map_of_eq_None_iff)

lemma keys_same_ids: "same_ids s t \<Longrightarrow> keys t = keys s"
  by (simp only: keys_def keys_ids same_ids_def)

lemma disco_of_same_ids: "same_ids s t \<Longrightarrow> disco_of t = disco_of s"
  by (rule ext) (simp add: same_ids_def flip: map_of_ids)

lemma add_peer_cases:
  obtains (no) "add_peer E k d s = s"
  | (yes) w where "k \<notin> keys s" "k \<noteq> zeros" "d \<noteq> zeros" "length (peers s) < max_peers"
      "add_peer E k d s = s\<lparr>peers := peers s @ [(k, \<lparr>peer_key = k, disco_key = d, direct = None, candidates = []\<rparr>)], world := w\<rparr>"
proof (cases "map_of (peers s) k \<noteq> None \<or> max_peers \<le> length (peers s) \<or> k = zeros \<or> d = zeros")
  case True
  then show thesis by (intro no) (auto simp: add_peer_def)
next
  case False
  then show thesis
    by (intro yes [where w = "tunn_new E (world s) (own_key s) k (psk s) (of_nat (length (peers s) + 1))"])
      (auto simp: add_peer_def Let_def keys_def map_of_eq_None_iff)
qed

lemma disco_of_add_peer:
  "disco_of s j = Some dj \<Longrightarrow> disco_of (add_peer E k d s) j = Some dj"
  "j \<notin> keys s \<Longrightarrow> j \<in> keys (add_peer E k d s) \<Longrightarrow> j = k \<and> disco_of (add_peer E k d s) j = Some d"
proof -
  have "(disco_of s j = Some dj \<longrightarrow> disco_of (add_peer E k d s) j = Some dj) \<and>
    (j \<notin> keys s \<and> j \<in> keys (add_peer E k d s) \<longrightarrow> j = k \<and> disco_of (add_peer E k d s) j = Some d)"
  proof (rule add_peer_cases [of E k d s])
    assume "add_peer E k d s = s"
    then show ?thesis by simp
  next
    fix w
    assume k: "k \<notin> keys s" and eq: "add_peer E k d s =
      s\<lparr>peers := peers s @ [(k, \<lparr>peer_key = k, disco_key = d, direct = None, candidates = []\<rparr>)], world := w\<rparr>"
    have n: "map_of (peers s) k = None" using k by (simp add: keys_def map_of_eq_None_iff)
    show ?thesis unfolding eq
      by (auto simp: disco_of_def keys_def map_add_def n map_of_eq_None_iff split: option.splits dest: map_of_SomeD
          intro: rev_image_eqI)
  qed
  then show "disco_of s j = Some dj \<Longrightarrow> disco_of (add_peer E k d s) j = Some dj"
    "j \<notin> keys s \<Longrightarrow> j \<in> keys (add_peer E k d s) \<Longrightarrow> j = k \<and> disco_of (add_peer E k d s) j = Some d" by blast+
qed

text \<open>What the handling of an event does to the peers.\<close>

lemma incoming_meow_ids:
  "\<exists>u. same_ids u (incoming_meow E k data s) \<and>
     (u = s \<or> (\<exists>cfg d. config s = Some cfg \<and> meow_request cfg k data = Some d \<and> u = add_peer E k d s))"
proof (cases "config s")
  case None
  have "same_ids s (u\<lparr>pings := ps\<rparr>)" if "meowed_pings (pings s) s = (ps, u)" for ps u
    using meowed_pings_only [OF that] by (simp add: same_ids_peers same_peers_outgoing)
  with None show ?thesis by (auto simp: incoming_meow_def split: prod.splits)
next
  case (Some cfg)
  show ?thesis
  proof (cases "meow_request cfg k data")
    case None
    with Some show ?thesis by (auto simp: incoming_meow_def)
  next
    case (Some d)
    have "same_ids (add_peer E k d s) (incoming_meow E k data s)"
      using \<open>config s = Some cfg\<close> Some by (simp add: incoming_meow_def Let_def same_ids_peers)
    with \<open>config s = Some cfg\<close> Some show ?thesis by blast
  qed
qed

lemma handle_ids:
  assumes "handle E fuel e s = Inr u"
  shows "same_ids s u \<or> (\<exists>key. e = Command (CmdAllow key) \<and> u = cmd_allow key s) \<or>
    (\<exists>k data cfg d. e = FromRelay k data \<and> starts_with data meow_magic \<and> config s = Some cfg \<and>
       meow_request cfg k data = Some d \<and> same_ids (add_peer E k d s) u)"
proof (cases e)
  case (Command c)
  with assms have "u = command E c s" by (simp add: handle_def)
  with Command show ?thesis using same_peers_command [of s E c] by (auto intro: same_ids_peers)
next
  case (FromRelay k data)
  with assms have inc: "incoming E fuel k data None s = Inr u" by (simp add: handle_def)
  show ?thesis
  proof (cases "starts_with data meow_magic")
    case True
    with inc have "u = incoming_meow E k data s" by (simp add: incoming_def)
    with incoming_meow_ids [of E k data s] FromRelay True show ?thesis by auto
  next
    case False
    with same_ids_incoming [OF inc] show ?thesis by simp
  qed
next
  case (FromUdp data source)
  with assms show ?thesis by (auto simp: handle_def intro: same_ids_udp_packet)
qed (use assms in \<open>simp_all add: handle_def\<close>)

lemma disco_of_cmd_allow: "disco_of (cmd_allow key s) = disco_of s"
  by (rule ext) (simp add: cmd_allow_def disco_of_def split: option.splits)

lemma same_ids_clock [simp]: "same_ids (s\<lparr>clock := c\<rparr>) t = same_ids s t" "disco_of (s\<lparr>clock := c\<rparr>) = disco_of s"
  "keys (s\<lparr>clock := c\<rparr>) = keys s"
  by (auto simp: same_ids_def ids_def disco_of_def keys_def)

text \<open>
  C6. Peers are registered by the relay's authenticated word only: a key becomes a peer in an
  iteration only if the iteration handles a meow packet the relay delivered under that very key, on a
  server whose allow-list is empty or names the key, and the packet is the registration request that
  names this key and the nonzero disco key the peer is registered with. A registered peer is never
  dropped and its disco key never replaced.
\<close>

theorem peer_registration:
  assumes "iteration E fuel (now, e) s = Inr t"
  shows "(k \<in> keys t \<and> k \<notin> keys s \<longrightarrow>
      (\<exists>data rest cfg d. e = FromRelay k data \<and> data = encode_meow_ping k d @ rest \<and> config s = Some cfg \<and>
         (allowed_clients cfg = [] \<or> k \<in> set (allowed_clients cfg)) \<and> d \<noteq> zeros \<and> disco_of t k = Some d)) \<and>
    (disco_of s k = Some dk \<longrightarrow> disco_of t k = Some dk)"
proof -
  let ?s = "s\<lparr>clock := max (clock s) now\<rparr>"
  obtain u where h: "handle E fuel e ?s = Inr u" and ut: "same_peers u t"
    using assms by (auto elim: iterationE)
  have t: "disco_of t = disco_of u" "keys t = keys u"
    using same_ids_peers [OF ut] by (simp_all add: disco_of_same_ids keys_same_ids)
  from handle_ids [OF h] show ?thesis
  proof (elim disjE exE conjE)
    assume "same_ids ?s u"
    then have "same_ids s u" by simp
    then show ?thesis by (simp add: t disco_of_same_ids keys_same_ids)
  next
    fix key assume "u = cmd_allow key ?s"
    then show ?thesis by (auto simp: t keys_iff disco_of_cmd_allow)
  next
    fix k' data cfg d
    assume e: "e = FromRelay k' data" "starts_with data meow_magic" "config ?s = Some cfg"
      and m: "meow_request cfg k' data = Some d" and ids: "same_ids (add_peer E k' d ?s) u"
    have u: "disco_of u = disco_of (add_peer E k' d ?s)" "keys u = keys (add_peer E k' d ?s)"
      using ids by (simp_all add: disco_of_same_ids keys_same_ids)
    from m e(2) have p: "parse_meow_ping data = Some (k', d)"
      "allowed_clients cfg = [] \<or> k' \<in> set (allowed_clients cfg)" by (simp_all add: meow_request_parse)
    then obtain rest where r: "data = encode_meow_ping k' d @ rest" "d \<noteq> zeros" by (auto simp: parse_meow_ping_iff)
    show ?thesis
    proof (intro conjI impI)
      assume "k \<in> keys t \<and> k \<notin> keys s"
      then have "k \<notin> keys ?s" "k \<in> keys (add_peer E k' d ?s)" by (simp_all add: t u)
      from disco_of_add_peer(2) [OF this] have "k = k'" "disco_of t k = Some d" by (auto simp: t u)
      then show "\<exists>data rest cfg d. e = FromRelay k data \<and> data = encode_meow_ping k d @ rest \<and> config s = Some cfg \<and>
         (allowed_clients cfg = [] \<or> k \<in> set (allowed_clients cfg)) \<and> d \<noteq> zeros \<and> disco_of t k = Some d"
        using e p r by auto
    next
      assume "disco_of s k = Some dk"
      then show "disco_of t k = Some dk" using disco_of_add_peer(1) [of ?s k dk E k' d] by (simp add: t u)
    qed
  qed
qed

theorem peer_registration_witness:
  "\<exists>n t. iteration ref_env n (secs 101, FromUdp (encode_meow_ping ref_key ref_key) (V4 zeros, 9)) ref_actor = Inr t \<and> keys t = {}"
proof -
  obtain n t where it: "iteration ref_env n (secs 101, FromUdp (encode_meow_ping ref_key ref_key) (V4 zeros, 9)) ref_actor = Inr t"
    using ref_iteration [OF ref_actor_inv] by blast
  have "keys ref_actor = {}" by (simp add: keys_def ref_actor_def)
  with peer_registration [OF it] have "keys t = {}" by auto
  with it show ?thesis by blast
qed

section \<open>The allow-list\<close>

definition restricted :: "'w actor \<Rightarrow> bool" where
  "restricted s \<longleftrightarrow>
     (\<exists>cfg. config s = Some cfg \<and> allowed_clients cfg \<noteq> [] \<and> keys s \<subseteq> set (allowed_clients cfg))"

lemma restricted_same_ids: "same_ids s t \<Longrightarrow> restricted t = restricted s"
  using keys_same_ids [of s t] by (simp add: restricted_def same_ids_def)

lemma config_add_peer [simp]: "config (add_peer E k d s) = config s"
  by (simp add: add_peer_def Let_def)

lemma restricted_handle: "handle E fuel e s = Inr u \<Longrightarrow> restricted s \<Longrightarrow> restricted u"
proof -
  assume h: "handle E fuel e s = Inr u" and r: "restricted s"
  then obtain cfg where c: "config s = Some cfg" "allowed_clients cfg \<noteq> []" "keys s \<subseteq> set (allowed_clients cfg)"
    by (auto simp: restricted_def)
  from handle_ids [OF h] show "restricted u"
  proof (elim disjE exE conjE)
    assume "same_ids s u"
    with r show ?thesis by (simp add: restricted_same_ids)
  next
    fix key assume u: "u = cmd_allow key s"
    then have "keys u = keys s" by (simp add: cmd_allow_def keys_def split: option.splits)
    with u c show ?thesis by (auto simp: restricted_def cmd_allow_def)
  next
    fix k data cfg' d
    assume "starts_with data meow_magic" "config s = Some cfg'" "meow_request cfg' k data = Some d"
      and ids: "same_ids (add_peer E k d s) u"
    with c have "k \<in> set (allowed_clients cfg)" by (simp add: meow_request_parse)
    moreover have "keys (add_peer E k d s) \<subseteq> insert k (keys s)"
      using disco_of_add_peer(2) [of _ s E k d] by blast
    ultimately have "restricted (add_peer E k d s)" using c by (auto simp: restricted_def)
    with ids show ?thesis by (simp add: restricted_same_ids)
  qed
qed

text \<open>What every handled event keeps, and what does not look past the peers, a run keeps.\<close>

lemma run_invariant:
  assumes "run E fuel es s = Inr (b, t)" "I s"
    and clock: "\<And>s c. I s \<Longrightarrow> I (s\<lparr>clock := c\<rparr>)"
    and handle: "\<And>e s u. e \<in> snd ` set es \<Longrightarrow> I s \<Longrightarrow> handle E fuel e s = Inr u \<Longrightarrow> I u"
    and same: "\<And>s u. I s \<Longrightarrow> same_peers s u \<Longrightarrow> I u"
  shows "I t"
  using assms(1,2) handle
proof (induction es arbitrary: s)
  case Nil
  then show ?case by simp
next
  case (Cons te es)
  obtain now e where te: "te = (now, e)" by (cases te)
  show ?case
  proof (cases "e = Cancelled \<or> e = RelayGone")
    case True
    with Cons.prems te show ?thesis by simp
  next
    case False
    with Cons.prems(1) te obtain v where v: "iteration E fuel (now, e) s = Inr v" and r: "run E fuel es v = Inr (b, t)"
      by (auto simp: result_simps)
    obtain u where u: "handle E fuel e (s\<lparr>clock := max (clock s) now\<rparr>) = Inr u" "same_peers u v"
      using v by (auto elim: iterationE)
    have "I u" by (rule Cons.prems(3) [OF _ clock [OF Cons.prems(2)] u(1)]) (simp add: te)
    then have "I v" using u(2) by (rule same)
    with r show ?thesis by (rule Cons.IH) (use Cons.prems(3) in auto)
  qed
qed

text \<open>
  C2. The allow-list is enforced for the life of a server: if every peer is on a nonempty allow-list,
  then after any run, whatever packets and commands it handled, every peer is on the allow-list as it
  then stands; other keys never become peers.
\<close>

theorem allow_list_enforced:
  assumes "run E fuel es s = Inr (b, t)" "restricted s"
  shows "\<exists>cfg. config t = Some cfg \<and> keys t \<subseteq> set (allowed_clients cfg)"
proof -
  have "restricted t"
  proof (rule run_invariant [where I = restricted, OF assms])
    show "restricted (u\<lparr>clock := c\<rparr>)" if "restricted u" for u :: "'a actor" and c
      using that by (simp add: restricted_def)
    show "restricted v" if "restricted u" "handle E fuel e u = Inr v" for e u v
      using that by (blast intro: restricted_handle)
    show "restricted v" if "restricted u" "same_peers u v" for u v :: "'a actor"
      using that restricted_same_ids [OF same_ids_peers] by blast
  qed
  then show ?thesis by (auto simp: restricted_def)
qed

theorem allow_list_enforced_witness:
  "\<exists>n b t. run ref_env n [(secs 101, FromRelay zeros (encode_meow_ping zeros ref_key))]
      (ref_actor\<lparr>config := Some (ref_config\<lparr>allowed_clients := [ref_key]\<rparr>)\<rparr>) = Inr (b, t) \<and>
    (\<exists>cfg. config t = Some cfg \<and> keys t \<subseteq> set (allowed_clients cfg))"
proof -
  let ?s = "ref_actor\<lparr>config := Some (ref_config\<lparr>allowed_clients := [ref_key]\<rparr>)\<rparr>"
  have "actor_inv ?s" by simp
  then obtain n t where "iteration ref_env n (secs 101, FromRelay zeros (encode_meow_ping zeros ref_key)) ?s = Inr t"
    using ref_iteration by blast
  then have r: "run ref_env n [(secs 101, FromRelay zeros (encode_meow_ping zeros ref_key))] ?s = Inr (True, t)" by simp
  have "restricted ?s" by (simp add: restricted_def keys_def) (simp add: ref_actor_def)
  from allow_list_enforced [OF r this] r show ?thesis by blast
qed

text \<open>
  As long as no command extends the allow-list, it stays what it was, and a peer is on it and has a
  key that is not zero.
\<close>

definition limited_to :: "key list \<Rightarrow> 'w actor \<Rightarrow> bool" where
  "limited_to ks s \<longleftrightarrow>
     (\<exists>cfg. config s = Some cfg \<and> allowed_clients cfg = ks \<and> ks \<noteq> []) \<and> keys s \<subseteq> set ks - {zeros}"

lemma limited_to_same_ids: "same_ids s t \<Longrightarrow> limited_to ks t = limited_to ks s"
  using keys_same_ids [of s t] by (simp add: limited_to_def same_ids_def)

lemma keys_add_peer: "keys (add_peer E k d s) \<subseteq> keys s \<union> (if k = zeros then {} else {k})"
  by (auto simp: add_peer_def Let_def keys_def)

lemma limited_to_handle:
  assumes h: "handle E fuel e s = Inr u" and r: "limited_to ks s" and e: "\<And>k. e \<noteq> Command (CmdAllow k)"
  shows "limited_to ks u"
  using handle_ids [OF h]
proof (elim disjE exE conjE)
  assume "same_ids s u"
  with r show ?thesis by (simp add: limited_to_same_ids)
next
  fix key assume "e = Command (CmdAllow key)"
  with e [of key] show ?thesis by simp
next
  fix k data cfg' d
  assume "config s = Some cfg'" "meow_request cfg' k data = Some d" and ids: "same_ids (add_peer E k d s) u"
  with r have "k \<in> set ks" by (auto simp: limited_to_def meow_request_def split: if_split_asm)
  then have "limited_to ks (add_peer E k d s)"
    using r keys_add_peer [of E k d s] by (auto simp: limited_to_def split: if_split_asm)
  with ids show ?thesis by (simp add: limited_to_same_ids)
qed

lemma run_limited_to:
  assumes "run E fuel es s = Inr (b, t)" "limited_to ks s" "\<And>k. Command (CmdAllow k) \<notin> snd ` set es"
  shows "limited_to ks t"
proof (rule run_invariant [where I = "limited_to ks", OF assms(1,2)])
  show "limited_to ks (u\<lparr>clock := c\<rparr>)" if "limited_to ks u" for u :: "'a actor" and c
    using that by (simp add: limited_to_def keys_def)
  show "limited_to ks v" if "e \<in> snd ` set es" "limited_to ks u" "handle E fuel e u = Inr v" for e u v
    using limited_to_handle [OF that(3,2)] that(1) assms(3) by metis
  show "limited_to ks v" if "limited_to ks u" "same_peers u v" for u v :: "'a actor"
    using that limited_to_same_ids [OF same_ids_peers] by blast
qed

section \<open>Whose traffic it is\<close>

text \<open>What a packet that came through a tunnel adds to the stack, the links and the flows.\<close>

definition adds_from :: "ipv6 \<Rightarrow> 'w actor \<Rightarrow> 'w actor \<Rightarrow> bool" where
  "adds_from a s t \<longleftrightarrow>
     (\<exists>ps. dev_incoming t = dev_incoming s @ ps \<and> (\<forall>p\<in>set ps. slice 8 24 p = octets a)) \<and>
     (\<forall>l\<in>set (links t) - set (links s). fst (snd (link_flow l)) = a) \<and>
     (\<forall>f\<in>dom (map_of (udp_flows t)) - dom (map_of (udp_flows s)). fst (snd f) = V6 a)"

lemma adds_from_refl [simp]: "adds_from a s s"
  by (simp add: adds_from_def)

lemma adds_from_trans: "adds_from a s t \<Longrightarrow> adds_from a t u \<Longrightarrow> adds_from a s u"
proof -
  assume st: "adds_from a s t" and tu: "adds_from a t u"
  obtain ps qs where "dev_incoming t = dev_incoming s @ ps" "\<forall>p\<in>set ps. slice 8 24 p = octets a"
    "dev_incoming u = dev_incoming t @ qs" "\<forall>p\<in>set qs. slice 8 24 p = octets a"
    using st tu by (auto simp: adds_from_def)
  then have "\<exists>ps. dev_incoming u = dev_incoming s @ ps \<and> (\<forall>p\<in>set ps. slice 8 24 p = octets a)"
    by (intro exI [of _ "ps @ qs"]) auto
  then show ?thesis using st tu unfolding adds_from_def by blast
qed

lemma adds_from_outgoing: "outgoing s t \<Longrightarrow> adds_from a s t"
  by (simp add: adds_from_def outgoing_frame(8,10,11))

lemma adds_from_world: "adds_from a s (t\<lparr>world := w\<rparr>) = adds_from a s t"
  by (simp add: adds_from_def)

lemma udp_input_new_flows:
  "f \<in> dom (map_of (udp_flows (udp_input E ip s))) \<Longrightarrow> f \<notin> dom (map_of (udp_flows s)) \<Longrightarrow>
   fst (snd f) = V6 (src_addr ip)"
proof -
  assume f: "f \<in> dom (map_of (udp_flows (udp_input E ip s)))" "f \<notin> dom (map_of (udp_flows s))"
  then obtain r where r: "parse_udp E (ip_payload ip) (src_addr ip) (dst_addr ip) = Some r"
    by (auto simp: udp_input_def split: option.splits)
  let ?f = "forget_closed E (flow_of ip r) s"
  have "dom (map_of (udp_flows (open_flow E ip (udp_dst r) (flow_of ip r) ?f))) \<subseteq>
      insert (flow_of ip r) (dom (map_of (udp_flows ?f)))"
    by (rule open_flow_cases [of E ip "udp_dst r" "flow_of ip r" ?f]) (auto simp: update_conv')
  with f r have "f = flow_of ip r"
    using forget_closed_simps(3) [of E "flow_of ip r" s]
    by (auto simp: udp_input_def Let_def split: if_splits simp del: forget_closed_simps)
  then show ?thesis by (simp add: flow_of_def)
qed

lemma accept_syn_links:
  "set (links (accept_syn E cfg flow s)) \<subseteq> set (links s) \<union> {l. link_flow l = flow}"
  "udp_flows (accept_syn E cfg flow s) = udp_flows s" "dev_incoming (accept_syn E cfg flow s) = dev_incoming s"
  by (auto simp: accept_syn_def split: option.splits prod.splits)

lemma receive_ip_source:
  assumes "ipv6_law E" "slice 8 24 b = octets a"
  shows "adds_from a s (receive_ip E b s)"
proof (cases "ipv6_packet E b")
  case None
  then show ?thesis by (simp add: receive_ip_def)
next
  case (Some ip)
  then have src: "src_addr ip = a" using assms unfolding ipv6_law_def by (metis octets_eq_iff)
  have udp: "adds_from a s (udp_input E ip s)"
    using udp_input_new_flows [of _ E ip s] src
    by (auto simp: adds_from_def udp_only_frame(8,9) [OF udp_input_only])
  have push: "adds_from a s (to_stack b t)" if "adds_from a s t" "dev_incoming t = dev_incoming s" for t
    using that assms(2) by (auto simp: adds_from_def to_stack_def)
  have syn: "adds_from a s (accept_syn E cfg ((d, p), (src_addr ip, q)) s)" for cfg d p q
    using accept_syn_links(1) [of E cfg "((d, p), (src_addr ip, q))" s] src
    by (auto simp: adds_from_def accept_syn_links(2,3))
  show ?thesis
    by (auto simp: receive_ip_def Some receive_tcp_def udp push syn accept_syn_links(3) split: option.splits)
qed

text \<open>
  C3. On a server no peer speaks for another: whatever a peer's WireGuard tunnel yields, every packet
  handed to the TCP stack carries the address derived from that peer's own key as its source, every
  TCP connection it opens has that address as its remote end, and so has every UDP flow.
\<close>

theorem tunnel_source_checked:
  assumes "ipv6_law E" "config s = Some cfg" "decapsulate E fuel k src data s = Inr t"
  shows "(\<exists>ps. dev_incoming t = dev_incoming s @ ps \<and> (\<forall>p\<in>set ps. slice 8 24 p = octets (tc_addr_for_key k))) \<and>
    (\<forall>l\<in>set (links t) - set (links s). fst (snd (link_flow l)) = tc_addr_for_key k) \<and>
    (\<forall>f\<in>dom (map_of (udp_flows t)) - dom (map_of (udp_flows s)). fst (snd f) = V6 (tc_addr_for_key k))"
proof -
  let ?a = "tc_addr_for_key k"
  let ?I = "\<lambda>u. config u = Some cfg \<and> adds_from ?a s u"
  have "?I t"
  proof (rule decapsulate_rule [OF assms(3), where I = ?I])
    show "?I s" using assms(2) by simp
    show "?I (u\<lparr>world := w\<rparr>)" if "?I u" for u w using that by (simp add: adds_from_world)
    show "?I (send_packet E k b u)" if "?I u" for u b
      using that adds_from_trans [OF _ adds_from_outgoing [OF outgoing_send_packet]] by (auto simp: actor_frame)
    show "?I (receive_ip E b u)" if "?I u" "source_allowed u k b" for u b
    proof -
      have "slice 8 24 b = octets ?a" using that by (simp add: source_allowed_def)
      then have "adds_from ?a s (receive_ip E b u)"
        using that adds_from_trans [of ?a s u] receive_ip_source [OF assms(1)] by blast
      with that show ?thesis using same_peers_receive_ip [of u E b] by (simp add: same_peers_def)
    qed
  qed
  then show ?thesis by (simp add: adds_from_def)
qed

theorem tunnel_source_checked_witness:
  "\<exists>E t p. decapsulate E 2 ref_key None [9] (ref_actor\<lparr>peers := peers ref_probed\<rparr>) = Inr (t :: unit actor) \<and>
     dev_incoming t = [p] \<and> slice 8 24 p = octets (tc_addr_for_key ref_key)"
proof -
  let ?p = "ip6_header 0 59 64 (tc_addr_for_key ref_key) (tc_addr_for_key ref_key) @ []"
  let ?E = "ref_env\<lparr>tunn_decapsulate := \<lambda>w k src d. (if d = [] then TunnDone else WriteToTunnelV6 ?p, w)\<rparr>"
  let ?s = "ref_actor\<lparr>peers := peers ref_probed\<rparr>"
  have law: "ipv6_law ?E" using ref_env_laws(1) by (simp add: ipv6_law_def)
  have "ipv6_packet ref_env ?p = Some \<lparr>ip_version = 6, next_header = 59, src_addr = tc_addr_for_key ref_key,
      dst_addr = tc_addr_for_key ref_key, ip_payload = []\<rparr>"
    using ref_ipv6_builds unfolding ipv6_builds_def
    by (elim allE [where x = 0] allE [where x = 59] allE [where x = 64] allE [where x = "tc_addr_for_key ref_key"]
        allE [where x = "[]"]) simp
  then have ip: "ipv6_packet ?E ?p = Some \<lparr>ip_version = 6, next_header = 59, src_addr = tc_addr_for_key ref_key,
      dst_addr = tc_addr_for_key ref_key, ip_payload = []\<rparr>" by simp
  have src: "slice 8 24 ?p = octets (tc_addr_for_key ref_key)" "length ?p = 40"
    by (simp_all add: ip6_header_def slice_def to_be_bytes_2)
  have c: "config ?s = Some ref_config" "local_ip ?s = tc_addr_for_key ref_key" by (simp_all add: ref_actor_def)
  have r: "receive_ip ?E ?p ?s = to_stack ?p ?s"
    unfolding receive_ip_def ip using c by simp
  have k: "map_of (peers ?s) ref_key \<noteq> None" by (simp add: ref_probed_def)
  have sa: "source_allowed ?s ref_key ?p" using src by (simp add: source_allowed_def)
  have d: "decapsulate ?E 2 ref_key None [9] ?s = Inr (to_stack ?p ?s)"
  proof -
    have w: "u\<lparr>world := ()\<rparr> = u" for u :: "unit actor" by (cases u) simp
    have "map_of (peers (to_stack ?p ?s)) ref_key \<noteq> None" using k by (simp add: to_stack_def)
    then show ?thesis using k sa r by (simp only: numeral_2_eq_2) (auto simp: Let_def w)
  qed
  have "dev_incoming ?s = []" by (simp add: ref_actor_def)
  then have one: "dev_incoming (to_stack ?p ?s) = [?p]" by (simp add: to_stack_def)
  obtain ps where "dev_incoming (to_stack ?p ?s) = dev_incoming ?s @ ps"
    "\<forall>p\<in>set ps. slice 8 24 p = octets (tc_addr_for_key ref_key)"
    using tunnel_source_checked [OF law c(1) d] by blast
  then have "ps = [?p]" "\<forall>p\<in>set ps. slice 8 24 p = octets (tc_addr_for_key ref_key)"
    unfolding one \<open>dev_incoming ?s = []\<close> by simp_all
  then have "slice 8 24 ?p = octets (tc_addr_for_key ref_key)" by fastforce
  with one d show ?thesis by blast
qed

section \<open>Limits and return\<close>

text \<open>
  C7. The actor's memory is bounded whatever happens to it: after any run from a state within the
  limits, there are at most 1024 peers, each with at most 32 candidate endpoints, 256 TCP links
  (half-open ones included), 256 UDP flows, 128 pending pings, 4096 outstanding probes and 32
  endpoints of its own, no key, flow or transaction is held twice, and every peer's direct path is a
  usable endpoint.
\<close>

theorem actor_limits:
  assumes "actor_inv s" "run E fuel es s = Inr (b, t)"
  shows "length (peers t) \<le> 1024 \<and> length (links t) \<le> 256 \<and> length (udp_flows t) \<le> 256 \<and>
    length (pings t) \<le> 128 \<and> length (probes t) \<le> 4096 \<and> length (endpoints t) \<le> 32 \<and>
    distinct (map fst (peers t)) \<and> distinct (map fst (udp_flows t)) \<and> distinct (map fst (probes t)) \<and>
    list_all (\<lambda>(k, p). length (candidates p) \<le> 32 \<and>
      (case direct p of Some (ep, _) \<Rightarrow> usable_endpoint ep | None \<Rightarrow> True)) (peers t)"
proof -
  have "actor_inv t" using assms by (rule actor_inv_run)
  moreover have "peer_ok kp \<Longrightarrow> (case kp of (k, p) \<Rightarrow> length (candidates p) \<le> 32 \<and>
      (case direct p of Some (ep, _) \<Rightarrow> usable_endpoint ep | None \<Rightarrow> True))" for kp
    by (auto simp: peer_ok_def well_kept_def max_candidates_def)
  ultimately show ?thesis
    by (auto simp: actor_inv_def peers_ok_def probes_ok_def flows_ok_def well_kept_def max_peers_def max_probes_def
        max_connections_def max_pending_pings_def max_candidates_def list_all_iff)
qed

theorem actor_limits_witness: "\<exists>t. run ref_env 1 [(0, Cancelled)] ref_actor = Inr (False, t) \<and> length (peers t) \<le> 1024"
proof -
  have "actor_inv ref_actor"
    by (simp add: actor_inv_def ref_actor_def peers_ok_def probes_ok_def flows_ok_def)
  moreover have "run ref_env 1 [(0, Cancelled)] ref_actor = Inr (False, ref_actor)" by simp
  ultimately show ?thesis using actor_limits [of ref_actor ref_env 1 "[(0, Cancelled)]" False ref_actor] by blast
qed

text \<open>
  C4. The actor never panics and never hangs: from a state that satisfies the invariant, every
  iteration, whatever the event, returns a next state (which satisfies the invariant again), provided
  that a tunnel queues finitely many packets. With enough fuel the loop that empties a tunnel always
  finishes, and the \<open>unwrap\<close> calls on the peer table always find their peer.
\<close>

theorem iteration_returns:
  assumes "tunnel_drains E q" "hash_order_law E" "actor_inv s"
  shows "\<exists>n t. actor_inv t \<and> (\<forall>fuel\<ge>n. iteration E fuel te s = Inr t)"
proof -
  obtain n t where n: "\<forall>fuel\<ge>n. iteration E fuel te s = Inr t"
    using settles_iteration [OF assms, of te] unfolding settles_def by blast
  then have "actor_inv t" using actor_inv_iteration [OF assms(3), of E n te t] by blast
  with n show ?thesis by blast
qed

theorem iteration_returns_witness:
  "\<exists>n t. actor_inv t \<and> iteration ref_env n (secs 101, FromRelay ref_key [1, 2, 3]) ref_actor = Inr t"
  using iteration_returns [OF ref_tunnel_drains ref_env_laws(2) ref_actor_inv, of "(secs 101, FromRelay ref_key [1, 2, 3])"]
  by blast

end
