(* ===== verification/Runtime.thy ===== *)
theory Runtime
  imports ActorProps
begin

text \<open>
  Starting the runtime and its handles (\<open>src/runtime.rs\<close>): \<open>Actor::new\<close> and \<open>Actor::start\<close>,
  \<open>Server::start\<close>, the checks and the start of \<open>Client::connect\<close>, and the requests of \<open>Handle\<close>,
  \<open>Server\<close> and \<open>Client\<close> with what each makes of the answer of the actor's task.

  What the operating system and the relay answer while an actor starts is the record \<open>host\<close>; the
  expansion of a connection info (\<open>Address.expand\<close> with its network answers) is an argument.
\<close>

section \<open>Starting the actor\<close>

record host =
  relay_connect :: "key \<Rightarrow> region \<Rightarrow> bool \<Rightarrow> unit res"
  bind_udp4 :: "u16 res"
  receive_buffer :: "bool \<Rightarrow> nat res"
  set_receive_buffer :: "bool \<Rightarrow> nat \<Rightarrow> unit res"
  bind_udp6 :: "u16 \<Rightarrow> bool"
  get_if_addrs :: "ip_addr list option"
  default_route :: "ipv6 \<Rightarrow> unit res"
  host_txid :: txid
  host_now :: instant

definition udp_receive_buffer_size :: nat where
  "udp_receive_buffer_size = 512 * 1024"

text \<open>For the IPv4 socket or, when the flag is set, the IPv6 socket.\<close>

definition configure_udp_receive_buffer :: "host \<Rightarrow> bool \<Rightarrow> unit res" where
  "configure_udp_receive_buffer H v6 =
     and_then (receive_buffer H v6) (\<lambda>n.
       if n < udp_receive_buffer_size then set_receive_buffer H v6 udp_receive_buffer_size else Ok ())"

definition open_sockets :: "host \<Rightarrow> (u16 \<times> bool) res" where
  "open_sockets H =
     and_then (bind_udp4 H) (\<lambda>port.
     and_then (context_of ''configure IPv4 UDP receive buffer'' (configure_udp_receive_buffer H False)) (\<lambda>_.
     if bind_udp6 H port then
       and_then (context_of ''configure IPv6 UDP receive buffer'' (configure_udp_receive_buffer H True))
         (\<lambda>_. Ok (port, True))
     else Ok (port, False)))"

definition initial_psk :: "server_config option \<Rightarrow> conn_info option \<Rightarrow> key option" where
  "initial_psk cfg srv =
     (case Option.bind cfg cfg_preshared_key of
        Some k \<Rightarrow> Some k
      | None \<Rightarrow> Option.bind srv preshared_key)"

definition initial_actor ::
  "'w env \<Rightarrow> host \<Rightarrow> key \<Rightarrow> region \<Rightarrow> server_config option \<Rightarrow> conn_info option \<Rightarrow> sock_addr list \<Rightarrow> bool \<Rightarrow>
   'w \<Rightarrow> 'w actor" where
  "initial_actor E H k region cfg srv eps has6 w =
     \<lparr>own_key = k, local_ip = tc_addr_for_key (public (crypto_lib E) k), own_region = region, config = cfg,
      server = map_option server_public srv, psk = initial_psk cfg srv, peers = [],
      dev_incoming = [], dev_outgoing = [], links = [], udp_flows = [], listeners = [], has_udp6 = has6,
      endpoints = eps, next_port = 32768, last_timers = host_now H, last_advertise = host_now H - secs 60,
      pings = [], probes = [], drains = [], stun_txid = host_txid H, clock = host_now H, world = w, sent = []\<rparr>"

text \<open>The fallible part: the relay, the sockets with the interface addresses, and the default route.\<close>

definition host_setup ::
  "'w env \<Rightarrow> host \<Rightarrow> key \<Rightarrow> region \<Rightarrow> bool \<Rightarrow> (sock_addr list \<times> bool) res" where
  "host_setup E H k region is_server =
     and_then (relay_connect H k region is_server) (\<lambda>_.
     and_then (open_sockets H) (\<lambda>(port, has6).
     let eps = (case get_if_addrs H of Some ips \<Rightarrow> interface_endpoints has6 port ips | None \<Rightarrow> [])
     in and_then (default_route H (tc_addr_for_key (public (crypto_lib E) k))) (\<lambda>_. Ok (eps, has6))))"

text \<open>\<open>Inl\<close> is the panic of \<open>server_disco_public.unwrap()\<close>.\<close>

definition actor_new ::
  "'w env \<Rightarrow> host \<Rightarrow> key \<Rightarrow> region \<Rightarrow> server_config option \<Rightarrow> conn_info option \<Rightarrow> 'w \<Rightarrow> stop + 'w actor res" where
  "actor_new E H k region cfg srv w =
     (case host_setup E H k region (cfg \<noteq> None) of
        Inl e \<Rightarrow> Inr (Inl e)
      | Inr (eps, has6) \<Rightarrow>
          (let s = initial_actor E H k region cfg srv eps has6 w
           in case srv of
                None \<Rightarrow> Inr (Ok s)
              | Some info \<Rightarrow>
                  (case server_disco_public info of
                     None \<Rightarrow> Inl Panic
                   | Some disco \<Rightarrow> Inr (Ok (add_peer E (server_public info) disco s)))))"

definition actor_start ::
  "'w env \<Rightarrow> host \<Rightarrow> key \<Rightarrow> region \<Rightarrow> server_config option \<Rightarrow> conn_info option \<Rightarrow> 'w \<Rightarrow> stop + 'w actor res" where
  "actor_start E H k region cfg srv w =
     map_sum (\<lambda>p. p) (map_sum (\<lambda>e. e) send_stun) (actor_new E H k region cfg srv w)"

definition ref_host :: host where
  "ref_host =
     \<lparr>relay_connect = (\<lambda>_ _ _. Ok ()), bind_udp4 = Ok 40000, receive_buffer = (\<lambda>_. Ok 1048576),
      set_receive_buffer = (\<lambda>_ _. Ok ()), bind_udp6 = (\<lambda>_. True), get_if_addrs = None,
      default_route = (\<lambda>_. Ok ()), host_txid = zeros, host_now = secs 100\<rparr>"

section \<open>The server\<close>

text \<open>\<open>raw\<close> is the randomness of a generated key and \<open>rnd\<close> that of a generated pre-shared key.\<close>

definition server_key :: "server_config \<Rightarrow> key \<Rightarrow> key" where
  "server_key cfg raw = (case cfg_key cfg of Some k \<Rightarrow> k | None \<Rightarrow> private_key_new raw)"

definition server_psk :: "server_config \<Rightarrow> key \<Rightarrow> key option" where
  "server_psk cfg rnd =
     (if disable_preshared_key cfg then None
      else Some (case nonzero (cfg_preshared_key cfg) of Some k \<Rightarrow> k | None \<Rightarrow> rnd))"

definition server_info :: "crypto \<Rightarrow> key \<Rightarrow> key option \<Rightarrow> server_config \<Rightarrow> conn_info" where
  "server_info C k p cfg =
     \<lparr>server_public = public C k, server_disco_public = Some (disco_public C k), preshared_key = p,
      regions = (case cfg_region cfg of Some r \<Rightarrow> [r] | None \<Rightarrow> []),
      ci_region_id = (if cfg_region_id cfg = 0 then -1 else cfg_region_id cfg)\<rparr>"

definition server_start ::
  "'w env \<Rightarrow> host \<Rightarrow> (conn_info \<Rightarrow> conn_info res) \<Rightarrow> key \<Rightarrow> key \<Rightarrow> server_config \<Rightarrow> 'w \<Rightarrow>
   stop + ('w actor \<times> conn_info) res" where
  "server_start E H ex raw rnd cfg w =
     (let k = server_key cfg raw;
          p = server_psk cfg rnd;
          cfg = cfg\<lparr>cfg_preshared_key := p\<rparr>
      in case and_then (ex (server_info (crypto_lib E) k p cfg)) (\<lambda>info.
              case regions info of [] \<Rightarrow> Err ''server has no DERP region'' | r # _ \<Rightarrow> Ok (info, r)) of
           Inl e \<Rightarrow> Inr (Inl e)
         | Inr (info, r) \<Rightarrow>
             map_sum (\<lambda>p. p) (map_sum (\<lambda>e. e) (\<lambda>s. (s, info)))
               (actor_start E H k r (Some (cfg\<lparr>cfg_region := Some r\<rparr>)) None w))"

text \<open>\<open>tailcat_addr\<close> and \<open>addr\<close>.\<close>

definition tailcat_addr :: "addr_crates \<Rightarrow> conn_info \<Rightarrow> string res" where
  "tailcat_addr A info = encode_addr A info"

definition server_addr :: "conn_info \<Rightarrow> ipv6" where
  "server_addr info = tc_addr_for_key (server_public info)"

section \<open>The client\<close>

text \<open>What \<open>connect\<close> makes of the address before it starts an actor.\<close>

definition single_region :: "conn_info \<Rightarrow> (conn_info \<times> region) res" where
  "single_region info =
     (case regions info of
        [r] \<Rightarrow>
          if server_public info = zeros then Err ''tailcat address has a zero server public key''
          else Ok (info, r)
      | _ \<Rightarrow> Err ''tailcat address must specify exactly one DERP region'')"

definition client_info :: "addr_crates \<Rightarrow> (conn_info \<Rightarrow> conn_info res) \<Rightarrow> string \<Rightarrow> (conn_info \<times> region) res" where
  "client_info A ex addr =
     and_then (parse_addr A addr) (\<lambda>info.
     if nonzero (server_disco_public info) = None
     then Err ''legacy tailcat address lacks a separate disco key; generate a new address with an updated tailcat server''
     else and_then (ex info) single_region)"

record client =
  client_key :: key
  client_server :: ipv6

definition client_connect ::
  "'w env \<Rightarrow> host \<Rightarrow> addr_crates \<Rightarrow> (conn_info \<Rightarrow> conn_info res) \<Rightarrow> key \<Rightarrow> key option \<Rightarrow> string \<Rightarrow> 'w \<Rightarrow>
   stop + (client \<times> 'w actor) res" where
  "client_connect E H A ex raw k addr w =
     (case client_info A ex addr of
        Inl e \<Rightarrow> Inr (Inl e)
      | Inr (info, r) \<Rightarrow>
          (let k = (case k of Some k \<Rightarrow> k | None \<Rightarrow> private_key_new raw)
           in map_sum (\<lambda>p. p) (map_sum (\<lambda>e. e)
                (\<lambda>s. (\<lparr>client_key = public (crypto_lib E) k, client_server = tc_addr_for_key (server_public info)\<rparr>, s)))
                (actor_start E H k r None (Some info) w)))"

section \<open>The handles\<close>

text \<open>
  A request sends a command to the task and awaits a one-shot answer; the flag \<open>sent_ok\<close> says whether
  the task still takes commands.
\<close>

datatype 'a answer = Answered 'a | Dropped | TimedOut

definition handle_status :: "bool \<Rightarrow> runtime_status answer \<Rightarrow> runtime_status res" where
  "handle_status sent_ok a =
     (if \<not> sent_ok then Err ''tailcat is closed''
      else case a of Answered st \<Rightarrow> Ok st | _ \<Rightarrow> Err ''tailcat closed before providing status'')"

definition handle_drain :: "bool \<Rightarrow> unit answer \<Rightarrow> unit res" where
  "handle_drain sent_ok a =
     (if \<not> sent_ok then Err ''tailcat is closed''
      else case a of Answered _ \<Rightarrow> Ok () | Dropped \<Rightarrow> Err ''channel closed'' | TimedOut \<Rightarrow> Err ''timed out draining TCP'')"

text \<open>The command of each request, or the error that keeps it from being sent.\<close>

definition listen_command :: "string \<Rightarrow> u16 \<Rightarrow> chan \<Rightarrow> command res" where
  "listen_command network port result =
     (if network = ''tcp'' then Ok (CmdListen False port result)
      else if network = ''udp'' then Ok (CmdListen True port result)
      else Err ''network must be tcp or udp'')"

definition dial_udp_command :: "sock_addr \<Rightarrow> chan \<Rightarrow> command res" where
  "dial_udp_command target result =
     (if snd target = 0 then Err ''UDP port must be nonzero'' else Ok (CmdDialUdp (to_ipv6 target) result))"

definition dial_udp_port :: "client \<Rightarrow> u16 \<Rightarrow> chan \<Rightarrow> command res" where
  "dial_udp_port c port result = dial_udp_command (V6 (client_server c), port) result"

definition dial_tcp_command :: "sock_addr \<Rightarrow> chan \<Rightarrow> command" where
  "dial_tcp_command addr result = CmdDial (to_ipv6 addr) result"

definition dial_tcp_port :: "client \<Rightarrow> u16 \<Rightarrow> chan \<Rightarrow> command" where
  "dial_tcp_port c port result = dial_tcp_command (V6 (client_server c), port) result"

text \<open>The answers of \<open>dial_tcp\<close>, of \<open>do_ping\<close> and of \<open>ping\<close>.\<close>

definition dial_tcp_answer :: "bool \<Rightarrow> chan res answer \<Rightarrow> chan res" where
  "dial_tcp_answer sent_ok a =
     (if \<not> sent_ok then Err ''client is closed''
      else case a of Answered r \<Rightarrow> r | Dropped \<Rightarrow> Err ''channel closed'' | TimedOut \<Rightarrow> Err ''TCP connection timed out'')"

definition do_ping :: "bool \<Rightarrow> ping_answer res answer \<Rightarrow> ping_answer res" where
  "do_ping sent_ok a =
     (if \<not> sent_ok then Err ''client is closed''
      else case a of Answered r \<Rightarrow> r | Dropped \<Rightarrow> Err ''channel closed'' | TimedOut \<Rightarrow> Err ''ping timed out'')"

definition client_ping :: "bool \<Rightarrow> ping_answer res answer \<Rightarrow> instant res" where
  "client_ping sent_ok a = and_then (do_ping sent_ok a) (\<lambda>r. Ok (latency r))"

section \<open>The state an actor starts in\<close>

lemma actor_inv_initial:
  "well_kept eps \<Longrightarrow> (\<forall>k. map_option server_public srv = Some k \<longrightarrow> False) \<Longrightarrow>
   actor_inv (initial_actor E H k region cfg srv eps has6 w)"
  by (cases srv) (auto simp: actor_inv_def initial_actor_def peers_ok_def probes_ok_def flows_ok_def)

lemma actor_inv_send_stun [simp]: "actor_inv (send_stun s) = actor_inv s"
  by (simp add: send_stun_def)

lemma host_setup_kept: "host_setup E H k region b = Ok (eps, has6) \<Longrightarrow> well_kept eps"
  by (auto simp: host_setup_def Let_def result_simps split: option.splits)

lemma actor_newE:
  assumes "actor_new E H k region cfg srv w = Inr (Ok s)"
  obtains eps has6 where "well_kept eps"
    "s = (case srv of None \<Rightarrow> initial_actor E H k region cfg srv eps has6 w
          | Some info \<Rightarrow> add_peer E (server_public info) (the (server_disco_public info))
              (initial_actor E H k region cfg srv eps has6 w))"
    "\<forall>info. srv = Some info \<longrightarrow> server_disco_public info \<noteq> None"
proof -
  obtain eps has6 where h: "host_setup E H k region (cfg \<noteq> None) = Ok (eps, has6)"
    using assms by (auto simp: actor_new_def split: sum.splits)
  show thesis
    by (rule that [OF host_setup_kept [OF h], of has6])
      (use assms h in \<open>auto simp: actor_new_def Let_def split: option.splits\<close>)
qed

lemma actor_new_no_panic:
  "\<forall>info. srv = Some info \<longrightarrow> server_disco_public info \<noteq> None \<Longrightarrow>
   \<exists>r. actor_new E H k region cfg srv w = Inr r"
  by (auto simp: actor_new_def Let_def split: sum.splits option.splits)

lemma actor_startE:
  assumes "actor_start E H k region cfg srv w = Inr (Ok t)"
  obtains s where "actor_new E H k region cfg srv w = Inr (Ok s)" "t = send_stun s"
  using assms by (cases "actor_new E H k region cfg srv w") (auto simp: actor_start_def map_sum_def split: sum.splits)

lemma server_startE:
  assumes "server_start E H ex raw rnd cfg w = Inr (Ok (t, info))"
  obtains r rs s where
    "ex (server_info (crypto_lib E) (server_key cfg raw) (server_psk cfg rnd) (cfg\<lparr>cfg_preshared_key := server_psk cfg rnd\<rparr>)) =
       Ok info"
    "regions info = r # rs" "t = send_stun s"
    "actor_new E H (server_key cfg raw) r
       (Some (cfg\<lparr>cfg_preshared_key := server_psk cfg rnd, cfg_region := Some r\<rparr>)) None w = Inr (Ok s)"
proof -
  let ?cfg = "cfg\<lparr>cfg_preshared_key := server_psk cfg rnd\<rparr>"
  obtain r where r: "and_then (ex (server_info (crypto_lib E) (server_key cfg raw) (server_psk cfg rnd) ?cfg))
      (\<lambda>info. case regions info of [] \<Rightarrow> Err ''server has no DERP region'' | r # _ \<Rightarrow> Ok (info, r)) = Ok (info, r)"
    and st: "actor_start E H (server_key cfg raw) r (Some (?cfg\<lparr>cfg_region := Some r\<rparr>)) None w = Inr (Ok t)"
    using assms by (auto simp: server_start_def Let_def map_sum_def split: sum.splits)
  from st obtain s where s: "actor_new E H (server_key cfg raw) r (Some (?cfg\<lparr>cfg_region := Some r\<rparr>)) None w = Inr (Ok s)"
    "t = send_stun s"
    by (rule actor_startE)
  from r obtain rs where "ex (server_info (crypto_lib E) (server_key cfg raw) (server_psk cfg rnd) ?cfg) = Ok info"
    "regions info = r # rs"
  proof -
    obtain i where "ex (server_info (crypto_lib E) (server_key cfg raw) (server_psk cfg rnd) ?cfg) = Ok i"
      "(case regions i of [] \<Rightarrow> Err ''server has no DERP region'' | r # _ \<Rightarrow> Ok (i, r)) = Ok (info, r)"
      using r unfolding and_then_Inr_iff by blast
    then show thesis using that by (cases "regions i") auto
  qed
  with s show thesis by (intro that) simp_all
qed

lemma single_regionE:
  assumes "single_region i = Ok (info, r)"
  obtains "i = info" "regions info = [r]" "server_public info \<noteq> zeros"
proof -
  from assms obtain r' where "regions i = [r']"
    by (cases "regions i"; cases "tl (regions i)") (auto simp: single_region_def)
  with assms show thesis by (intro that) (auto simp: single_region_def split: if_split_asm)
qed

lemma client_infoE:
  assumes "client_info A ex addr = Ok (info, r)"
  obtains info0 where "parse_addr A addr = Ok info0" "nonzero (server_disco_public info0) \<noteq> None" "ex info0 = Ok info"
    "regions info = [r]" "server_public info \<noteq> zeros"
  using assms by (auto simp: client_info_def result_simps split: if_split_asm elim!: single_regionE)

lemma client_connectE:
  assumes "client_connect E H A ex raw k addr w = Inr (Ok (c, t))"
  obtains info r s where "client_info A ex addr = Ok (info, r)"
    "c = \<lparr>client_key = public (crypto_lib E) (case k of Some k \<Rightarrow> k | None \<Rightarrow> private_key_new raw),
          client_server = tc_addr_for_key (server_public info)\<rparr>"
    "actor_new E H (case k of Some k \<Rightarrow> k | None \<Rightarrow> private_key_new raw) r None (Some info) w = Inr (Ok s)" "t = send_stun s"
proof -
  obtain info r where i: "client_info A ex addr = Ok (info, r)"
    using assms by (auto simp: client_connect_def split: sum.splits)
  let ?k = "case k of Some k \<Rightarrow> k | None \<Rightarrow> private_key_new raw"
  have "actor_start E H ?k r None (Some info) w = Inr (Ok t)"
    and c: "c = \<lparr>client_key = public (crypto_lib E) ?k, client_server = tc_addr_for_key (server_public info)\<rparr>"
    using assms i by (auto simp: client_connect_def Let_def map_sum_def split: sum.splits)
  from this(1) obtain s where "actor_new E H ?k r None (Some info) w = Inr (Ok s)" "t = send_stun s"
    by (rule actor_startE)
  with i c show thesis by (rule that)
qed

text \<open>Expansion leaves the keys alone.\<close>

lemma expand_keys:
  "expand fetched shuffle best pick ci = Ok ci' \<Longrightarrow>
     server_public ci' = server_public ci \<and> server_disco_public ci' = server_disco_public ci \<and>
     preshared_key ci' = preshared_key ci"
  by (auto simp: expand_def Let_def result_simps split: if_splits)

lemma expand_with_regions:
  "regions ci \<noteq> [] \<Longrightarrow> expand fetched shuffle best pick ci = Ok (ci\<lparr>regions := map default_region_ids (regions ci)\<rparr>)"
  by (simp add: expand_def Let_def)

lemma expand_one_region:
  "expand fetched shuffle best pick ci = Ok ci' \<Longrightarrow> length (regions ci) \<le> 1 \<Longrightarrow> ci_region_id ci \<noteq> 0 \<Longrightarrow>
   length (regions ci') = 1"
  by (cases "regions ci = []") (auto simp: expand_def Let_def result_simps le_Suc_eq split: if_splits)

lemma actor_start_no_panic:
  assumes "\<forall>info. srv = Some info \<longrightarrow> server_disco_public info \<noteq> None"
  shows "\<exists>r. actor_start E H k region cfg srv w = Inr r"
  using actor_new_no_panic [OF assms, of E H k region cfg w] by (auto simp: actor_start_def)

lemma start_server_returns: "\<exists>r. map_sum (\<lambda>p. p) f (actor_start E H k region cfg None w) = Inr r"
proof -
  obtain r where "actor_start E H k region cfg None w = Inr r"
    using actor_start_no_panic [of None E H k region cfg w] by auto
  then show ?thesis by simp
qed

lemma nonzero_not_None: "nonzero v \<noteq> None \<longleftrightarrow> v \<noteq> None \<and> v \<noteq> Some zeros"
  by (cases v) auto

lemma send_stun_frame [simp]:
  "peers (send_stun s) = peers s" "server (send_stun s) = server s" "config (send_stun s) = config s"
  "psk (send_stun s) = psk s" "own_key (send_stun s) = own_key s" "own_region (send_stun s) = own_region s"
  "local_ip (send_stun s) = local_ip s" "links (send_stun s) = links s"
  by (simp_all add: send_stun_def emit_def)

lemma client_start_state:
  assumes "client_connect E H A (expand fetched shuffle best pick) raw k addr w = Inr (Ok (c, t))"
  shows "actor_inv t \<and> config t = None \<and>
    (\<exists>info d. parse_addr A addr = Ok info \<and> server_disco_public info = Some d \<and>
       server t = Some (server_public info) \<and> psk t = preshared_key info \<and>
       map (\<lambda>(k, p). (k, disco_key p)) (peers t) = [(server_public info, d)] \<and>
       server_public info \<noteq> zeros \<and> d \<noteq> zeros \<and> client_server c = tc_addr_for_key (server_public info))"
proof -
  let ?k = "case k of Some k \<Rightarrow> k | None \<Rightarrow> private_key_new raw"
  from assms obtain info r s where i: "client_info A (expand fetched shuffle best pick) addr = Ok (info, r)"
    and c: "c = \<lparr>client_key = public (crypto_lib E) ?k, client_server = tc_addr_for_key (server_public info)\<rparr>"
    and s: "actor_new E H ?k r None (Some info) w = Inr (Ok s)" and t: "t = send_stun s"
    by (rule client_connectE)
  from i obtain info0 where p: "parse_addr A addr = Ok info0" "nonzero (server_disco_public info0) \<noteq> None"
    and x: "expand fetched shuffle best pick info0 = Ok info" and nz: "server_public info \<noteq> zeros"
    by (rule client_infoE)
  note same = expand_keys [OF x]
  obtain d where d: "server_disco_public info0 = Some d" "d \<noteq> zeros"
    using p(2) unfolding nonzero_not_None by auto
  from s obtain eps h where w: "well_kept eps"
    and a: "s = add_peer E (server_public info) d (initial_actor E H ?k r None (Some info) eps h w)"
    by (rule actor_newE) (use same d in simp)
  have peers: "peers s = [(server_public info, \<lparr>peer_key = server_public info, disco_key = d, direct = None, candidates = []\<rparr>)]"
    using nz d by (simp add: a add_peer_def initial_actor_def max_peers_def)
  have rest: "server s = Some (server_public info)" "config s = None" "psk s = preshared_key info"
    "probes s = []" "udp_flows s = []" "links s = []" "pings s = []" "endpoints s = eps"
    using nz d by (simp_all add: a add_peer_def initial_actor_def initial_psk_def max_peers_def)
  have "actor_inv s"
    using w nz d by (auto simp: actor_inv_def peers rest peers_ok_def peer_ok_def probes_ok_def flows_ok_def max_peers_def)
  then show ?thesis using p(1) d nz same by (simp add: t c peers rest)
qed

section \<open>Links of a dialed target\<close>

lemma links_fold: "(\<And>x t. links (f x t) = links t) \<Longrightarrow> links (fold f xs s) = links s"
  by (induction xs arbitrary: s) simp_all

lemma links_probe [simp]: "links (probe E k ep s) = links s"
  by (auto simp: probe_def draw_txid_def seal_to_def send_udp_def emit_def split: prod.splits option.splits sum.splits)

lemma links_advertise [simp]: "links (advertise E s) = links s"
proof -
  have "links (advertise_to E payload k t) = links t" for payload k t
    by (auto simp: advertise_to_def seal_to_def relay_send_def emit_def Let_def links_fold
        split: prod.splits option.splits sum.splits)
  then show ?thesis by (simp add: advertise_def Let_def links_fold)
qed

section \<open>Properties\<close>



text \<open>
  C8. A client that connects to the address a server gives out agrees with that server: it holds the
  server's node key and disco key, the same pre-shared key, and one region with the server's relay
  nodes, in order, each with its host, ports, certificate and addresses.
\<close>

theorem server_client_agree:
  assumes "b64_law A" "cbor_law A (addr_value info)"
    and "server_start E H (expand fetched shuffle best pick) raw rnd cfg w = Inr (Ok (s, info))"
    and "tailcat_addr A info = Ok addr" "length addr \<le> max_address_bytes * 4 div 3 + 6"
    and "public (crypto_lib E) (own_key s) \<noteq> zeros" "disco_public (crypto_lib E) (own_key s) \<noteq> zeros" "rnd \<noteq> zeros"
  shows "\<exists>info' r. client_info A (expand fetched' shuffle' best' pick') addr = Ok (info', r) \<and>
    server_public info' = public (crypto_lib E) (own_key s) \<and>
    server_disco_public info' = Some (disco_public (crypto_lib E) (own_key s)) \<and>
    preshared_key info' = psk s \<and>
    map (\<lambda>n. (host_name n, derp_port n, stun_port n, cert_name n, node_ipv4 n, node_ipv6 n)) (nodes r) =
    map (\<lambda>n. (host_name n, derp_port n, stun_port n, cert_name n, node_ipv4 n, node_ipv6 n))
      (filter (\<lambda>n. \<not> stun_only n) (nodes (own_region s)))"
proof -
  let ?C = "crypto_lib E" and ?k = "server_key cfg raw"
  from assms(3) obtain reg rs v
    where x: "expand fetched shuffle best pick (server_info ?C ?k (server_psk cfg rnd)
        (cfg\<lparr>cfg_preshared_key := server_psk cfg rnd\<rparr>)) = Ok info"
      and rs: "regions info = reg # rs" and s: "s = send_stun v"
      and v: "actor_new E H ?k reg (Some (cfg\<lparr>cfg_preshared_key := server_psk cfg rnd, cfg_region := Some reg\<rparr>)) None w =
        Inr (Ok v)"
    by (rule server_startE)
  from v have st: "own_key s = ?k" "psk s = server_psk cfg rnd" "own_region s = reg"
    by (rule actor_newE, simp add: s initial_actor_def initial_psk_def split: option.split)+
  have one: "rs = []"
    using expand_one_region [OF x] rs by (auto simp: server_info_def split: option.splits)
  have pz: "nonzero (server_psk cfg rnd) = server_psk cfg rnd"
    using assms(8) by (auto simp: server_psk_def nonzero_def split: option.splits)
  have keys: "server_public info = public ?C ?k" "server_disco_public info = Some (disco_public ?C ?k)"
    "preshared_key info = server_psk cfg rnd"
    using expand_keys [OF x] by (simp_all add: server_info_def)
  have p: "parse_addr A addr = Ok (canon info)"
    using parse_encoded_addr [OF assms(1,2)] assms(4,5) by (simp add: tailcat_addr_def)
  define r where "r = default_region_ids (canon_region 0 reg)"
  have c: "regions (canon info) = [canon_region 0 reg]" by (simp add: canon_def rs one)
  have "client_info A (expand fetched' shuffle' best' pick') addr = Ok ((canon info)\<lparr>regions := [r]\<rparr>, r)"
    using assms(6,7) by (simp add: client_info_def p c expand_with_regions single_region_def canon_def keys st rs one flip: r_def)
  moreover have "map (\<lambda>n. (host_name n, derp_port n, stun_port n, cert_name n, node_ipv4 n, node_ipv6 n)) (nodes r) =
      map (\<lambda>n. (host_name n, derp_port n, stun_port n, cert_name n, node_ipv4 n, node_ipv6 n))
        (filter (\<lambda>n. \<not> stun_only n) (nodes reg))"
    by (simp add: r_def default_region_ids_def canon_region_def canon_node_def Let_def comp_def)
  ultimately show ?thesis
    using assms(7) pz keys st by (intro exI [of _ "(canon info)\<lparr>regions := [r]\<rparr>"] exI [of _ r]) (simp add: canon_def keys st)
qed

theorem server_client_agree_witness:
  "\<exists>A addr s info r. client_info A (expand (Err ''offline'') (\<lambda>ns. ns) (\<lambda>_. None) (\<lambda>_. 0)) addr = Ok (info, r) \<and>
     preshared_key info = psk (s :: unit actor) \<and> psk s = Some ref_key"
proof -
  let ?cfg = "ref_config\<lparr>cfg_region := Some (own_region ref_actor)\<rparr>"
  let ?ex = "expand (Err ''offline'') (\<lambda>ns. ns) (\<lambda>_. None) (\<lambda>_. 0)"
  have "\<exists>s info. server_start ref_env ref_host ?ex zeros ref_key ?cfg () = Inr (Ok (s, info)) \<and>
      psk s = Some ref_key \<and> crypto_lib ref_env = ref_crypto"
    by (simp add: server_start_def server_info_def ref_actor_def actor_start_def actor_new_def host_setup_def
        open_sockets_def configure_udp_receive_buffer_def ref_host_def ref_config_def expand_def Let_def
        initial_actor_def initial_psk_def server_psk_def ref_env_def)
  then obtain s info where s: "server_start ref_env ref_host ?ex zeros ref_key ?cfg () = Inr (Ok (s, info))"
    and psk: "psk s = Some ref_key" and C: "crypto_lib ref_env = ref_crypto" by blast
  let ?A = "ref_addr_crates (addr_value info)"
  have a: "tailcat_addr ?A info = Ok (''tc'' @ ref_hex_encode [0xa1])"
    by (simp add: tailcat_addr_def encode_addr_def ref_addr_crates_def)
  have len: "length (''tc'' @ ref_hex_encode [0xa1]) \<le> max_address_bytes * 4 div 3 + 6"
    by (simp add: ref_hex_encode_def max_address_bytes_def)
  have nz: "public (crypto_lib ref_env) k \<noteq> zeros" "disco_public (crypto_lib ref_env) k \<noteq> zeros" for k
    by (simp_all add: C public_def disco_public_def) (simp_all add: ref_crypto_def)
  have "\<exists>info' r. client_info ?A ?ex (''tc'' @ ref_hex_encode [0xa1]) = Ok (info', r) \<and> preshared_key info' = psk s"
    using server_client_agree [OF ref_addr_laws s a len nz ref_key_not_zeros] by blast
  with psk show ?thesis by blast
qed

text \<open>
  The target a client dials is the target the server forwards to: the link that dialing an address
  adds goes to an address which, when the connection attempt for it reaches a server that is not that
  address, is handed to the server's forward handler as exactly the address that was dialed, for every
  IPv4 address and every IPv6 address outside the NAT64 prefix.
\<close>

theorem dialed_target_preserved:
  assumes "l \<in> set (links (command E (dial_tcp_command addr result) s)) - set (links s)"
    and "fst (snd (link_flow l)) \<noteq> local_ip u"
    and "case fst addr of V4 _ \<Rightarrow> True | V6 x \<Rightarrow> unmap_nat64 x = V6 x"
  shows "fst (link_flow l) = (local_ip s, next_port s) \<and>
    syn_handler E' cfg (fst (snd (link_flow l))) (snd (snd (link_flow l))) u =
      map_option Service (Option.bind (on_tcp_forward cfg) (\<lambda>f. f addr))"
proof -
  obtain ip port where addr: "addr = (ip, port)" by (cases addr)
  have l: "link_flow l = ((local_ip s, next_port s), (nat64_addr ip, port))"
    using assms(1)
    by (auto simp: dial_tcp_command_def cmd_dial_def Let_def emit_def addr to_ipv6_eq split: if_splits sum.splits prod.splits)
  have "from_ipv6 (V6 (nat64_addr ip), port) = addr"
    using assms(3) by (cases ip) (simp_all add: addr from_ipv6_eq del: nat64_addr.simps(2))
  with assms(2) show ?thesis by (simp add: l syn_handler_def)
qed

theorem dialed_target_preserved_witness:
  "\<exists>l. links (command ref_env (dial_tcp_command (V4 (arr [10, 0, 0, 1]), 80) 5) ref_actor) = [l] \<and>
     syn_handler ref_env (ref_config\<lparr>on_tcp_forward := Some (\<lambda>a. if a = (V4 (arr [10, 0, 0, 1]), 80) then Some 1 else None)\<rparr>)
       (fst (snd (link_flow l))) (snd (snd (link_flow l))) ref_actor = Some (Service 1)"
proof -
  let ?a = "(V4 (arr [10, 0, 0, 1]), 80) :: sock_addr"
  let ?t = "command ref_env (dial_tcp_command ?a 5) ref_actor"
  have "\<exists>l. links ?t = [l] \<and> link_flow l = ((local_ip ref_actor, 32768), (nat64_addr (V4 (arr [10, 0, 0, 1])), 80))"
    by (simp add: dial_tcp_command_def cmd_dial_def to_ipv6_eq ref_env_def Let_def max_connections_def del: nat64_addr.simps)
      (simp add: ref_actor_def)
  then obtain l where l: "links ?t = [l]"
    and fl: "link_flow l = ((local_ip ref_actor, 32768), (nat64_addr (V4 (arr [10, 0, 0, 1])), 80))" by blast
  have new: "l \<in> set (links ?t) - set (links ref_actor)" by (simp add: l) (simp add: ref_actor_def)
  have "octets (nat64_addr (V4 (arr [10, 0, 0, 1]))) \<noteq> octets (local_ip ref_actor)"
    by (simp add: ref_actor_def nat64_prefix_def tc_prefix_def)
  then have "nat64_addr (V4 (arr [10, 0, 0, 1])) \<noteq> local_ip ref_actor" by metis
  then have ne: "fst (snd (link_flow l)) \<noteq> local_ip ref_actor" by (simp only: fl fst_conv snd_conv not_False_eq_True)
  from dialed_target_preserved [OF new ne, of ref_env "ref_config\<lparr>on_tcp_forward := Some (\<lambda>a. if a = ?a then Some 1 else None)\<rparr>"] l
  show ?thesis by simp
qed

end
