(* ===== verification/Paths.thy ===== *)
theory Paths
  imports Prelude
begin

text \<open>
  Unix paths as \<open>std::path\<close> sees them, and the path functions of \<open>src/services/files.rs\<close>: the
  cleaning of a virtual path (\<open>relative\<close>), the cleaning of an ambient one (\<open>clean_path\<close>) and the
  randomised sibling of a name (\<open>unique_path\<close>). A \<open>PathBuf\<close> is the string it holds.
\<close>

section \<open>Components\<close>

datatype component = RootDir | CurDir | ParentDir | Normal string

definition component_of :: "string \<Rightarrow> component" where
  "component_of p = (if p = ''..'' then ParentDir else Normal p)"

text \<open>\<open>Path::components\<close>: empty parts and dots go, except a dot at the very beginning.\<close>

definition components :: "string \<Rightarrow> component list" where
  "components path =
     (let parts = split_on CHR ''/'' path;
          rest = map component_of (filter (\<lambda>p. p \<noteq> [] \<and> p \<noteq> ''.'') parts)
      in if starts_with path ''/'' then RootDir # rest
         else if hd parts = ''.'' then CurDir # rest
         else rest)"

definition is_absolute :: "string \<Rightarrow> bool" where
  "is_absolute path = starts_with path ''/''"

text \<open>\<open>PathBuf::push\<close> and \<open>Path::join\<close>.\<close>

definition push :: "string \<Rightarrow> string \<Rightarrow> string" where
  "push path p =
     (if is_absolute p then p
      else if path = [] \<or> ends_with path ''/'' then path @ p
      else path @ ''/'' @ p)"

text \<open>\<open>Path::file_name\<close>: the last component, if it is a name.\<close>

definition file_name :: "string \<Rightarrow> string option" where
  "file_name path =
     (case rev (components path) of Normal n # _ \<Rightarrow> Some n | _ \<Rightarrow> None)"

text \<open>The components before the last, put together again (\<open>Path::parent\<close>).\<close>

fun component_text :: "component \<Rightarrow> string" where
  "component_text RootDir = ''/''"
| "component_text CurDir = ''.''"
| "component_text ParentDir = ''..''"
| "component_text (Normal n) = n"

definition from_components :: "component list \<Rightarrow> string" where
  "from_components cs = foldl push [] (map component_text cs)"

definition with_file_name :: "string \<Rightarrow> string \<Rightarrow> string" where
  "with_file_name path name =
     (if file_name path = None then push path name
      else push (from_components (butlast (components path))) name)"

section \<open>The paths of the file service\<close>

datatype status_code = Eof | NoSuchFile | PermissionDenied | Failure | BadMessage | OpUnsupported

type_synonym 'a fx = "status_code + 'a"

text \<open>The loop over the parts: \<open>acc\<close> is the stack, newest first.\<close>

fun clean_parts :: "string list \<Rightarrow> string list \<Rightarrow> string list" where
  "clean_parts acc [] = rev acc"
| "clean_parts acc (p # ps) =
     (if p = [] \<or> p = ''.'' then clean_parts acc ps
      else if p = ''..'' then clean_parts (tl acc) ps
      else clean_parts (p # acc) ps)"

text \<open>\<open>parts.iter().collect::<PathBuf>()\<close>.\<close>

definition collect_path :: "string list \<Rightarrow> string" where
  "collect_path parts = foldl push [] parts"

definition relative :: "string \<Rightarrow> string fx" where
  "relative path =
     (if CHR 0x00 \<in> set path then Inl BadMessage
      else let parts = clean_parts [] (split_on CHR ''/'' path)
           in Inr (if parts = [] then ''.'' else collect_path parts))"

text \<open>
  \<open>clean_path\<close>: the result as its components, \<open>pop\<close> removes a name and leaves a root or nothing as
  it is.
\<close>

fun clean_components :: "component list \<Rightarrow> component list \<Rightarrow> component list" where
  "clean_components acc [] = rev acc"
| "clean_components acc (CurDir # cs) = clean_components acc cs"
| "clean_components acc (ParentDir # cs) =
     clean_components (case acc of [] \<Rightarrow> [] | RootDir # _ \<Rightarrow> acc | _ # acc' \<Rightarrow> acc') cs"
| "clean_components acc (c # cs) = clean_components (c # acc) cs"

definition clean_path :: "string \<Rightarrow> string" where
  "clean_path path = from_components (clean_components [] (components path))"

text \<open>\<open>{:016x}\<close> of a \<open>u64\<close>.\<close>

definition hex_char :: "nat \<Rightarrow> char" where
  "hex_char d = char_of (if d < 10 then 48 + d else 87 + d)"

definition hex16 :: "u64 \<Rightarrow> string" where
  "hex16 w = map (\<lambda>i. hex_char (unat (drop_bit (4 * i) w AND 0xF))) (rev [0..<16])"

text \<open>\<open>now\<close> is the time in the format of the code and \<open>rnd\<close> the random number.\<close>

definition unique_path :: "string \<Rightarrow> u64 \<Rightarrow> string \<Rightarrow> string" where
  "unique_path now rnd path =
     (let base = (case file_name path of Some n \<Rightarrow> n | None \<Rightarrow> []);
          (stem, ext) = (case rsplit_once CHR ''.'' base of
             Some (l, r) \<Rightarrow> (l, CHR ''.'' # r) | None \<Rightarrow> (base, []))
      in with_file_name path (stem @ ''.'' @ now @ ''.'' @ hex16 rnd @ ext))"

section \<open>Confined paths\<close>

text \<open>A plain name, and a path made of plain names only (or the root itself).\<close>

definition plain :: "string \<Rightarrow> bool" where
  "plain p \<longleftrightarrow> p \<noteq> [] \<and> p \<noteq> ''.'' \<and> p \<noteq> ''..'' \<and> CHR ''/'' \<notin> set p \<and> CHR 0x00 \<notin> set p"

definition confined :: "string \<Rightarrow> bool" where
  "confined path \<longleftrightarrow>
     \<not> is_absolute path \<and> ParentDir \<notin> set (components path) \<and> RootDir \<notin> set (components path) \<and>
     CHR 0x00 \<notin> set path"

fun join_parts :: "string list \<Rightarrow> string" where
  "join_parts [] = []"
| "join_parts [p] = p"
| "join_parts (p # q # ps) = p @ CHR ''/'' # join_parts (q # ps)"

lemma join_parts_Cons: "ps \<noteq> [] \<Longrightarrow> join_parts (p # ps) = p @ CHR ''/'' # join_parts ps"
  by (cases ps) auto

lemma join_parts_snoc: "ps \<noteq> [] \<Longrightarrow> join_parts (ps @ [p]) = join_parts ps @ CHR ''/'' # p"
  by (induction ps rule: join_parts.induct) (auto simp: join_parts_Cons)

lemma split_join_parts:
  "ps \<noteq> [] \<Longrightarrow> list_all (\<lambda>p. CHR ''/'' \<notin> set p) ps \<Longrightarrow> split_on CHR ''/'' (join_parts ps) = ps"
  by (induction ps rule: join_parts.induct) (auto simp: split_on_id split_on_append)

lemma plain_simps: "plain p \<Longrightarrow> p \<noteq> []" "plain p \<Longrightarrow> CHR ''/'' \<notin> set p" "plain p \<Longrightarrow> CHR 0x00 \<notin> set p"
  by (simp_all add: plain_def)

lemma plain_not_absolute [simp]: "plain p \<Longrightarrow> \<not> is_absolute p"
  by (cases p) (auto simp: plain_def is_absolute_def starts_with_def)

lemma ends_with_single: "ends_with xs [c] \<longleftrightarrow> xs \<noteq> [] \<and> last xs = c"
  by (cases xs rule: rev_cases) (auto simp: ends_with_def)

lemma join_parts_last: "ps \<noteq> [] \<Longrightarrow> list_all plain ps \<Longrightarrow> join_parts ps \<noteq> [] \<and> last (join_parts ps) \<noteq> CHR ''/''"
proof (induction ps rule: join_parts.induct)
  case (2 p)
  then have "last p \<in> set p" by (simp add: plain_def)
  with 2 show ?case by (auto simp: plain_def simp del: last_in_set)
qed auto

lemma join_parts_end: "ps \<noteq> [] \<Longrightarrow> list_all plain ps \<Longrightarrow> \<not> ends_with (join_parts ps) ''/'' \<and> join_parts ps \<noteq> []"
  using join_parts_last by (auto simp: ends_with_single)

lemma collect_join: "list_all plain ps \<Longrightarrow> collect_path ps = join_parts ps"
proof (induction ps rule: rev_induct)
  case Nil
  then show ?case by (simp add: collect_path_def)
next
  case (snoc p ps)
  then show ?case
    using join_parts_end [of ps] by (cases "ps = []") (simp_all add: collect_path_def push_def join_parts_snoc)
qed

lemma clean_parts_plain:
  "list_all plain acc \<Longrightarrow> list_all (\<lambda>p. CHR ''/'' \<notin> set p \<and> CHR 0x00 \<notin> set p) ps \<Longrightarrow>
   list_all plain (clean_parts acc ps)"
proof (induction acc ps rule: clean_parts.induct)
  case (1 acc)
  then show ?case by simp
next
  case (2 acc p ps)
  have "list_all plain (tl acc)" using "2.prems" by (cases acc) auto
  moreover have "p \<noteq> [] \<Longrightarrow> p \<noteq> ''.'' \<Longrightarrow> p \<noteq> ''..'' \<Longrightarrow> plain p" using "2.prems" by (simp add: plain_def)
  ultimately show ?case using 2 by simp
qed

lemma clean_parts_id: "list_all plain ps \<Longrightarrow> clean_parts acc ps = rev acc @ ps"
  by (induction ps arbitrary: acc) (auto simp: plain_def)

lemma split_on_set: "p \<in> set (split_on c xs) \<Longrightarrow> set p \<subseteq> set xs"
proof (induction xs arbitrary: p)
  case (Cons x xs)
  then show ?case by (cases "split_on c xs") (fastforce split: if_splits)+
qed simp

text \<open>What \<open>relative\<close> gives is the root or plain names joined by slashes, whatever the input.\<close>

lemma relative_parts:
  assumes "relative path = Inr r"
  obtains (root) "r = ''.''" | (names) ps where "ps \<noteq> []" "list_all plain ps" "r = join_parts ps"
proof -
  let ?ps = "clean_parts [] (split_on CHR ''/'' path)"
  have n: "CHR 0x00 \<notin> set path" using assms by (auto simp: relative_def split: if_splits)
  have "list_all (\<lambda>p. CHR ''/'' \<notin> set p \<and> CHR 0x00 \<notin> set p) (split_on CHR ''/'' path)"
    using n split_on_set [of _ "CHR ''/''" path] by (auto simp: list_all_iff dest: split_on_no_sep)
  then have "list_all plain ?ps" by (rule clean_parts_plain [rotated]) simp
  then show thesis using assms n collect_join that
    by (cases "?ps = []") (auto simp: relative_def Let_def)
qed

lemma components_join:
  assumes "ps \<noteq> []" "list_all plain ps"
  shows "components (join_parts ps) = map Normal ps"
proof -
  have s: "split_on CHR ''/'' (join_parts ps) = ps"
    using assms by (intro split_join_parts) (auto simp: list_all_iff plain_def)
  have "\<not> starts_with (join_parts ps) ''/''"
    using assms plain_not_absolute by (cases ps rule: join_parts.cases)
      (auto simp: is_absolute_def starts_with_def plain_def Cons_eq_append_conv take_Suc split: nat.splits)
  moreover have "hd ps \<noteq> ''.''" using assms by (cases ps) (auto simp: plain_def)
  moreover have "filter (\<lambda>p. p \<noteq> [] \<and> p \<noteq> ''.'') ps = ps" "map component_of ps = map Normal ps"
    using assms(2) by (auto simp: list_all_iff plain_def component_of_def filter_id_conv)
  ultimately show ?thesis by (simp add: components_def s Let_def)
qed

lemma confined_join:
  assumes "ps \<noteq> []" "list_all plain ps"
  shows "confined (join_parts ps)"
proof -
  have "CHR 0x00 \<notin> set (join_parts ps)"
    using assms(2) by (induction ps rule: join_parts.induct) (auto simp: plain_def)
  moreover have "RootDir \<in> set (components p) \<longleftrightarrow> is_absolute p" for p
    by (auto simp: components_def is_absolute_def Let_def component_of_def split: if_splits)
  then have "\<not> is_absolute (join_parts ps)"
    using components_join [OF assms] by (metis component.distinct(5) imageE list.set_map)
  ultimately show ?thesis using components_join [OF assms] by (auto simp: confined_def)
qed

lemma confined_dot [simp]: "confined ''.''"
  by (simp add: confined_def components_def is_absolute_def starts_with_def)

lemma relative_confined: "relative path = Inr r \<Longrightarrow> confined r"
  by (erule relative_parts) (auto simp: confined_join)

lemma relative_idempotent:
  assumes "relative path = Inr r"
  shows "relative r = Inr r"
  using assms
proof (cases rule: relative_parts)
  case root
  then show ?thesis by (simp add: relative_def)
next
  case (names ps)
  have "CHR 0x00 \<notin> set r" using relative_confined [OF assms] by (simp add: confined_def)
  moreover have "split_on CHR ''/'' r = ps"
    using names by (simp add: split_join_parts list_all_iff plain_def)
  ultimately show ?thesis using names by (simp add: relative_def clean_parts_id collect_join)
qed

lemma hex_char_plain: "d < 16 \<Longrightarrow> hex_char d \<notin> {CHR ''/'', CHR 0x00}"
  by (auto simp: hex_char_def char_of_eq_iff take_bit_nat_eq_self split: if_splits)

lemma set_hex16: "set (hex16 w) \<subseteq> hex_char ` {..<16}"
proof -
  have "unat (drop_bit (4 * i) w AND 0xF) \<le> unat (0xF :: u64)" for i
    by (rule word_le_nat_alt [THEN iffD1]) (rule word_and_le1)
  then have "unat (drop_bit (4 * i) w AND 0xF) < 16" for i
    by (rule le_less_trans) simp
  then show ?thesis by (auto simp: hex16_def)
qed

lemma hex16_plain: "length (hex16 w) = 16" "CHR ''/'' \<notin> set (hex16 w)" "CHR 0x00 \<notin> set (hex16 w)"
proof -
  have *: "c \<noteq> CHR ''/'' \<and> c \<noteq> CHR 0x00" if "c \<in> set (hex16 w)" for c
  proof -
    from subsetD [OF set_hex16 that] obtain d where "d < 16" "c = hex_char d" by auto
    then show ?thesis using hex_char_plain [of d] by simp
  qed
  show "CHR ''/'' \<notin> set (hex16 w)" using * by metis
  show "CHR 0x00 \<notin> set (hex16 w)" using * by metis
  show "length (hex16 w) = 16" by (simp add: hex16_def)
qed

text \<open>The name that \<open>unique_path\<close> gives a name.\<close>

definition unique_name :: "string \<Rightarrow> u64 \<Rightarrow> string \<Rightarrow> string" where
  "unique_name now rnd base =
     (case rsplit_once CHR ''.'' base of
        Some (l, r) \<Rightarrow> l @ ''.'' @ now @ ''.'' @ hex16 rnd @ CHR ''.'' # r
      | None \<Rightarrow> base @ ''.'' @ now @ ''.'' @ hex16 rnd)"

lemma unique_path_name:
  "unique_path now rnd path = with_file_name path (unique_name now rnd (case file_name path of Some n \<Rightarrow> n | None \<Rightarrow> []))"
  by (cases "file_name path"; simp add: unique_path_def unique_name_def split: option.splits)

lemma plain_unique_name:
  assumes "CHR ''/'' \<notin> set base" "CHR 0x00 \<notin> set base" "CHR ''/'' \<notin> set now" "CHR 0x00 \<notin> set now"
  shows "plain (unique_name now rnd base)"
proof -
  have "2 < length (unique_name now rnd base)"
    using hex16_plain(1) [of rnd] by (auto simp: unique_name_def split: option.splits)
  then have "unique_name now rnd base \<notin> {[], ''.'', ''..''}" by auto
  moreover have "set (unique_name now rnd base) \<subseteq> set base \<union> set now \<union> set (hex16 rnd) \<union> {CHR ''.''}"
    by (auto simp: unique_name_def rsplit_once_Some_iff split: option.splits)
  then have "CHR ''/'' \<notin> set (unique_name now rnd base)" "CHR 0x00 \<notin> set (unique_name now rnd base)"
    using assms hex16_plain by auto
  ultimately show ?thesis by (simp add: plain_def)
qed

lemma file_name_join:
  assumes "list_all plain (ps @ [n])"
  shows "file_name (join_parts (ps @ [n])) = Some n"
  using assms by (simp add: file_name_def components_join)

lemma from_components_names: "list_all plain ps \<Longrightarrow> from_components (map Normal ps) = join_parts ps"
  by (simp add: from_components_def comp_def flip: collect_path_def collect_join)

lemma with_file_name_join:
  assumes "list_all plain (ps @ [n])" "plain m"
  shows "with_file_name (join_parts (ps @ [n])) m = join_parts (ps @ [m])"
proof -
  have "push (join_parts ps) m = join_parts (ps @ [m])"
    using assms collect_join [of ps] collect_join [of "ps @ [m]"] by (simp add: collect_path_def)
  then show ?thesis
    using assms file_name_join [OF assms(1)] by (simp add: with_file_name_def components_join from_components_names)
qed

text \<open>The randomised sibling of a cleaned path is in the same directory and as confined.\<close>

lemma unique_path_join:
  assumes "list_all plain (ps @ [n])" "CHR ''/'' \<notin> set now" "CHR 0x00 \<notin> set now"
  shows "unique_path now rnd (join_parts (ps @ [n])) = join_parts (ps @ [unique_name now rnd n])"
  using assms plain_unique_name [of n now rnd]
  by (simp add: unique_path_name file_name_join with_file_name_join plain_def)

lemma unique_path_confined:
  assumes "relative path = Inr r" "CHR ''/'' \<notin> set now" "CHR 0x00 \<notin> set now"
  shows "confined (unique_path now rnd r)"
  using assms(1)
proof (cases rule: relative_parts)
  case root
  have n: "plain (unique_name now rnd [])" using assms by (intro plain_unique_name) auto
  have fn: "file_name ''.'' = None" by (simp add: file_name_def components_def starts_with_def)
  have "unique_path now rnd r = ''./'' @ unique_name now rnd []"
    using n by (simp add: unique_path_name root fn with_file_name_def push_def ends_with_single)
  moreover have "confined (''./'' @ p)" if "plain p" for p
    using that by (auto simp: confined_def is_absolute_def starts_with_def components_def plain_def component_of_def
        split_on_id Let_def)
  ultimately show ?thesis using n by simp
next
  case (names ps)
  then obtain qs n where "ps = qs @ [n]" by (cases ps rule: rev_cases) auto
  with names show ?thesis
    using unique_path_join [of qs n now rnd] assms(2,3) plain_unique_name [of n now rnd]
    by (auto intro!: confined_join simp: plain_def)
qed

end
