(* ===== verification/Files.thy ===== *)
theory Files
  imports Paths Framing "HOL-Library.AList"
begin

text \<open>
  The SFTP file service (\<open>src/services/files.rs\<close>, on Unix): the share and its mode, the state of a
  session (\<open>Files\<close>), and one function per request, composed by \<open>dispatch\<close> and \<open>process\<close>.

  The file system is an argument, the record \<open>'w disk_env\<close>: what it answers to a call, where the flag
  says whether the call goes through the share's directory capability (\<open>cap_std\<close>) or is an ambient one
  (\<open>std::fs\<close>). The session's state carries the opaque disk \<open>'w\<close> and the log of the calls it made,
  each with its success. Requests are decoded by the \<open>russh_sftp\<close> crate; a request is a value of
  \<open>request\<close> here and an answer one of \<open>response\<close>.
\<close>

section \<open>Types\<close>

datatype file_mode = ReadOnly | ReadWrite | WriteOnly | WriteOnlyPlus

definition write_only :: "file_mode \<Rightarrow> bool" where
  "write_only m = (m = WriteOnly \<or> m = WriteOnlyPlus)"

text \<open>\<open>FileShare::parse\<close> up to opening the directory.\<close>

definition parse_share :: "string \<Rightarrow> (string \<times> file_mode) res" where
  "parse_share v =
     (let (dir, m) =
        (case rsplit_once CHR '':'' v of
           Some (dir, m) \<Rightarrow>
             if m = ''ro'' then (dir, ReadOnly)
             else if m = ''rw'' then (dir, ReadWrite)
             else if m = ''wo'' then (dir, WriteOnly)
             else if m = ''wo+'' then (dir, WriteOnlyPlus)
             else (v, ReadOnly)
         | None \<Rightarrow> (v, ReadOnly))
      in if dir = [] then Err ''file service directory is empty'' else Ok (dir, m))"

datatype io_kind = IoNotFound | IoPermissionDenied | IoUnsupported | IoAlreadyExists | IoOther

fun status_of :: "io_kind \<Rightarrow> status_code" where
  "status_of IoNotFound = NoSuchFile"
| "status_of IoPermissionDenied = PermissionDenied"
| "status_of IoUnsupported = OpUnsupported"
| "status_of _ = Failure"

record file_attrs =
  fa_size :: "u64 option"
  fa_uid :: "u32 option"
  fa_gid :: "u32 option"
  fa_permissions :: "u32 option"
  fa_atime :: "u32 option"
  fa_mtime :: "u32 option"

record raw_metadata =
  m_len :: u64
  m_mode :: u32
  m_uid :: u32
  m_gid :: u32
  m_atime :: "64 word"
  m_mtime :: "64 word"

text \<open>The answers of \<open>cap_std\<close>'s metadata as attributes; negative times become zero.\<close>

definition attrs_of_metadata :: "raw_metadata \<Rightarrow> file_attrs" where
  "attrs_of_metadata m =
     (let clamp = (\<lambda>t :: 64 word. if sint t < 0 then 0 else ucast t)
      in \<lparr>fa_size = Some (m_len m), fa_uid = Some (m_uid m), fa_gid = Some (m_gid m),
          fa_permissions = Some (m_mode m), fa_atime = Some (clamp (m_atime m)), fa_mtime = Some (clamp (m_mtime m))\<rparr>)"

record open_options =
  oo_read :: bool
  oo_write :: bool
  oo_append :: bool
  oo_create :: bool
  oo_truncate :: bool
  oo_create_new :: bool

datatype fs_call =
    CMetadata string bool
  | COpen string open_options
  | CReadDir string
  | CSetPermissions string u32
  | CSetTimes string "u32 option" "u32 option"
  | CChown string "u32 option" "u32 option"
  | CCreateDir string
  | CRemoveFile string
  | CRemoveDir string
  | CRename string string
  | CReadLink string
  | CSymlink string string
  | CHardLink string string
  | CStatVfs string
  | FSeek nat u64
  | FRead nat nat
  | FWrite nat "byte list"
  | FMetadata nat
  | FSetLen nat u64
  | FSetPermissions nat u32
  | FSetTimes nat "u32 option" "u32 option"
  | FChown nat u32 u32
  | FSync nat

record 'w disk_env =
  fs_unit :: "'w \<Rightarrow> bool \<Rightarrow> fs_call \<Rightarrow> (io_kind + unit) \<times> 'w"
  fs_meta :: "'w \<Rightarrow> bool \<Rightarrow> fs_call \<Rightarrow> (io_kind + raw_metadata) \<times> 'w"
  fs_attrs :: "'w \<Rightarrow> bool \<Rightarrow> fs_call \<Rightarrow> (io_kind + file_attrs) \<times> 'w"
  fs_open :: "'w \<Rightarrow> bool \<Rightarrow> fs_call \<Rightarrow> (io_kind + nat) \<times> 'w"
  fs_list :: "'w \<Rightarrow> bool \<Rightarrow> fs_call \<Rightarrow> (io_kind + (io_kind + string) list) \<times> 'w"
  fs_bytes :: "'w \<Rightarrow> bool \<Rightarrow> fs_call \<Rightarrow> (io_kind + byte list) \<times> 'w"
  fs_text :: "'w \<Rightarrow> bool \<Rightarrow> fs_call \<Rightarrow> (io_kind + string) \<times> 'w"
  attrs_is_dir :: "file_attrs \<Rightarrow> bool"
  fresh_name :: "'w \<Rightarrow> (string \<times> u64) \<times> 'w"

text \<open>A directory entry; the dummy entries of the crate have attributes of its own.\<close>

type_synonym entry = "string \<times> file_attrs option"

datatype open_handle =
    FileHandle nat bool bool
  | DirHandle "entry list" nat

datatype request =
    RqInit
  | RqOpen u32 string u32
  | RqClose u32 string
  | RqRead u32 string u64 u32
  | RqWrite u32 string u64 "byte list"
  | RqFstat u32 string
  | RqStat u32 string
  | RqLstat u32 string
  | RqSetStat u32 string file_attrs
  | RqFSetStat u32 string file_attrs
  | RqOpenDir u32 string
  | RqReadDir u32 string
  | RqRealPath u32 string
  | RqMkDir u32 string
  | RqRemove u32 string
  | RqRmDir u32 string
  | RqRename u32 string string
  | RqReadLink u32 string
  | RqSymlink u32 string string
  | RqExtended u32 string "byte list"
  | RqOther u32

datatype response =
    RsVersion "(string \<times> string) list"
  | RsHandle u32 string
  | RsData u32 "byte list"
  | RsAttrs u32 file_attrs
  | RsName u32 "entry list"
  | RsExtended u32 "byte list"
  | RsOk u32
  | RsError u32 status_code

record 'w files =
  rooted :: bool
  home_dir :: string
  file_mode_of :: file_mode
  wrote :: "(string \<times> string) list"
  handles :: "(string \<times> open_handle) list"
  next_handle :: u64
  initialized :: bool
  disk :: 'w
  calls :: "(fs_call \<times> bool) list"

definition files_new :: "string \<Rightarrow> file_mode option \<Rightarrow> 'w \<Rightarrow> 'w files" where
  "files_new home share w =
     \<lparr>rooted = (share \<noteq> None), home_dir = home,
      file_mode_of = (case share of Some m \<Rightarrow> m | None \<Rightarrow> ReadWrite),
      wrote = [], handles = [], next_handle = 0, initialized = False, disk = w, calls = []\<rparr>"

section \<open>Sequencing\<close>

type_synonym ('w, 'a) fx_op = "'w files \<Rightarrow> 'a fx \<times> 'w files"

text \<open>The \<open>?\<close> operator over operations that have effects.\<close>

definition then_do :: "('s \<Rightarrow> ('e + 'a) \<times> 's) \<Rightarrow> ('a \<Rightarrow> 's \<Rightarrow> ('e + 'b) \<times> 's) \<Rightarrow> 's \<Rightarrow> ('e + 'b) \<times> 's" where
  "then_do m f s = (case m s of (Inl e, s) \<Rightarrow> (Inl e, s) | (Inr x, s) \<Rightarrow> f x s)"

definition give :: "('e + 'a) \<Rightarrow> 's \<Rightarrow> ('e + 'a) \<times> 's" where
  "give r s = (r, s)"

definition skip :: "'s \<Rightarrow> ('e + unit) \<times> 's" where
  "skip s = (Inr (), s)"

text \<open>A call of the file system, logged; \<open>ask\<close> gives the error kind and \<open>checked\<close> its status code.\<close>

definition ask ::
  "('w \<Rightarrow> bool \<Rightarrow> fs_call \<Rightarrow> (io_kind + 'a) \<times> 'w) \<Rightarrow> fs_call \<Rightarrow> 'w files \<Rightarrow> (io_kind + 'a) \<times> 'w files" where
  "ask f c s =
     (case f (disk s) (rooted s) c of (r, w) \<Rightarrow> (r, s\<lparr>disk := w, calls := calls s @ [(c, is_ok r)]\<rparr>))"

definition checked ::
  "('w \<Rightarrow> bool \<Rightarrow> fs_call \<Rightarrow> (io_kind + 'a) \<times> 'w) \<Rightarrow> fs_call \<Rightarrow> ('w, 'a) fx_op" where
  "checked f c s = (case ask f c s of (r, s) \<Rightarrow> (map_sum status_of (\<lambda>x. x) r, s))"

text \<open>An optional step.\<close>

definition whenever :: "'b option \<Rightarrow> ('b \<Rightarrow> ('w, unit) fx_op) \<Rightarrow> ('w, unit) fx_op" where
  "whenever v f = (case v of Some x \<Rightarrow> f x | None \<Rightarrow> skip)"

section \<open>Paths and metadata\<close>

definition path_of :: "'w files \<Rightarrow> string \<Rightarrow> string fx" where
  "path_of s path =
     (if rooted s then relative path
      else if CHR 0x00 \<in> set path then Inl BadMessage
      else if is_absolute path then Inr path
      else Inr (clean_path (push (home_dir s) path)))"

definition metadata :: "'w disk_env \<Rightarrow> string \<Rightarrow> bool \<Rightarrow> ('w, file_attrs) fx_op" where
  "metadata D path follow s =
     (if rooted s then then_do (checked (fs_meta D) (CMetadata path follow)) (\<lambda>m. give (Inr (attrs_of_metadata m))) s
      else checked (fs_attrs D) (CMetadata path follow) s)"

definition stat_path :: "'w disk_env \<Rightarrow> string \<Rightarrow> bool \<Rightarrow> ('w, file_attrs) fx_op" where
  "stat_path D path follow s =
     (if \<not> write_only (file_mode_of s) then metadata D path follow s
      else case map_of (wrote s) path of
        Some actual \<Rightarrow> metadata D actual follow s
      | None \<Rightarrow>
          if file_mode_of s = WriteOnly \<and> path \<noteq> ''.'' then (Inl NoSuchFile, s)
          else case metadata D path follow s of
            (Inr a, s) \<Rightarrow> (if attrs_is_dir D a then Inr a else Inl NoSuchFile, s)
          | (Inl e, s) \<Rightarrow> (Inl NoSuchFile, s))"

section \<open>Opening\<close>

text \<open>The open flags of version 3 of the protocol.\<close>

definition flag_read :: u32 where "flag_read = 1"
definition flag_write :: u32 where "flag_write = 2"
definition flag_append :: u32 where "flag_append = 4"
definition flag_create :: u32 where "flag_create = 8"
definition flag_truncate :: u32 where "flag_truncate = 16"
definition flag_exclude :: u32 where "flag_exclude = 32"

definition contains :: "u32 \<Rightarrow> u32 \<Rightarrow> bool" where
  "contains flags f = (flags AND f = f)"

definition mutating_flags :: "u32 \<Rightarrow> bool" where
  "mutating_flags flags =
     (flags AND (flag_write OR flag_append OR flag_create OR flag_truncate OR flag_exclude) \<noteq> 0)"

definition options_for :: "u32 \<Rightarrow> bool \<Rightarrow> open_options" where
  "options_for flags exclusive =
     \<lparr>oo_read = contains flags flag_read, oo_write = contains flags flag_write,
      oo_append = (\<not> exclusive \<and> contains flags flag_append), oo_create = (\<not> exclusive \<and> contains flags flag_create),
      oo_truncate = (\<not> exclusive \<and> contains flags flag_truncate),
      oo_create_new = (exclusive \<or> contains flags flag_exclude)\<rparr>"

text \<open>An ambient open ignores \<open>exclusive\<close>.\<close>

definition open_file :: "'w disk_env \<Rightarrow> string \<Rightarrow> u32 \<Rightarrow> bool \<Rightarrow> 'w files \<Rightarrow> (io_kind + nat) \<times> 'w files" where
  "open_file D path flags exclusive s =
     ask (fs_open D) (COpen path (options_for flags (exclusive \<and> rooted s))) s"

definition fresh_sibling :: "'w disk_env \<Rightarrow> string \<Rightarrow> 'w files \<Rightarrow> string \<times> 'w files" where
  "fresh_sibling D path s =
     (case fresh_name D (disk s) of ((now, rnd), w) \<Rightarrow> (unique_path now rnd path, s\<lparr>disk := w\<rparr>))"

definition add_handle :: "u32 \<Rightarrow> open_handle \<Rightarrow> ('w, response) fx_op" where
  "add_handle i h s =
     (let n = next_handle s + 1; name = dec (unat n)
      in (Inr (RsHandle i name), s\<lparr>next_handle := n, handles := AList.update name h (handles s)\<rparr>))"

text \<open>The exclusive creation of the write-only modes: the handle, and the name it really has.\<close>

definition create_exclusive :: "'w disk_env \<Rightarrow> string \<Rightarrow> ('w, nat) fx_op" where
  "create_exclusive D requested s =
     (let (actual, s) = (if file_mode_of s = WriteOnly then fresh_sibling D requested s else (requested, s))
      in case open_file D actual (flag_write OR flag_create) True s of
           (Inr f, s) \<Rightarrow> (Inr f, s\<lparr>wrote := AList.update requested actual (wrote s)\<rparr>)
         | (Inl e, s) \<Rightarrow>
             if file_mode_of s = WriteOnlyPlus \<and> e = IoAlreadyExists then
               (let (actual, s) = fresh_sibling D requested s
                in case open_file D actual (flag_write OR flag_create) True s of
                     (Inr f, s) \<Rightarrow> (Inr f, s\<lparr>wrote := AList.update requested actual (wrote s)\<rparr>)
                   | (Inl e, s) \<Rightarrow> (Inl (status_of e), s))
             else (Inl (status_of e), s))"

definition rq_open :: "'w disk_env \<Rightarrow> u32 \<Rightarrow> string \<Rightarrow> u32 \<Rightarrow> ('w, response) fx_op" where
  "rq_open D i filename flags s =
     (if file_mode_of s = ReadOnly \<and> mutating_flags flags then (Inl PermissionDenied, s)
      else then_do (give (path_of s filename)) (\<lambda>requested.
        then_do (\<lambda>s.
          if write_only (file_mode_of s) then
            (if contains flags flag_read \<or> \<not> contains flags (flag_write OR flag_create) then (Inl PermissionDenied, s)
             else if file_mode_of s = WriteOnly \<and> (requested = ''.'' \<or> length (components requested) \<noteq> 1)
             then (Inl PermissionDenied, s)
             else create_exclusive D requested s)
          else (case open_file D requested flags False s of (r, s) \<Rightarrow> (map_sum status_of (\<lambda>x. x) r, s)))
        (\<lambda>f. add_handle i (FileHandle f (contains flags flag_read) (contains flags flag_write)))) s)"

section \<open>Directories\<close>

fun read_entries :: "'w disk_env \<Rightarrow> string \<Rightarrow> (io_kind + string) list \<Rightarrow> ('w, entry list) fx_op" where
  "read_entries D path [] s = (Inr [], s)"
| "read_entries D path (e # es) s =
     then_do (give (map_sum status_of (\<lambda>x. x) e)) (\<lambda>name.
     then_do (metadata D (push path name) False) (\<lambda>a.
     then_do (read_entries D path es) (\<lambda>rest. give (Inr ((name, Some a) # rest))))) s"

definition sort_entries :: "entry list \<Rightarrow> entry list" where
  "sort_entries es = sort_key (\<lambda>e. map of_char (fst e) :: nat list) es"

definition rq_opendir :: "'w disk_env \<Rightarrow> u32 \<Rightarrow> string \<Rightarrow> ('w, response) fx_op" where
  "rq_opendir D i path s =
     (if write_only (file_mode_of s) then (Inl PermissionDenied, s)
      else then_do (give (path_of s path)) (\<lambda>path.
        then_do (checked (fs_list D) (CReadDir path)) (\<lambda>es.
        then_do (read_entries D path es) (\<lambda>es.
        add_handle i (DirHandle (sort_entries es) 0)))) s)"

definition rq_readdir :: "u32 \<Rightarrow> string \<Rightarrow> ('w, response) fx_op" where
  "rq_readdir i h s =
     (case map_of (handles s) h of
        Some (DirHandle es n) \<Rightarrow>
          if n = length es then (Inl Eof, s)
          else let upto = min (n + 64) (length es)
               in (Inr (RsName i (take (upto - n) (drop n es))),
                   s\<lparr>handles := AList.update h (DirHandle es upto) (handles s)\<rparr>)
      | _ \<Rightarrow> (Inl Failure, s))"

definition rq_mkdir :: "'w disk_env \<Rightarrow> u32 \<Rightarrow> string \<Rightarrow> ('w, response) fx_op" where
  "rq_mkdir D i path s =
     (if file_mode_of s = ReadOnly \<or> file_mode_of s = WriteOnly then (Inl PermissionDenied, s)
      else then_do (give (path_of s path)) (\<lambda>path.
        then_do (checked (fs_unit D) (CCreateDir path)) (\<lambda>_ s.
          (Inr (RsOk i),
           if write_only (file_mode_of s) then s\<lparr>wrote := AList.update path path (wrote s)\<rparr> else s))) s)"

section \<open>Attributes\<close>

definition set_times :: "'w disk_env \<Rightarrow> (u32 option \<Rightarrow> u32 option \<Rightarrow> fs_call) \<Rightarrow> file_attrs \<Rightarrow> ('w, unit) fx_op" where
  "set_times D c a =
     (if fa_atime a \<noteq> None \<or> fa_mtime a \<noteq> None then checked (fs_unit D) (c (fa_atime a) (fa_mtime a)) else skip)"

definition write_only_options :: open_options where
  "write_only_options =
     \<lparr>oo_read = False, oo_write = True, oo_append = False, oo_create = False, oo_truncate = False,
      oo_create_new = False\<rparr>"

definition set_size_at :: "'w disk_env \<Rightarrow> string \<Rightarrow> file_attrs \<Rightarrow> ('w, unit) fx_op" where
  "set_size_at D path a =
     whenever (fa_size a) (\<lambda>n.
       then_do (checked (fs_open D) (COpen path write_only_options)) (\<lambda>f. checked (fs_unit D) (FSetLen f n)))"

definition set_mode_at :: "'w disk_env \<Rightarrow> string \<Rightarrow> file_attrs \<Rightarrow> ('w, unit) fx_op" where
  "set_mode_at D path a =
     whenever (fa_permissions a) (\<lambda>m. checked (fs_unit D) (CSetPermissions path (m AND 0x1FF)))"

definition apply_attrs :: "'w disk_env \<Rightarrow> string \<Rightarrow> file_attrs \<Rightarrow> ('w, unit) fx_op" where
  "apply_attrs D path a s =
     (if rooted s then
        then_do (set_mode_at D path a) (\<lambda>_.
        then_do (set_times D (CSetTimes path) a) (\<lambda>_. set_size_at D path a)) s
      else
        then_do (set_size_at D path a) (\<lambda>_.
        then_do (set_mode_at D path a) (\<lambda>_.
        then_do (set_times D (CSetTimes path) a) (\<lambda>_.
        if fa_uid a \<noteq> None \<or> fa_gid a \<noteq> None then checked (fs_unit D) (CChown path (fa_uid a) (fa_gid a))
        else skip))) s)"

definition setstat_path :: "'w disk_env \<Rightarrow> string \<Rightarrow> file_attrs \<Rightarrow> ('w, unit) fx_op" where
  "setstat_path D path a s =
     (if file_mode_of s = ReadOnly then (Inl PermissionDenied, s)
      else if write_only (file_mode_of s) then
        (case map_of (wrote s) path of
           None \<Rightarrow> (Inl PermissionDenied, s)
         | Some actual \<Rightarrow> apply_attrs D actual a s)
      else apply_attrs D path a s)"

text \<open>\<open>set_file_attrs\<close>: the size first on the full file system and after the times in a share.\<close>

definition set_file_attrs :: "'w disk_env \<Rightarrow> nat \<Rightarrow> file_attrs \<Rightarrow> bool \<Rightarrow> ('w, unit) fx_op" where
  "set_file_attrs D f a full =
     then_do (if full then whenever (fa_size a) (\<lambda>n. checked (fs_unit D) (FSetLen f n)) else skip) (\<lambda>_.
     then_do (whenever (fa_permissions a) (\<lambda>m. checked (fs_unit D) (FSetPermissions f (m AND 0x1FF)))) (\<lambda>_.
     then_do (set_times D (FSetTimes f) a) (\<lambda>_.
     then_do (if \<not> full then whenever (fa_size a) (\<lambda>n. checked (fs_unit D) (FSetLen f n)) else skip) (\<lambda>_.
     if full \<and> (fa_uid a \<noteq> None \<or> fa_gid a \<noteq> None)
     then checked (fs_unit D) (FChown f (case fa_uid a of Some u \<Rightarrow> u | None \<Rightarrow> -1)
            (case fa_gid a of Some g \<Rightarrow> g | None \<Rightarrow> -1))
     else skip))))"

section \<open>Requests on open files\<close>

definition rq_read :: "'w disk_env \<Rightarrow> u32 \<Rightarrow> string \<Rightarrow> u64 \<Rightarrow> u32 \<Rightarrow> ('w, response) fx_op" where
  "rq_read D i h offset len s =
     (if write_only (file_mode_of s) then (Inl PermissionDenied, s)
      else case map_of (handles s) h of
        Some (FileHandle f True _) \<Rightarrow>
          then_do (checked (fs_unit D) (FSeek f offset)) (\<lambda>_.
          then_do (checked (fs_bytes D) (FRead f (min (unat len) (256 * 1024)))) (\<lambda>data.
          give (if data = [] then Inl Eof else Inr (RsData i data)))) s
      | _ \<Rightarrow> (Inl PermissionDenied, s))"

definition rq_write :: "'w disk_env \<Rightarrow> u32 \<Rightarrow> string \<Rightarrow> u64 \<Rightarrow> byte list \<Rightarrow> ('w, response) fx_op" where
  "rq_write D i h offset data s =
     (case map_of (handles s) h of
        Some (FileHandle f _ True) \<Rightarrow>
          then_do (checked (fs_unit D) (FSeek f offset)) (\<lambda>_.
          then_do (checked (fs_unit D) (FWrite f data)) (\<lambda>_. give (Inr (RsOk i)))) s
      | _ \<Rightarrow> (Inl PermissionDenied, s))"

definition rq_fsetstat :: "'w disk_env \<Rightarrow> u32 \<Rightarrow> string \<Rightarrow> file_attrs \<Rightarrow> ('w, response) fx_op" where
  "rq_fsetstat D i h a s =
     (if file_mode_of s = ReadOnly then (Inl PermissionDenied, s)
      else case map_of (handles s) h of
        Some (FileHandle f _ w) \<Rightarrow>
          if write_only (file_mode_of s) \<and> \<not> w then (Inl PermissionDenied, s)
          else then_do (set_file_attrs D f a (\<not> rooted s)) (\<lambda>_. give (Inr (RsOk i))) s
      | _ \<Rightarrow> (Inl Failure, s))"

section \<open>Names\<close>

definition require_rw :: "('w, unit) fx_op" where
  "require_rw s = (if file_mode_of s = ReadWrite then (Inr (), s) else (Inl PermissionDenied, s))"

definition rename_file :: "'w disk_env \<Rightarrow> string \<Rightarrow> string \<Rightarrow> ('w, unit) fx_op" where
  "rename_file D old new s =
     then_do require_rw (\<lambda>_.
     then_do (give (path_of s old)) (\<lambda>old.
     then_do (give (path_of s new)) (\<lambda>new. checked (fs_unit D) (CRename old new)))) s"

text \<open>One path, one call, for the requests that need read-write access.\<close>

definition on_path :: "'w disk_env \<Rightarrow> (string \<Rightarrow> fs_call) \<Rightarrow> string \<Rightarrow> ('w, unit) fx_op" where
  "on_path D c path s =
     then_do require_rw (\<lambda>_.
     then_do (give (path_of s path)) (\<lambda>path. checked (fs_unit D) (c path))) s"

definition rq_symlink :: "'w disk_env \<Rightarrow> string \<Rightarrow> string \<Rightarrow> ('w, unit) fx_op" where
  "rq_symlink D linkpath targetpath s =
     then_do require_rw (\<lambda>_.
     then_do (give (if rooted s then relative linkpath else path_of s linkpath)) (\<lambda>target.
     then_do (give (path_of s targetpath)) (\<lambda>link. checked (fs_unit D) (CSymlink target link)))) s"

definition rq_realpath :: "u32 \<Rightarrow> string \<Rightarrow> ('w, response) fx_op" where
  "rq_realpath i path s =
     then_do (give (path_of s path)) (\<lambda>path.
       let name = (if rooted s then (if path = ''.'' then ''/'' else CHR ''/'' # path) else clean_path path)
       in give (Inr (RsName i [(name, None)]))) s"

definition rq_readlink :: "'w disk_env \<Rightarrow> u32 \<Rightarrow> string \<Rightarrow> ('w, response) fx_op" where
  "rq_readlink D i path s =
     (if write_only (file_mode_of s) then (Inl PermissionDenied, s)
      else then_do (give (path_of s path)) (\<lambda>path.
        then_do (checked (fs_text D) (CReadLink path)) (\<lambda>t. give (Inr (RsName i [(t, None)])))) s)"

text \<open>A length-prefixed string and the bytes after it.\<close>

definition read_string_field :: "byte list \<Rightarrow> (string \<times> byte list) fx" where
  "read_string_field bs =
     (if length bs < 4 then Inl BadMessage
      else let n = unat (from_be_bytes (take 4 bs) :: u32); bs = drop 4 bs
      in if length bs < n then Inl BadMessage
      else case from_utf8 (take n bs) of None \<Rightarrow> Inl BadMessage | Some t \<Rightarrow> Inr (t, drop n bs))"

definition extended_request :: "'w disk_env \<Rightarrow> u32 \<Rightarrow> string \<Rightarrow> string \<Rightarrow> byte list \<Rightarrow> ('w, response) fx_op" where
  "extended_request D i name first rest s =
     (if name = ''posix-rename@openssh.com'' then
         then_do (give (read_string_field rest)) (\<lambda>(second, _).
         then_do (rename_file D first second) (\<lambda>_. give (Inr (RsOk i))))
       else if name = ''hardlink@openssh.com'' then
         then_do require_rw (\<lambda>_.
         then_do (give (path_of s first)) (\<lambda>src.
         then_do (give (read_string_field rest)) (\<lambda>(second, _).
         then_do (give (path_of s second)) (\<lambda>dst.
         then_do (checked (fs_unit D) (CHardLink src dst)) (\<lambda>_. give (Inr (RsOk i)))))))
       else if name = ''fsync@openssh.com'' then
         (case map_of (handles s) first of
            Some (FileHandle f _ _) \<Rightarrow> then_do (checked (fs_unit D) (FSync f)) (\<lambda>_. give (Inr (RsOk i)))
          | _ \<Rightarrow> give (Inl Failure))
       else if name = ''statvfs@openssh.com'' \<and> \<not> rooted s then
         then_do (give (path_of s first)) (\<lambda>path.
         then_do (checked (fs_bytes D) (CStatVfs path)) (\<lambda>b. give (Inr (RsExtended i b))))
       else give (Inl OpUnsupported)) s"

definition rq_extended :: "'w disk_env \<Rightarrow> u32 \<Rightarrow> string \<Rightarrow> byte list \<Rightarrow> ('w, response) fx_op" where
  "rq_extended D i name data =
     then_do (give (read_string_field data)) (\<lambda>(first, rest). extended_request D i name first rest)"

section \<open>Dispatch\<close>

fun request_id :: "request \<Rightarrow> u32" where
  "request_id RqInit = 0"
| "request_id (RqOpen i _ _) = i"
| "request_id (RqClose i _) = i"
| "request_id (RqRead i _ _ _) = i"
| "request_id (RqWrite i _ _ _) = i"
| "request_id (RqFstat i _) = i"
| "request_id (RqStat i _) = i"
| "request_id (RqLstat i _) = i"
| "request_id (RqSetStat i _ _) = i"
| "request_id (RqFSetStat i _ _) = i"
| "request_id (RqOpenDir i _) = i"
| "request_id (RqReadDir i _) = i"
| "request_id (RqRealPath i _) = i"
| "request_id (RqMkDir i _) = i"
| "request_id (RqRemove i _) = i"
| "request_id (RqRmDir i _) = i"
| "request_id (RqRename i _ _) = i"
| "request_id (RqReadLink i _) = i"
| "request_id (RqSymlink i _ _) = i"
| "request_id (RqExtended i _ _) = i"
| "request_id (RqOther i) = i"

definition rq_init :: "('w, response) fx_op" where
  "rq_init s =
     (if initialized s then (Inl BadMessage, s)
      else (Inr (RsVersion ([(''posix-rename@openssh.com'', ''1''), (''hardlink@openssh.com'', ''1''),
              (''fsync@openssh.com'', ''1'')] @ (if rooted s then [] else [(''statvfs@openssh.com'', ''2'')]))),
            s\<lparr>initialized := True\<rparr>))"

definition and_ok :: "u32 \<Rightarrow> ('w, unit) fx_op \<Rightarrow> ('w, response) fx_op" where
  "and_ok i m = then_do m (\<lambda>_. give (Inr (RsOk i)))"

definition rq_stat :: "'w disk_env \<Rightarrow> u32 \<Rightarrow> string \<Rightarrow> bool \<Rightarrow> ('w, response) fx_op" where
  "rq_stat D i path follow s =
     then_do (give (path_of s path)) (\<lambda>path.
     then_do (stat_path D path follow) (\<lambda>a. give (Inr (RsAttrs i a)))) s"

fun serve :: "'w disk_env \<Rightarrow> request \<Rightarrow> ('w, response) fx_op" where
  "serve D RqInit = rq_init"
| "serve D (RqOpen i filename flags) = rq_open D i filename flags"
| "serve D (RqClose i h) =
     (\<lambda>s. if map_of (handles s) h = None then (Inl Failure, s)
          else (Inr (RsOk i), s\<lparr>handles := AList.delete h (handles s)\<rparr>))"
| "serve D (RqRead i h offset len) = rq_read D i h offset len"
| "serve D (RqWrite i h offset data) = rq_write D i h offset data"
| "serve D (RqFstat i h) =
     (\<lambda>s. case map_of (handles s) h of
        Some (FileHandle f _ _) \<Rightarrow> then_do (checked (fs_attrs D) (FMetadata f)) (\<lambda>a. give (Inr (RsAttrs i a))) s
      | _ \<Rightarrow> (Inl Failure, s))"
| "serve D (RqStat i path) = rq_stat D i path True"
| "serve D (RqLstat i path) = rq_stat D i path False"
| "serve D (RqSetStat i path a) =
     (\<lambda>s. and_ok i (then_do (give (path_of s path)) (\<lambda>path. setstat_path D path a)) s)"
| "serve D (RqFSetStat i h a) = rq_fsetstat D i h a"
| "serve D (RqOpenDir i path) = rq_opendir D i path"
| "serve D (RqReadDir i h) = rq_readdir i h"
| "serve D (RqRealPath i path) = rq_realpath i path"
| "serve D (RqMkDir i path) = rq_mkdir D i path"
| "serve D (RqRemove i path) = and_ok i (on_path D CRemoveFile path)"
| "serve D (RqRmDir i path) = and_ok i (on_path D CRemoveDir path)"
| "serve D (RqRename i old new) = and_ok i (rename_file D old new)"
| "serve D (RqReadLink i path) = rq_readlink D i path"
| "serve D (RqSymlink i linkpath targetpath) = and_ok i (rq_symlink D linkpath targetpath)"
| "serve D (RqExtended i name data) = rq_extended D i name data"
| "serve D (RqOther i) = give (Inl OpUnsupported)"

definition dispatch :: "'w disk_env \<Rightarrow> request \<Rightarrow> ('w, response) fx_op" where
  "dispatch D r s = (if r \<noteq> RqInit \<and> \<not> initialized s then (Inl BadMessage, s) else serve D r s)"

definition process :: "'w disk_env \<Rightarrow> request \<Rightarrow> 'w files \<Rightarrow> response \<times> 'w files" where
  "process D r s =
     (case dispatch D r s of
        (Inr a, s) \<Rightarrow> (a, s)
      | (Inl e, s) \<Rightarrow> (RsError (request_id r) e, s))"

text \<open>The requests of a session, in order.\<close>

fun session_run :: "'w disk_env \<Rightarrow> request list \<Rightarrow> 'w files \<Rightarrow> response list \<times> 'w files" where
  "session_run D [] s = ([], s)"
| "session_run D (r # rs) s =
     (case process D r s of (a, s) \<Rightarrow> case session_run D rs s of (as, s) \<Rightarrow> (a # as, s))"

end
