(* ===== verification/FilesPolicy.thy ===== *)
theory FilesPolicy
  imports Files
begin

text \<open>
  The access policy of the file service. \<open>allowed\<close> is the table of \<open>docs/repository-map.md\<close> over the
  calls of the file system, relative to the names the session created itself, which are read off the
  log; \<open>session_ok\<close> says that every call so far was allowed and that every path in it stays inside the
  share. Every operation keeps it.
\<close>

section \<open>The policy\<close>

fun mutating :: "fs_call \<Rightarrow> bool" where
  "mutating (COpen _ opts) = (oo_write opts \<or> oo_append opts \<or> oo_create opts \<or> oo_truncate opts \<or> oo_create_new opts)"
| "mutating (CMetadata _ _) = False"
| "mutating (CReadDir _) = False"
| "mutating (CReadLink _) = False"
| "mutating (CStatVfs _) = False"
| "mutating (FSeek _ _) = False"
| "mutating (FRead _ _) = False"
| "mutating (FMetadata _) = False"
| "mutating (FSync _) = False"
| "mutating _ = True"

text \<open>The names a log of calls has created.\<close>

fun creates :: "fs_call \<times> bool \<Rightarrow> string set" where
  "creates (COpen p opts, True) = (if oo_create_new opts then {p} else {})"
| "creates (CCreateDir p, True) = {p}"
| "creates _ = {}"

definition created :: "(fs_call \<times> bool) list \<Rightarrow> string set" where
  "created log = \<Union> (creates ` set log)"

text \<open>
  The write-only modes: metadata of the root or of own files (of any directory with \<open>wo+\<close>), exclusive
  creation without reading, attributes of own files, and operations on open files other than reading.
\<close>

fun write_only_allowed :: "bool \<Rightarrow> string set \<Rightarrow> fs_call \<Rightarrow> bool" where
  "write_only_allowed dirs own (CMetadata p _) = (dirs \<or> p = ''.'' \<or> p \<in> own)"
| "write_only_allowed dirs own (COpen p opts) =
     (\<not> oo_read opts \<and> \<not> oo_truncate opts \<and> (oo_create_new opts \<or> \<not> oo_create opts \<and> p \<in> own))"
| "write_only_allowed dirs own (CSetPermissions p _) = (p \<in> own)"
| "write_only_allowed dirs own (CSetTimes p _ _) = (p \<in> own)"
| "write_only_allowed dirs own (CCreateDir _) = dirs"
| "write_only_allowed dirs own (FSeek _ _) = True"
| "write_only_allowed dirs own (FWrite _ _) = True"
| "write_only_allowed dirs own (FMetadata _) = True"
| "write_only_allowed dirs own (FSetLen _ _) = True"
| "write_only_allowed dirs own (FSetPermissions _ _) = True"
| "write_only_allowed dirs own (FSetTimes _ _ _) = True"
| "write_only_allowed dirs own (FSync _) = True"
| "write_only_allowed dirs own _ = False"

fun allowed :: "file_mode \<Rightarrow> string set \<Rightarrow> fs_call \<Rightarrow> bool" where
  "allowed ReadOnly own c = (\<not> mutating c)"
| "allowed ReadWrite own c = True"
| "allowed WriteOnly own c = write_only_allowed False own c"
| "allowed WriteOnlyPlus own c = write_only_allowed True own c"

fun call_paths :: "fs_call \<Rightarrow> string list" where
  "call_paths (CMetadata p _) = [p]"
| "call_paths (COpen p _) = [p]"
| "call_paths (CReadDir p) = [p]"
| "call_paths (CSetPermissions p _) = [p]"
| "call_paths (CSetTimes p _ _) = [p]"
| "call_paths (CChown p _ _) = [p]"
| "call_paths (CCreateDir p) = [p]"
| "call_paths (CRemoveFile p) = [p]"
| "call_paths (CRemoveDir p) = [p]"
| "call_paths (CRename p q) = [p, q]"
| "call_paths (CReadLink p) = [p]"
| "call_paths (CSymlink p q) = [p, q]"
| "call_paths (CHardLink p q) = [p, q]"
| "call_paths (CStatVfs p) = [p]"
| "call_paths _ = []"

definition policy_log :: "file_mode \<Rightarrow> (fs_call \<times> bool) list \<Rightarrow> bool" where
  "policy_log m log \<longleftrightarrow> (\<forall>i<length log. allowed m (created (take i log)) (fst (log ! i)))"

definition call_ok :: "'w files \<Rightarrow> fs_call \<Rightarrow> bool" where
  "call_ok s c \<longleftrightarrow>
     allowed (file_mode_of s) (created (calls s)) c \<and> (rooted s \<longrightarrow> list_all confined (call_paths c))"

fun writable_handle :: "open_handle \<Rightarrow> bool" where
  "writable_handle (FileHandle _ _ w) = w"
| "writable_handle (DirHandle _ _) = False"

definition session_ok :: "'w files \<Rightarrow> bool" where
  "session_ok s \<longleftrightarrow>
     policy_log (file_mode_of s) (calls s) \<and>
     (rooted s \<longrightarrow> list_all (\<lambda>(c, b). list_all confined (call_paths c)) (calls s) \<and> list_all (confined \<circ> snd) (wrote s)) \<and>
     (write_only (file_mode_of s) \<longrightarrow> rooted s \<and> snd ` set (wrote s) \<subseteq> created (calls s)) \<and>
     (file_mode_of s = ReadOnly \<longrightarrow> list_all (\<lambda>(n, h). \<not> writable_handle h) (handles s))"

text \<open>What the file system is relied on for: a time stamp is not a path, and neither is an entry's name.\<close>

definition plain_clock :: "'w disk_env \<Rightarrow> bool" where
  "plain_clock D \<longleftrightarrow>
     (\<forall>w. CHR ''/'' \<notin> set (fst (fst (fresh_name D w))) \<and> CHR 0x00 \<notin> set (fst (fst (fresh_name D w))))"

definition plain_entries :: "'w disk_env \<Rightarrow> bool" where
  "plain_entries D \<longleftrightarrow> (\<forall>w b c es w'. fs_list D w b c = (Inr es, w') \<longrightarrow> (\<forall>n. Inr n \<in> set es \<longrightarrow> plain n))"

section \<open>The log\<close>

lemma policy_log_snoc [simp]:
  "policy_log m (log @ [(c, b)]) \<longleftrightarrow> policy_log m log \<and> allowed m (created log) c"
  unfolding policy_log_def by (auto simp: less_Suc_eq nth_append)

lemma policy_log_Nil [simp]: "policy_log m []"
  by (simp add: policy_log_def)

lemma created_append [simp]: "created (xs @ ys) = created xs \<union> created ys"
  by (simp add: created_def)

lemma created_Cons [simp]: "created (x # xs) = creates x \<union> created xs"
  by (simp add: created_def)

lemma created_Nil [simp]: "created [] = {}"
  by (simp add: created_def)

section \<open>Operations that only call\<close>

text \<open>The state after calls: only the disk and the log are different, and the log has grown.\<close>

definition after :: "'w files \<Rightarrow> 'w files \<Rightarrow> bool" where
  "after s t \<longleftrightarrow>
     rooted t = rooted s \<and> home_dir t = home_dir s \<and> file_mode_of t = file_mode_of s \<and> wrote t = wrote s \<and>
     handles t = handles s \<and> next_handle t = next_handle s \<and> initialized t = initialized s \<and>
     created (calls s) \<subseteq> created (calls t)"

lemma after_refl [simp]: "after s s"
  by (simp add: after_def)

lemma after_trans: "after s t \<Longrightarrow> after t u \<Longrightarrow> after s u"
  by (auto simp: after_def)

lemma after_path_of: "after s t \<Longrightarrow> path_of t = path_of s"
  by (rule ext) (simp add: after_def path_of_def)

lemma write_only_allowed_mono: "write_only_allowed d K c \<Longrightarrow> K \<subseteq> L \<Longrightarrow> write_only_allowed d L c"
  by (cases "(d, K, c)" rule: write_only_allowed.cases) auto

lemma allowed_mono: "allowed m K c \<Longrightarrow> K \<subseteq> L \<Longrightarrow> allowed m L c"
  by (cases m) (auto dest: write_only_allowed_mono)

lemma call_ok_after: "after s t \<Longrightarrow> call_ok s c \<Longrightarrow> call_ok t c"
  by (auto simp: call_ok_def after_def dest: allowed_mono)

text \<open>
  \<open>safe P m\<close>: from a state where \<open>P\<close> holds, which calls cannot change, the operation \<open>m\<close> only calls,
  and only what the policy allows.
\<close>

definition stable :: "('w files \<Rightarrow> bool) \<Rightarrow> bool" where
  "stable P \<longleftrightarrow> (\<forall>s t. after s t \<longrightarrow> P s \<longrightarrow> P t)"

definition safe :: "('w files \<Rightarrow> bool) \<Rightarrow> ('w files \<Rightarrow> 'r \<times> 'w files) \<Rightarrow> bool" where
  "safe P m \<longleftrightarrow> (\<forall>s. P s \<longrightarrow> after s (snd (m s)) \<and> (session_ok s \<longrightarrow> session_ok (snd (m s))))"

lemma safeD: "safe P m \<Longrightarrow> P s \<Longrightarrow> after s (snd (m s))" "safe P m \<Longrightarrow> P s \<Longrightarrow> session_ok s \<Longrightarrow> session_ok (snd (m s))"
  by (simp_all add: safe_def)

lemma stableI: "(\<And>s t. after s t \<Longrightarrow> P s \<Longrightarrow> P t) \<Longrightarrow> stable P"
  by (auto simp: stable_def)

lemma stable_call_ok [simp]: "stable (\<lambda>s. call_ok s c)"
  by (auto intro: stableI call_ok_after)

lemma snd_ask: "snd (ask f c s) = s\<lparr>disk := snd (f (disk s) (rooted s) c),
    calls := calls s @ [(c, is_ok (fst (f (disk s) (rooted s) c)))]\<rparr>"
  by (simp add: ask_def split: prod.split)

lemma snd_checked: "snd (checked f c s) = snd (ask f c s)"
  by (simp add: checked_def split: prod.split)

lemma session_ok_call:
  assumes "session_ok s" "call_ok s c"
  shows "session_ok (s\<lparr>disk := w, calls := calls s @ [(c, b)]\<rparr>)"
  using assms by (auto simp: session_ok_def call_ok_def)

lemma safe_ask: "(\<And>s. P s \<Longrightarrow> call_ok s c) \<Longrightarrow> safe P (ask f c)"
  by (auto simp: safe_def snd_ask session_ok_call after_def)

lemma safe_checked: "(\<And>s. P s \<Longrightarrow> call_ok s c) \<Longrightarrow> safe P (checked f c)"
  using safe_ask [of P c f] by (simp add: safe_def snd_checked)

lemma safe_give [simp]: "safe P (give r)"
  by (simp add: safe_def give_def)

lemma safe_skip [simp]: "safe P skip"
  by (simp add: safe_def skip_def)

lemma snd_then_do:
  "snd (then_do m k s) = (case fst (m s) of Inl _ \<Rightarrow> snd (m s) | Inr x \<Rightarrow> snd (k x (snd (m s))))"
  by (simp add: then_do_def split: prod.split sum.split)

lemma safe_then:
  assumes "safe P m" "stable P" "\<And>x. safe P (k x)"
  shows "safe P (then_do m k)"
proof -
  have "after s (snd (k x (snd (m s)))) \<and> (session_ok s \<longrightarrow> session_ok (snd (k x (snd (m s)))))" if "P s" for s x
  proof -
    have a: "after s (snd (m s))" using safeD(1) [OF assms(1) that] .
    with assms(2) that have "P (snd (m s))" by (auto simp: stable_def)
    then show ?thesis
      using after_trans [OF a] safeD [OF assms(3), of "snd (m s)" x] safeD(2) [OF assms(1) that] by blast
  qed
  then show ?thesis using safeD [OF assms(1)] by (auto simp: safe_def snd_then_do split: sum.split)
qed

lemma safe_whenever: "(\<And>x. safe P (k x)) \<Longrightarrow> safe P (whenever v k)"
  by (simp add: whenever_def split: option.split)

lemma safe_weaken: "safe P m \<Longrightarrow> (\<And>s. Q s \<Longrightarrow> P s) \<Longrightarrow> safe Q m"
  by (auto simp: safe_def)

text \<open>An operation that chooses by the state.\<close>

lemma safe_if:
  assumes "\<And>s. m s = (if b s then f s else g s)" "safe (\<lambda>s. P s \<and> b s) f" "safe (\<lambda>s. P s \<and> \<not> b s) g"
  shows "safe P m"
  using assms(2,3) unfolding safe_def assms(1) by simp

lemma safe_same: "(\<And>s. P s \<Longrightarrow> m s = m' s) \<Longrightarrow> safe P m' \<Longrightarrow> safe P m"
  by (auto simp: safe_def)

section \<open>The operations that only call\<close>

definition inside :: "'w files \<Rightarrow> string \<Rightarrow> bool" where
  "inside s p \<longleftrightarrow> (rooted s \<longrightarrow> confined p)"

text \<open>The attributes of a path may be set.\<close>

definition may_set :: "string \<Rightarrow> 'w files \<Rightarrow> bool" where
  "may_set p s \<longleftrightarrow>
     inside s p \<and> file_mode_of s \<noteq> ReadOnly \<and> (write_only (file_mode_of s) \<longrightarrow> rooted s \<and> p \<in> created (calls s))"

lemma stable_simps [simp]:
  "stable (\<lambda>s. rooted s)" "stable (\<lambda>s. \<not> rooted s)" "stable (\<lambda>s. inside s p)" "stable (may_set p)"
  "stable (\<lambda>s. file_mode_of s = m)" "stable (\<lambda>s. file_mode_of s \<noteq> m)" "stable (\<lambda>s. True)"
  by (auto intro!: stableI simp: after_def inside_def may_set_def)

lemma stable_and [simp]: "stable P \<Longrightarrow> stable Q \<Longrightarrow> stable (\<lambda>s. P s \<and> Q s)"
  by (simp add: stable_def)

lemma path_of_inside: "path_of s path = Inr p \<Longrightarrow> inside s p"
  by (auto simp: path_of_def inside_def relative_confined)

lemma write_only_simps [simp]:
  "\<not> write_only ReadOnly" "\<not> write_only ReadWrite" "write_only WriteOnly" "write_only WriteOnlyPlus"
  by (simp_all add: write_only_def)

lemma call_ok_free:
  "file_mode_of s = ReadWrite \<Longrightarrow> rooted s \<longrightarrow> list_all confined (call_paths c) \<Longrightarrow> call_ok s c"
  "\<not> write_only (file_mode_of s) \<Longrightarrow> \<not> mutating c \<Longrightarrow> rooted s \<longrightarrow> list_all confined (call_paths c) \<Longrightarrow> call_ok s c"
  by (cases "file_mode_of s"; simp add: call_ok_def)+

lemma safe_metadata: "safe (\<lambda>s. call_ok s (CMetadata path follow)) (metadata D path follow)"
  by (rule safe_if [where b = rooted and
      f = "then_do (checked (fs_meta D) (CMetadata path follow)) (\<lambda>m. give (Inr (attrs_of_metadata m)))" and
      g = "checked (fs_attrs D) (CMetadata path follow)"])
    (auto simp: metadata_def intro!: safe_then safe_checked)

lemma call_ok_set:
  "may_set p s \<Longrightarrow> call_ok s (CSetPermissions p m)" "may_set p s \<Longrightarrow> call_ok s (CSetTimes p a t)"
  "may_set p s \<Longrightarrow> call_ok s (COpen p write_only_options)"
  "may_set p s \<Longrightarrow> \<not> rooted s \<Longrightarrow> call_ok s (CChown p u g)"
  by (cases "file_mode_of s"; simp add: call_ok_def may_set_def inside_def write_only_options_def)+

lemma call_ok_handle:
  "file_mode_of s \<noteq> ReadOnly \<Longrightarrow> call_ok s (FSetLen f n)" "file_mode_of s \<noteq> ReadOnly \<Longrightarrow> call_ok s (FSetPermissions f p)"
  "file_mode_of s \<noteq> ReadOnly \<Longrightarrow> call_ok s (FSetTimes f a t)" "file_mode_of s \<noteq> ReadOnly \<Longrightarrow> call_ok s (FWrite f d)"
  "file_mode_of s = ReadWrite \<Longrightarrow> call_ok s (FChown f u g)"
  "call_ok s (FSeek f off)" "call_ok s (FSync f)" "call_ok s (FMetadata f)"
  "\<not> write_only (file_mode_of s) \<Longrightarrow> call_ok s (FRead f k)"
  by (cases "file_mode_of s"; simp add: call_ok_def)+

lemma may_set_mode: "may_set p s \<Longrightarrow> file_mode_of s \<noteq> ReadOnly"
  by (simp add: may_set_def)

lemma safe_apply_attrs: "safe (may_set p) (apply_attrs D p a)"
proof -
  have size: "safe (may_set p) (set_size_at D p a)"
    unfolding set_size_at_def
    by (intro safe_whenever safe_then safe_checked stable_simps call_ok_set call_ok_handle may_set_mode)
  have mode: "safe (may_set p) (set_mode_at D p a)"
    unfolding set_mode_at_def by (intro safe_whenever safe_checked call_ok_set)
  have times: "safe (may_set p) (set_times D (CSetTimes p) a)"
    unfolding set_times_def by (auto intro!: safe_checked call_ok_set)
  note weak = safe_weaken [where P = "may_set p"]
  show ?thesis
    by (rule safe_if [where b = rooted, OF apply_attrs_def])
      (auto intro!: safe_then safe_checked call_ok_set weak [OF size] weak [OF mode] weak [OF times])
qed

lemma safe_set_file_attrs:
  "safe (\<lambda>s. file_mode_of s \<noteq> ReadOnly \<and> (full \<longrightarrow> file_mode_of s = ReadWrite)) (set_file_attrs D f a full)"
proof -
  have st: "stable (\<lambda>s. file_mode_of s \<noteq> ReadOnly \<and> (full \<longrightarrow> file_mode_of s = ReadWrite))"
    by (auto intro!: stableI simp: after_def)
  show ?thesis unfolding set_file_attrs_def set_times_def
    by (auto intro!: safe_then safe_whenever safe_checked st call_ok_handle)
qed

section \<open>The requests\<close>

definition same_share :: "'w files \<Rightarrow> 'w files \<Rightarrow> bool" where
  "same_share s t \<longleftrightarrow> rooted t = rooted s \<and> home_dir t = home_dir s \<and> file_mode_of t = file_mode_of s"

definition keeps :: "'w files \<Rightarrow> ('w files \<Rightarrow> 'r \<times> 'w files) \<Rightarrow> bool" where
  "keeps s m \<longleftrightarrow> session_ok s \<longrightarrow> session_ok (snd (m s)) \<and> same_share s (snd (m s))"

lemma same_share_refl [simp]: "same_share s s"
  by (simp add: same_share_def)

lemma same_share_trans: "same_share s t \<Longrightarrow> same_share t u \<Longrightarrow> same_share s u"
  by (simp add: same_share_def)

lemma after_same_share: "after s t \<Longrightarrow> same_share s t"
  by (simp add: after_def same_share_def)

lemma keeps_safe: "safe P m \<Longrightarrow> P s \<Longrightarrow> keeps s m"
  by (auto simp: keeps_def safe_def after_same_share)

lemma keeps_give [simp]: "keeps s (give r)" "keeps s (\<lambda>s. (r, s))"
  by (simp_all add: keeps_def give_def)

lemma keeps_then_give: "(\<And>x. r = Inr x \<Longrightarrow> keeps s (k x)) \<Longrightarrow> keeps s (then_do (give r) k)"
  by (cases r) (simp_all add: keeps_def then_do_def give_def)

lemma keeps_then:
  assumes "safe P m" "P s" "\<And>x. after s (snd (m s)) \<Longrightarrow> fst (m s) = Inr x \<Longrightarrow> keeps (snd (m s)) (k x)"
  shows "keeps s (then_do m k)"
  using assms(3) safeD [OF assms(1,2)] same_share_trans [OF after_same_share [OF safeD(1) [OF assms(1,2)]]]
  by (auto simp: keeps_def snd_then_do after_same_share split: sum.split)

lemma keeps_if: "(b \<Longrightarrow> keeps s f) \<Longrightarrow> (\<not> b \<Longrightarrow> keeps s g) \<Longrightarrow> keeps s (\<lambda>s. if b then f s else g s)"
  by (cases b) (simp_all add: keeps_def)

text \<open>\<open>keeps\<close> of an operation at the state where it is.\<close>

lemma keeps_at: "m s = m' s \<Longrightarrow> keeps s m' \<Longrightarrow> keeps s m"
  by (simp add: keeps_def)

lemma keeps_state: "m s = (r, t) \<Longrightarrow> (session_ok s \<Longrightarrow> session_ok t \<and> same_share s t) \<Longrightarrow> keeps s m"
  by (simp add: keeps_def)

lemma AList_update_all: "list_all P xs \<Longrightarrow> P (k, v) \<Longrightarrow> list_all P (AList.update k v xs)"
  by (induction xs) auto

lemma AList_delete_all: "list_all P xs \<Longrightarrow> list_all P (AList.delete k xs)"
  by (auto simp: list_all_iff AList.delete_eq)

lemma session_ok_handle:
  "session_ok s \<Longrightarrow> (file_mode_of s = ReadOnly \<longrightarrow> \<not> writable_handle h) \<Longrightarrow>
   session_ok (s\<lparr>next_handle := n, handles := AList.update name h (handles s)\<rparr>)"
  "session_ok s \<Longrightarrow> (file_mode_of s = ReadOnly \<longrightarrow> \<not> writable_handle h) \<Longrightarrow>
   session_ok (s\<lparr>handles := AList.update name h (handles s)\<rparr>)"
  by (simp_all add: session_ok_def AList_update_all)

lemma session_ok_other [simp]:
  "session_ok (s\<lparr>disk := w\<rparr>) = session_ok s" "session_ok (s\<lparr>initialized := i\<rparr>) = session_ok s"
  by (simp_all add: session_ok_def)

lemma session_ok_wrote:
  assumes "session_ok s" "confined actual" "actual \<in> created (calls s)"
  shows "session_ok (s\<lparr>wrote := AList.update requested actual (wrote s)\<rparr>)"
proof -
  have "list_all (\<lambda>e. snd e \<in> insert actual (snd ` set (wrote s))) (AList.update requested actual (wrote s))"
    by (rule AList_update_all) (auto simp: list_all_iff)
  then have "snd ` set (AList.update requested actual (wrote s)) \<subseteq> insert actual (snd ` set (wrote s))"
    by (auto simp: list_all_iff)
  then show ?thesis using assms by (auto simp: session_ok_def AList_update_all)
qed

lemma keeps_add_handle:
  "file_mode_of s = ReadOnly \<longrightarrow> \<not> writable_handle h \<Longrightarrow> keeps s (add_handle i h)"
  by (auto simp: keeps_def add_handle_def Let_def session_ok_handle same_share_def)

text \<open>The exclusive creation: what is opened is new, inside the share, and remembered.\<close>

definition exclusive_options :: open_options where
  "exclusive_options =
     \<lparr>oo_read = False, oo_write = True, oo_append = False, oo_create = False, oo_truncate = False,
      oo_create_new = True\<rparr>"

lemma exclusive_options [simp]: "options_for (flag_write OR flag_create) True = exclusive_options"
  by (simp add: options_for_def contains_def flag_read_def flag_write_def flag_create_def exclusive_options_def)

lemma snd_open_exclusive:
  "rooted s \<Longrightarrow> open_file D p (flag_write OR flag_create) True s = ask (fs_open D) (COpen p exclusive_options) s"
  by (simp add: open_file_def)

lemma call_ok_exclusive: "write_only (file_mode_of s) \<Longrightarrow> confined p \<Longrightarrow> call_ok s (COpen p exclusive_options)"
  by (cases "file_mode_of s") (simp_all add: call_ok_def exclusive_options_def)

lemma ask_created:
  "fst (ask f (COpen p exclusive_options) s) = Inr x \<Longrightarrow> p \<in> created (calls (snd (ask f (COpen p exclusive_options) s)))"
  by (auto simp: ask_def exclusive_options_def split: prod.splits)

text \<open>One attempt to create \<open>actual\<close> and remember it.\<close>

lemma create_attempt:
  assumes "session_ok s" "write_only (file_mode_of s)" "confined actual"
    and "open_file D actual (flag_write OR flag_create) True s = (r, t)"
  shows "session_ok t \<and> same_share s t \<and>
    (\<forall>f. r = Inr f \<longrightarrow> session_ok (t\<lparr>wrote := AList.update requested actual (wrote t)\<rparr>))"
proof -
  have rt: "rooted s" using assms(1,2) by (simp add: session_ok_def)
  have e: "ask (fs_open D) (COpen actual exclusive_options) s = (r, t)"
    using assms(4) rt by (simp add: snd_open_exclusive)
  have sf: "safe (\<lambda>s. call_ok s (COpen actual exclusive_options)) (ask (fs_open D) (COpen actual exclusive_options))"
    by (rule safe_ask)
  have ok: "session_ok t" "after s t"
    using safeD [OF sf call_ok_exclusive [OF assms(2,3)]] assms(1) by (simp_all add: e)
  then show ?thesis
    using ask_created [of "fs_open D" actual s] session_ok_wrote [OF ok(1) assms(3)] by (auto simp: e after_same_share)
qed

lemma confined_sibling:
  assumes "plain_clock D" "path_of s path = Inr requested" "rooted s" "fresh_sibling D requested u = (actual, v)"
  shows "confined actual \<and> (\<exists>w. v = u\<lparr>disk := w\<rparr>)"
proof -
  obtain now rnd w where f: "fresh_name D (disk u) = ((now, rnd), w)" by (metis prod.exhaust)
  have "CHR ''/'' \<notin> set now" "CHR 0x00 \<notin> set now"
    using assms(1) unfolding plain_clock_def by (metis f fst_conv)+
  then show ?thesis
    using assms(2,3,4) unique_path_confined by (auto simp: fresh_sibling_def f path_of_def)
qed

lemma keeps_create_exclusive:
  assumes "plain_clock D" "path_of s path = Inr requested" "write_only (file_mode_of s)"
  shows "keeps s (create_exclusive D requested)"
proof -
  have "session_ok (snd (create_exclusive D requested s)) \<and> same_share s (snd (create_exclusive D requested s))"
    if ok: "session_ok s"
  proof -
    have rt: "rooted s" using ok assms(3) by (simp add: session_ok_def)
    have conf: "confined requested" using assms(2) rt path_of_inside [OF assms(2)] by (simp add: inside_def)
    obtain actual v where av: "(if file_mode_of s = WriteOnly then fresh_sibling D requested s else (requested, s)) = (actual, v)"
      by (metis prod.exhaust)
    obtain w where v: "confined actual" "v = s\<lparr>disk := w\<rparr>"
      using av confined_sibling [OF assms(1,2) rt, of s actual v] conf
      by (cases "file_mode_of s = WriteOnly") (auto intro: that [of "disk s"])
    obtain r t where rt1: "open_file D actual (flag_write OR flag_create) True v = (r, t)" by (metis prod.exhaust)
    have at1: "session_ok t \<and> same_share s t \<and>
        (\<forall>f. r = Inr f \<longrightarrow> session_ok (t\<lparr>wrote := AList.update requested actual (wrote t)\<rparr>))"
      using create_attempt [OF _ _ v(1) rt1, of requested] ok assms(3) by (simp add: v(2) same_share_def)
    show ?thesis
    proof (cases "file_mode_of t = WriteOnlyPlus \<and> r = Inl IoAlreadyExists")
      case False
      then show ?thesis using at1
        by (cases r) (auto simp: create_exclusive_def av rt1 Let_def same_share_def)
    next
      case True
      obtain actual2 u where u: "fresh_sibling D requested t = (actual2, u)" by (metis prod.exhaust)
      obtain w2 where u2: "confined actual2" "u = t\<lparr>disk := w2\<rparr>"
        using confined_sibling [OF assms(1,2) rt u] by blast
      obtain r2 t2 where rt2: "open_file D actual2 (flag_write OR flag_create) True u = (r2, t2)" by (metis prod.exhaust)
      have "session_ok t2 \<and> same_share s t2 \<and>
          (\<forall>f. r2 = Inr f \<longrightarrow> session_ok (t2\<lparr>wrote := AList.update requested actual2 (wrote t2)\<rparr>))"
        using create_attempt [OF _ _ u2(1) rt2, of requested] at1 True by (simp add: u2(2) same_share_def)
      then show ?thesis
        using True by (cases r2) (auto simp: create_exclusive_def av rt1 u rt2 Let_def same_share_def)
    qed
  qed
  then show ?thesis by (simp add: keeps_def)
qed

lemma keeps_bind:
  assumes "keeps s m" "\<And>x t. session_ok t \<Longrightarrow> same_share s t \<Longrightarrow> keeps t (k x)"
  shows "keeps s (then_do m k)"
proof -
  have "session_ok s \<Longrightarrow> session_ok (snd (m s)) \<and> same_share s (snd (m s))"
    using assms(1) by (simp add: keeps_def)
  then show ?thesis
    using assms(2) [of "snd (m s)"] by (auto simp: keeps_def snd_then_do dest: same_share_trans split: sum.split)
qed

lemma keeps_checked: "call_ok s c \<Longrightarrow> keeps s (checked f c)"
  by (rule keeps_safe [where P = "\<lambda>s. call_ok s c"]) (auto intro: safe_checked)

lemma same_shareD: "same_share s t \<Longrightarrow> path_of t = path_of s" "same_share s t \<Longrightarrow> file_mode_of t = file_mode_of s"
  "same_share s t \<Longrightarrow> rooted t = rooted s" "same_share s t \<Longrightarrow> inside t p = inside s p"
  by (auto simp: same_share_def path_of_def inside_def intro!: ext)

lemma mutating_bits:
  assumes "\<not> mutating_flags flags"
  shows "\<not> contains flags flag_write" "\<not> contains flags flag_append" "\<not> contains flags flag_create"
    "\<not> contains flags flag_truncate" "\<not> contains flags flag_exclude"
proof -
  have z: "flags AND (flag_write OR flag_append OR flag_create OR flag_truncate OR flag_exclude) = 0"
    using assms by (simp add: mutating_flags_def)
  have *: "flags AND f = 0" if "f AND (flag_write OR flag_append OR flag_create OR flag_truncate OR flag_exclude) = f" for f
  proof -
    have "flags AND f = (flags AND (flag_write OR flag_append OR flag_create OR flag_truncate OR flag_exclude)) AND f"
      using that by (metis and.assoc and.commute)
    then show ?thesis by (simp add: z)
  qed
  note ds = flag_write_def flag_append_def flag_create_def flag_truncate_def flag_exclude_def
  show "\<not> contains flags flag_write" using * [of flag_write] by (simp add: contains_def ds)
  show "\<not> contains flags flag_append" using * [of flag_append] by (simp add: contains_def ds)
  show "\<not> contains flags flag_create" using * [of flag_create] by (simp add: contains_def ds)
  show "\<not> contains flags flag_truncate" using * [of flag_truncate] by (simp add: contains_def ds)
  show "\<not> contains flags flag_exclude" using * [of flag_exclude] by (simp add: contains_def ds)
qed

lemma call_ok_open:
  assumes "\<not> write_only (file_mode_of s)" "file_mode_of s = ReadOnly \<longrightarrow> \<not> mutating_flags flags" "inside s p"
  shows "call_ok s (COpen p (options_for flags False))"
  using assms mutating_bits [of flags]
  by (cases "file_mode_of s") (auto simp: call_ok_def inside_def options_for_def)

lemma keeps_rq_open:
  assumes "plain_clock D"
  shows "keeps s (rq_open D i filename flags)"
proof (cases "file_mode_of s = ReadOnly \<and> mutating_flags flags")
  case True
  then show ?thesis by (simp add: keeps_def rq_open_def)
next
  case False
  let ?m = "\<lambda>requested s.
          if write_only (file_mode_of s) then
            (if contains flags flag_read \<or> \<not> contains flags (flag_write OR flag_create) then (Inl PermissionDenied, s)
             else if file_mode_of s = WriteOnly \<and> (requested = ''.'' \<or> length (components requested) \<noteq> 1)
             then (Inl PermissionDenied, s)
             else create_exclusive D requested s)
          else (case open_file D requested flags False s of (r, s) \<Rightarrow> (map_sum status_of (\<lambda>x. x) r, s))"
  have m: "keeps s (?m requested)" if p: "path_of s filename = Inr requested" for requested
  proof (cases "write_only (file_mode_of s)")
    case True
    then show ?thesis
      using keeps_create_exclusive [OF assms p True] by (auto simp: keeps_def)
  next
    case wo: False
    then have "keeps s (checked (fs_open D) (COpen requested (options_for flags False)))"
      using False path_of_inside [OF p] by (intro keeps_checked call_ok_open) auto
    then show ?thesis using wo by (simp add: keeps_def open_file_def checked_def)
  qed
  have "keeps s (then_do (give (path_of s filename)) (\<lambda>requested.
        then_do (?m requested) (\<lambda>f. add_handle i (FileHandle f (contains flags flag_read) (contains flags flag_write)))))"
    using False mutating_bits(1) [of flags]
    by (intro keeps_then_give keeps_bind m keeps_add_handle) (auto simp: same_shareD)
  then show ?thesis by (rule keeps_at [rotated]) (use False in \<open>auto simp: rq_open_def\<close>)
qed

lemma push_inside:
  assumes "path_of s path = Inr p" "plain n"
  shows "inside s (push p n)"
proof (cases "rooted s")
  case True
  with assms have "relative path = Inr p" by (simp add: path_of_def)
  then have "confined (push p n)"
  proof (cases rule: relative_parts)
    case root
    have "confined (''./'' @ n)"
      using assms(2) by (auto simp: confined_def is_absolute_def starts_with_def components_def plain_def component_of_def
          split_on_id Let_def)
    then show ?thesis using assms(2) by (simp add: root push_def ends_with_single)
  next
    case (names ps)
    have "push p n = join_parts (ps @ [n])"
      using assms(2) names collect_join [of ps] collect_join [of "ps @ [n]"] by (simp add: collect_path_def)
    then show ?thesis using names assms(2) by (simp add: confined_join)
  qed
  then show ?thesis by (simp add: inside_def)
qed (simp add: inside_def)

lemma keeps_read_entries:
  assumes "path_of s path = Inr p" "\<forall>n. Inr n \<in> set es \<longrightarrow> plain n" "\<not> write_only (file_mode_of s)"
  shows "keeps s (read_entries D p es)"
  using assms
proof (induction es arbitrary: s)
  case Nil
  then show ?case by (simp add: keeps_def)
next
  case (Cons e es)
  have meta: "keeps s (metadata D (push p name) False)" if "e = Inr name" for name
    using Cons.prems push_inside [of s path p name] that
    by (intro keeps_safe [OF safe_metadata] call_ok_free) (auto simp: inside_def)
  have rest: "keeps t (read_entries D p es)" if "same_share s t" for t
    using Cons.prems that by (intro Cons.IH) (auto simp: same_shareD)
  have "keeps s (then_do (give (map_sum status_of (\<lambda>x. x) e)) (\<lambda>name.
     then_do (metadata D (push p name) False) (\<lambda>a.
     then_do (read_entries D p es) (\<lambda>rest. give (Inr ((name, Some a) # rest))))))"
    by (intro keeps_then_give keeps_bind meta rest keeps_give) (auto simp: map_sum_def dest: same_share_trans split: sum.splits)
  then show ?case by (rule keeps_at [rotated]) simp
qed

lemma keeps_rq_opendir:
  assumes "plain_entries D"
  shows "keeps s (rq_opendir D i path)"
proof (cases "write_only (file_mode_of s)")
  case True
  then show ?thesis by (simp add: keeps_def rq_opendir_def)
next
  case False
  have list: "keeps s (then_do (checked (fs_list D) (CReadDir p)) (\<lambda>es.
        then_do (read_entries D p es) (\<lambda>es. add_handle i (DirHandle (sort_entries es) 0))))" (is "keeps s (then_do ?m ?k)")
    if p: "path_of s path = Inr p" for p
  proof -
    have ok: "call_ok s (CReadDir p)"
      using False path_of_inside [OF p] by (intro call_ok_free) (auto simp: inside_def)
    show ?thesis
    proof (rule keeps_then [where P = "\<lambda>s. call_ok s (CReadDir p)"])
      show "safe (\<lambda>s. call_ok s (CReadDir p)) ?m" by (rule safe_checked)
      show "call_ok s (CReadDir p)" by (rule ok)
      fix es assume a: "after s (snd (?m s))" and es: "fst (?m s) = Inr es"
      have "\<forall>n. Inr n \<in> set es \<longrightarrow> plain n"
      proof -
        have "fst (fs_list D (disk s) (rooted s) (CReadDir p)) = Inr es"
          using es by (auto simp: checked_def ask_def map_sum_def split: sum.splits prod.splits)
        then show ?thesis using assms unfolding plain_entries_def by (metis prod.collapse)
      qed
      then show "keeps (snd (?m s)) (?k es)"
        using False p same_shareD [OF after_same_share [OF a]]
        by (intro keeps_bind keeps_read_entries [where path = path] keeps_add_handle) auto
    qed
  qed
  have "keeps s (then_do (give (path_of s path)) (\<lambda>path.
        then_do (checked (fs_list D) (CReadDir path)) (\<lambda>es.
        then_do (read_entries D path es) (\<lambda>es. add_handle i (DirHandle (sort_entries es) 0)))))"
    by (intro keeps_then_give list)
  then show ?thesis by (rule keeps_at [rotated]) (use False in \<open>simp add: rq_opendir_def\<close>)
qed

lemma wrote_facts:
  assumes "session_ok s" "write_only (file_mode_of s)" "map_of (wrote s) p = Some actual"
  shows "actual \<in> created (calls s)" "confined actual" "rooted s"
proof -
  have "(p, actual) \<in> set (wrote s)" using assms(3) by (rule map_of_SomeD)
  then have "actual \<in> snd ` set (wrote s)" by force
  then show "actual \<in> created (calls s)" "confined actual" "rooted s"
    using assms(1,2) unfolding session_ok_def by (auto simp: list_all_iff)
qed

lemma keeps_stat_path:
  assumes "path_of s path = Inr p"
  shows "keeps s (stat_path D p follow)"
proof -
  have meta: "keeps s (metadata D q follow)" if "call_ok s (CMetadata q follow)" for q
    using that by (rule keeps_safe [OF safe_metadata])
  have in_p: "inside s p" by (rule path_of_inside [OF assms])
  show ?thesis
  proof (cases "write_only (file_mode_of s)")
    case False
    then have "call_ok s (CMetadata p follow)" using in_p by (intro call_ok_free) (auto simp: inside_def)
    from meta [OF this] show ?thesis by (rule keeps_at [rotated]) (simp add: stat_path_def False)
  next
    case wo: True
    show ?thesis
    proof (cases "map_of (wrote s) p")
      case (Some actual)
      have "keeps s (metadata D actual follow)" if ok: "session_ok s"
      proof (rule meta)
        show "call_ok s (CMetadata actual follow)"
          using wo wrote_facts [OF ok wo Some] by (cases "file_mode_of s") (simp_all add: call_ok_def)
      qed
      then have "keeps s (metadata D actual follow)" by (simp add: keeps_def)
      then show ?thesis by (rule keeps_at [rotated]) (simp add: stat_path_def wo Some)
    next
      case None
      show ?thesis
      proof (cases "file_mode_of s = WriteOnly \<and> p \<noteq> ''.''")
        case True
        then show ?thesis by (simp add: keeps_def stat_path_def None)
      next
        case False
        then have "call_ok s (CMetadata p follow)"
          using wo in_p by (cases "file_mode_of s") (auto simp: call_ok_def inside_def)
        from meta [OF this] have "session_ok s \<Longrightarrow> session_ok (snd (metadata D p follow s)) \<and> same_share s (snd (metadata D p follow s))"
          by (simp add: keeps_def)
        moreover have "snd (stat_path D p follow s) = snd (metadata D p follow s)"
          using False wo None by (auto simp: stat_path_def split: prod.splits sum.splits)
        ultimately show ?thesis by (simp add: keeps_def)
      qed
    qed
  qed
qed

lemma keeps_setstat_path:
  assumes "path_of s path = Inr p"
  shows "keeps s (setstat_path D p a)"
proof -
  have set: "keeps s (apply_attrs D q a)" if "session_ok s \<Longrightarrow> may_set q s" for q
    using that keeps_safe [OF safe_apply_attrs, of q s D a] by (auto simp: keeps_def)
  show ?thesis
  proof (cases "write_only (file_mode_of s)")
    case wo: True
    show ?thesis
    proof (cases "map_of (wrote s) p")
      case (Some actual)
      have "keeps s (apply_attrs D actual a)"
      proof (rule set)
        assume ok: "session_ok s"
        show "may_set actual s" using wo wrote_facts [OF ok wo Some] by (auto simp: may_set_def inside_def)
      qed
      then show ?thesis by (rule keeps_at [rotated]) (use wo in \<open>auto simp: setstat_path_def Some\<close>)
    qed (use wo in \<open>auto simp: keeps_def setstat_path_def\<close>)
  next
    case False
    show ?thesis
    proof (cases "file_mode_of s = ReadOnly")
      case True
      then show ?thesis by (simp add: keeps_def setstat_path_def)
    next
      case rw: False
      have "keeps s (apply_attrs D p a)"
        using False rw path_of_inside [OF assms] by (intro set) (simp add: may_set_def)
      then show ?thesis by (rule keeps_at [rotated]) (simp add: setstat_path_def False rw)
    qed
  qed
qed

lemma keeps_require_rw: "(\<And>x. file_mode_of s = ReadWrite \<Longrightarrow> keeps s (k x)) \<Longrightarrow> keeps s (then_do require_rw k)"
  by (cases "file_mode_of s = ReadWrite") (simp_all add: keeps_def then_do_def require_rw_def)

lemma keeps_rw_call:
  "file_mode_of s = ReadWrite \<Longrightarrow> list_all (inside s) (call_paths c) \<Longrightarrow> keeps s (checked f c)"
  by (intro keeps_checked call_ok_free) (auto simp: inside_def list_all_iff)

lemma keeps_rename_file: "keeps s (rename_file D old new)"
  by (rule keeps_at [OF rename_file_def])
    (auto intro!: keeps_require_rw keeps_then_give keeps_rw_call dest: path_of_inside)

lemma keeps_on_path: "(\<And>p. call_paths (c p) = [p]) \<Longrightarrow> keeps s (on_path D c path)"
  by (rule keeps_at [OF on_path_def])
    (auto intro!: keeps_require_rw keeps_then_give keeps_rw_call dest: path_of_inside)

lemma keeps_rq_symlink: "keeps s (rq_symlink D linkpath targetpath)"
proof -
  have "keeps s (then_do require_rw (\<lambda>_.
     then_do (give (if rooted s then relative linkpath else path_of s linkpath)) (\<lambda>target.
     then_do (give (path_of s targetpath)) (\<lambda>link. checked (fs_unit D) (CSymlink target link)))))"
    by (intro keeps_require_rw keeps_then_give keeps_rw_call)
      (auto dest: path_of_inside relative_confined simp: inside_def split: if_splits)
  then show ?thesis by (rule keeps_at [rotated]) (rule rq_symlink_def)
qed

lemma keeps_ok: "(session_ok s \<Longrightarrow> keeps s m) \<Longrightarrow> keeps s m"
  by (simp add: keeps_def)

lemma keeps_and_ok: "keeps s m \<Longrightarrow> keeps s (and_ok i m)"
  unfolding and_ok_def by (rule keeps_bind) simp_all

lemma keeps_rq_readlink: "keeps s (rq_readlink D i path)"
proof (cases "write_only (file_mode_of s)")
  case True
  then show ?thesis by (simp add: keeps_def rq_readlink_def)
next
  case False
  have "keeps s (then_do (give (path_of s path)) (\<lambda>path.
      then_do (checked (fs_text D) (CReadLink path)) (\<lambda>t. give (Inr (RsName i [(t, None)])))))"
    using False path_of_inside [of s path]
    by (intro keeps_then_give keeps_bind keeps_checked call_ok_free) (auto simp: inside_def)
  then show ?thesis by (rule keeps_at [rotated]) (simp add: rq_readlink_def False)
qed

lemma keeps_cond: "(b \<Longrightarrow> keeps s f) \<Longrightarrow> (\<not> b \<Longrightarrow> keeps s g) \<Longrightarrow> keeps s (if b then f else g)"
  by simp

lemma keeps_rq_extended: "keeps s (rq_extended D i name data)"
proof -
  have sync: "keeps s (case map_of (handles s) h of
      Some (FileHandle f _ _) \<Rightarrow> then_do (checked (fs_unit D) (FSync f)) (\<lambda>_. give (Inr (RsOk i)))
    | _ \<Rightarrow> give (Inl Failure))" for h
    by (auto intro!: keeps_bind keeps_checked call_ok_handle split: option.split open_handle.split)
  have stat: "keeps s (then_do (give (path_of s first)) (\<lambda>path.
         then_do (checked (fs_bytes D) (CStatVfs path)) (\<lambda>b. give (Inr (RsExtended i b)))))"
    if "\<not> rooted s" for first
  proof (rule keeps_ok)
    assume "session_ok s"
    with that have "\<not> write_only (file_mode_of s)" by (auto simp: session_ok_def)
    then show ?thesis using that
      by (intro keeps_then_give keeps_bind keeps_checked call_ok_free keeps_give) auto
  qed
  have link: "keeps s (then_do require_rw (\<lambda>_.
         then_do (give (path_of s first)) (\<lambda>src.
         then_do (give (read_string_field rest)) (\<lambda>(second, _).
         then_do (give (path_of s second)) (\<lambda>dst.
         then_do (checked (fs_unit D) (CHardLink src dst)) (\<lambda>_. give (Inr (RsOk i))))))))" for first rest
  proof (intro keeps_require_rw keeps_then_give)
    fix src x
    assume rw: "file_mode_of s = ReadWrite" and src: "path_of s first = Inr src"
    have "keeps s (then_do (give (path_of s second)) (\<lambda>dst.
         then_do (checked (fs_unit D) (CHardLink src dst)) (\<lambda>_. give (Inr (RsOk i)))))" for second
      using rw path_of_inside [OF src] path_of_inside [of s second]
      by (intro keeps_then_give keeps_bind keeps_rw_call keeps_give) auto
    then show "keeps s (case x of (second, _) \<Rightarrow> then_do (give (path_of s second)) (\<lambda>dst.
         then_do (checked (fs_unit D) (CHardLink src dst)) (\<lambda>_. give (Inr (RsOk i)))))"
      by (cases x) simp
  qed
  have ren: "keeps s (then_do (give (read_string_field rest)) (\<lambda>(second, _).
         then_do (rename_file D first second) (\<lambda>_. give (Inr (RsOk i)))))" for first rest
  proof (rule keeps_then_give)
    show "keeps s (case x of (second, _) \<Rightarrow> then_do (rename_file D first second) (\<lambda>_. give (Inr (RsOk i))))" for x
      by (cases x) (simp add: keeps_bind [OF keeps_rename_file])
  qed
  have "keeps s (if name = ''posix-rename@openssh.com'' then
         then_do (give (read_string_field rest)) (\<lambda>(second, _).
         then_do (rename_file D first second) (\<lambda>_. give (Inr (RsOk i))))
       else if name = ''hardlink@openssh.com'' then
         then_do require_rw (\<lambda>_.
         then_do (give (path_of s first)) (\<lambda>src.
         then_do (give (read_string_field rest)) (\<lambda>(second, _).
         then_do (give (path_of s second)) (\<lambda>dst.
         then_do (checked (fs_unit D) (CHardLink src dst)) (\<lambda>_. give (Inr (RsOk i)))))))
       else if name = ''fsync@openssh.com'' then
         (case map_of (handles s) first of
            Some (FileHandle f _ _) \<Rightarrow> then_do (checked (fs_unit D) (FSync f)) (\<lambda>_. give (Inr (RsOk i)))
          | _ \<Rightarrow> give (Inl Failure))
       else if name = ''statvfs@openssh.com'' \<and> \<not> rooted s then
         then_do (give (path_of s first)) (\<lambda>path.
         then_do (checked (fs_bytes D) (CStatVfs path)) (\<lambda>b. give (Inr (RsExtended i b))))
       else give (Inl OpUnsupported))" for first rest
    by (intro keeps_cond ren link sync stat keeps_give) (erule conjunct2)
  then have "keeps s (extended_request D i name first rest)" for first rest
    by (simp only: keeps_def extended_request_def)
  then show ?thesis unfolding rq_extended_def by (intro keeps_then_give) (auto split: prod.split)
qed

lemma keeps_rq_mkdir: "keeps s (rq_mkdir D i path)"
proof (cases "file_mode_of s = ReadOnly \<or> file_mode_of s = WriteOnly")
  case True
  then show ?thesis by (auto simp: keeps_def rq_mkdir_def)
next
  case False
  let ?k = "\<lambda>path _ s. (Inr (RsOk i), if write_only (file_mode_of s) then s\<lparr>wrote := AList.update path path (wrote s)\<rparr> else s)"
  have "keeps s (then_do (checked (fs_unit D) (CCreateDir p)) (?k p))" if p: "path_of s path = Inr p" for p
  proof (rule keeps_then [where P = "\<lambda>s. call_ok s (CCreateDir p)"])
    let ?m = "checked (fs_unit D) (CCreateDir p)"
    show "safe (\<lambda>s. call_ok s (CCreateDir p)) ?m" by (rule safe_checked)
    show "call_ok s (CCreateDir p)"
      using False path_of_inside [OF p] by (cases "file_mode_of s") (auto simp: call_ok_def inside_def)
    fix x assume a: "after s (snd (?m s))" and x: "fst (?m s) = Inr x"
    have c: "p \<in> created (calls (snd (?m s)))"
      using x by (auto simp: checked_def ask_def map_sum_def split: sum.splits prod.splits)
    have "session_ok (snd (?m s)) \<Longrightarrow> write_only (file_mode_of (snd (?m s))) \<Longrightarrow> confined p"
      using path_of_inside [OF p] after_same_share [OF a] by (auto simp: session_ok_def inside_def same_share_def)
    with c show "keeps (snd (?m s)) (?k p x)"
      by (auto simp: keeps_def same_share_def intro!: session_ok_wrote)
  qed
  then have "keeps s (then_do (give (path_of s path)) (\<lambda>p. then_do (checked (fs_unit D) (CCreateDir p)) (?k p)))"
    by (intro keeps_then_give)
  then show ?thesis by (rule keeps_at [rotated]) (use False in \<open>auto simp: rq_mkdir_def\<close>)
qed

lemma keeps_handle_call:
  assumes "\<And>f r w. map_of (handles s) h = Some (FileHandle f r w) \<Longrightarrow> keeps s (k f r w)"
    and "m s = (case map_of (handles s) h of Some (FileHandle f r w) \<Rightarrow> k f r w s | _ \<Rightarrow> (Inl e, s))"
  shows "keeps s m"
  using assms by (auto simp: keeps_def split: option.splits open_handle.splits)

lemma keeps_rq_read: "keeps s (rq_read D i h offset len)"
proof (cases "write_only (file_mode_of s)")
  case True
  then show ?thesis by (simp add: keeps_def rq_read_def)
next
  case False
  have k: "keeps s (then_do (checked (fs_unit D) (FSeek f offset)) (\<lambda>_.
      then_do (checked (fs_bytes D) (FRead f n)) (\<lambda>data. give (if data = [] then Inl Eof else Inr (RsData i data)))))" for f n
    using False by (intro keeps_bind keeps_checked call_ok_handle keeps_give) (simp add: same_shareD)
  then show ?thesis
    using False by (auto simp: keeps_def rq_read_def split: option.split open_handle.split bool.split)
qed

lemma keeps_rq_write: "keeps s (rq_write D i h offset data)"
proof -
  have k: "keeps s (then_do (checked (fs_unit D) (FSeek f offset)) (\<lambda>_.
      then_do (checked (fs_unit D) (FWrite f data)) (\<lambda>_. give (Inr (RsOk i)))))"
    if "session_ok s" "map_of (handles s) h = Some (FileHandle f r True)" for f r
  proof -
    have "file_mode_of s \<noteq> ReadOnly"
      using that map_of_SomeD [OF that(2)] by (auto simp: session_ok_def list_all_iff)
    then show ?thesis by (intro keeps_bind keeps_checked call_ok_handle keeps_give) (simp add: same_shareD)
  qed
  then show ?thesis by (auto simp: keeps_def rq_write_def split: option.split open_handle.split bool.split)
qed

lemma keeps_rq_fsetstat: "keeps s (rq_fsetstat D i h a)"
proof (rule keeps_ok)
  assume ok: "session_ok s"
  have k: "keeps s (then_do (set_file_attrs D f a (\<not> rooted s)) (\<lambda>_. give (Inr (RsOk i))))"
    if "file_mode_of s \<noteq> ReadOnly" for f
  proof (rule keeps_bind [OF keeps_safe [OF safe_set_file_attrs]])
    show "file_mode_of s \<noteq> ReadOnly \<and> (\<not> rooted s \<longrightarrow> file_mode_of s = ReadWrite)"
      using ok that by (cases "file_mode_of s") (auto simp: session_ok_def)
  qed simp
  then show ?thesis by (auto simp: keeps_def rq_fsetstat_def split: option.split open_handle.split)
qed

lemma keeps_removal [simp]: "keeps s (on_path D CRemoveFile path)" "keeps s (on_path D CRemoveDir path)"
  by (rule keeps_on_path; simp)+

lemma keeps_serve:
  assumes "plain_clock D" "plain_entries D"
  shows "keeps s (serve D r)"
proof (cases r)
  case RqInit
  then show ?thesis by (auto simp: keeps_def rq_init_def same_share_def)
next
  case (RqClose i h)
  then show ?thesis by (auto simp: keeps_def same_share_def session_ok_def AList_delete_all)
next
  case (RqReadDir i h)
  then show ?thesis
    by (auto simp: keeps_def rq_readdir_def Let_def same_share_def intro!: session_ok_handle(2)
        split: option.split open_handle.split)
next
  case (RqFstat i h)
  have "keeps s (then_do (checked (fs_attrs D) (FMetadata f)) (\<lambda>a. give (Inr (RsAttrs i a))))" for f
    by (intro keeps_bind keeps_checked call_ok_handle keeps_give)
  then show ?thesis by (auto simp: RqFstat keeps_def split: option.split open_handle.split)
next
  case (RqStat i path)
  show ?thesis unfolding RqStat serve.simps
    by (rule keeps_at [OF rq_stat_def]) (intro keeps_then_give keeps_bind keeps_stat_path keeps_give)
next
  case (RqLstat i path)
  show ?thesis unfolding RqLstat serve.simps
    by (rule keeps_at [OF rq_stat_def]) (intro keeps_then_give keeps_bind keeps_stat_path keeps_give)
next
  case (RqSetStat i path a)
  have "keeps s (and_ok i (then_do (give (path_of s path)) (\<lambda>path. setstat_path D path a)))"
    by (intro keeps_and_ok keeps_then_give keeps_setstat_path)
  then show ?thesis unfolding RqSetStat serve.simps by (rule keeps_at [rotated]) simp
next
  case (RqRealPath i path)
  show ?thesis unfolding RqRealPath serve.simps
    by (rule keeps_at [OF rq_realpath_def]) (intro keeps_then_give, simp add: Let_def)
qed (auto intro: keeps_rq_open assms keeps_rq_read keeps_rq_write keeps_rq_fsetstat keeps_rq_opendir keeps_rq_mkdir
    keeps_and_ok keeps_rename_file keeps_rq_readlink keeps_rq_symlink keeps_rq_extended)

end
