(* ===== verification/FilesProps.thy ===== *)
theory FilesProps
  imports FilesPolicy "HOL-Library.Multiset"
begin

text \<open>
  The properties of the file service: the access policy over whole sessions, the paths it uses, one
  answer per request, fresh handles, complete listings, and the extended requests.
\<close>

section \<open>Sessions\<close>

lemma process_serve:
  "snd (process D r s) = (if r \<noteq> RqInit \<and> \<not> initialized s then s else snd (serve D r s))"
  by (simp add: process_def dispatch_def split: prod.split sum.split)

lemma process_ok:
  assumes "plain_clock D" "plain_entries D" "session_ok s"
  shows "session_ok (snd (process D r s)) \<and> same_share s (snd (process D r s))"
  using keeps_serve [OF assms(1,2), of s r] assms(3) by (simp add: process_serve keeps_def)

lemma session_run_ok:
  assumes "plain_clock D" "plain_entries D" "session_ok s"
  shows "session_ok (snd (session_run D rs s)) \<and> same_share s (snd (session_run D rs s))"
  using assms(3)
proof (induction rs arbitrary: s)
  case Nil
  then show ?case by simp
next
  case (Cons r rs)
  have p: "session_ok (snd (process D r s)) \<and> same_share s (snd (process D r s))"
    by (rule process_ok [OF assms(1,2) Cons.prems])
  then have "session_ok (snd (session_run D rs (snd (process D r s)))) \<and>
      same_share (snd (process D r s)) (snd (session_run D rs (snd (process D r s))))"
    using Cons.IH by blast
  with p show ?case by (auto split: prod.splits dest: same_share_trans)
qed

lemma session_ok_new [simp]: "session_ok (files_new home share w)"
  by (cases share) (auto simp: session_ok_def files_new_def)

section \<open>An environment to evaluate in\<close>

definition ref_attrs :: file_attrs where
  "ref_attrs = \<lparr>fa_size = Some 3, fa_uid = None, fa_gid = None, fa_permissions = None, fa_atime = None, fa_mtime = None\<rparr>"

definition ref_disk :: "unit disk_env" where
  "ref_disk =
     \<lparr>fs_unit = (\<lambda>w _ _. (Inr (), w)),
      fs_meta = (\<lambda>w _ _. (Inr \<lparr>m_len = 3, m_mode = 0x1A4, m_uid = 0, m_gid = 0, m_atime = 0, m_mtime = -1\<rparr>, w)),
      fs_attrs = (\<lambda>w _ _. (Inr ref_attrs, w)), fs_open = (\<lambda>w _ _. (Inr 7, w)),
      fs_list = (\<lambda>w _ _. (Inr [], w)), fs_bytes = (\<lambda>w _ _. (Inr [1], w)), fs_text = (\<lambda>w _ _. (Inr ''t'', w)),
      attrs_is_dir = (\<lambda>_. True), fresh_name = (\<lambda>w. ((''20240101000000'', 5), w))\<rparr>"

lemma ref_disk_plain [simp]: "plain_clock ref_disk" "plain_entries ref_disk"
  by (simp_all add: plain_clock_def plain_entries_def ref_disk_def)

text \<open>The identifier an answer carries.\<close>

fun response_id :: "response \<Rightarrow> u32" where
  "response_id (RsVersion _) = 0"
| "response_id (RsHandle i _) = i"
| "response_id (RsData i _) = i"
| "response_id (RsAttrs i _) = i"
| "response_id (RsName i _) = i"
| "response_id (RsExtended i _) = i"
| "response_id (RsOk i) = i"
| "response_id (RsError i _) = i"

definition answers :: "u32 \<Rightarrow> response fx \<times> 's \<Rightarrow> bool" where
  "answers i r \<longleftrightarrow> (\<forall>a. fst r = Inr a \<longrightarrow> response_id a = i)"

lemma answers_then: "(\<And>x t. answers i (k x t)) \<Longrightarrow> answers i (then_do m k s)"
  by (auto simp: then_do_def answers_def split: prod.split sum.split)

lemma answers_base [simp]:
  "answers i (give (Inl e) s)" "answers i (Inl e, s)" "response_id a = i \<Longrightarrow> answers i (give (Inr a) s)"
  "response_id a = i \<Longrightarrow> answers i (Inr a, s)" "answers i (add_handle i h s)" "answers i (and_ok i m s)"
  by (auto simp: answers_def give_def add_handle_def Let_def and_ok_def then_do_def split: prod.split sum.split)

lemma answers_ops [simp]:
  "answers i (rq_open D i filename flags s)" "answers i (rq_opendir D i path s)" "answers i (rq_mkdir D i path s)"
  "answers i (rq_stat D i path follow s)" "answers i (rq_realpath i path s)" "answers i (rq_readlink D i path s)"
  by (simp_all add: rq_open_def rq_opendir_def rq_mkdir_def rq_stat_def rq_realpath_def rq_readlink_def Let_def answers_then)

lemma answers_readdir [simp]: "answers i (rq_readdir i h s)"
  by (auto simp: rq_readdir_def Let_def split: option.split open_handle.split)

lemma answers_read [simp]: "answers i (rq_read D i h offset len s)"
proof -
  have "answers i (then_do (checked (fs_unit D) (FSeek f offset)) (\<lambda>_.
          then_do (checked (fs_bytes D) (FRead f n)) (\<lambda>data.
          give (if data = [] then Inl Eof else Inr (RsData i data)))) s)" for f n
    by (simp add: answers_then)
  then show ?thesis by (simp add: rq_read_def split: option.split open_handle.split bool.split)
qed

lemma answers_handle_ops [simp]:
  "answers i (rq_write D i h offset data s)" "answers i (rq_fsetstat D i h a s)" "answers i (serve D (RqFstat i h) s)"
  by (simp_all add: rq_write_def rq_fsetstat_def answers_then split: option.split open_handle.split bool.split)

lemma answers_extended [simp]: "answers i (rq_extended D i name data s)"
proof -
  have "answers i (extended_request D i name first rest t)" for first rest t
    unfolding extended_request_def
    by (simp add: answers_then split_beta split: option.split open_handle.split)
  then show ?thesis by (simp add: rq_extended_def answers_then split_beta)
qed

lemma serve_answers: "answers (request_id r) (serve D r s)"
proof (cases r)
  case (RqFstat i h)
  show ?thesis unfolding RqFstat request_id.simps by (rule answers_handle_ops(3))
qed (simp_all add: rq_init_def)

lemma process_answers: "response_id (fst (process D r s)) = request_id r"
  using serve_answers [of r D s]
  by (auto simp: process_def dispatch_def answers_def split: prod.split sum.split)

lemma process_uninitialized:
  "\<not> initialized s \<Longrightarrow> r \<noteq> RqInit \<Longrightarrow> process D r s = (RsError (request_id r) BadMessage, s)"
  by (simp add: process_def dispatch_def)

section \<open>Listings\<close>

lemma then_do_InrE:
  assumes "then_do m k s = (Inr b, t)"
  obtains x u where "m s = (Inr x, u)" "k x u = (Inr b, t)"
  using assms by (auto simp: then_do_def split: prod.splits sum.splits)

lemma checked_initialized: "checked f c s = (r, t) \<Longrightarrow> initialized t = initialized s"
  by (auto simp: checked_def ask_def split: prod.splits)

lemma metadata_initialized: "metadata D p follow s = (r, t) \<Longrightarrow> initialized t = initialized s"
  by (auto simp: metadata_def then_do_def give_def dest: checked_initialized split: if_splits prod.splits sum.splits)

lemma read_entries_names:
  assumes "read_entries D p es s = (Inr out, t)"
  shows "es = map (\<lambda>e. Inr (fst e)) out \<and> initialized t = initialized s"
  using assms
proof (induction es arbitrary: s out t)
  case (Cons e es)
  from Cons.prems [unfolded read_entries.simps] obtain name s1 where e: "map_sum status_of (\<lambda>x. x) e = Inr name" "s1 = s"
    and m: "then_do (metadata D (push p name) False) (\<lambda>a.
       then_do (read_entries D p es) (\<lambda>rest. give (Inr ((name, Some a) # rest)))) s1 = (Inr out, t)"
    by (rule then_do_InrE) (simp add: give_def)
  from m obtain a u where u: "metadata D (push p name) False s1 = (Inr a, u)"
    and r: "then_do (read_entries D p es) (\<lambda>rest. give (Inr ((name, Some a) # rest))) u = (Inr out, t)"
    by (rule then_do_InrE)
  from r obtain rest v where v: "read_entries D p es u = (Inr rest, v)" and out: "out = (name, Some a) # rest" "t = v"
    by (rule then_do_InrE) (simp add: give_def)
  have "e = Inr name" using e(1) by (cases e) simp_all
  then show ?case using Cons.IH [OF v] metadata_initialized [OF u] e(2) out by simp
qed simp

lemma opendir_handle:
  assumes "rq_opendir D i path s = (Inr a, t)" "path_of s path = Inr p"
    and "fst (fs_list D (disk s) (rooted s) (CReadDir p)) = Inr (map Inr names)"
  obtains h es where "a = RsHandle i h" "map_of (handles t) h = Some (DirHandle es 0)"
    "sorted (map (\<lambda>e. map of_char (fst e) :: nat list) es)" "mset (map fst es) = mset names"
    "initialized t = initialized s"
proof -
  from assms(1,2) have "then_do (checked (fs_list D) (CReadDir p)) (\<lambda>es.
        then_do (read_entries D p es) (\<lambda>es. add_handle i (DirHandle (sort_entries es) 0))) s = (Inr a, t)"
    by (auto simp: rq_opendir_def then_do_def give_def split: if_splits)
  then obtain l u where l: "checked (fs_list D) (CReadDir p) s = (Inr l, u)"
    and k: "then_do (read_entries D p l) (\<lambda>es. add_handle i (DirHandle (sort_entries es) 0)) u = (Inr a, t)"
    by (rule then_do_InrE)
  have "l = map Inr names"
    using l assms(3) by (auto simp: checked_def ask_def map_sum_def split: prod.splits sum.splits)
  moreover from k obtain es v where es: "read_entries D p l u = (Inr es, v)"
    and h: "add_handle i (DirHandle (sort_entries es) 0) v = (Inr a, t)"
    by (rule then_do_InrE)
  ultimately have "map Inr (map fst es) = (map Inr names :: (io_kind + string) list)"
    using read_entries_names [OF es] by (simp add: comp_def)
  then have n: "map fst es = names" by (rule map_injective) (simp add: inj_def)
  have "mset (sort_entries es) = mset es" "sorted (map (\<lambda>e. map of_char (fst e) :: nat list) (sort_entries es))"
    by (simp_all add: sort_entries_def)
  moreover from this(1) have "mset (map fst (sort_entries es)) = mset names" by (simp add: mset_map flip: n)
  moreover have "initialized t = initialized s"
    using h read_entries_names [OF es] checked_initialized [OF l] by (auto simp: add_handle_def Let_def)
  ultimately show thesis
    using h that [of _ "sort_entries es"] by (auto simp: add_handle_def Let_def update_conv')
qed

lemma readdir_rest:
  assumes "map_of (handles s) h = Some (DirHandle es n)" "n \<le> length es" "initialized s"
  shows "\<exists>chunks. concat chunks = drop n es \<and> list_all (\<lambda>c. c \<noteq> [] \<and> length c \<le> 64) chunks \<and>
    length chunks = (length es - n + 63) div 64 \<and>
    fst (session_run D (replicate (Suc (length chunks)) (RqReadDir i h)) s) = map (RsName i) chunks @ [RsError i Eof]"
  using assms
proof (induction "length es - n" arbitrary: n s rule: less_induct)
  case less
  show ?case
  proof (cases "n = length es")
    case True
    with less.prems show ?thesis
      by (intro exI [of _ "[]"]) (simp add: process_def dispatch_def rq_readdir_def)
  next
    case False
    let ?upto = "min (n + 64) (length es)"
    let ?t = "s\<lparr>handles := AList.update h (DirHandle es ?upto) (handles s)\<rparr>"
    have p: "process D (RqReadDir i h) s = (RsName i (take (?upto - n) (drop n es)), ?t)"
      using less.prems False by (simp add: process_def dispatch_def rq_readdir_def Let_def)
    have n: "n < length es" using less.prems(2) False by simp
    then have "length es - ?upto < length es - n" by auto
    moreover have "map_of (handles ?t) h = Some (DirHandle es ?upto)" by (simp add: update_conv')
    ultimately obtain cs where cs: "concat cs = drop ?upto es" "list_all (\<lambda>c. c \<noteq> [] \<and> length c \<le> 64) cs"
      "length cs = (length es - ?upto + 63) div 64"
      "fst (session_run D (replicate (Suc (length cs)) (RqReadDir i h)) ?t) = map (RsName i) cs @ [RsError i Eof]"
      using less.hyps [of ?upto ?t] less.prems(3) by auto
    have "take (?upto - n) (drop n es) @ drop ?upto es = drop n es"
      using n by (metis append_take_drop_id drop_drop le_add_diff_inverse2 less_imp_le min.bounded_iff le_add1)
    moreover have "length (take (?upto - n) (drop n es)) \<le> 64" "take (?upto - n) (drop n es) \<noteq> []" using n by auto
    moreover have "Suc (length cs) = (length es - n + 63) div 64"
    proof (cases "n + 64 \<le> length es")
      case True
      then obtain k where "length es = n + 64 + k" using le_Suc_ex by blast
      then show ?thesis using cs(3) by simp
    next
      case False
      then have "0 < length es - n" "length es - n < 65" "?upto = length es" using n by auto
      then have "(length es - n + 63) div 64 = 1" by (intro div_nat_eqI) auto
      then show ?thesis using cs(3) \<open>?upto = length es\<close> by simp
    qed
    moreover have "fst (session_run D (replicate (Suc (Suc (length cs))) (RqReadDir i h)) s) =
        RsName i (take (?upto - n) (drop n es)) # map (RsName i) cs @ [RsError i Eof]"
      by (subst replicate.simps(2)) (simp only: session_run.simps p prod.case case_prod_beta fst_conv snd_conv cs(4))
    ultimately show ?thesis
      using cs(1,2) by (intro exI [of _ "take (?upto - n) (drop n es) # cs"]) (simp only: concat.simps
          length_Cons list.map append_Cons simp_thms list.pred_inject)
  qed
qed

section \<open>Length-prefixed strings\<close>

text \<open>What a client sends for a string, and the reader as a self-delimiting encoding.\<close>

definition put_string_field :: "string \<Rightarrow> byte list" where
  "put_string_field t = to_be_bytes 4 (of_nat (length t) :: u32) @ as_bytes t"

definition string_field_fits :: "string \<Rightarrow> bool" where
  "string_field_fits t \<longleftrightarrow> length t < 2 ^ 32 \<and> utf8_valid (as_bytes t)"

definition get_string_field :: "byte list \<Rightarrow> (string \<times> byte list) res" where
  "get_string_field bs = map_sum (\<lambda>_. Error ''bad string'') (\<lambda>x. x) (read_string_field bs)"

lemma read_put_string_field:
  assumes "string_field_fits t"
  shows "read_string_field (put_string_field t @ rest) = Inr (t, rest)"
proof -
  have "unat (of_nat (length t) :: u32) = length t"
    using assms by (simp add: string_field_fits_def unat_of_nat take_bit_nat_eq_self)
  moreover have "take 4 (put_string_field t @ rest) = to_be_bytes 4 (of_nat (length t) :: u32)"
    "drop 4 (put_string_field t @ rest) = as_bytes t @ rest"
    by (simp_all add: put_string_field_def)
  ultimately show ?thesis
    using assms by (simp add: read_string_field_def Let_def from_utf8_def string_field_fits_def) (simp add: put_string_field_def)
qed

interpretation string_fields: framing put_string_field get_string_field string_field_fits
proof unfold_locales
  show "string_field_fits f \<Longrightarrow> get_string_field (put_string_field f @ rest) = Ok (f, rest)" for f rest
    by (simp add: get_string_field_def read_put_string_field)
  show "get_string_field inp = Ok (f, rest) \<Longrightarrow> length rest < length inp" for inp f rest
    by (auto simp: get_string_field_def read_string_field_def Let_def map_sum_def split: sum.splits if_splits option.splits)
qed

section \<open>Properties\<close>

text \<open>
  C14. The mode of a share is enforced over any session: whatever requests a client sends, every call
  that reaches the file system is one the mode allows, given the names the session itself had created
  by then. A read-only share is never modified; a write-only share is never read or listed, nothing
  that existed before is opened, replaced or has its attributes set, and only the root (any directory
  with \<open>wo+\<close>) and own files can be looked up. And every path of every call stays inside the share: it
  is relative, without a parent component and without a null character.
\<close>

theorem share_policy_enforced:
  assumes "plain_clock D" "plain_entries D"
    and "session_run D rs (files_new home (Some m) w) = (as, s)"
  shows "\<forall>i<length (calls s). allowed m (created (take i (calls s))) (fst (calls s ! i)) \<and>
    list_all confined (call_paths (fst (calls s ! i)))"
proof -
  have "session_ok s \<and> same_share (files_new home (Some m) w) s"
    using session_run_ok [OF assms(1,2), of "files_new home (Some m) w" rs] assms(3) by simp
  then have "policy_log m (calls s)" "list_all (\<lambda>(c, b). list_all confined (call_paths c)) (calls s)"
    by (auto simp: session_ok_def same_share_def files_new_def)
  then show ?thesis by (auto simp: policy_log_def list_all_length split_beta)
qed

theorem share_policy_enforced_witness:
  "\<exists>as s. session_run ref_disk [RqInit, RqStat 1 ''a''] (files_new ''/h'' (Some ReadOnly) ()) = (as, s) \<and>
     map fst (calls s) = [CMetadata ''a'' True] \<and> confined ''a''"
proof -
  obtain as s where s: "session_run ref_disk [RqInit, RqStat 1 ''a''] (files_new ''/h'' (Some ReadOnly) ()) = (as, s)"
    by (metis prod.exhaust)
  then have c: "map fst (calls s) = [CMetadata ''a'' True]"
    by (auto simp: process_def dispatch_def rq_init_def files_new_def rq_stat_def then_do_def give_def path_of_def
        relative_def collect_path_def push_def is_absolute_def starts_with_def stat_path_def metadata_def checked_def
        ask_def ref_disk_def Let_def)
  then obtain b where "calls s = [(CMetadata ''a'' True, b)]" by auto
  with share_policy_enforced [OF ref_disk_plain s] have "confined ''a''" by auto
  with s c show ?thesis by (intro exI [of _ as] exI [of _ s]) simp
qed

text \<open>
  Virtual paths are cleaned to a canonical form: the result never leaves the root, cleaning it
  again changes nothing, a leading slash or a trailing dot makes no difference, and a name followed by
  a parent component cancels.
\<close>

theorem relative_canonical:
  assumes "relative path = Inr r"
  shows "confined r \<and> relative r = Inr r \<and> relative (CHR ''/'' # path) = Inr r \<and> relative (path @ ''/.'') = Inr r \<and>
    (plain n \<longrightarrow> relative (path @ CHR ''/'' # n @ ''/..'') = Inr r)"
proof -
  have nul: "CHR 0x00 \<notin> set path" using assms by (auto simp: relative_def split: if_splits)
  have sp: "split_on CHR ''/'' (p @ CHR ''/'' # q) = split_on CHR ''/'' p @ split_on CHR ''/'' q" for p q
    by (induction p) (auto split: list.split)
  have cp: "clean_parts acc (ps @ qs) = clean_parts (rev (clean_parts acc ps)) qs" for acc ps qs
    by (induction acc ps rule: clean_parts.induct) auto
  have "relative (path @ CHR ''/'' # n @ ''/..'') = Inr r" if "plain n"
  proof -
    have "split_on CHR ''/'' (path @ CHR ''/'' # n @ ''/..'') = split_on CHR ''/'' path @ [n, ''..'']"
      using that by (simp add: sp split_on_id plain_def)
    then show ?thesis using that nul assms by (simp add: relative_def cp plain_def)
  qed
  moreover have "relative (path @ ''/.'') = Inr r"
    using nul assms by (simp add: relative_def sp cp)
  moreover have "relative (CHR ''/'' # path) = Inr r"
    using nul assms by (simp add: relative_def)
  ultimately show ?thesis using assms relative_confined relative_idempotent by blast
qed

theorem relative_canonical_witness: "relative ''../x/./y/..'' = Inr ''x'' \<and> confined ''x''"
proof -
  have "relative ''../x/./y/..'' = Inr ''x''"
    by (simp add: relative_def collect_path_def push_def is_absolute_def starts_with_def)
  from this relative_canonical [OF this] show ?thesis by blast
qed

text \<open>
  Every request gets exactly one answer, under its own identifier and in the order of the requests;
  and before the session is initialised every other request is refused without a call.
\<close>

theorem requests_answered:
  "map response_id (fst (session_run D rs s)) = map request_id rs \<and>
   (\<not> initialized s \<and> RqInit \<notin> set rs \<longrightarrow>
      session_run D rs s = (map (\<lambda>r. RsError (request_id r) BadMessage) rs, s))"
proof
  show "map response_id (fst (session_run D rs s)) = map request_id rs"
  proof (induction rs arbitrary: s)
    case (Cons r rs)
    then show ?case using process_answers [of D r s] by (auto split: prod.split) (metis fst_conv)
  qed simp
  show "\<not> initialized s \<and> RqInit \<notin> set rs \<longrightarrow>
      session_run D rs s = (map (\<lambda>r. RsError (request_id r) BadMessage) rs, s)"
    by (induction rs) (auto simp: process_uninitialized)
qed

theorem requests_answered_witness:
  "session_run ref_disk [RqRmDir 4 ''x''] (files_new ''/h'' None ()) = ([RsError 4 BadMessage], files_new ''/h'' None ())"
  using requests_answered [of ref_disk "[RqRmDir 4 ''x'']" "files_new ''/h'' None ()"] by (simp add: files_new_def)

text \<open>
  A directory listing is complete: opening a directory and reading its handle to the end gives
  every name the directory holds, each as often as the directory lists it, in the byte order of the
  names, in answers of at most 64 entries, none of them empty, and then the end of file.
\<close>

theorem listing_complete:
  assumes "process D (RqOpenDir j path) s = (RsHandle j h, t)" "initialized s" "path_of s path = Inr p"
    and "fst (fs_list D (disk s) (rooted s) (CReadDir p)) = Inr (map Inr names)"
  shows "\<exists>chunks. fst (session_run D (replicate (Suc (length chunks)) (RqReadDir i h)) t) =
      map (RsName i) chunks @ [RsError i Eof] \<and>
    mset (map fst (concat chunks)) = mset names \<and>
    sorted (map (\<lambda>e. map of_char (fst e) :: nat list) (concat chunks)) \<and>
    list_all (\<lambda>c. c \<noteq> [] \<and> length c \<le> 64) chunks \<and> length chunks = (length names + 63) div 64"
proof -
  have o: "rq_opendir D j path s = (Inr (RsHandle j h), t)"
    using assms(1,2) by (auto simp: process_def dispatch_def split: prod.splits sum.splits)
  from o assms(3,4) obtain es where es: "map_of (handles t) h = Some (DirHandle es 0)"
    "sorted (map (\<lambda>e. map of_char (fst e) :: nat list) es)" "mset (map fst es) = mset names" and i: "initialized t"
    by (rule opendir_handle) (auto simp: assms(2))
  have "length es = length names" using arg_cong [OF es(3), of size] by simp
  then show ?thesis using readdir_rest [OF es(1) _ i, of D i] es by auto
qed

theorem listing_complete_witness:
  "\<exists>D h t chunks. process D (RqOpenDir 1 ''.'') ((files_new ''/h'' (Some ReadOnly) ())\<lparr>initialized := True\<rparr>) = (RsHandle 1 h, t) \<and>
     fst (session_run D (replicate (Suc (length chunks)) (RqReadDir 2 h)) t) = map (RsName 2) chunks @ [RsError 2 Eof] \<and>
     mset (map fst (concat chunks)) = {#''b'', ''a''#}"
proof -
  let ?D = "ref_disk\<lparr>fs_list := \<lambda>w _ _. (Inr [Inr ''b'', Inr ''a''], w)\<rparr>"
  let ?s = "(files_new ''/h'' (Some ReadOnly) ())\<lparr>initialized := True\<rparr>"
  have dot: "relative ''.'' = Inr ''.''" by (simp add: relative_def)
  then have p: "path_of ?s ''.'' = Inr ''.''" by (simp add: path_of_def files_new_def)
  have "\<exists>h t. process ?D (RqOpenDir 1 ''.'') ?s = (RsHandle 1 h, t)"
    by (simp add: process_def dispatch_def rq_opendir_def files_new_def then_do_def give_def path_of_def dot checked_def
        ask_def ref_disk_def metadata_def add_handle_def Let_def)
  then obtain h t where o: "process ?D (RqOpenDir 1 ''.'') ?s = (RsHandle 1 h, t)" by blast
  have l: "fst (fs_list ?D (disk ?s) (rooted ?s) (CReadDir ''.'')) = Inr (map Inr [''b'', ''a''])" by simp
  have i: "initialized ?s" by simp
  from listing_complete [OF o i p l, of 2] o show ?thesis by auto
qed

text \<open>
  The rename of OpenSSH's extension is the rename of the protocol: for any two names a client can
  encode, the extended request does to the session and answers exactly what the plain request does, in
  every mode of the share.
\<close>

theorem posix_rename_is_rename:
  assumes "string_field_fits old" "string_field_fits new"
  shows "process D (RqExtended i ''posix-rename@openssh.com'' (put_string_field old @ put_string_field new)) s =
    process D (RqRename i old new) s"
proof -
  have "rq_extended D i ''posix-rename@openssh.com'' (put_string_field old @ put_string_field new) s =
      and_ok i (rename_file D old new) s" for s
    using read_put_string_field [OF assms(1)] read_put_string_field [OF assms(2), of "[]"]
    by (simp add: rq_extended_def then_do_def give_def extended_request_def and_ok_def)
  then show ?thesis by (simp add: process_def dispatch_def split: prod.split sum.split)
qed

theorem posix_rename_is_rename_witness:
  "process ref_disk (RqExtended 3 ''posix-rename@openssh.com'' (put_string_field ''a'' @ put_string_field ''b''))
     ((files_new ''/h'' None ())\<lparr>initialized := True\<rparr>) =
   process ref_disk (RqRename 3 ''a'' ''b'') ((files_new ''/h'' None ())\<lparr>initialized := True\<rparr>)"
  by (rule posix_rename_is_rename) (simp_all add: string_field_fits_def as_bytes_def)

end
