(* ===== verification/Numbers.thy ===== *)
theory Numbers
  imports Prelude "HOL-Library.Log_Nat" Complex_Main
begin

text \<open>
  The numbers of the command line (\<open>parse_si\<close> and \<open>parse_duration\<close> of \<open>src/cli/args.rs\<close>) and what they
  use of the standard library: \<open>str::parse\<close> for unsigned integers and for \<open>f64\<close>, the arithmetic of
  \<open>f64\<close> and \<open>Duration::try_from_secs_f64\<close>.

  A finite \<open>f64\<close> is the rational number it stands for; parsing, sum and product are the exact result
  rounded to the nearest number of 53 significant bits, ties to even, with gradual underflow and
  overflow to infinity. The sign of zero is not kept; the program cannot tell the two zeros apart.
\<close>

section \<open>Unsigned integers\<close>

text \<open>\<open>str::parse\<close> for an unsigned type of \<open>w\<close> bits: an optional plus sign and digits, in range.\<close>

definition parse_uint :: "nat \<Rightarrow> string \<Rightarrow> nat option" where
  "parse_uint w s =
     (let ds = (case s of c # cs \<Rightarrow> if c = CHR ''+'' then cs else s | [] \<Rightarrow> [])
      in if ds \<noteq> [] \<and> list_all is_digit ds \<and> digits_value ds < 2 ^ w then Some (digits_value ds) else None)"

section \<open>Floating point\<close>

datatype f64 = Nan | Infinite bool | Finite rat

text \<open>To the nearest integer, ties to even.\<close>

definition round_even :: "rat \<Rightarrow> int" where
  "round_even x =
     (let f = \<lfloor>x\<rfloor>; d = x - of_int f
      in if d < 1 / 2 then f else if d > 1 / 2 then f + 1 else if even f then f else f + 1)"

text \<open>The exponent of a positive number: the largest \<open>e\<close> with \<open>2\<^sup>e \<le> x\<close>.\<close>

definition exponent :: "rat \<Rightarrow> int" where
  "exponent x =
     (case quotient_of x of
        (n, d) \<Rightarrow> (let k = bitlen n - bitlen d in if 2 powi k \<le> x then k else k - 1))"

definition f64_round :: "rat \<Rightarrow> f64" where
  "f64_round x =
     (if x = 0 then Finite 0
      else let q = 2 powi (max (exponent \<bar>x\<bar>) (-1022) - 52);
               y = of_int (round_even (x / q)) * q
           in if 2 ^ 1024 \<le> \<bar>y\<bar> then Infinite (x < 0) else Finite y)"

fun f64_mul :: "f64 \<Rightarrow> f64 \<Rightarrow> f64" where
  "f64_mul Nan y = Nan"
| "f64_mul x Nan = Nan"
| "f64_mul (Infinite a) (Infinite b) = Infinite (a \<noteq> b)"
| "f64_mul (Infinite a) (Finite y) = (if y = 0 then Nan else Infinite (a \<noteq> (y < 0)))"
| "f64_mul (Finite x) (Infinite b) = (if x = 0 then Nan else Infinite (b \<noteq> (x < 0)))"
| "f64_mul (Finite x) (Finite y) = f64_round (x * y)"

fun f64_add :: "f64 \<Rightarrow> f64 \<Rightarrow> f64" where
  "f64_add Nan y = Nan"
| "f64_add x Nan = Nan"
| "f64_add (Infinite a) (Infinite b) = (if a = b then Infinite a else Nan)"
| "f64_add (Infinite a) (Finite y) = Infinite a"
| "f64_add (Finite x) (Infinite b) = Infinite b"
| "f64_add (Finite x) (Finite y) = f64_round (x + y)"

text \<open>
  \<open>str::parse::<f64>\<close>: an optional sign, then \<open>inf\<close>, \<open>infinity\<close> or \<open>nan\<close> in any case, or digits with
  an optional point (at least one digit) and an optional exponent.
\<close>

definition parse_exponent :: "string \<Rightarrow> int option" where
  "parse_exponent s =
     (let (neg, ds) =
        (case s of
           c # cs \<Rightarrow> if c = CHR ''+'' then (False, cs) else if c = CHR ''-'' then (True, cs) else (False, s)
         | [] \<Rightarrow> (False, []))
      in if ds \<noteq> [] \<and> list_all is_digit ds
         then Some (if neg then - int (digits_value ds) else int (digits_value ds)) else None)"

definition parse_mantissa :: "string \<Rightarrow> rat option" where
  "parse_mantissa s =
     (let (a, b) = (case split_once CHR ''.'' s of Some (a, b) \<Rightarrow> (a, b) | None \<Rightarrow> (s, []))
      in if a @ b \<noteq> [] \<and> list_all is_digit (a @ b)
         then Some (of_nat (digits_value (a @ b)) / 10 ^ length b) else None)"

definition parse_decimal :: "string \<Rightarrow> rat option" where
  "parse_decimal s =
     (case split_once CHR ''e'' (map ascii_lower s) of
        None \<Rightarrow> parse_mantissa s
      | Some (m, e) \<Rightarrow>
          (case (parse_mantissa m, parse_exponent e) of
             (Some x, Some i) \<Rightarrow> Some (x * 10 powi i)
           | _ \<Rightarrow> None))"

definition parse_f64 :: "string \<Rightarrow> f64 option" where
  "parse_f64 s =
     (let (neg, t) =
        (case s of
           c # cs \<Rightarrow> if c = CHR ''+'' then (False, cs) else if c = CHR ''-'' then (True, cs) else (False, s)
         | [] \<Rightarrow> (False, []));
          l = map ascii_lower t
      in if l = ''inf'' \<or> l = ''infinity'' then Some (Infinite neg)
         else if l = ''nan'' then Some Nan
         else map_option (\<lambda>x. f64_round (if neg then - x else x)) (parse_decimal t))"

section \<open>Numbers with a suffix\<close>

definition si_suffix :: "string \<Rightarrow> string \<times> rat" where
  "si_suffix v =
     (if v = [] then (v, 1)
      else let c = ascii_lower (last v)
           in if c = CHR ''k'' then (butlast v, 10 ^ 3)
              else if c = CHR ''m'' then (butlast v, 10 ^ 6)
              else if c = CHR ''g'' then (butlast v, 10 ^ 9)
              else (v, 1))"

definition parse_si :: "string \<Rightarrow> u64 res" where
  "parse_si v =
     (case si_suffix v of
        (number, multiplier) \<Rightarrow>
          and_then (ok_or ''invalid float literal'' (parse_f64 number)) (\<lambda>n.
          case f64_mul n (Finite multiplier) of
            Finite x \<Rightarrow> if x < 0 \<or> 2 ^ 63 \<le> x then Err ''number out of range'' else Ok (of_int \<lfloor>x\<rfloor>)
          | _ \<Rightarrow> Err ''number out of range''))"

section \<open>Durations\<close>

text \<open>Durations are nanoseconds. The two spellings of the micro sign are the bytes of U+00B5 and U+03BC.\<close>

definition duration_units :: "(string \<times> rat) list" where
  "duration_units =
     [(''ns'', 1 / 10 ^ 9), (''us'', 1 / 10 ^ 6), ([CHR 0xC2, CHR 0xB5, CHR ''s''], 1 / 10 ^ 6),
      ([CHR 0xCE, CHR 0xBC, CHR ''s''], 1 / 10 ^ 6), (''ms'', 1 / 10 ^ 3), (''s'', 1), (''m'', 60), (''h'', 3600)]"

definition is_number_char :: "char \<Rightarrow> bool" where
  "is_number_char c \<longleftrightarrow> is_digit c \<or> c = CHR ''.''"

definition next_unit :: "string \<Rightarrow> (string \<times> rat) option" where
  "next_unit rest = find (\<lambda>(u, _). starts_with rest u) duration_units"

lemma next_unit_not_Nil: "next_unit rest = Some (u, m) \<Longrightarrow> 0 < length u \<and> length u \<le> length rest"
proof -
  assume *: "next_unit rest = Some (u, m)"
  then have "(u, m) \<in> set duration_units" "starts_with rest u"
    by (auto simp: next_unit_def find_Some_iff dest: nth_mem)
  then show ?thesis by (auto simp: duration_units_def starts_with_iff)
qed

function duration_secs :: "string \<Rightarrow> f64 \<Rightarrow> f64 res" where
  "duration_secs rest secs =
     (if rest = [] then Ok secs
      else let n = length (takeWhile is_number_char rest)
           in if n = length rest then Err ''invalid duration''
              else and_then (ok_or ''invalid float literal'' (parse_f64 (take n rest))) (\<lambda>amount.
                   case next_unit (drop n rest) of
                     None \<Rightarrow> Err ''invalid duration''
                   | Some (unit, multiplier) \<Rightarrow>
                       duration_secs (drop (length unit) (drop n rest))
                         (f64_add secs (f64_mul amount (f64_round multiplier)))))"
  by pat_completeness auto
termination
  by (relation "measure (\<lambda>(rest, _). length rest)") (auto dest!: next_unit_not_Nil)

declare duration_secs.simps [simp del]

definition try_from_secs_f64 :: "f64 \<Rightarrow> nat option" where
  "try_from_secs_f64 s =
     (case s of
        Finite x \<Rightarrow> if x < 0 \<or> 2 ^ 64 \<le> x then None else Some (nat (round_even (x * 10 ^ 9)))
      | _ \<Rightarrow> None)"

definition parse_duration :: "string \<Rightarrow> nat res" where
  "parse_duration v =
     (if v = ''0'' then Ok 0
      else and_then (duration_secs v (Finite 0)) (\<lambda>secs.
           ok_or ''can not convert float seconds to Duration'' (try_from_secs_f64 secs)))"

end
