(* ===== verification/CliArgs.thy ===== *)
theory CliArgs
  imports Numbers "HOL-Library.Sublist"
begin

text \<open>
  The command line (\<open>src/cli/args.rs\<close>): the flags, where each is known, and the parser, which takes
  flags only before the first positional argument and hands everything after \<open>--\<close> to a server as the
  command it runs. Durations are nanoseconds; \<open>explicit\<close> is the set of flags given.

  The subtraction of lengths at the end of the parser can underflow, which panics where overflow
  checks are compiled in: that is the outcome \<open>Inl Panic\<close>.
\<close>

section \<open>Arguments\<close>

definition commands :: "string list" where
  "commands =
     [''serve'', ''recv'', ''ping'', ''socks'', ''ssh'', ''cp'', ''ls'', ''forward'', ''parse'', ''resolve'',
      ''genkey'', ''printpub'', ''version'', ''readme'', ''browse'', ''perf'']"

definition default_derp_map_url :: string where
  "default_derp_map_url = ''https://tailcat.dev/derpmap.json''"

record args =
  subcommand :: string
  positional :: "string list"
  serve_flag :: string
  key_flag :: string
  verbose :: bool
  json_flag :: bool
  derp_map_url :: string
  allow :: string
  full_address :: bool
  psk_flag :: bool
  exec :: "string list"
  open_browser :: bool
  perf_udp :: bool
  reverse_flag :: bool
  bidir :: bool
  via_derp :: bool
  perf_time :: nat
  perf_bytes :: u64
  parallel :: nat
  length_flag :: nat
  bitrate_flag :: "u64 option"
  interval_flag :: nat
  ssh_authorized_keys :: string
  skip_dns_safety_check :: bool
  files_flag :: string
  accept_dirs :: bool
  until_direct :: bool
  timeout_flag :: nat
  listen_flag :: string
  bind_flag :: string
  port_flag :: string
  recursive_flag :: bool
  preserve :: bool
  long_flag :: bool
  genkey_key :: string
  client_flag :: bool
  force_flag :: bool
  delete_flag :: bool
  list_flag :: bool
  region_flag :: string
  fixed_region :: bool
  embed_derp_map :: bool
  explicit :: "string set"
  help_flag :: bool

definition seconds :: "nat \<Rightarrow> nat" where
  "seconds n = n * 10 ^ 9"

text \<open>\<open>env_url\<close> is the variable \<open>TAILCAT_DERPMAP_URL\<close>.\<close>

definition default_args :: "string option \<Rightarrow> args" where
  "default_args env_url =
     \<lparr>subcommand = [], positional = [], serve_flag = [], key_flag = [], verbose = False, json_flag = False,
      derp_map_url = (case env_url of Some s \<Rightarrow> if s \<noteq> [] then s else default_derp_map_url | None \<Rightarrow> default_derp_map_url),
      allow = [], full_address = False, psk_flag = True, exec = [], open_browser = False, perf_udp = False,
      reverse_flag = False, bidir = False, via_derp = False, perf_time = seconds 10, perf_bytes = 0, parallel = 1,
      length_flag = 0, bitrate_flag = None, interval_flag = seconds 1, ssh_authorized_keys = [],
      skip_dns_safety_check = False, files_flag = [], accept_dirs = False, until_direct = False,
      timeout_flag = seconds 10, listen_flag = ''127.0.0.1:0'', bind_flag = ''127.0.0.1'', port_flag = ''22'',
      recursive_flag = False, preserve = False, long_flag = False, genkey_key = [], client_flag = False,
      force_flag = False, delete_flag = False, list_flag = False, region_flag = ''auto'', fixed_region = False,
      embed_derp_map = False, explicit = {}, help_flag = False\<rparr>"

section \<open>Flags\<close>

definition is_server :: "string \<Rightarrow> bool" where
  "is_server cmd \<longleftrightarrow> cmd = ''serve'' \<or> cmd = ''recv''"

text \<open>The flags that take no argument, by the command they follow.\<close>

definition boolean_flag :: "string \<Rightarrow> string \<Rightarrow> bool" where
  "boolean_flag cmd name =
     (name \<in> {''--verbose'', ''--json''}
      \<or> name \<in> {''--udp'', ''--reverse'', ''--bidir'', ''--via-derp''} \<and> cmd = ''perf''
      \<or> name = ''--open-browser'' \<and> cmd = ''forward''
      \<or> name = ''--skip-dns-safety-check'' \<and> cmd = ''ssh''
      \<or> name = ''--full-address'' \<and> is_server cmd
      \<or> name = ''--psk'' \<and> (is_server cmd \<or> cmd = ''genkey'')
      \<or> name = ''--accept-dirs'' \<and> cmd = ''recv''
      \<or> name = ''--until-direct'' \<and> cmd = ''ping''
      \<or> name \<in> {''-r'', ''-p''} \<and> cmd = ''cp''
      \<or> name = ''-l'' \<and> cmd = ''ls''
      \<or> name \<in> {''--client'', ''--force'', ''--delete'', ''--list'', ''--fixed-region'', ''--embed-derp-map''} \<and>
          cmd = ''genkey'')"

definition boolean_value :: "string option \<Rightarrow> string res" where
  "boolean_value inline =
     (case inline of
        None \<Rightarrow> Ok ''true''
      | Some v \<Rightarrow> if v = ''true'' \<or> v = ''false'' then Ok v else Err ''invalid boolean value'')"

definition parse_usize :: "string \<Rightarrow> nat res" where
  "parse_usize v = ok_or ''invalid digit found in string'' (parse_uint 64 v)"

definition set_flag :: "string \<Rightarrow> string \<Rightarrow> args \<Rightarrow> args res" where
  "set_flag name v a =
     (let cmd = subcommand a; yes = (v = ''true'')
      in if name = ''--psk'' \<and> (is_server cmd \<or> cmd = ''genkey'') then Ok (a\<lparr>psk_flag := yes\<rparr>)
         else if name = ''--ssh-authorized-keys'' \<and> is_server cmd then Ok (a\<lparr>ssh_authorized_keys := v\<rparr>)
         else if name = ''--skip-dns-safety-check'' \<and> cmd = ''ssh'' then Ok (a\<lparr>skip_dns_safety_check := yes\<rparr>)
         else if name = ''--open-browser'' \<and> cmd = ''forward'' then Ok (a\<lparr>open_browser := yes\<rparr>)
         else if name = ''--udp'' \<and> cmd = ''perf'' then Ok (a\<lparr>perf_udp := yes\<rparr>)
         else if name = ''--reverse'' \<and> cmd = ''perf'' then Ok (a\<lparr>reverse_flag := yes\<rparr>)
         else if name = ''--bidir'' \<and> cmd = ''perf'' then Ok (a\<lparr>bidir := yes\<rparr>)
         else if name = ''--via-derp'' \<and> cmd = ''perf'' then Ok (a\<lparr>via_derp := yes\<rparr>)
         else if name = ''--time'' \<and> cmd = ''perf'' then and_then (parse_duration v) (\<lambda>d. Ok (a\<lparr>perf_time := d\<rparr>))
         else if name = ''--bytes'' \<and> cmd = ''perf'' then
           and_then (parse_si v) (\<lambda>n. if n = 0 then Err ''--bytes must be positive'' else Ok (a\<lparr>perf_bytes := n\<rparr>))
         else if name = ''--parallel'' \<and> cmd = ''perf'' then and_then (parse_usize v) (\<lambda>n. Ok (a\<lparr>parallel := n\<rparr>))
         else if name = ''--length'' \<and> cmd = ''perf'' then and_then (parse_usize v) (\<lambda>n. Ok (a\<lparr>length_flag := n\<rparr>))
         else if name = ''--bitrate'' \<and> cmd = ''perf'' then and_then (parse_si v) (\<lambda>n. Ok (a\<lparr>bitrate_flag := Some n\<rparr>))
         else if name = ''--interval'' \<and> cmd = ''perf'' then and_then (parse_duration v) (\<lambda>d. Ok (a\<lparr>interval_flag := d\<rparr>))
         else if name = ''--serve'' then Ok (a\<lparr>serve_flag := v\<rparr>)
         else if name = ''--key'' \<and> cmd = ''genkey'' then Ok (a\<lparr>genkey_key := v\<rparr>)
         else if name = ''--key'' then Ok (a\<lparr>key_flag := v\<rparr>)
         else if name = ''--verbose'' then Ok (a\<lparr>verbose := yes\<rparr>)
         else if name = ''--json'' then Ok (a\<lparr>json_flag := yes\<rparr>)
         else if name = ''--derpmap-url'' then Ok (a\<lparr>derp_map_url := v\<rparr>)
         else if name = ''--allow'' \<and> is_server cmd then Ok (a\<lparr>allow := v\<rparr>)
         else if name = ''--full-address'' \<and> is_server cmd then Ok (a\<lparr>full_address := yes\<rparr>)
         else if name = ''--files'' \<and> is_server cmd then Ok (a\<lparr>files_flag := v\<rparr>)
         else if name = ''--accept-dirs'' \<and> cmd = ''recv'' then Ok (a\<lparr>accept_dirs := yes\<rparr>)
         else if name = ''--until-direct'' \<and> cmd = ''ping'' then Ok (a\<lparr>until_direct := yes\<rparr>)
         else if name = ''--timeout'' \<and> (cmd = ''ping'' \<or> cmd = ''perf'') then
           and_then (parse_duration v) (\<lambda>d. Ok (a\<lparr>timeout_flag := d\<rparr>))
         else if name = ''--listen'' \<and> cmd = ''socks'' then Ok (a\<lparr>listen_flag := v\<rparr>)
         else if name = ''--bind'' \<and> cmd = ''forward'' then Ok (a\<lparr>bind_flag := v\<rparr>)
         else if name = ''-p'' \<and> cmd = ''ssh'' then Ok (a\<lparr>port_flag := v\<rparr>)
         else if name = ''-P'' \<and> cmd = ''cp'' then Ok (a\<lparr>port_flag := v\<rparr>)
         else if name = ''-r'' \<and> cmd = ''cp'' then Ok (a\<lparr>recursive_flag := yes\<rparr>)
         else if name = ''-p'' \<and> cmd = ''cp'' then Ok (a\<lparr>preserve := yes\<rparr>)
         else if name = ''-l'' \<and> cmd = ''ls'' then Ok (a\<lparr>long_flag := yes\<rparr>)
         else if name = ''--client'' \<and> cmd = ''genkey'' then Ok (a\<lparr>client_flag := yes\<rparr>)
         else if name = ''--force'' \<and> cmd = ''genkey'' then Ok (a\<lparr>force_flag := yes\<rparr>)
         else if name = ''--delete'' \<and> cmd = ''genkey'' then Ok (a\<lparr>delete_flag := yes\<rparr>)
         else if name = ''--list'' \<and> cmd = ''genkey'' then Ok (a\<lparr>list_flag := yes\<rparr>)
         else if name = ''--region'' \<and> cmd = ''genkey'' then Ok (a\<lparr>region_flag := v\<rparr>)
         else if name = ''--fixed-region'' \<and> cmd = ''genkey'' then Ok (a\<lparr>fixed_region := yes\<rparr>)
         else if name = ''--embed-derp-map'' \<and> cmd = ''genkey'' then Ok (a\<lparr>embed_derp_map := yes\<rparr>)
         else Err ''unknown flag'')"

text \<open>A flag with its value: the assignment, and the name without its dashes among those given.\<close>

definition apply_flag :: "string \<Rightarrow> string \<Rightarrow> args \<Rightarrow> args res" where
  "apply_flag name v a =
     and_then (set_flag name v a)
       (\<lambda>a. Ok (a\<lparr>explicit := insert (dropWhile (\<lambda>c. c = CHR ''-'') name) (explicit a)\<rparr>))"

section \<open>The parser\<close>

definition split_flag :: "string \<Rightarrow> string \<times> string option" where
  "split_flag arg = (case split_once CHR ''='' arg of Some (n, v) \<Rightarrow> (n, Some v) | None \<Rightarrow> (arg, None))"

text \<open>The flag of the result is set when parsing ends at once, for help and the version.\<close>

fun parse_loop :: "args \<Rightarrow> string list \<Rightarrow> (bool \<times> args) res" where
  "parse_loop out [] = Ok (False, out)"
| "parse_loop out (arg # rest) =
     (if arg = ''--'' then
        Ok (False, out\<lparr>subcommand := (if subcommand out = [] then ''serve'' else subcommand out),
                       positional := positional out @ rest\<rparr>)
      else if arg = ''--version'' then Ok (True, out\<lparr>subcommand := ''version''\<rparr>)
      else if arg = ''-h'' \<or> arg = ''--help'' then Ok (True, out\<lparr>help_flag := True\<rparr>)
      else if \<not> starts_with arg ''-'' \<or> arg = ''-'' then
        if subcommand out = [] \<and> arg \<in> set commands then parse_loop (out\<lparr>subcommand := arg\<rparr>) rest
        else if subcommand out = [] \<and> arg = ''help'' then Ok (True, out\<lparr>help_flag := True\<rparr>)
        else Ok (False, out\<lparr>positional := positional out @ arg # rest\<rparr>)
      else case split_flag arg of (name, inline) \<Rightarrow>
        if boolean_flag (subcommand out) name then
          and_then (boolean_value inline) (\<lambda>v. and_then (apply_flag name v out) (\<lambda>out. parse_loop out rest))
        else case inline of
          Some v \<Rightarrow> and_then (apply_flag name v out) (\<lambda>out. parse_loop out rest)
        | None \<Rightarrow>
            (case rest of
               [] \<Rightarrow> if name = ''--serve'' then Ok (True, out\<lparr>subcommand := ''serve'', help_flag := True\<rparr>)
                     else Err ''missing value''
             | v # rest \<Rightarrow> and_then (apply_flag name v out) (\<lambda>out. parse_loop out rest)))"

definition server_mode :: "args \<Rightarrow> bool" where
  "server_mode a \<longleftrightarrow> subcommand a = ''serve'' \<or> serve_flag a \<noteq> []"

text \<open>What \<open>truncate\<close> and \<open>pop\<close> leave of the positional arguments when \<open>cmd\<close> is the command.\<close>

definition drop_command :: "string list \<Rightarrow> string list \<Rightarrow> string list" where
  "drop_command cmd ps =
     (let ps = take (length ps - length cmd) ps
      in if ps \<noteq> [] \<and> last ps = ''--'' then butlast ps else ps)"

definition after_separator :: "string list \<Rightarrow> string list option" where
  "after_separator input =
     (case dropWhile (\<lambda>s. s \<noteq> ''--'') input of [] \<Rightarrow> None | _ # cmd \<Rightarrow> Some cmd)"

definition parse_finish :: "string list \<Rightarrow> args \<Rightarrow> stop + args res" where
  "parse_finish input out =
     (if subcommand out = [] \<and> serve_flag out = [] \<and> ''--'' \<in> set (positional out)
      then Inr (Err ''command after -- is only valid in server mode'')
      else if \<not> server_mode out then Inr (Ok out)
      else case after_separator input of
             None \<Rightarrow> Inr (Ok out)
           | Some cmd \<Rightarrow>
               if cmd = [] then Inr (Err ''no command given after --'')
               else if length (positional out) < length cmd then Inl Panic
               else Inr (Ok (out\<lparr>exec := cmd, positional := drop_command cmd (positional out)\<rparr>)))"

definition parse_args :: "string option \<Rightarrow> string list \<Rightarrow> stop + args res" where
  "parse_args env_url input =
     (case parse_loop (default_args env_url) input of
        Inl e \<Rightarrow> Inr (Inl e)
      | Inr (early, out) \<Rightarrow> if early then Inr (Ok out) else parse_finish input out)"

section \<open>Where the command line is cut\<close>

text \<open>The part of the arguments that the assignment of a flag leaves alone.\<close>

definition same_line :: "args \<Rightarrow> args \<Rightarrow> bool" where
  "same_line a b \<longleftrightarrow>
     subcommand b = subcommand a \<and> positional b = positional a \<and> exec b = exec a \<and> help_flag b = help_flag a"

lemma set_flag_keeps: "all_ok (same_line a) (set_flag name v a)"
  unfolding set_flag_def Let_def by (intro all_ok_if all_ok_then) (simp_all add: same_line_def)

lemma apply_flag_keeps: "apply_flag name v a = Ok b \<Longrightarrow> same_line a b"
  by (auto simp: apply_flag_def result_simps same_line_def dest!: all_okD [OF set_flag_keeps])

text \<open>A flag that takes the separator as its value.\<close>

definition takes_separator :: "string list \<Rightarrow> bool" where
  "takes_separator input \<longleftrightarrow>
     (\<exists>pre f post. input = pre @ f # ''--'' # post \<and> starts_with f ''-'' \<and> CHR ''='' \<notin> set f)"

lemma takes_separator_Cons: "takes_separator input \<Longrightarrow> takes_separator (x # input)"
  unfolding takes_separator_def by (metis append_Cons)

lemma after_separator_Cons:
  "after_separator (x # xs) = (if x = ''--'' then Some xs else after_separator xs)"
  by (simp add: after_separator_def)

lemma after_separator_Nil [simp]: "after_separator [] = None"
  by (simp add: after_separator_def)

text \<open>
  Without a request for help or the version, the positional arguments are the last arguments; if no
  flag took the separator, the command is among them.
\<close>

definition cut :: "string list \<Rightarrow> args \<Rightarrow> args \<Rightarrow> bool" where
  "cut input out a \<longleftrightarrow>
     exec a = exec out \<and>
     (\<exists>s. positional a = positional out @ s \<and> suffix s input \<and>
        (\<forall>cmd. after_separator input = Some cmd \<longrightarrow> takes_separator input \<or> length cmd \<le> length s))"

definition early_end :: "args \<Rightarrow> bool" where
  "early_end a \<longleftrightarrow> help_flag a \<or> subcommand a = ''version''"

lemma cut_skip:
  assumes "cut rest out' a" "positional out' = positional out" "exec out' = exec out" "x \<noteq> ''--''"
  shows "cut (x # rest) out a"
  using assms takes_separator_Cons [of rest x]
  by (auto simp: cut_def after_separator_Cons suffix_Cons)

lemma length_after_separator: "after_separator xs = Some cmd \<Longrightarrow> length cmd < length xs"
  by (induction xs) (auto simp: after_separator_Cons split: if_split_asm)

lemma cut_skip2:
  assumes c: "cut rest out' a" and "positional out' = positional out" "exec out' = exec out"
    and x: "x \<noteq> ''--''" "starts_with x ''-''" "CHR ''='' \<notin> set x"
  shows "cut (x # v # rest) out a"
proof (cases "v = ''--''")
  case True
  have "takes_separator (x # v # rest)"
    unfolding takes_separator_def by (rule exI [of _ "[]"], rule exI [of _ x]) (use x True in simp)
  with assms show ?thesis by (auto simp: cut_def suffix_Cons)
next
  case False
  have "cut (v # rest) out a" by (rule cut_skip [OF c]) (use assms False in simp_all)
  then show ?thesis by (rule cut_skip) (use x in simp_all)
qed

text \<open>What the loop is shown to end with.\<close>

definition loop_ok :: "string list \<Rightarrow> args \<Rightarrow> bool \<times> args \<Rightarrow> bool" where
  "loop_ok input out r \<longleftrightarrow> (if fst r then early_end (snd r) else cut input out (snd r))"

lemma loop_ok_skip:
  assumes "all_ok (loop_ok rest out') r" "positional out' = positional out" "exec out' = exec out" "x \<noteq> ''--''"
  shows "all_ok (loop_ok (x # rest) out) r"
proof -
  have "loop_ok rest out' p \<Longrightarrow> loop_ok (x # rest) out p" for p
    using cut_skip [of rest out' "snd p" out x] assms(2-4) by (cases "fst p") (simp_all add: loop_ok_def)
  then show ?thesis using assms(1) by (simp add: all_ok_def)
qed

lemma loop_ok_flag:
  assumes "apply_flag name v out = Ok out'" "all_ok (loop_ok rest out') r" "x \<noteq> ''--''"
  shows "all_ok (loop_ok (x # rest) out) r"
  using apply_flag_keeps [OF assms(1)]
  by (intro loop_ok_skip [OF assms(2)]) (simp_all add: same_line_def assms(3))

lemma loop_ok_flag_value:
  assumes "apply_flag name v out = Ok out'" "all_ok (loop_ok rest out') r"
    and x: "x \<noteq> ''--''" "starts_with x ''-''" "CHR ''='' \<notin> set x"
  shows "all_ok (loop_ok (x # v # rest) out) r"
proof -
  have "loop_ok rest out' p \<Longrightarrow> loop_ok (x # v # rest) out p" for p
    using cut_skip2 [of rest out' "snd p" out x v] apply_flag_keeps [OF assms(1)] x
    by (cases "fst p") (simp_all add: loop_ok_def same_line_def)
  then show ?thesis using assms(2) by (simp add: all_ok_def)
qed

lemma parse_loop_ok: "all_ok (loop_ok input out) (parse_loop out input)"
proof (induction out input rule: parse_loop.induct)
  case (1 out)
  then show ?case by (simp add: loop_ok_def cut_def)
next
  case (2 out arg rest)
  consider (stop) "arg \<in> {''--'', ''--version'', ''-h'', ''--help''}"
    | (word) "arg \<notin> {''--'', ''--version'', ''-h'', ''--help''}" "\<not> starts_with arg ''-'' \<or> arg = ''-''"
    | (flag) "arg \<notin> {''--'', ''--version'', ''-h'', ''--help''}" "starts_with arg ''-''" "arg \<noteq> ''-''"
    by blast
  then show ?case
  proof cases
    case stop
    then show ?thesis
      by (auto simp: loop_ok_def early_end_def cut_def after_separator_Cons suffix_ConsI)
  next
    case word
    show ?thesis
    proof (cases "subcommand out = [] \<and> arg \<in> set commands")
      case True
      have "all_ok (loop_ok rest (out\<lparr>subcommand := arg\<rparr>)) (parse_loop (out\<lparr>subcommand := arg\<rparr>) rest)"
        by (rule 2(1)) (use word True in auto)
      then have "all_ok (loop_ok (arg # rest) out) (parse_loop (out\<lparr>subcommand := arg\<rparr>) rest)"
        by (rule loop_ok_skip) (use word(1) in simp_all)
      then show ?thesis using word True by simp
    next
      case False
      have "cut (arg # rest) out (out\<lparr>positional := positional out @ arg # rest\<rparr>)"
        using length_after_separator [of "arg # rest"] by (auto simp: cut_def less_imp_le)
      moreover have "''help'' \<notin> set commands" by (simp add: commands_def)
      ultimately show ?thesis using word False by (auto simp: loop_ok_def early_end_def)
    qed
  next
    case flag
    obtain name inline where split: "split_flag arg = (name, inline)" by (metis surj_pair)
    have plain: "name = arg \<and> CHR ''='' \<notin> set arg" if "inline = None"
      using split that by (auto simp: split_flag_def split_once_None_iff split: option.splits)
    have start: "parse_loop out (arg # rest) =
       (if boolean_flag (subcommand out) name then
          and_then (boolean_value inline) (\<lambda>v. and_then (apply_flag name v out) (\<lambda>out. parse_loop out rest))
        else case inline of
          Some v \<Rightarrow> and_then (apply_flag name v out) (\<lambda>out. parse_loop out rest)
        | None \<Rightarrow>
            (case rest of
               [] \<Rightarrow> if name = ''--serve'' then Ok (True, out\<lparr>subcommand := ''serve'', help_flag := True\<rparr>)
                     else Err ''missing value''
             | v # rest \<Rightarrow> and_then (apply_flag name v out) (\<lambda>out. parse_loop out rest)))"
      using flag split by simp
    show ?thesis
    proof (cases "boolean_flag (subcommand out) name")
      case True
      show ?thesis unfolding start if_P [OF True]
        by (intro all_ok_then, rule loop_ok_flag, assumption, rule 2(2)) (use flag split True in auto)
    next
      case False
      show ?thesis
      proof (cases inline)
        case (Some v)
        show ?thesis unfolding start if_not_P [OF False] Some option.case
          by (intro all_ok_then, rule loop_ok_flag, assumption, rule 2(4)) (use flag split False Some in auto)
      next
        case None
        show ?thesis
        proof (cases rest)
          case Nil
          then show ?thesis unfolding start using False None by (simp add: loop_ok_def early_end_def)
        next
          case (Cons v rest')
          show ?thesis unfolding start unfolding if_not_P [OF False] None option.case Cons list.case
            by (intro all_ok_then, rule loop_ok_flag_value, use plain [OF None] in simp, rule 2(3))
              (use flag split False None Cons plain in auto)
        qed
      qed
    qed
  qed
qed

lemma after_separator_Some:
  "after_separator input = Some cmd \<longleftrightarrow>
   input = takeWhile (\<lambda>s. s \<noteq> ''--'') input @ ''--'' # cmd"
  by (induction input) (auto simp: after_separator_Cons)

lemma after_separator_None: "after_separator input = None \<longleftrightarrow> ''--'' \<notin> set input"
  by (induction input) (auto simp: after_separator_Cons)

text \<open>A suffix of the command line that holds the command is the command or reaches further back.\<close>

lemma drop_command_suffix:
  assumes "suffix s (xs @ ''--'' # cmd)" "length cmd \<le> length s"
  shows "suffix (drop_command cmd s) xs"
proof -
  obtain t where s: "s = t @ cmd" "suffix t (xs @ [''--''])"
  proof -
    have "suffix cmd (xs @ ''--'' # cmd)" by (rule suffixI [of _ "xs @ [''--'']"]) simp
    then have "suffix cmd s" using assms by (rule suffix_length_suffix)
    then obtain t where t: "s = t @ cmd" by (auto simp: suffix_def)
    moreover from assms(1) obtain r where "xs @ ''--'' # cmd = r @ t @ cmd" by (auto simp: suffix_def t)
    then have "(xs @ [''--'']) @ cmd = (r @ t) @ cmd" by simp
    then have "suffix t (xs @ [''--''])" by (simp only: append_same_eq) (simp add: suffix_def)
    ultimately show thesis by (rule that)
  qed
  then show ?thesis
    by (cases t rule: rev_cases) (auto simp: drop_command_def suffix_def)
qed

lemma parse_args_Ok:
  assumes "parse_args env_url input = Inr (Ok a)" "\<not> early_end a"
  obtains out where "cut input (default_args env_url) out" "parse_finish input out = Inr (Ok a)"
proof -
  obtain early out where r: "parse_loop (default_args env_url) input = Ok (early, out)"
    using assms(1) by (auto simp: parse_args_def split: sum.splits)
  have "\<not> early"
    using all_okD [OF parse_loop_ok r] assms r by (auto simp: parse_args_def loop_ok_def)
  then show thesis
    using all_okD [OF parse_loop_ok r] assms(1) r by (intro that [of out]) (auto simp: parse_args_def loop_ok_def)
qed

lemma default_args_line [simp]: "positional (default_args u) = []" "exec (default_args u) = []"
  by (simp_all add: default_args_def)

text \<open>Where the arguments of \<open>a\<close> lie on the command line.\<close>

definition line_cut :: "string list \<Rightarrow> args \<Rightarrow> bool" where
  "line_cut input a \<longleftrightarrow>
     (if server_mode a \<and> ''--'' \<in> set input
      then exec a \<noteq> [] \<and>
           input = takeWhile (\<lambda>s. s \<noteq> ''--'') input @ ''--'' # exec a \<and>
           suffix (positional a) (takeWhile (\<lambda>s. s \<noteq> ''--'') input)
      else exec a = [] \<and> suffix (positional a) input)"

lemma parse_finish_cut:
  assumes c: "cut input (default_args env_url) out" and f: "parse_finish input out = Inr (Ok a)"
  shows "line_cut input a"
proof (cases "server_mode out \<and> ''--'' \<in> set input")
  case True
  then obtain cmd where cmd: "after_separator input = Some cmd"
    using after_separator_None [of input] by fastforce
  have a: "a = out\<lparr>exec := cmd, positional := drop_command cmd (positional out)\<rparr>"
    and le: "length cmd \<le> length (positional out)" and "cmd \<noteq> []"
    using f True cmd by (auto simp: parse_finish_def split: if_split_asm)
  have "suffix (positional out) (takeWhile (\<lambda>s. s \<noteq> ''--'') input @ ''--'' # cmd)"
    using c after_separator_Some [of input cmd] cmd by (auto simp: cut_def)
  from drop_command_suffix [OF this le] show ?thesis
    using a True \<open>cmd \<noteq> []\<close> cmd after_separator_Some [of input cmd] by (simp add: server_mode_def line_cut_def)
next
  case False
  then have "a = out"
    using f after_separator_None [of input]
    by (auto simp: parse_finish_def split: if_split_asm option.splits)
  then show ?thesis using c False by (auto simp: cut_def line_cut_def)
qed

lemma parse_args_stop:
  assumes "parse_args env_url input = Inl stop"
  shows "stop = Panic \<and> takes_separator input"
proof -
  obtain out where l: "parse_loop (default_args env_url) input = Ok (False, out)"
    and f: "parse_finish input out = Inl stop"
    using assms by (auto simp: parse_args_def split: sum.splits if_split_asm)
  then obtain cmd where "after_separator input = Some cmd" "length (positional out) < length cmd" "stop = Panic"
    by (auto simp: parse_finish_def split: if_split_asm option.splits)
  moreover have "cut input (default_args env_url) out"
    using all_okD [OF parse_loop_ok l] by (simp add: loop_ok_def)
  ultimately show ?thesis by (auto simp: cut_def)
qed


lemmas parse_line_simps =
  parse_args_def parse_finish_def server_mode_def default_args_def boolean_flag_def boolean_value_def apply_flag_def set_flag_def
  split_flag_def is_server_def starts_with_def after_separator_def drop_command_def commands_def

lemma serve_line:
  "parse_args None [''serve'', ''--json'', ''exec'', ''--'', ''sh'', ''-c'', ''cat'', ''--''] =
   Inr (Ok ((default_args None)\<lparr>subcommand := ''serve'', json_flag := True, positional := [''exec''],
     exec := [''sh'', ''-c'', ''cat'', ''--''], explicit := {''json''}\<rparr>))"
  by (simp add: parse_line_simps)


text \<open>
  A flag that takes the separator as its value can leave fewer positional arguments than the command
  has, and the length of the former less that of the latter underflows.
\<close>

lemma separator_as_value_panics:
  "parse_args None [''serve'', ''--key'', ''--'', ''--json''] = Inl Panic"
  by (simp add: parse_line_simps)

end
