(* ===== verification/CliUtil.thy ===== *)
theory CliUtil
  imports CliArgs Address
begin

text \<open>
  The helpers of the command line (\<open>src/cli/util.rs\<close>): addresses and DNS names, ports, remote paths,
  the quoting of the proxy command for \<open>ssh\<close>, forwarding and serving specifications, port ranges and
  the destinations of the SOCKS proxy.

  The text forms of IP addresses are the standard library's, given as \<open>net_text\<close>; the answer of a DNS
  lookup and the digest of \<open>sha2\<close> are arguments.
\<close>

record net_text =
  parse_ip :: "string \<Rightarrow> ip_addr option"
  parse_sock :: "string \<Rightarrow> sock_addr option"
  show_sock :: "sock_addr \<Rightarrow> string"

section \<open>Addresses and DNS names\<close>

datatype address_arg = AddressText string | DnsName string

definition is_alphanumeric :: "char \<Rightarrow> bool" where
  "is_alphanumeric c =
     (let n = of_char c :: nat in 48 \<le> n \<and> n \<le> 57 \<or> 65 \<le> n \<and> n \<le> 90 \<or> 97 \<le> n \<and> n \<le> 122)"

definition check_label :: "string \<Rightarrow> unit res" where
  "check_label label =
     (if label = [] then Err ''name contains an empty label''
      else if 63 < length label then Err ''name contains a label longer than 63 bytes''
      else if starts_with label ''-'' \<or> ends_with label ''-''
      then Err ''name contains a label beginning or ending with a hyphen''
      else if list_ex (\<lambda>c. \<not> is_alphanumeric c \<and> c \<noteq> CHR ''-'') label then Err ''name contains invalid character''
      else Ok ())"

definition validate_dns_name :: "string \<Rightarrow> unit res" where
  "validate_dns_name name =
     (if name = [] then Err ''name is empty''
      else if 253 < length name then Err ''name is longer than 253 bytes''
      else and_then (collect_results check_label (split_on CHR ''.'' name)) (\<lambda>_. Ok ()))"

definition without_dot :: "string \<Rightarrow> string" where
  "without_dot arg = (case strip_suffix ''.'' arg of Some n \<Rightarrow> n | None \<Rightarrow> arg)"

definition classify_address :: "addr_crates \<Rightarrow> string \<Rightarrow> address_arg res" where
  "classify_address A arg =
     (if is_ok (parse_addr A arg) then Ok (AddressText arg)
      else if CHR ''.'' \<notin> set arg then Err ''argument is neither a valid tailcat address nor a DNS name''
      else if list_ex (\<lambda>label. is_ok (parse_addr A label)) (split_on CHR ''.'' (without_dot arg))
      then Err ''argument contains a valid tailcat address as a DNS label; refusing DNS lookup''
      else and_then (context_of ''invalid DNS name'' (validate_dns_name (without_dot arg))) (\<lambda>_. Ok (DnsName arg)))"

text \<open>The first \<open>tailcat=\<close> record decides. \<open>txts\<close> are the texts of the records of a name, or a failed lookup.\<close>

fun address_record :: "addr_crates \<Rightarrow> string list \<Rightarrow> string res" where
  "address_record A [] = Err ''no \"tailcat=\" TXT record found''"
| "address_record A (txt # txts) =
     (case strip_prefix ''tailcat='' txt of
        Some a \<Rightarrow> and_then (context_of ''invalid tailcat= TXT record'' (parse_addr A (trim a))) (\<lambda>_. Ok (trim a))
      | None \<Rightarrow> address_record A txts)"

definition resolve_address :: "addr_crates \<Rightarrow> (string \<Rightarrow> string list res) \<Rightarrow> string \<Rightarrow> string res" where
  "resolve_address A txts arg =
     and_then (classify_address A arg) (\<lambda>c.
     case c of
       AddressText a \<Rightarrow> Ok a
     | DnsName name \<Rightarrow> and_then (context_of ''looking up TXT record'' (txts name)) (address_record A))"

definition validated_address :: "addr_crates \<Rightarrow> (string \<Rightarrow> string list res) \<Rightarrow> string \<Rightarrow> string res" where
  "validated_address A txts arg =
     (if CHR ''.'' \<in> set arg then resolve_address A txts arg
      else and_then (context_of ''invalid tailcat address'' (parse_addr A arg)) (\<lambda>_. Ok arg))"

section \<open>Ports and remote paths\<close>

definition decimal_port :: "string \<Rightarrow> bool \<Rightarrow> u16 res" where
  "decimal_port v allow_zero =
     (if v = [] \<or> \<not> list_all is_digit v then Err ''invalid port''
      else and_then (ok_or ''invalid port'' (parse_uint 16 v)) (\<lambda>port.
           if port = 0 \<and> \<not> allow_zero then Err ''invalid port'' else Ok (of_nat port)))"

definition show_port :: "u16 \<Rightarrow> string" where
  "show_port p = dec (unat p)"

definition validated_ssh_port :: "net_text \<Rightarrow> string \<Rightarrow> string res" where
  "validated_ssh_port T v =
     (case decimal_port v False of
        Inr p \<Rightarrow> Ok (show_port p)
      | Inl _ \<Rightarrow>
          (case parse_ip T v of
             Some ip \<Rightarrow> Ok (show_sock T (ip, 22))
           | None \<Rightarrow>
               (case parse_sock T v of
                  Some ap \<Rightarrow> if snd ap \<noteq> 0 then Ok (show_sock T ap) else Err ''invalid port or IP:port''
                | None \<Rightarrow> Err ''invalid port or IP:port'')))"

text \<open>A Windows drive letter is no host, and a host holds no path separator.\<close>

definition split_remote_arg :: "string \<Rightarrow> (string \<times> string) option" where
  "split_remote_arg arg =
     (case split_once CHR '':'' arg of
        None \<Rightarrow> None
      | Some (host, path) \<Rightarrow>
          if length host \<le> 1 \<or> CHR ''/'' \<in> set host \<or> CHR 0x5C \<in> set host then None else Some (host, path))"

definition ssh_dest_host :: "hex_crate \<Rightarrow> (byte list \<Rightarrow> byte list) \<Rightarrow> string \<Rightarrow> string" where
  "ssh_dest_host X sha256 addr = ''tailcat-'' @ hex_encode X (take 8 (sha256 (as_bytes addr)))"

section \<open>The proxy command\<close>

definition join_words :: "string list \<Rightarrow> string" where
  "join_words ws = (case ws of [] \<Rightarrow> [] | w # ws \<Rightarrow> w @ concat (map (\<lambda>w. CHR '' '' # w) ws))"

text \<open>\<open>arg.replace('%', "%%").replace('\'', "'\"'\"'")\<close>.\<close>

definition quote_char :: "char \<Rightarrow> string" where
  "quote_char c =
     (if c = CHR ''%'' then ''%%''
      else if c = CHR 0x27 then [CHR 0x27, CHR 0x22, CHR 0x27, CHR 0x22, CHR 0x27] else [c])"

definition quote_unix :: "string \<Rightarrow> string res" where
  "quote_unix arg =
     (if list_ex (\<lambda>c. c \<in> {CHR 0x0D, CHR 0x0A, CHR 0x00}) arg
      then Err ''ProxyCommand argument contains a control character''
      else Ok (CHR 0x27 # concat (map quote_char arg) @ [CHR 0x27]))"

definition proxy_command_join_unix :: "string list \<Rightarrow> string res" where
  "proxy_command_join_unix args = and_then (collect_results quote_unix args) (\<lambda>ws. Ok (join_words ws))"

text \<open>The backslashes at the end of an argument are doubled, for the quote that follows them.\<close>

definition quote_windows :: "string \<Rightarrow> string res" where
  "quote_windows arg =
     (if list_ex (\<lambda>c. c \<in> {CHR 0x22, CHR ''%'', CHR ''!'', CHR 0x0D, CHR 0x0A, CHR 0x00}) arg
      then Err ''ProxyCommand argument contains a character unsafe for cmd.exe''
      else Ok (CHR 0x22 # arg @
        replicate (length (takeWhile (\<lambda>c. c = CHR 0x5C) (rev arg))) CHR 0x5C @ [CHR 0x22]))"

definition proxy_command_join_windows :: "string list \<Rightarrow> string res" where
  "proxy_command_join_windows args = and_then (collect_results quote_windows args) (\<lambda>ws. Ok (join_words ws))"

definition ssh_proxy_args :: "string \<Rightarrow> string \<Rightarrow> string \<Rightarrow> string \<Rightarrow> string \<Rightarrow> string list" where
  "ssh_proxy_args exe key url addr port =
     [exe]
     @ (if key \<noteq> [] then [''--key='' @ key] else [])
     @ (if url \<noteq> default_derp_map_url then [''--derpmap-url='' @ url] else [])
     @ [addr, port]"

definition ssh_proxy_command :: "bool \<Rightarrow> string \<Rightarrow> string \<Rightarrow> string \<Rightarrow> string \<Rightarrow> string \<Rightarrow> string res" where
  "ssh_proxy_command windows exe key url addr port =
     (let args = ssh_proxy_args exe key url addr port
      in if windows then proxy_command_join_windows args else proxy_command_join_unix args)"

section \<open>Forwarding\<close>

record forward_spec =
  listen_addr :: string
  forward_target :: "sock_addr option"
  forward_port :: u16

definition remote_target :: "net_text \<Rightarrow> forward_spec \<Rightarrow> string" where
  "remote_target T f =
     (case forward_target f of None \<Rightarrow> ''localhost:'' @ show_port (forward_port f) | Some ap \<Rightarrow> show_sock T ap)"

definition join_host_port :: "string \<Rightarrow> u16 \<Rightarrow> string" where
  "join_host_port host port =
     (if CHR '':'' \<in> set host \<and> \<not> starts_with host ''['' then ''['' @ host @ '']:'' @ show_port port
      else host @ '':'' @ show_port port)"

definition parse_forward_spec :: "net_text \<Rightarrow> string \<Rightarrow> string \<Rightarrow> forward_spec res" where
  "parse_forward_spec T bind_addr spec =
     (let (l, remote, colon) = (case split_once CHR '':'' spec of Some (l, r) \<Rightarrow> (l, r, True) | None \<Rightarrow> (spec, spec, False))
      in and_then (context_of ''local port'' (decimal_port l colon)) (\<lambda>local_port.
         let addr = join_host_port bind_addr local_port
         in case decimal_port remote False of
              Inr port \<Rightarrow> Ok \<lparr>listen_addr = addr, forward_target = None, forward_port = port\<rparr>
            | Inl _ \<Rightarrow>
                and_then (ok_or ''remote target is not a port or address:port'' (parse_sock T remote)) (\<lambda>target.
                Ok \<lparr>listen_addr = addr, forward_target = Some target, forward_port = 0\<rparr>)))"

definition bracketed :: "string \<Rightarrow> bool" where
  "bracketed host \<longleftrightarrow> starts_with host ''['' \<and> ends_with host '']''"

definition normalize_listen :: "string \<Rightarrow> string" where
  "normalize_listen v =
     (case decimal_port v True of
        Inr port \<Rightarrow> ''127.0.0.1:'' @ show_port port
      | Inl _ \<Rightarrow>
          (case rsplit_once CHR '':'' v of
             Some (host, port) \<Rightarrow>
               if CHR '':'' \<notin> set host \<or> bracketed host then host @ '':'' @ (if port = [] then ''0'' else port)
               else v @ '':0''
           | None \<Rightarrow> v @ '':0''))"

section \<open>Serving\<close>

record serve_spec =
  spec_ports :: "u16 set"
  spec_targets :: "u16 \<rightharpoonup> string"
  spec_services :: "string set"

definition serve_spec_default :: serve_spec where
  "serve_spec_default = \<lparr>spec_ports = {}, spec_targets = Map.empty, spec_services = {}\<rparr>"

definition named_services :: "string list" where
  "named_services = [''exec'', ''perf'', ''exit-node'', ''ssh'', ''no-auth-ssh'', ''files'']"

definition mapping_target :: "string \<Rightarrow> string res" where
  "mapping_target target =
     (if list_all is_digit target \<and> target \<noteq> []
      then and_then (decimal_port target True) (\<lambda>p. Ok (''localhost:'' @ show_port p))
      else and_then (ok_or ''mapping target must be a port or host:port'' (rsplit_once CHR '':'' target)) (\<lambda>(host, p).
           if host = [] \<or> CHR '':'' \<in> set host \<and> \<not> bracketed host then Err ''invalid mapping target''
           else and_then (decimal_port p False) (\<lambda>p. Ok (host @ '':'' @ show_port p))))"

definition serve_part :: "string \<Rightarrow> serve_spec \<Rightarrow> serve_spec res" where
  "serve_part part s =
     (if part = ''all'' then Ok (s\<lparr>spec_ports := spec_ports s \<union> {1..-1}\<rparr>)
      else if part \<in> set named_services then Ok (s\<lparr>spec_services := insert part (spec_services s)\<rparr>)
      else case split_once CHR '':'' part of
        Some (port, target) \<Rightarrow>
          and_then (decimal_port port False) (\<lambda>port.
          and_then (mapping_target target) (\<lambda>target.
          if \<exists>old \<in> set_option (spec_targets s port). old \<noteq> target then Err ''port is mapped to both''
          else Ok (s\<lparr>spec_targets := (spec_targets s)(port \<mapsto> target), spec_ports := insert port (spec_ports s)\<rparr>)))
      | None \<Rightarrow>
          (let (a, b) = (case split_once CHR ''-'' part of Some (a, b) \<Rightarrow> (a, b) | None \<Rightarrow> (part, part))
           in and_then (context_of ''not a known named service or port'' (decimal_port a True)) (\<lambda>lo.
              and_then (decimal_port b True) (\<lambda>hi.
              Ok (s\<lparr>spec_ports := spec_ports s \<union> {min lo hi..max lo hi}\<rparr>)))))"

fun serve_parts :: "string list \<Rightarrow> serve_spec \<Rightarrow> serve_spec res" where
  "serve_parts [] s = Ok s"
| "serve_parts (part # parts) s = and_then (serve_part part s) (serve_parts parts)"

definition parse_serve_spec :: "string \<Rightarrow> serve_spec res" where
  "parse_serve_spec v =
     (if v = [] then Ok serve_spec_default
      else serve_parts (map trim (split_on CHR '','' (trim v))) serve_spec_default)"

text \<open>The ranges so far in reverse order; a range ends at \<open>u16::MAX\<close> at the latest.\<close>

fun add_port :: "(u16 \<times> u16) list \<Rightarrow> u16 \<Rightarrow> (u16 \<times> u16) list" where
  "add_port [] p = [(p, p)]"
| "add_port ((a, b) # rs) p = (if b \<noteq> -1 \<and> b + 1 = p then (a, p) # rs else (p, p) # (a, b) # rs)"

definition port_ranges :: "u16 set \<Rightarrow> (u16 \<times> u16) list" where
  "port_ranges ports = rev (foldl add_port [] (sorted_list_of_set ports))"

section \<open>SOCKS destinations\<close>

datatype socks_target = SocksServer u16 | SocksAddress string u16 | SocksExit sock_addr

definition is_ipv4 :: "ip_addr \<Rightarrow> bool" where
  "is_ipv4 ip = (case ip of V4 _ \<Rightarrow> True | V6 _ \<Rightarrow> False)"

definition preferred_address :: "ip_addr list \<Rightarrow> ip_addr option" where
  "preferred_address resolved =
     (case find (\<lambda>ip. is_ipv4 (unmap ip)) resolved of
        Some ip \<Rightarrow> Some ip
      | None \<Rightarrow> (case resolved of [] \<Rightarrow> None | ip # _ \<Rightarrow> Some ip))"

definition classify_socks_target ::
  "net_text \<Rightarrow> addr_crates \<Rightarrow> string \<Rightarrow> u16 \<Rightarrow> ip_addr list \<Rightarrow> socks_target res" where
  "classify_socks_target T A host port resolved =
     (if host = [] \<or> host = ''server.tailcat'' then Ok (SocksServer port)
      else if starts_with host ''tc'' \<and> CHR ''.'' \<notin> set host \<and> is_ok (parse_addr A host) then Ok (SocksAddress host port)
      else and_then
             (case parse_ip T host of
                Some ip \<Rightarrow> Ok ip
              | None \<Rightarrow> ok_or ''no addresses found'' (preferred_address resolved)) (\<lambda>ip.
           Ok (SocksExit (unmap ip, port))))"

end
