(* ===== verification/CliQuoting.thy ===== *)
theory CliQuoting
  imports CliUtil
begin

text \<open>
  What the readers of a proxy command make of it. \<open>ssh\<close> expands percent tokens and passes the result
  to \<open>sh -c\<close>, which cuts it into words. \<open>percent_expand\<close> follows the TOKENS section of \<open>ssh_config(5)\<close>,
  and \<open>sh_words\<close> the token recognition and the quoting rules of POSIX; it is defined only where the
  shell does nothing but cut words: an unquoted character that could mean more gives \<open>None\<close>, and so do
  an expansion inside double quotes and a quote that is never closed.
\<close>

section \<open>The readers\<close>

fun percent_expand :: "(char \<Rightarrow> string option) \<Rightarrow> string \<Rightarrow> string option" where
  "percent_expand tokens [] = Some []"
| "percent_expand tokens (c # cs) =
     (if c \<noteq> CHR ''%'' then map_option ((#) c) (percent_expand tokens cs)
      else case cs of
        [] \<Rightarrow> None
      | d # ds \<Rightarrow>
          if d = CHR ''%'' then map_option ((#) CHR ''%'') (percent_expand tokens ds)
          else (case tokens d of
                  None \<Rightarrow> None
                | Some v \<Rightarrow> map_option ((@) v) (percent_expand tokens ds)))"

datatype sh_state = Blank | Bare | SingleQuoted | DoubleQuoted

definition is_blank :: "char \<Rightarrow> bool" where
  "is_blank c \<longleftrightarrow> c = CHR '' '' \<or> c = CHR 0x09"

text \<open>The characters that mean themselves without quotes.\<close>

definition sh_plain :: "char \<Rightarrow> bool" where
  "sh_plain c \<longleftrightarrow> is_alphanumeric c \<or> c \<in> {CHR ''-'', CHR ''_'', CHR ''.'', CHR ''/'', CHR '':'', CHR '','', CHR ''@'', CHR ''+''}"

text \<open>An unquoted character of a word, or the quote that begins a quoted part of one.\<close>

definition sh_open :: "char \<Rightarrow> sh_state option" where
  "sh_open c =
     (if c = CHR 0x27 then Some SingleQuoted else if c = CHR 0x22 then Some DoubleQuoted
      else if sh_plain c then Some Bare else None)"

definition sh_part :: "char \<Rightarrow> string" where
  "sh_part c = (if c = CHR 0x27 \<or> c = CHR 0x22 then [] else [c])"

text \<open>\<open>w\<close> is the word so far.\<close>

fun sh_scan :: "sh_state \<Rightarrow> string \<Rightarrow> string \<Rightarrow> string list option" where
  "sh_scan Blank w [] = Some []"
| "sh_scan Bare w [] = Some [w]"
| "sh_scan SingleQuoted w [] = None"
| "sh_scan DoubleQuoted w [] = None"
| "sh_scan Blank w (c # cs) =
     (if is_blank c then sh_scan Blank [] cs
      else case sh_open c of None \<Rightarrow> None | Some st \<Rightarrow> sh_scan st (sh_part c) cs)"
| "sh_scan Bare w (c # cs) =
     (if is_blank c then map_option ((#) w) (sh_scan Blank [] cs)
      else case sh_open c of None \<Rightarrow> None | Some st \<Rightarrow> sh_scan st (w @ sh_part c) cs)"
| "sh_scan SingleQuoted w (c # cs) =
     (if c = CHR 0x27 then sh_scan Bare w cs else sh_scan SingleQuoted (w @ [c]) cs)"
| "sh_scan DoubleQuoted w (c # cs) =
     (if c = CHR 0x22 then sh_scan Bare w cs
      else if c \<in> {CHR ''$'', CHR 0x60, CHR 0x5C} then None
      else sh_scan DoubleQuoted (w @ [c]) cs)"

definition sh_words :: "string \<Rightarrow> string list option" where
  "sh_words s = sh_scan Blank [] s"

section \<open>Quoting and reading\<close>

text \<open>A quoted character after the percent tokens are expanded.\<close>

definition sh_quoted :: "char \<Rightarrow> string" where
  "sh_quoted c = (if c = CHR 0x27 then [CHR 0x27, CHR 0x22, CHR 0x27, CHR 0x22, CHR 0x27] else [c])"

definition sh_quote :: "string \<Rightarrow> string" where
  "sh_quote arg = CHR 0x27 # concat (map sh_quoted arg) @ [CHR 0x27]"

lemma percent_expand_quoted:
  "percent_expand tokens (concat (map quote_char arg) @ rest) =
   map_option ((@) (concat (map sh_quoted arg))) (percent_expand tokens rest)"
proof (induction arg)
  case Nil
  then show ?case by (simp add: option.map_ident)
next
  case (Cons c arg)
  then show ?case by (auto simp: quote_char_def sh_quoted_def option.map_comp comp_def)
qed

lemma percent_expand_quote:
  "quote_unix arg = Ok q \<Longrightarrow> percent_expand tokens (q @ rest) = map_option ((@) (sh_quote arg)) (percent_expand tokens rest)"
  by (cases "percent_expand tokens rest") (auto simp: quote_unix_def sh_quote_def percent_expand_quoted split: if_split_asm)

lemma sh_scan_quoted:
  "sh_scan SingleQuoted w (concat (map sh_quoted arg) @ CHR 0x27 # rest) = sh_scan Bare (w @ arg) rest"
  by (induction arg arbitrary: w) (simp_all add: sh_quoted_def is_blank_def sh_open_def sh_part_def)

lemma sh_scan_quote: "sh_scan Blank w (sh_quote arg @ rest) = sh_scan Bare arg rest"
  by (simp add: sh_quote_def is_blank_def sh_open_def sh_part_def sh_scan_quoted)

lemma join_words_Cons:
  "join_words (w # ws) = w @ (if ws = [] then [] else CHR '' '' # join_words ws)"
  by (cases ws) (simp_all add: join_words_def)

lemma read_back:
  "list_all2 (\<lambda>arg q. quote_unix arg = Ok q) args qs \<Longrightarrow>
   percent_expand tokens (join_words qs) = Some (join_words (map sh_quote args)) \<and>
   sh_scan Blank w (join_words (map sh_quote args)) = Some args"
proof (induction arbitrary: w rule: list_all2_induct)
  case Nil
  then show ?case by (simp add: join_words_def)
next
  case (Cons arg args q qs)
  have "args = [] \<longleftrightarrow> qs = []" using Cons.hyps(2) by (cases args; cases qs) simp_all
  then show ?case
    using Cons.IH percent_expand_quote [OF Cons.hyps(1)] percent_expand_quote [OF Cons.hyps(1), of tokens "[]"]
    by (auto simp: join_words_Cons sh_scan_quote is_blank_def sh_scan_quote [where rest = "[]", simplified])
qed

lemma proxy_command_reads_back:
  "proxy_command_join_unix args = Ok s \<Longrightarrow>
   \<exists>t. percent_expand tokens s = Some t \<and> sh_words t = Some args"
  by (auto simp: proxy_command_join_unix_def result_simps collect_results_Inr_iff sh_words_def dest: read_back)

lemma quote_unix_Inl:
  "quote_unix arg = Inl e \<Longrightarrow>
   e = Error ''ProxyCommand argument contains a control character'' \<and>
   (\<exists>c \<in> set arg. c = CHR 0x0D \<or> c = CHR 0x0A \<or> c = CHR 0x00)"
  by (auto simp: quote_unix_def list_ex_iff split: if_split_asm)

lemma and_then_Inl_iff: "and_then r f = Inl e \<longleftrightarrow> r = Inl e \<or> (\<exists>x. r = Inr x \<and> f x = Inl e)"
  by (cases r) auto

lemma collect_results_Inl: "collect_results f xs = Inl e \<Longrightarrow> \<exists>x \<in> set xs. f x = Inl e"
  by (induction xs) (auto simp: and_then_Inl_iff)

text \<open>
  The command that \<open>ssh\<close> is told to reach the server with is read back as it was meant: whatever
  the path of the program, the key, the map URL, the address and the port hold, \<open>ssh\<close> expands no
  token in it and the shell finds exactly those words, with nothing to expand, redirect or run; only an
  argument with a line break or a null byte is refused.
\<close>

theorem proxy_command_is_inert:
  "(\<exists>s t. ssh_proxy_command False exe key url addr port = Ok s \<and> percent_expand tokens s = Some t \<and>
      sh_words t = Some (ssh_proxy_args exe key url addr port)) \<or>
   (ssh_proxy_command False exe key url addr port = Err ''ProxyCommand argument contains a control character'' \<and>
    (\<exists>arg \<in> set (ssh_proxy_args exe key url addr port).
       \<exists>c \<in> set arg. c = CHR 0x0D \<or> c = CHR 0x0A \<or> c = CHR 0x00))"
proof (cases "proxy_command_join_unix (ssh_proxy_args exe key url addr port)")
  case (Inr s)
  with proxy_command_reads_back [OF this] show ?thesis by (auto simp: ssh_proxy_command_def Let_def)
next
  case (Inl e)
  then have "collect_results quote_unix (ssh_proxy_args exe key url addr port) = Inl e"
    by (simp add: proxy_command_join_unix_def and_then_Inl_iff)
  from collect_results_Inl [OF this]
  obtain arg where arg: "arg \<in> set (ssh_proxy_args exe key url addr port)" "quote_unix arg = Inl e"
    by (elim bexE)
  have "ssh_proxy_command False exe key url addr port = Inl e"
    by (simp only: ssh_proxy_command_def Let_def if_False Inl)
  then have "ssh_proxy_command False exe key url addr port = Err ''ProxyCommand argument contains a control character''"
    by (simp only: conjunct1 [OF quote_unix_Inl [OF arg(2)]])
  with conjunct2 [OF quote_unix_Inl [OF arg(2)]] arg(1) show ?thesis
    by (intro disjI2 conjI bexI [of _ arg])
qed

section \<open>Names that are looked up\<close>

definition dns_label :: "string \<Rightarrow> bool" where
  "dns_label l \<longleftrightarrow>
     l \<noteq> [] \<and> length l \<le> 63 \<and> hd l \<noteq> CHR ''-'' \<and> last l \<noteq> CHR ''-'' \<and> (\<forall>c \<in> set l. is_alphanumeric c \<or> c = CHR ''-'')"

lemma check_label_iff: "check_label l = Ok () \<longleftrightarrow> dns_label l"
proof (cases l rule: rev_cases)
  case Nil
  then show ?thesis by (simp add: check_label_def dns_label_def)
next
  case (snoc ys y)
  have "starts_with l ''-'' \<longleftrightarrow> hd l = CHR ''-''" by (cases l) (auto simp: starts_with_def snoc)
  moreover have "ends_with l ''-'' \<longleftrightarrow> last l = CHR ''-''" by (auto simp: ends_with_def snoc)
  ultimately show ?thesis using snoc by (auto simp: check_label_def dns_label_def list_ex_iff)
qed

lemma validate_dns_name_iff:
  "validate_dns_name name = Ok () \<longleftrightarrow>
   name \<noteq> [] \<and> length name \<le> 253 \<and> (\<forall>l \<in> set (split_on CHR ''.'' name). dns_label l)"
proof -
  have "(\<exists>ys. collect_results check_label ls = Ok ys) \<longleftrightarrow> (\<forall>l \<in> set ls. dns_label l)" for ls
    by (induction ls) (auto simp: result_simps check_label_iff [symmetric])
  then show ?thesis by (auto simp: validate_dns_name_def result_simps)
qed

text \<open>
  An address is a secret and never reaches a name server: what is looked up is not a valid address
  and none of its labels is one, in any form with dots, and it is a well-formed DNS name (at most 253
  bytes, labels of 1 to 63 letters, digits and inner hyphens); a valid address is used as it is, with
  no lookup at all.
\<close>

theorem no_address_is_looked_up:
  assumes "classify_address A arg = Ok c"
  shows "case c of
      AddressText a \<Rightarrow> a = arg \<and> is_ok (parse_addr A a) \<and> resolve_address A txts arg = Ok arg
    | DnsName name \<Rightarrow> name = arg \<and> \<not> is_ok (parse_addr A name) \<and>
        (\<forall>l \<in> set (split_on CHR ''.'' (without_dot name)). \<not> is_ok (parse_addr A l) \<and> dns_label l) \<and>
        length (without_dot name) \<le> 253 \<and> CHR ''.'' \<in> set name"
  using assms
  by (auto simp: classify_address_def resolve_address_def result_simps validate_dns_name_iff list_ex_iff split: if_split_asm)

theorem no_address_is_looked_up_witness:
  "dns_label ''ex'' \<and> classify_address (ref_addr_crates CNull) ''a.ex.'' = Ok (DnsName ''a.ex.'')"
proof -
  have c: "classify_address (ref_addr_crates CNull) ''a.ex.'' = Ok (DnsName ''a.ex.'')"
    by (simp add: classify_address_def without_dot_def strip_suffix_def ends_with_def validate_dns_name_def check_label_def
        is_alphanumeric_def starts_with_def parse_addr_def decode_addr_def strip_prefix_def)
  from no_address_is_looked_up [OF this] have "dns_label ''ex''"
    by (simp add: without_dot_def strip_suffix_def ends_with_def)
  with c show ?thesis by blast
qed

end
