(* ===== verification/Ssh.thy ===== *)
theory Ssh
  imports Files
begin

text \<open>
  The SSH service (\<open>src/services/mod.rs\<close>, \<open>shell.rs\<close>, \<open>authorized_keys.rs\<close> and \<open>process.rs\<close>, on Unix):
  which clients are let in, the channel requests of a session, what a shell or command request runs
  and with which environment, and the packets of the SFTP subsystem.

  The SSH protocol is the \<open>russh\<close> crate: a request it has decoded is a value of \<open>ssh_request\<close>, and what
  the handler makes of it is a list of \<open>ssh_effect\<close>. \<open>Launch\<close> is the start of a program with its
  arguments, directory and environment; the copying between its pipes or terminal and the channel is
  in the theory \<open>Shell\<close>. A variable map is a function from names to values.
\<close>

type_synonym variables = "string \<rightharpoonup> string"

section \<open>Authorized keys\<close>

text \<open>A public key is its key data and its comment; \<open>from_openssh\<close> of the keys crate is an argument.\<close>

type_synonym ssh_key = "byte list \<times> string"

definition max_keys_size :: nat where
  "max_keys_size = 2 ^ 20"

definition key_line :: "string \<Rightarrow> bool" where
  "key_line line \<longleftrightarrow> line \<noteq> [] \<and> \<not> starts_with line ''#''"

definition parse_key_line :: "(string \<Rightarrow> ssh_key option) \<Rightarrow> string \<Rightarrow> ssh_key res" where
  "parse_key_line from_openssh line =
     (let kind = hd (split_whitespace line)
      in if \<not> starts_with kind ''ssh-'' \<and> \<not> starts_with kind ''ecdsa-'' \<and> \<not> starts_with kind ''sk-''
         then Err ''authorized-key options are not supported''
         else ok_or ''invalid SSH public key'' (from_openssh line))"

definition parse_authorized_keys :: "(string \<Rightarrow> ssh_key option) \<Rightarrow> string \<Rightarrow> ssh_key list res" where
  "parse_authorized_keys from_openssh text =
     and_then (collect_results (parse_key_line from_openssh) (filter key_line (map trim (lines text)))) (\<lambda>keys.
     if keys = [] then Err ''no SSH public keys found'' else Ok keys)"

definition github_name :: "string \<Rightarrow> bool" where
  "github_name user \<longleftrightarrow>
     user \<noteq> [] \<and> length user \<le> 39 \<and>
     list_all (\<lambda>c. let n = of_char c :: nat in
       48 \<le> n \<and> n \<le> 57 \<or> 65 \<le> n \<and> n \<le> 90 \<or> 97 \<le> n \<and> n \<le> 122 \<or> c = CHR ''-'') user \<and>
     \<not> starts_with user ''-'' \<and> \<not> ends_with user ''-''"

text \<open>\<open>github\<close> is the body of the answer of the key list of a user, \<open>file\<close> the content of a file that opens.\<close>

definition key_source ::
  "(string \<Rightarrow> byte list res) \<Rightarrow> (string \<Rightarrow> byte list res option) \<Rightarrow> string \<Rightarrow> string res" where
  "key_source github file source =
     (if source = [] then Err ''authorized-key source is empty''
      else case strip_suffix ''@github'' source of
        Some user \<Rightarrow>
          if \<not> github_name user then Err ''invalid GitHub username''
          else and_then (github user) (\<lambda>bytes.
               if max_keys_size < length bytes then Err ''GitHub key list is too large''
               else ok_or ''invalid utf-8'' (from_utf8 bytes))
      | None \<Rightarrow>
          (case file source of
             Some content \<Rightarrow>
               and_then content (\<lambda>bytes.
               and_then (ok_or ''stream did not contain valid UTF-8'' (from_utf8 (take (max_keys_size + 1) bytes))) (\<lambda>text.
               if max_keys_size < length text then Err ''authorized-key file is too large'' else Ok text))
           | None \<Rightarrow> Ok source))"

definition load_authorized_keys ::
  "(string \<Rightarrow> ssh_key option) \<Rightarrow> (string \<Rightarrow> byte list res) \<Rightarrow> (string \<Rightarrow> byte list res option) \<Rightarrow> string \<Rightarrow> ssh_key list res" where
  "load_authorized_keys from_openssh github file sources =
     and_then (collect_results
         (\<lambda>source. and_then (key_source github file source) (parse_authorized_keys from_openssh))
         (map trim (split_on CHR '','' sources))) (\<lambda>keys. Ok (concat keys))"

section \<open>The command to serve\<close>

text \<open>
  \<open>executable\<close> says whether a path is a file one may execute, \<open>path\<close> are the directories of \<open>PATH\<close> and
  \<open>cwd\<close> is the current directory. \<open>join\<close> of a path and a name is \<open>push\<close> of the model of \<open>std::path\<close>.
\<close>

definition resolve_command ::
  "(string \<Rightarrow> bool) \<Rightarrow> string list \<Rightarrow> string res \<Rightarrow> string list \<Rightarrow> string list res" where
  "resolve_command executable path cwd args =
     (case args of
        [] \<Rightarrow> Ok []
      | name # rest \<Rightarrow>
          (let found =
             (if CHR ''/'' \<in> set name \<or> CHR 0x5C \<in> set name then (if executable name then Some name else None)
              else find executable (map (\<lambda>p. push p name) path))
           in and_then (ok_or ''executable not found'' found) (\<lambda>p.
              if is_absolute p then Ok (p # rest)
              else and_then cwd (\<lambda>d. Ok (push d p # rest)))))"

section \<open>Sessions\<close>

record ssh_config =
  ssh_shell :: bool
  ssh_files :: "(string \<times> file_mode) option"
  forced_command :: "string list"
  authorized_keys :: "ssh_key list option"

record pty_size =
  pty_rows :: u16
  pty_cols :: u16
  pixel_width :: u16
  pixel_height :: u16

text \<open>The terminal modes of RFC 4254 that the program knows.\<close>

datatype pty_mode =
    VINTR | VQUIT | VERASE | VKILL | VEOF | VEOL | VEOL2 | VSTART | VSTOP | VSUSP | VREPRINT | VWERASE | VLNEXT
  | VDISCARD | VSWTCH | IGNPAR | PARMRK | INPCK | ISTRIP | INLCR | IGNCR | ICRNL | IUCLC | IXON | IXANY | IXOFF
  | IMAXBEL | IUTF8 | ISIG | ICANON | XCASE | ECHO | ECHOE | ECHOK | ECHONL | NOFLSH | TOSTOP | IEXTEN | ECHOCTL
  | ECHOKE | PENDIN | OPOST | OLCUC | ONLCR | OCRNL | ONOCR | ONLRET | CS7 | CS8 | PARENB | PARODD
  | TTY_OP_ISPEED | TTY_OP_OSPEED | OtherMode nat

record terminal =
  term_name :: string
  term_size :: pty_size
  term_modes :: "(pty_mode \<times> u32) list"

definition clamp16 :: "u32 \<Rightarrow> u16" where
  "clamp16 n = ucast (min n 0xFFFF)"

definition size_of :: "u32 \<Rightarrow> u32 \<Rightarrow> u32 \<Rightarrow> u32 \<Rightarrow> pty_size" where
  "size_of columns rows width height =
     \<lparr>pty_rows = (if rows = 0 then 24 else clamp16 rows), pty_cols = (if columns = 0 then 80 else clamp16 columns),
      pixel_width = clamp16 width, pixel_height = clamp16 height\<rparr>"

definition accepted_env :: "string \<Rightarrow> bool" where
  "accepted_env name \<longleftrightarrow> name = ''TERM'' \<or> name = ''LANG'' \<or> starts_with name ''LC_''"

record pending =
  pending_env :: variables
  pending_terminal :: "terminal option"

record ssh_session =
  session_config :: ssh_config
  pending_channels :: "(u32 \<times> pending) list"
  session_env :: variables

record command_spec =
  program :: string
  program_args :: "string list"
  program_dir :: string
  program_env :: variables

datatype ssh_request =
    AuthNone string
  | AuthPublicKey string ssh_key
  | OpenSession u32
  | CloseChannel u32
  | SetEnv u32 string string
  | RequestPty u32 string u32 u32 u32 u32 "(pty_mode \<times> u32) list"
  | RequestShell u32
  | RequestExec u32 "byte list"
  | RequestSubsystem u32 string

datatype ssh_effect =
    AuthAccept
  | AuthReject
  | ChannelAccepted u32
  | ChannelSuccess u32
  | ChannelFailure u32
  | Banner u32
  | Launch u32 command_spec "terminal option"
  | LaunchFailed u32
  | ShellDisabled u32
  | StartSftp u32 "(string \<times> file_mode) option"

section \<open>Running a command\<close>

text \<open>What the operating system says of the process: name, home directory, user id and \<open>SHELL\<close>.\<close>

record account =
  user_info :: "(string \<times> string \<times> u32) res"
  shell_var :: "string option"

definition login_shell :: "account \<Rightarrow> string" where
  "login_shell acc = (case shell_var acc of Some s \<Rightarrow> if s \<noteq> [] then s else ''/bin/sh'' | None \<Rightarrow> ''/bin/sh'')"

definition forwarded_name :: "string \<Rightarrow> bool" where
  "forwarded_name k \<longleftrightarrow>
     accepted_env k \<or>
     k \<in> {''TAILCAT_PEER_KEY'', ''TAILCAT_REMOTE_ADDR'', ''TAILCAT_LOCAL_ADDR'', ''SSH_ORIGINAL_COMMAND''}"

definition forwarded :: "variables \<Rightarrow> variables" where
  "forwarded env = (\<lambda>k. case env k of Some v \<Rightarrow> if forwarded_name k \<and> CHR 0x00 \<notin> set v then Some v else None | None \<Rightarrow> None)"

definition search_path :: "u32 \<Rightarrow> string" where
  "search_path uid =
     (if uid = 0 then ''/usr/local/sbin:/usr/local/bin:/usr/sbin:/usr/bin:/sbin:/bin''
      else ''/usr/local/bin:/usr/bin:/bin'')"

definition command_spec_of :: "account \<Rightarrow> string \<Rightarrow> variables \<Rightarrow> command_spec res" where
  "command_spec_of acc cmd env =
     and_then (user_info acc) (\<lambda>(user, home, uid).
     let shell = login_shell acc;
         base = [''SHELL'' \<mapsto> shell, ''USER'' \<mapsto> user, ''HOME'' \<mapsto> home, ''PATH'' \<mapsto> search_path uid]
     in Ok \<lparr>program = shell, program_args = (if cmd = [] then [''-l''] else [''-c'', cmd]), program_dir = home,
            program_env = base ++ forwarded env\<rparr>)"

definition force_command :: "string list \<Rightarrow> string \<Rightarrow> command_spec \<Rightarrow> command_spec" where
  "force_command forced cmd spec =
     (case forced of
        [] \<Rightarrow> spec
      | p # as \<Rightarrow>
          spec\<lparr>program := p, program_args := as,
               program_env := (program_env spec)(''SSH_ORIGINAL_COMMAND'' \<mapsto> cmd)\<rparr>)"

text \<open>\<open>run_pty\<close> sets \<open>TERM\<close> to the name of the terminal, if it has one.\<close>

definition with_terminal :: "terminal option \<Rightarrow> command_spec \<Rightarrow> command_spec" where
  "with_terminal t spec =
     (case t of
        Some t \<Rightarrow> if term_name t = [] then spec else spec\<lparr>program_env := (program_env spec)(''TERM'' \<mapsto> term_name t)\<rparr>
      | None \<Rightarrow> spec)"

definition shell_run ::
  "account \<Rightarrow> u32 \<Rightarrow> string \<Rightarrow> variables \<Rightarrow> terminal option \<Rightarrow> string list \<Rightarrow> ssh_effect list" where
  "shell_run acc i cmd env t forced =
     (if t \<noteq> None \<and> cmd = [] then [Banner i] else []) @
     (case command_spec_of acc cmd env of
        Inl e \<Rightarrow> [LaunchFailed i]
      | Inr spec \<Rightarrow> [Launch i (with_terminal t (force_command forced cmd spec)) t])"

section \<open>The handler\<close>

definition auth_none :: "ssh_config \<Rightarrow> bool" where
  "auth_none cfg = (authorized_keys cfg = None)"

definition auth_publickey :: "ssh_config \<Rightarrow> ssh_key \<Rightarrow> bool" where
  "auth_publickey cfg key =
     (case authorized_keys cfg of Some keys \<Rightarrow> list_ex (\<lambda>k. fst k = fst key) keys | None \<Rightarrow> False)"

definition drop_pending :: "u32 \<Rightarrow> ssh_session \<Rightarrow> ssh_session" where
  "drop_pending i s = s\<lparr>pending_channels := AList.delete i (pending_channels s)\<rparr>"

definition start_shell :: "account \<Rightarrow> u32 \<Rightarrow> string \<Rightarrow> ssh_session \<Rightarrow> ssh_effect list \<times> ssh_session" where
  "start_shell acc i cmd s =
     (case map_of (pending_channels s) i of
        None \<Rightarrow> ([ChannelFailure i], s)
      | Some p \<Rightarrow>
          (ChannelSuccess i #
             (if ssh_shell (session_config s)
              then shell_run acc i cmd (pending_env p) (pending_terminal p) (forced_command (session_config s))
              else [ShellDisabled i]),
           drop_pending i s))"

definition open_channel :: "u32 \<Rightarrow> ssh_session \<Rightarrow> ssh_effect list \<times> ssh_session" where
  "open_channel i s =
     ([ChannelAccepted i],
      s\<lparr>pending_channels :=
          AList.update i \<lparr>pending_env = session_env s, pending_terminal = None\<rparr> (pending_channels s)\<rparr>)"

definition env_request :: "u32 \<Rightarrow> string \<Rightarrow> string \<Rightarrow> ssh_session \<Rightarrow> ssh_effect list \<times> ssh_session" where
  "env_request i name val s =
     (case map_of (pending_channels s) i of
        Some p \<Rightarrow>
          if accepted_env name \<and> CHR 0x00 \<notin> set val
          then ([ChannelSuccess i],
                s\<lparr>pending_channels :=
                    AList.update i (p\<lparr>pending_env := (pending_env p)(name \<mapsto> val)\<rparr>) (pending_channels s)\<rparr>)
          else ([ChannelFailure i], s)
      | None \<Rightarrow> ([ChannelFailure i], s))"

definition pty_request ::
  "u32 \<Rightarrow> string \<Rightarrow> u32 \<Rightarrow> u32 \<Rightarrow> u32 \<Rightarrow> u32 \<Rightarrow> (pty_mode \<times> u32) list \<Rightarrow> ssh_session \<Rightarrow> ssh_effect list \<times> ssh_session" where
  "pty_request i name columns rows width height modes s =
     (case map_of (pending_channels s) i of
        Some p \<Rightarrow>
          ([ChannelSuccess i],
           s\<lparr>pending_channels :=
               AList.update i
                 (p\<lparr>pending_terminal := Some \<lparr>term_name = name, term_size = size_of columns rows width height,
                                             term_modes = modes\<rparr>\<rparr>)
                 (pending_channels s)\<rparr>)
      | None \<Rightarrow> ([ChannelFailure i], s))"

definition exec_request :: "account \<Rightarrow> u32 \<Rightarrow> byte list \<Rightarrow> ssh_session \<Rightarrow> ssh_effect list \<times> ssh_session" where
  "exec_request acc i data s =
     (case from_utf8 data of
        Some cmd \<Rightarrow> if CHR 0x00 \<in> set cmd then ([ChannelFailure i], s) else start_shell acc i cmd s
      | None \<Rightarrow> ([ChannelFailure i], s))"

definition subsystem_request :: "u32 \<Rightarrow> string \<Rightarrow> ssh_session \<Rightarrow> ssh_effect list \<times> ssh_session" where
  "subsystem_request i name s =
     (let cfg = session_config s
      in if forced_command cfg \<noteq> [] \<or> name \<noteq> ''sftp'' \<or> \<not> ssh_shell cfg \<and> ssh_files cfg = None
         then ([ChannelFailure i], s)
         else case map_of (pending_channels s) i of
           None \<Rightarrow> ([ChannelFailure i], s)
         | Some p \<Rightarrow> ([ChannelSuccess i, StartSftp i (ssh_files cfg)], drop_pending i s))"

fun ssh_handle :: "account \<Rightarrow> ssh_request \<Rightarrow> ssh_session \<Rightarrow> ssh_effect list \<times> ssh_session" where
  "ssh_handle acc (AuthNone user) s = ([if auth_none (session_config s) then AuthAccept else AuthReject], s)"
| "ssh_handle acc (AuthPublicKey user key) s =
     ([if auth_publickey (session_config s) key then AuthAccept else AuthReject], s)"
| "ssh_handle acc (OpenSession i) s = open_channel i s"
| "ssh_handle acc (CloseChannel i) s = ([], drop_pending i s)"
| "ssh_handle acc (SetEnv i name val) s = env_request i name val s"
| "ssh_handle acc (RequestPty i name c r w h modes) s = pty_request i name c r w h modes s"
| "ssh_handle acc (RequestShell i) s = start_shell acc i [] s"
| "ssh_handle acc (RequestExec i data) s = exec_request acc i data s"
| "ssh_handle acc (RequestSubsystem i name) s = subsystem_request i name s"

text \<open>
  \<open>serve_ssh\<close>: a connection begins with the variables of its peer and no channel. \<open>russh\<close> takes
  channel requests only from a client the handler has accepted, and ignores a later request for
  authentication (RFC 4252, sections 5.1 and 6).
\<close>

definition new_session :: "ssh_config \<Rightarrow> variables \<Rightarrow> ssh_session" where
  "new_session cfg env = \<lparr>session_config = cfg, pending_channels = [], session_env = env\<rparr>"

definition is_auth :: "ssh_request \<Rightarrow> bool" where
  "is_auth r = (case r of AuthNone _ \<Rightarrow> True | AuthPublicKey _ _ \<Rightarrow> True | _ \<Rightarrow> False)"

fun ssh_run :: "account \<Rightarrow> bool \<Rightarrow> ssh_request list \<Rightarrow> ssh_session \<Rightarrow> ssh_effect list" where
  "ssh_run acc accepted [] s = []"
| "ssh_run acc accepted (r # rs) s =
     (if is_auth r \<and> accepted then ssh_run acc accepted rs s
      else if \<not> is_auth r \<and> \<not> accepted then []
      else case ssh_handle acc r s of
        (es, s) \<Rightarrow> es @ ssh_run acc (accepted \<or> AuthAccept \<in> set es) rs s)"

text \<open>\<open>connection_env\<close> of \<open>src/runtime.rs\<close>, from the texts of the peer's key and the two addresses.\<close>

definition connection_env :: "(string \<times> string \<times> string) option \<Rightarrow> variables" where
  "connection_env info =
     (case info of
        Some (key, remote, local) \<Rightarrow>
          [''TAILCAT_PEER_KEY'' \<mapsto> ''nodekey:'' @ key, ''TAILCAT_REMOTE_ADDR'' \<mapsto> remote,
           ''TAILCAT_LOCAL_ADDR'' \<mapsto> local]
      | None \<Rightarrow> Map.empty)"

section \<open>The SFTP subsystem\<close>

text \<open>
  The bytes of the channel until it is closed; \<open>decode\<close> and \<open>encode\<close> are the packets of the
  \<open>russh_sftp\<close> crate, with the length prefix in front of an answer. The result is how the session
  ends, what was written, and the state.
\<close>

definition max_sftp_packet :: nat where
  "max_sftp_packet = 256 * 1024"

definition sftp_packet :: "byte list \<Rightarrow> (byte list \<times> byte list) res" where
  "sftp_packet inp =
     (let n = unat (from_be_bytes (take 4 inp) :: u32)
      in if length inp < 4 then Err ''early eof''
         else if n = 0 \<or> max_sftp_packet < n then Err ''invalid SFTP packet length''
         else read_exact n (drop 4 inp))"

lemma sftp_packet_consumes: "sftp_packet inp = Ok (data, rest) \<Longrightarrow> length rest < length inp"
  by (auto simp: sftp_packet_def Let_def read_exact_def split: if_split_asm)

function run_sftp ::
  "(byte list \<Rightarrow> request res) \<Rightarrow> (response \<Rightarrow> byte list res) \<Rightarrow> 'w disk_env \<Rightarrow> byte list \<Rightarrow> 'w files \<Rightarrow>
   unit res \<times> byte list \<times> 'w files" where
  "run_sftp decode encode D inp s =
     (if length inp < 4 then (Ok (), [], s)
      else case sftp_packet inp of
        Inl e \<Rightarrow> (Inl e, [], s)
      | Inr (data, rest) \<Rightarrow>
          (case decode data of
             Inl e \<Rightarrow> (Inl e, [], s)
           | Inr r \<Rightarrow>
               (case process D r s of
                  (a, s) \<Rightarrow>
                    (case encode a of
                       Inl e \<Rightarrow> (Inl e, [], s)
                     | Inr reply \<Rightarrow>
                         (case run_sftp decode encode D rest s of
                            (how, out, s) \<Rightarrow> (how, reply @ out, s))))))"
  by pat_completeness auto
termination
  by (relation "measure (\<lambda>(_, _, _, inp, _). length inp)") (auto dest: sftp_packet_consumes)

declare run_sftp.simps [simp del]

end
