(* ===== verification/SshProps.thy ===== *)
theory SshProps
  imports Ssh FilesProps
begin

text \<open>
  The properties of the SSH service: who gets a shell, a command or the files, with which program and
  variables, and the bytes of the SFTP subsystem as a session of requests.
\<close>

section \<open>The variables of a channel\<close>

text \<open>The variables of the peer that a client cannot set are those of the connection.\<close>

definition own_variables :: "variables \<Rightarrow> variables \<Rightarrow> bool" where
  "own_variables env env' \<longleftrightarrow> (\<forall>k. \<not> accepted_env k \<longrightarrow> env' k = env k)"

definition session_inv :: "ssh_config \<Rightarrow> variables \<Rightarrow> ssh_session \<Rightarrow> bool" where
  "session_inv cfg env s \<longleftrightarrow>
     session_config s = cfg \<and> session_env s = env \<and>
     (\<forall>i p. map_of (pending_channels s) i = Some p \<longrightarrow> own_variables env (pending_env p))"

lemma session_inv_new [simp]: "session_inv cfg env (new_session cfg env)"
  by (simp add: session_inv_def new_session_def)

lemma map_of_delete: "map_of (AList.delete i xs) j = (if j = i then None else map_of xs j)"
  by (simp add: delete_conv)

lemma map_of_update: "map_of (AList.update i v xs) j = (if j = i then Some v else map_of xs j)"
  by (simp add: update_conv)

lemma session_inv_drop: "session_inv cfg env s \<Longrightarrow> session_inv cfg env (drop_pending i s)"
  by (auto simp: session_inv_def drop_pending_def map_of_delete)

lemma session_inv_handle: "session_inv cfg env s \<Longrightarrow> session_inv cfg env (snd (ssh_handle acc r s))"
proof (cases r)
  case (SetEnv i name val)
  assume "session_inv cfg env s"
  with SetEnv show ?thesis
    by (auto simp: env_request_def session_inv_def own_variables_def map_of_update split: option.split)
next
  case (RequestPty i name c r w h modes)
  assume "session_inv cfg env s"
  with RequestPty show ?thesis
    by (auto simp: pty_request_def session_inv_def map_of_update split: option.split)
next
  case (OpenSession i)
  assume "session_inv cfg env s"
  with OpenSession show ?thesis
    by (auto simp: open_channel_def session_inv_def own_variables_def map_of_update)
qed (auto simp: start_shell_def exec_request_def subsystem_request_def Let_def intro: session_inv_drop
      split: option.split)

section \<open>What a session starts\<close>

text \<open>The client was let in: no keys are asked for, or it showed one of them.\<close>

definition admitted :: "ssh_config \<Rightarrow> ssh_request list \<Rightarrow> bool" where
  "admitted cfg rs \<longleftrightarrow>
     (case authorized_keys cfg of
        None \<Rightarrow> True
      | Some keys \<Rightarrow> \<exists>user key. AuthPublicKey user key \<in> set rs \<and> fst key \<in> fst ` set keys)"

definition server_variables :: "string set" where
  "server_variables = {''SHELL'', ''USER'', ''HOME'', ''PATH''}"

definition peer_variables :: "string set" where
  "peer_variables = {''TAILCAT_PEER_KEY'', ''TAILCAT_REMOTE_ADDR'', ''TAILCAT_LOCAL_ADDR''}"

text \<open>The command of a shell session, and its variables.\<close>

definition right_command :: "account \<Rightarrow> string list \<Rightarrow> command_spec \<Rightarrow> bool" where
  "right_command acc forced spec \<longleftrightarrow>
     (if forced = [] then program spec = login_shell acc \<and>
        (program_args spec = [''-l''] \<or> (\<exists>cmd. program_args spec = [''-c'', cmd]))
      else program spec = hd forced \<and> program_args spec = tl forced)"

definition right_variables :: "account \<Rightarrow> variables \<Rightarrow> string list \<Rightarrow> command_spec \<Rightarrow> bool" where
  "right_variables acc env forced spec \<longleftrightarrow>
     (\<exists>user uid. user_info acc = Ok (user, program_dir spec, uid) \<and>
        program_env spec ''USER'' = Some user \<and> program_env spec ''HOME'' = Some (program_dir spec) \<and>
        program_env spec ''SHELL'' = Some (login_shell acc) \<and> program_env spec ''PATH'' = Some (search_path uid)) \<and>
     (\<forall>k \<in> peer_variables. program_env spec k = forwarded env k) \<and>
     (program_env spec ''SSH_ORIGINAL_COMMAND'' \<noteq> None \<longleftrightarrow> forced \<noteq> []) \<and>
     (\<forall>k \<in> dom (program_env spec).
        accepted_env k \<or> k \<in> server_variables \<union> peer_variables \<union> {''SSH_ORIGINAL_COMMAND''})"

definition started_right :: "account \<Rightarrow> ssh_config \<Rightarrow> variables \<Rightarrow> ssh_effect \<Rightarrow> bool" where
  "started_right acc cfg env e \<longleftrightarrow>
     (case e of
        Launch i spec t \<Rightarrow>
          ssh_shell cfg \<and> right_command acc (forced_command cfg) spec \<and> right_variables acc env (forced_command cfg) spec
      | StartSftp i share \<Rightarrow> forced_command cfg = [] \<and> share = ssh_files cfg \<and> (ssh_shell cfg \<or> share \<noteq> None)
      | _ \<Rightarrow> True)"

lemma special_names:
  "\<not> accepted_env ''SHELL''" "\<not> accepted_env ''USER''" "\<not> accepted_env ''HOME''" "\<not> accepted_env ''PATH''"
  "\<not> accepted_env ''TAILCAT_PEER_KEY''" "\<not> accepted_env ''TAILCAT_REMOTE_ADDR''" "\<not> accepted_env ''TAILCAT_LOCAL_ADDR''"
  "\<not> accepted_env ''SSH_ORIGINAL_COMMAND''" "accepted_env ''TERM''"
  by (simp_all add: accepted_env_def starts_with_def)

lemma forwarded_own:
  "own_variables env env' \<Longrightarrow> \<not> accepted_env k \<Longrightarrow> forwarded env' k = forwarded env k"
  by (simp add: forwarded_def own_variables_def)

lemma forwarded_not_named: "\<not> forwarded_name k \<Longrightarrow> forwarded env k = None"
  by (simp add: forwarded_def split: option.split)

lemma connection_env_original [simp]: "connection_env info ''SSH_ORIGINAL_COMMAND'' = None"
  by (simp add: connection_env_def split: option.split)

lemma server_not_forwarded:
  "\<not> forwarded_name ''SHELL''" "\<not> forwarded_name ''USER''" "\<not> forwarded_name ''HOME''" "\<not> forwarded_name ''PATH''"
  by (simp_all add: forwarded_name_def special_names)

text \<open>The variables of the command, name by name.\<close>

lemma spec_env:
  assumes "command_spec_of acc cmd env = Ok spec"
  obtains user uid where "user_info acc = Ok (user, program_dir spec, uid)"
    "program spec = login_shell acc" "program_args spec = (if cmd = [] then [''-l''] else [''-c'', cmd])"
    "program_env spec = [''SHELL'' \<mapsto> login_shell acc, ''USER'' \<mapsto> user, ''HOME'' \<mapsto> program_dir spec,
       ''PATH'' \<mapsto> search_path uid] ++ forwarded env"
  using assms by (auto simp: command_spec_of_def Let_def result_simps)

definition launched :: "terminal option \<Rightarrow> string list \<Rightarrow> string \<Rightarrow> command_spec \<Rightarrow> command_spec" where
  "launched t forced cmd spec = with_terminal t (force_command forced cmd spec)"

lemma launched_dir [simp]: "program_dir (launched t forced cmd spec) = program_dir spec"
  by (simp add: launched_def with_terminal_def force_command_def split: option.split list.split)

lemma launched_program:
  "program (launched t forced cmd spec) = (if forced = [] then program spec else hd forced)"
  "program_args (launched t forced cmd spec) = (if forced = [] then program_args spec else tl forced)"
  by (simp_all add: launched_def with_terminal_def force_command_def split: option.split list.split)

lemma launched_env:
  "k \<noteq> ''TERM'' \<Longrightarrow> k \<noteq> ''SSH_ORIGINAL_COMMAND'' \<Longrightarrow> program_env (launched t forced cmd spec) k = program_env spec k"
  "program_env (launched t forced cmd spec) ''SSH_ORIGINAL_COMMAND'' =
   (if forced = [] then program_env spec ''SSH_ORIGINAL_COMMAND'' else Some cmd)"
  by (simp_all add: launched_def with_terminal_def force_command_def split: option.split list.split)

lemma launched_right:
  assumes spec: "command_spec_of acc cmd env' = Ok spec" and own: "own_variables (connection_env info) env'"
  shows "right_command acc forced (launched t forced cmd spec) \<and>
    right_variables acc (connection_env info) forced (launched t forced cmd spec)"
proof -
  obtain user uid where u: "user_info acc = Ok (user, program_dir spec, uid)" "program spec = login_shell acc"
      "program_args spec = (if cmd = [] then [''-l''] else [''-c'', cmd])"
    and e: "program_env spec = [''SHELL'' \<mapsto> login_shell acc, ''USER'' \<mapsto> user, ''HOME'' \<mapsto> program_dir spec,
       ''PATH'' \<mapsto> search_path uid] ++ forwarded env'"
    using spec by (rule spec_env)
  let ?l = "launched t forced cmd spec"
  have c: "right_command acc forced ?l"
    using u(2,3) by (simp add: right_command_def launched_program)
  have srv: "program_env ?l ''USER'' = Some user" "program_env ?l ''HOME'' = Some (program_dir spec)"
    "program_env ?l ''SHELL'' = Some (login_shell acc)" "program_env ?l ''PATH'' = Some (search_path uid)"
    by (simp_all add: launched_env e map_add_def forwarded_not_named server_not_forwarded)
  have peer: "program_env ?l k = forwarded (connection_env info) k" if "k \<in> peer_variables" for k
  proof -
    have "k \<noteq> ''TERM''" "k \<noteq> ''SSH_ORIGINAL_COMMAND''" "\<not> accepted_env k" "k \<notin> server_variables"
      using that by (auto simp: peer_variables_def server_variables_def special_names)
    then show ?thesis
      using forwarded_own [OF own, of k]
      by (auto simp: launched_env e map_add_def server_variables_def split: option.split)
  qed
  have orig: "(program_env ?l ''SSH_ORIGINAL_COMMAND'' \<noteq> None) = (forced \<noteq> [])"
    using forwarded_own [OF own special_names(8)]
    by (simp add: launched_env e map_add_def) (simp add: forwarded_def)
  have names: "accepted_env k \<or> k \<in> server_variables \<union> peer_variables \<union> {''SSH_ORIGINAL_COMMAND''}"
    if "k \<in> dom (program_env ?l)" for k
  proof (cases "k = ''TERM'' \<or> k = ''SSH_ORIGINAL_COMMAND''")
    case True
    then show ?thesis using special_names(9) by auto
  next
    case False
    then have "program_env spec k \<noteq> None" using that launched_env(1) by auto
    then have "k \<in> server_variables \<or> forwarded_name k"
      using forwarded_not_named [of k env'] by (auto simp: e map_add_def server_variables_def split: option.splits if_split_asm)
    then show ?thesis by (auto simp: forwarded_name_def peer_variables_def)
  qed
  have "right_variables acc (connection_env info) forced ?l"
    unfolding right_variables_def
  proof (intro conjI ballI)
    show "\<exists>user uid. user_info acc = Ok (user, program_dir ?l, uid) \<and>
        program_env ?l ''USER'' = Some user \<and> program_env ?l ''HOME'' = Some (program_dir ?l) \<and>
        program_env ?l ''SHELL'' = Some (login_shell acc) \<and> program_env ?l ''PATH'' = Some (search_path uid)"
      using u(1) srv by (intro exI [of _ user] exI [of _ uid]) simp
  qed (use peer orig names in blast)+
  with c show ?thesis by blast
qed

lemma shell_run_right:
  assumes "e \<in> set (shell_run acc i cmd env' t (forced_command cfg))" "ssh_shell cfg"
    "own_variables (connection_env info) env'"
  shows "started_right acc cfg (connection_env info) e"
proof (cases "command_spec_of acc cmd env'")
  case (Inl x)
  with assms show ?thesis by (auto simp: shell_run_def started_right_def split: if_split_asm)
next
  case (Inr spec)
  with launched_right [OF Inr assms(3)] assms(1,2) show ?thesis
    by (auto simp: shell_run_def started_right_def launched_def split: if_split_asm)
qed

lemma start_shell_right:
  assumes "session_inv cfg (connection_env info) s" "e \<in> set (fst (start_shell acc i cmd s))"
  shows "started_right acc cfg (connection_env info) e"
proof (cases "map_of (pending_channels s) i")
  case None
  with assms(2) show ?thesis by (simp add: start_shell_def started_right_def)
next
  case (Some p)
  with assms shell_run_right [of e acc i cmd "pending_env p" "pending_terminal p" cfg info] show ?thesis
    by (auto simp: start_shell_def session_inv_def started_right_def split: if_split_asm)
qed

lemma handle_right:
  assumes "session_inv cfg (connection_env info) s" "e \<in> set (fst (ssh_handle acc r s))"
  shows "started_right acc cfg (connection_env info) e"
proof (cases r)
  case (RequestShell i)
  with assms start_shell_right show ?thesis by simp
next
  case (RequestExec i data)
  with assms start_shell_right [OF assms(1)] show ?thesis
    by (auto simp: exec_request_def started_right_def split: option.splits if_split_asm)
next
  case (RequestSubsystem i name)
  with assms show ?thesis
    by (auto simp: subsystem_request_def Let_def session_inv_def started_right_def split: option.splits if_split_asm)
qed (use assms in \<open>auto simp: started_right_def open_channel_def env_request_def pty_request_def
       split: option.splits if_split_asm\<close>)

section \<open>Who is let in\<close>

lemma started_needs_channel:
  "e \<in> set (fst (ssh_handle acc r s)) \<Longrightarrow> is_auth r \<Longrightarrow> e = AuthAccept \<or> e = AuthReject"
  by (cases r) (auto simp: is_auth_def)

lemma auth_publickey_shown:
  "auth_publickey cfg key \<Longrightarrow> admitted cfg (AuthPublicKey user key # rs)"
proof -
  assume "auth_publickey cfg key"
  then obtain keys where k: "authorized_keys cfg = Some keys" "fst key \<in> fst ` set keys"
    by (auto simp: auth_publickey_def list_ex_iff split: option.splits) (metis fst_conv image_eqI)
  then show ?thesis unfolding admitted_def option.case k(1) by (intro exI [of _ user] exI [of _ key]) simp
qed

lemma accept_admits:
  assumes "AuthAccept \<in> set (fst (ssh_handle acc r s))" "is_auth r"
  shows "admitted (session_config s) (r # rs)"
proof (cases r)
  case (AuthNone user)
  with assms(1) show ?thesis by (auto simp: auth_none_def admitted_def split: if_split_asm)
next
  case (AuthPublicKey user key)
  with assms(1) show ?thesis by (auto intro: auth_publickey_shown split: if_split_asm)
qed (use assms(2) in \<open>simp_all add: is_auth_def\<close>)

lemma admitted_Cons: "admitted cfg rs \<Longrightarrow> admitted cfg (r # rs)"
  by (auto simp: admitted_def split: option.splits)

lemma ssh_run_right:
  assumes "session_inv cfg (connection_env info) s" "e \<in> set (ssh_run acc accepted rs s)"
  shows "started_right acc cfg (connection_env info) e \<and>
    (e \<in> {AuthAccept, AuthReject} \<or> accepted \<or> admitted cfg rs)"
  using assms
proof (induction rs arbitrary: accepted s)
  case Nil
  then show ?case by simp
next
  case (Cons r rs)
  obtain es s' where h: "ssh_handle acc r s = (es, s')" by (metis surj_pair)
  have inv: "session_inv cfg (connection_env info) s'"
    using session_inv_handle [OF Cons.prems(1), of acc r] h by simp
  consider (again) "is_auth r" "accepted" | (early) "\<not> is_auth r" "\<not> accepted" | (step) "is_auth r = (\<not> accepted)"
    by blast
  then show ?case
  proof cases
    case again
    then show ?thesis using Cons.IH [OF Cons.prems(1)] Cons.prems(2) by simp
  next
    case early
    then show ?thesis using Cons.prems(2) by simp
  next
    case step
    then have "e \<in> set es \<or> e \<in> set (ssh_run acc (accepted \<or> AuthAccept \<in> set es) rs s')"
      using Cons.prems(2) h by (cases accepted) auto
    then show ?thesis
    proof
      assume e: "e \<in> set es"
      then have "started_right acc cfg (connection_env info) e"
        using handle_right [OF Cons.prems(1), of e acc r] h by simp
      moreover have "e = AuthAccept \<or> e = AuthReject \<or> accepted"
        using started_needs_channel [of e acc r s] e h step by auto
      ultimately show ?thesis by blast
    next
      assume "e \<in> set (ssh_run acc (accepted \<or> AuthAccept \<in> set es) rs s')"
      from Cons.IH [OF inv this] have r: "started_right acc cfg (connection_env info) e"
        "e \<in> {AuthAccept, AuthReject} \<or> (accepted \<or> AuthAccept \<in> set es) \<or> admitted cfg rs"
        by blast+
      have "admitted cfg (r # rs)" if "AuthAccept \<in> set es" "\<not> accepted"
        using accept_admits [of acc r s rs] that h step Cons.prems(1) by (simp add: session_inv_def)
      with r admitted_Cons [of cfg rs r] show ?thesis by blast
    qed
  qed
qed

section \<open>Properties\<close>

text \<open>
  C11. Whatever requests a client sends, a program is started for it only if the service offers a shell
  and the client was let in (no keys are asked for, or it showed an authorized one). The program is
  the forced command with its arguments if there is one and else the login shell of the server's own
  account; the account's name, home, shell and search path and the identity of the peer are the
  server's whatever variables the client set, and beyond those the program sees only \<open>TERM\<close>, \<open>LANG\<close> and
  \<open>LC_*\<close>. The files are served only where no command is forced, and only the configured share.
\<close>

theorem ssh_session_policy:
  assumes "e \<in> set (ssh_run acc False rs (new_session cfg (connection_env info)))"
    and "e \<notin> {AuthAccept, AuthReject}"
  shows "admitted cfg rs \<and>
    (case e of
       Launch i spec t \<Rightarrow>
         ssh_shell cfg \<and> right_command acc (forced_command cfg) spec \<and>
         right_variables acc (connection_env info) (forced_command cfg) spec
     | StartSftp i share \<Rightarrow> forced_command cfg = [] \<and> share = ssh_files cfg \<and> (ssh_shell cfg \<or> share \<noteq> None)
     | _ \<Rightarrow> True)"
  using ssh_run_right [OF session_inv_new assms(1)] assms(2) unfolding started_right_def by blast

definition ref_account :: account where
  "ref_account = \<lparr>user_info = Ok (''u'', ''/home/u'', 1), shell_var = None\<rparr>"

definition ref_ssh :: ssh_config where
  "ref_ssh = \<lparr>ssh_shell = True, ssh_files = None, forced_command = [''/bin/date'', ''-u''],
     authorized_keys = Some [([1], ''a'')]\<rparr>"

text \<open>The command that the session below starts.\<close>

definition ref_spec :: command_spec where
  "ref_spec = launched None (forced_command ref_ssh) ''id''
     \<lparr>program = ''/bin/sh'', program_args = [''-c'', ''id''], program_dir = ''/home/u'',
      program_env = [''SHELL'' \<mapsto> ''/bin/sh'', ''USER'' \<mapsto> ''u'', ''HOME'' \<mapsto> ''/home/u'',
        ''PATH'' \<mapsto> search_path 1] ++ forwarded ((connection_env None)(''LANG'' \<mapsto> ''C''))\<rparr>"

definition ref_requests :: "ssh_request list" where
  "ref_requests = [AuthPublicKey ''x'' ([1], ''b''), OpenSession 0, SetEnv 0 ''LANG'' ''C'', SetEnv 0 ''PATH'' ''/tmp'',
     RequestExec 0 (as_bytes ''id'')]"

theorem ssh_session_policy_witness:
  "admitted ref_ssh ref_requests \<and> program ref_spec = ''/bin/date'' \<and> program_args ref_spec = [''-u''] \<and>
   right_variables ref_account (connection_env None) [''/bin/date'', ''-u''] ref_spec"
proof -
  have cmd: "from_utf8 (as_bytes ''id'') = Some ''id''" by code_simp
  have "Launch 0 ref_spec None \<in> set (ssh_run ref_account False ref_requests (new_session ref_ssh (connection_env None)))"
    by (simp add: ref_requests_def ref_ssh_def ref_account_def ref_spec_def launched_def is_auth_def auth_publickey_def
        open_channel_def env_request_def accepted_env_def starts_with_def new_session_def exec_request_def
        cmd start_shell_def shell_run_def command_spec_of_def Let_def login_shell_def)
  from ssh_session_policy [OF this] show ?thesis
    by (simp add: right_command_def ref_ssh_def)
qed

section \<open>The SFTP subsystem\<close>

definition put_sftp_packet :: "byte list \<Rightarrow> byte list" where
  "put_sftp_packet data = to_be_bytes 4 (of_nat (length data) :: u32) @ data"

definition sftp_packet_fits :: "byte list \<Rightarrow> bool" where
  "sftp_packet_fits data \<longleftrightarrow> data \<noteq> [] \<and> length data \<le> max_sftp_packet"

lemma sftp_packet_put: "sftp_packet_fits data \<Longrightarrow> sftp_packet (put_sftp_packet data @ rest) = Ok (data, rest)"
  by (simp add: sftp_packet_fits_def sftp_packet_def put_sftp_packet_def max_sftp_packet_def unat_of_nat
      take_bit_nat_eq_self)

lemma sftp_packet_split:
  assumes "sftp_packet inp = Ok (data, rest)"
  shows "inp = put_sftp_packet data @ rest \<and> sftp_packet_fits data"
proof -
  have l: "\<not> length inp < 4" using assms by (auto simp: sftp_packet_def)
  let ?n = "from_be_bytes (take 4 inp) :: u32"
  have r: "read_exact (unat ?n) (drop 4 inp) = Ok (data, rest)" "0 < unat ?n" "unat ?n \<le> max_sftp_packet"
    using assms by (auto simp: sftp_packet_def Let_def split: if_split_asm)
  then have d: "drop 4 inp = data @ rest" "length data = unat ?n" by (auto simp: result_simps)
  have "to_be_bytes 4 ?n = take 4 inp"
    using to_from_be_bytes [of "take 4 inp", where 'a = 32] l by simp
  then have "put_sftp_packet data @ rest = take 4 inp @ drop 4 inp"
    using d by (simp add: put_sftp_packet_def)
  moreover have "sftp_packet_fits data" using r d by (auto simp: sftp_packet_fits_def)
  ultimately show ?thesis by (simp only: append_take_drop_id)
qed

interpretation sftp_packets: framing put_sftp_packet sftp_packet sftp_packet_fits
  by unfold_locales (simp_all add: sftp_packet_put sftp_packet_consumes)

lemma session_run_Cons:
  "session_run D (q # rs) s =
   (fst (process D q s) # fst (session_run D rs (snd (process D q s))), snd (session_run D rs (snd (process D q s))))"
  by (simp split: prod.split)

text \<open>The answers that were sent: all, or all but the last if it could not be encoded.\<close>

definition sent_answers :: "(response \<Rightarrow> byte list res) \<Rightarrow> bool \<Rightarrow> response list \<Rightarrow> byte list \<Rightarrow> bool" where
  "sent_answers encode ok as out \<longleftrightarrow>
     (\<exists>bs. out = concat bs \<and>
        (list_all2 (\<lambda>a b. encode a = Ok b) as bs \<or>
         (\<not> ok \<and> as \<noteq> [] \<and> list_all2 (\<lambda>a b. encode a = Ok b) (butlast as) bs)))"

lemma sent_answers_Cons:
  "encode a = Ok b \<Longrightarrow> sent_answers encode ok as out \<Longrightarrow> sent_answers encode ok (a # as) (b @ out)"
  unfolding sent_answers_def
proof (elim exE conjE disjE)
  fix bs assume "encode a = Ok b" "out = concat bs" "list_all2 (\<lambda>a b. encode a = Ok b) as bs"
  then show "\<exists>bs. b @ out = concat bs \<and>
      (list_all2 (\<lambda>a b. encode a = Ok b) (a # as) bs \<or>
       (\<not> ok \<and> a # as \<noteq> [] \<and> list_all2 (\<lambda>a b. encode a = Ok b) (butlast (a # as)) bs))"
    by (intro exI [of _ "b # bs"]) simp
next
  fix bs assume "encode a = Ok b" "out = concat bs" "\<not> ok" "as \<noteq> []"
    "list_all2 (\<lambda>a b. encode a = Ok b) (butlast as) bs"
  then show "\<exists>bs. b @ out = concat bs \<and>
      (list_all2 (\<lambda>a b. encode a = Ok b) (a # as) bs \<or>
       (\<not> ok \<and> a # as \<noteq> [] \<and> list_all2 (\<lambda>a b. encode a = Ok b) (butlast (a # as)) bs))"
    by (intro exI [of _ "b # bs"]) simp
qed

text \<open>A run of the byte loop as a session of requests.\<close>

definition sftp_session ::
  "(byte list \<Rightarrow> request res) \<Rightarrow> (response \<Rightarrow> byte list res) \<Rightarrow> 'w disk_env \<Rightarrow> byte list \<Rightarrow> 'w files \<Rightarrow>
   unit res \<times> byte list \<times> 'w files \<Rightarrow> bool" where
  "sftp_session decode encode D inp s run \<longleftrightarrow>
     (\<exists>ds rs rest.
        inp = concat (map put_sftp_packet ds) @ rest \<and> list_all sftp_packet_fits ds \<and>
        list_all2 (\<lambda>d q. decode d = Ok q) ds rs \<and>
        snd (snd run) = snd (session_run D rs s) \<and>
        sent_answers encode (fst run = Ok ()) (fst (session_run D rs s)) (fst (snd run)) \<and>
        (fst run = Ok () \<longrightarrow> length rest < 4))"

lemma sftp_session_Cons:
  assumes p: "sftp_packet inp = Ok (data, rest)" and d: "decode data = Ok q"
    and a: "process D q s = (a, s')" and e: "encode a = Ok reply"
    and run: "sftp_session decode encode D rest s' (r, out, t)"
  shows "sftp_session decode encode D inp s (r, reply @ out, t)"
proof -
  from run obtain ds rs rest' where
    *: "rest = concat (map put_sftp_packet ds) @ rest'" "list_all sftp_packet_fits ds"
      "list_all2 (\<lambda>d q. decode d = Ok q) ds rs" "t = snd (session_run D rs s')"
      "sent_answers encode (r = Ok ()) (fst (session_run D rs s')) out" "r = Ok () \<longrightarrow> length rest' < 4"
    by (auto simp: sftp_session_def)
  show ?thesis unfolding sftp_session_def
    by (rule exI [of _ "data # ds"], rule exI [of _ "q # rs"], rule exI [of _ rest'])
      (use sftp_packet_split [OF p] d a * sent_answers_Cons [OF e *(5)] in \<open>simp add: session_run_Cons del: session_run.simps\<close>)
qed

lemma run_sftp_session: "sftp_session decode encode D inp s (run_sftp decode encode D inp s)"
proof (induction decode encode D inp s rule: run_sftp.induct)
  case (1 decode encode D inp s)
  have stop: "sftp_session decode encode D inp s (r, [], s)" if "r = Ok () \<longrightarrow> length inp < 4" for r
    unfolding sftp_session_def sent_answers_def
    by (rule exI [of _ "[]"], rule exI [of _ "[]"], rule exI [of _ inp]) (use that in auto)
  show ?case
  proof (cases "length inp < 4")
    case True
    then show ?thesis using stop [of "Ok ()"] by (subst run_sftp.simps) simp
  next
    case long: False
    show ?thesis
    proof (cases "sftp_packet inp")
      case (Inl e)
      then show ?thesis using stop [of "Inl e"] long by (subst run_sftp.simps) simp
    next
      case packet: (Inr p)
      obtain data rest where p: "p = (data, rest)" by (metis surj_pair)
      show ?thesis
      proof (cases "decode data")
        case (Inl e)
        then show ?thesis using stop [of "Inl e"] long packet p by (subst run_sftp.simps) simp
      next
        case dec: (Inr q)
        obtain a s' where a: "process D q s = (a, s')" by (metis surj_pair)
        show ?thesis
        proof (cases "encode a")
          case (Inl e)
          have none: "sent_answers encode False [a] []"
            unfolding sent_answers_def by (rule exI [of _ "[]"]) simp
          have "sftp_session decode encode D inp s (Inl e, [], s')"
            unfolding sftp_session_def
            by (rule exI [of _ "[data]"], rule exI [of _ "[q]"], rule exI [of _ rest])
              (use sftp_packet_split [of inp data rest] packet p dec a none in auto)
          then show ?thesis using Inl long packet p dec a by (subst run_sftp.simps) simp
        next
          case enc: (Inr reply)
          obtain r out t where run: "run_sftp decode encode D rest s' = (r, out, t)" by (metis prod_cases3)
          have "sftp_session decode encode D rest s' (r, out, t)"
            using 1 [OF long packet p [symmetric] dec _ enc] a run by simp
          from sftp_session_Cons [OF _ dec a enc this] packet p
          have "sftp_session decode encode D inp s (r, reply @ out, t)" by simp
          then show ?thesis using long packet p dec a enc run by (subst run_sftp.simps) simp
        qed
      qed
    qed
  qed
qed

lemma run_sftp_packet:
  assumes "sftp_packet_fits d" "decode d = Ok q" "encode (fst (process D q s)) = Ok b"
  shows "run_sftp decode encode D (put_sftp_packet d @ rest) s =
    (case run_sftp decode encode D rest (snd (process D q s)) of (r, out, t) \<Rightarrow> (r, b @ out, t))"
proof -
  have "\<not> length (put_sftp_packet d @ rest) < 4" by (simp add: put_sftp_packet_def)
  then show ?thesis
    using assms by (cases "process D q s", subst run_sftp.simps) (simp add: sftp_packet_put split: prod.split)
qed

lemma run_sftp_packets:
  assumes "list_all sftp_packet_fits ds" "list_all2 (\<lambda>d q. decode d = Ok q) ds rs"
    "\<forall>a \<in> set (fst (session_run D rs s)). encode a = Ok (enc a)" "length rest < 4"
  shows "run_sftp decode encode D (concat (map put_sftp_packet ds) @ rest) s =
    (Ok (), concat (map enc (fst (session_run D rs s))), snd (session_run D rs s))"
  using assms(2,1,3)
proof (induction arbitrary: s rule: list_all2_induct)
  case Nil
  then show ?case using assms(4) by (subst run_sftp.simps) simp
next
  case (Cons d ds q rs)
  have "encode (fst (process D q s)) = Ok (enc (fst (process D q s)))"
    using Cons.prems(2) by (simp add: session_run_Cons del: session_run.simps)
  from run_sftp_packet [of d decode q encode D s, OF _ Cons.hyps(1) this] Cons.IH Cons.prems
  show ?case by (simp add: session_run_Cons del: session_run.simps)
qed

text \<open>
  C36. The byte loop of the SFTP subsystem is the session of requests of the file service. On any
  bytes, what it does to the files and what it answers is what the session does with the requests of
  the complete packets it took, in order, and it ends well only at the end of the bytes. A stream of
  well-formed packets, cut anywhere inside the length of the next, is taken whole and answered whole.
\<close>

theorem sftp_stream_refines_session:
  assumes "list_all sftp_packet_fits ds" "list_all2 (\<lambda>d q. decode d = Ok q) ds rs"
    and "\<forall>a \<in> set (fst (session_run D rs s)). encode a = Ok (enc a)" "length rest < 4"
  shows "sftp_session decode encode D inp s' (run_sftp decode encode D inp s') \<and>
    run_sftp decode encode D (concat (map put_sftp_packet ds) @ rest) s =
      (Ok (), concat (map enc (fst (session_run D rs s))), snd (session_run D rs s))"
  using run_sftp_session run_sftp_packets [OF assms] by blast

text \<open>A client that asks for the version and hangs up inside the next packet.\<close>

definition ref_encode :: "response \<Rightarrow> byte list" where
  "ref_encode a = (case a of RsVersion _ \<Rightarrow> [0, 0, 0, 1, 2] | _ \<Rightarrow> [0, 0, 0, 1, 101])"

definition init_answer :: response where
  "init_answer = RsVersion [(''posix-rename@openssh.com'', ''1''), (''hardlink@openssh.com'', ''1''),
     (''fsync@openssh.com'', ''1'')]"

lemma init_session:
  "session_run D [RqInit] (files_new h (Some m) w) = ([init_answer], (files_new h (Some m) w)\<lparr>initialized := True\<rparr>)"
  by (simp add: process_def dispatch_def rq_init_def files_new_def init_answer_def)

theorem sftp_stream_refines_session_witness:
  "run_sftp (\<lambda>_. Ok RqInit) (\<lambda>a. Ok (ref_encode a)) ref_disk ([0, 0, 0, 5, 1, 0, 0, 0, 3] @ [0, 0])
     (files_new ''/'' (Some ReadOnly) ()) =
   (Ok (), [0, 0, 0, 1, 2], (files_new ''/'' (Some ReadOnly) ())\<lparr>initialized := True\<rparr>)"
proof -
  have bytes: "concat (map put_sftp_packet [[1, 0, 0, 0, 3]]) = [0, 0, 0, 5, 1, 0, 0, 0, 3]"
    by (simp add: put_sftp_packet_def to_be_bytes_4)
  show ?thesis
    using sftp_stream_refines_session [of "[[1, 0, 0, 0, 3]]" "\<lambda>_. Ok RqInit" "[RqInit]"
        ref_disk "files_new ''/'' (Some ReadOnly) ()" "\<lambda>a. Ok (ref_encode a)" ref_encode "[0, 0]"]
    unfolding bytes init_session
    by (simp add: sftp_packet_fits_def max_sftp_packet_def ref_encode_def init_answer_def)
qed

end
