(* ===== verification/HostKey.thy ===== *)
theory HostKey
  imports Paths "HOL-Library.Multiset"
begin

text \<open>
  The SSH host key (\<open>host_key\<close> of \<open>src/services/mod.rs\<close>): it is read from its file, or made and published
  by the first process that finds none. Several processes may do so at once, and each system call can
  fail, so a call of \<open>host_key\<close> is a task, a system call is one step of a task, and the steps of the tasks
  interleave in any way. A task that takes no further step has been killed.

  The directory maps names to inodes, so that a hard link shares the bytes with the name it was made
  from. The key format is the crate \<open>russh\<close>, an argument.
\<close>

record 'k key_format =
  decode_key :: "string \<Rightarrow> 'k res"
  load_key :: "byte list \<Rightarrow> 'k res"
  encode_pem :: "'k \<Rightarrow> byte list res"

text \<open>A name can lead to a file, or exist and lead nowhere (a symbolic link without its target).\<close>

datatype host_entry = HostFile nat | Dangling

text \<open>An inode has its bytes and its permissions.\<close>

record host_dir =
  entries :: "string \<rightharpoonup> host_entry"
  inodes :: "(byte list \<times> u32) list"

definition host_key_name :: string where
  "host_key_name = ''ssh_host_ed25519_key''"

definition host_key_mode :: u32 where
  "host_key_mode = 0x180"

definition temporary_key_name :: "u64 \<Rightarrow> string" where
  "temporary_key_name r = ''.ssh-host-key-'' @ hex16 r"

text \<open>Where a task is; a written temporary file is known by its name and its open inode.\<close>

datatype 'k key_task =
    ReadKey
  | MakeParent
  | MakeKey
  | OpenTemporary "byte list"
  | WriteTemporary string nat "byte list"
  | SyncTemporary string
  | LinkTemporary string
  | RemoveTemporary string "unit res"
  | LoadKey
  | KeyResult "'k res"

inductive key_step :: "'k key_format \<Rightarrow> 'k key_task \<times> host_dir \<Rightarrow> 'k key_task \<times> host_dir \<Rightarrow> bool" for K where
  key_found:
    "key_step K (ReadKey, d) (KeyResult (context_of ''parsing SSH host key'' (decode_key K text)), d)"
    if "entries d host_key_name = Some (HostFile i)" and "from_utf8 (fst (inodes d ! i)) = Some text"
| key_missing:
    "key_step K (ReadKey, d) (MakeParent, d)"
    if "entries d host_key_name = None \<or> entries d host_key_name = Some Dangling"
| key_unreadable: "key_step K (ReadKey, d) (KeyResult (Err ''reading SSH host key''), d)"
| parent_made: "key_step K (MakeParent, d) (MakeKey, d)"
| parent_failed: "key_step K (MakeParent, d) (KeyResult (Err e), d)"
| key_made: "key_step K (MakeKey, d) (OpenTemporary pem, d)" if "encode_pem K k = Ok pem"
| key_not_made: "key_step K (MakeKey, d) (KeyResult (Err e), d)"
| temporary_opened:
    "key_step K (OpenTemporary pem, d)
       (WriteTemporary (temporary_key_name r) (length (inodes d)) pem,
        d\<lparr>entries := (entries d)(temporary_key_name r \<mapsto> HostFile (length (inodes d))),
          inodes := inodes d @ [([], host_key_mode)]\<rparr>)"
    if "entries d (temporary_key_name r) = None"
| temporary_refused: "key_step K (OpenTemporary pem, d) (KeyResult (Err e), d)"
| some_written:
    "key_step K (WriteTemporary t i (bs @ rest), d)
       (WriteTemporary t i rest, d\<lparr>inodes := (inodes d)[i := (fst (inodes d ! i) @ bs, snd (inodes d ! i))]\<rparr>)"
    if "bs \<noteq> []"
| all_written: "key_step K (WriteTemporary t i [], d) (SyncTemporary t, d)"
| write_failed: "key_step K (WriteTemporary t i rest, d) (RemoveTemporary t (Err e), d)"
| synced: "key_step K (SyncTemporary t, d) (LinkTemporary t, d)"
| sync_failed: "key_step K (SyncTemporary t, d) (RemoveTemporary t (Err e), d)"
| linked:
    "key_step K (LinkTemporary t, d)
       (RemoveTemporary t (Ok ()), d\<lparr>entries := (entries d)(host_key_name \<mapsto> e)\<rparr>)"
    if "entries d t = Some e" and "entries d host_key_name = None"
| link_exists: "key_step K (LinkTemporary t, d) (RemoveTemporary t (Ok ()), d)" if "entries d host_key_name \<noteq> None"
| link_failed: "key_step K (LinkTemporary t, d) (RemoveTemporary t (Err e), d)"
| removed:
    "key_step K (RemoveTemporary t r, d)
       (case r of Inl e \<Rightarrow> KeyResult (Inl e) | Inr u \<Rightarrow> LoadKey, d\<lparr>entries := (entries d)(t := None)\<rparr>)"
| remove_failed:
    "key_step K (RemoveTemporary t r, d) (case r of Inl e \<Rightarrow> KeyResult (Inl e) | Inr u \<Rightarrow> LoadKey, d)"
| loaded:
    "key_step K (LoadKey, d) (KeyResult (context_of ''loading SSH host key'' (load_key K (fst (inodes d ! i)))), d)"
    if "entries d host_key_name = Some (HostFile i)"
| load_failed: "key_step K (LoadKey, d) (KeyResult (Err ''loading SSH host key''), d)"

inductive_cases key_step_cases:
  "key_step K (ReadKey, d) s"
  "key_step K (MakeParent, d) s"
  "key_step K (MakeKey, d) s"
  "key_step K (OpenTemporary pem, d) s"
  "key_step K (WriteTemporary t i rest, d) s"
  "key_step K (SyncTemporary t, d) s"
  "key_step K (LinkTemporary t, d) s"
  "key_step K (RemoveTemporary t r, d) s"
  "key_step K (LoadKey, d) s"
  "key_step K (KeyResult r, d) s"

text \<open>Tasks of any number of processes, and a step of one of them.\<close>

inductive keys_step :: "'k key_format \<Rightarrow> 'k key_task list \<times> host_dir \<Rightarrow> 'k key_task list \<times> host_dir \<Rightarrow> bool" for K where
  task_step: "keys_step K (ts, d) (ts[n := t], d')" if "n < length ts" and "key_step K (ts ! n, d) (t, d')"

abbreviation keys_run :: "'k key_format \<Rightarrow> 'k key_task list \<times> host_dir \<Rightarrow> 'k key_task list \<times> host_dir \<Rightarrow> bool" where
  "keys_run K \<equiv> (keys_step K)\<^sup>*\<^sup>*"


section \<open>The invariant\<close>

lemma temporary_not_key [simp]: "temporary_key_name r \<noteq> host_key_name" "host_key_name \<noteq> temporary_key_name r"
  by (auto simp: temporary_key_name_def host_key_name_def)

text \<open>The key the file of the host key holds, and a file that was made whole by some task.\<close>

definition key_at :: "'k key_format \<Rightarrow> host_dir \<Rightarrow> 'k \<Rightarrow> bool" where
  "key_at K d k \<longleftrightarrow>
     (\<exists>i text. entries d host_key_name = Some (HostFile i) \<and> from_utf8 (fst (inodes d ! i)) = Some text \<and>
        decode_key K text = Ok k)"

definition made_whole :: "'k key_format \<Rightarrow> host_dir \<Rightarrow> host_dir \<Rightarrow> nat \<Rightarrow> bool" where
  "made_whole K d0 d i \<longleftrightarrow>
     length (inodes d0) \<le> i \<and> i < length (inodes d) \<and>
     (\<exists>k. encode_pem K k = Ok (fst (inodes d ! i))) \<and> snd (inodes d ! i) = host_key_mode"

definition key_file_at :: "host_dir \<Rightarrow> bool" where
  "key_file_at d \<longleftrightarrow> (\<exists>i. entries d host_key_name = Some (HostFile i))"

text \<open>No other name leads to this inode.\<close>

definition sole_name :: "host_dir \<Rightarrow> nat \<Rightarrow> string \<Rightarrow> bool" where
  "sole_name d i t \<longleftrightarrow> (\<forall>n. n \<noteq> t \<longrightarrow> entries d n \<noteq> Some (HostFile i))"

fun held :: "'k key_task \<Rightarrow> string option" where
  "held (WriteTemporary t i rest) = Some t"
| "held (SyncTemporary t) = Some t"
| "held (LinkTemporary t) = Some t"
| "held (RemoveTemporary t r) = Some t"
| "held _ = None"

fun task_ok :: "'k key_format \<Rightarrow> host_dir \<Rightarrow> host_dir \<Rightarrow> 'k key_task \<Rightarrow> bool" where
  "task_ok K d0 d ReadKey = True"
| "task_ok K d0 d MakeParent = (\<not> key_file_at d0)"
| "task_ok K d0 d MakeKey = (\<not> key_file_at d0)"
| "task_ok K d0 d (OpenTemporary pem) = (\<not> key_file_at d0 \<and> (\<exists>k. encode_pem K k = Ok pem))"
| "task_ok K d0 d (WriteTemporary t i rest) =
     (\<not> key_file_at d0 \<and> t \<in> range temporary_key_name \<and> entries d t = Some (HostFile i) \<and>
      length (inodes d0) \<le> i \<and> i < length (inodes d) \<and> (\<exists>k. encode_pem K k = Ok (fst (inodes d ! i) @ rest)) \<and>
      snd (inodes d ! i) = host_key_mode \<and> sole_name d i t)"
| "task_ok K d0 d (SyncTemporary t) =
     (\<not> key_file_at d0 \<and> t \<in> range temporary_key_name \<and>
      (\<exists>i. entries d t = Some (HostFile i) \<and> made_whole K d0 d i))"
| "task_ok K d0 d (LinkTemporary t) =
     (\<not> key_file_at d0 \<and> t \<in> range temporary_key_name \<and>
      (\<exists>i. entries d t = Some (HostFile i) \<and> made_whole K d0 d i))"
| "task_ok K d0 d (RemoveTemporary t r) =
     (\<not> key_file_at d0 \<and> t \<in> range temporary_key_name \<and> entries d t \<noteq> None \<and>
      (r = Ok () \<longrightarrow> entries d host_key_name \<noteq> None))"
| "task_ok K d0 d LoadKey = (\<not> key_file_at d0 \<and> entries d host_key_name \<noteq> None)"
| "task_ok K d0 d (KeyResult (Inl e)) = True"
| "task_ok K d0 d (KeyResult (Inr k)) = key_at K d k"

definition inodes_ok :: "host_dir \<Rightarrow> bool" where
  "inodes_ok d \<longleftrightarrow> (\<forall>n i. entries d n = Some (HostFile i) \<longrightarrow> i < length (inodes d))"

text \<open>What was there stays as it was, and a file that appears under the name of the key is whole.\<close>

definition dir_ok :: "'k key_format \<Rightarrow> host_dir \<Rightarrow> host_dir \<Rightarrow> bool" where
  "dir_ok K d0 d \<longleftrightarrow>
     inodes_ok d \<and> length (inodes d0) \<le> length (inodes d) \<and>
     (\<forall>i<length (inodes d0). inodes d ! i = inodes d0 ! i) \<and>
     (entries d0 host_key_name \<noteq> None \<longrightarrow> entries d host_key_name = entries d0 host_key_name) \<and>
     (entries d0 host_key_name = None \<longrightarrow> entries d host_key_name = None \<or>
        (\<exists>i. entries d host_key_name = Some (HostFile i) \<and> made_whole K d0 d i))"

definition keys_ok :: "'k key_format \<Rightarrow> host_dir \<Rightarrow> 'k key_task list \<times> host_dir \<Rightarrow> bool" where
  "keys_ok K d0 s \<longleftrightarrow>
     (case s of (ts, d) \<Rightarrow>
       dir_ok K d0 d \<and> (\<forall>t\<in>set ts. task_ok K d0 d t) \<and>
       (\<forall>m n x. m < length ts \<longrightarrow> n < length ts \<longrightarrow> m \<noteq> n \<longrightarrow> held (ts ! m) = Some x \<longrightarrow> held (ts ! n) \<noteq> Some x))"

text \<open>The directory after a step: only four of the calls change it.\<close>

lemma key_step_dir:
  assumes "key_step K (t, d) (t', d')"
  shows "d' = d \<or>
    (\<exists>pem r. t = OpenTemporary pem \<and> entries d (temporary_key_name r) = None \<and>
       t' = WriteTemporary (temporary_key_name r) (length (inodes d)) pem \<and>
       d' = d\<lparr>entries := (entries d)(temporary_key_name r \<mapsto> HostFile (length (inodes d))),
             inodes := inodes d @ [([], host_key_mode)]\<rparr>) \<or>
    (\<exists>n i bs rest. t = WriteTemporary n i (bs @ rest) \<and> t' = WriteTemporary n i rest \<and>
       d' = d\<lparr>inodes := (inodes d)[i := (fst (inodes d ! i) @ bs, snd (inodes d ! i))]\<rparr>) \<or>
    (\<exists>n e. t = LinkTemporary n \<and> t' = RemoveTemporary n (Ok ()) \<and> entries d n = Some e \<and>
       entries d host_key_name = None \<and> d' = d\<lparr>entries := (entries d)(host_key_name \<mapsto> e)\<rparr>) \<or>
    (\<exists>n r. t = RemoveTemporary n r \<and> held t' = None \<and> d' = d\<lparr>entries := (entries d)(n := None)\<rparr>)"
  using assms
proof cases
  case (removed n r)
  then show ?thesis by (cases r) auto
qed auto

text \<open>What a task relies on: its temporary file, the file of the key, and being the only writer.\<close>

lemma task_ok_frame:
  assumes ok: "task_ok K d0 d u" "inodes_ok d"
    and held: "\<And>n. held u = Some n \<Longrightarrow> entries d' n = entries d n"
    and key: "entries d host_key_name \<noteq> None \<Longrightarrow> entries d' host_key_name = entries d host_key_name"
    and len: "length (inodes d) \<le> length (inodes d')"
    and same: "\<And>n j. held u = Some n \<or> n = host_key_name \<Longrightarrow> entries d n = Some (HostFile j) \<Longrightarrow>
      inodes d' ! j = inodes d ! j"
    and sole: "\<And>n j rest m. u = WriteTemporary n j rest \<Longrightarrow> entries d' m = Some (HostFile j) \<Longrightarrow>
      m = n \<or> entries d m = Some (HostFile j)"
  shows "task_ok K d0 d' u"
proof (cases u)
  case (WriteTemporary n j rest)
  then have "entries d' n = entries d n" "sole_name d' j n"
    using held [of n] sole [OF WriteTemporary] ok(1) by (auto simp: sole_name_def)
  moreover have "inodes d' ! j = inodes d ! j"
    using same [of n j] ok(1) WriteTemporary by simp
  ultimately show ?thesis using ok(1) len WriteTemporary by simp
next
  case (SyncTemporary n)
  with ok held [of n] same [of n] len show ?thesis by (auto simp: made_whole_def)
next
  case (LinkTemporary n)
  with ok held [of n] same [of n] len show ?thesis by (auto simp: made_whole_def)
next
  case (RemoveTemporary n r)
  with ok held [of n] key show ?thesis by auto
next
  case (KeyResult r)
  with ok key same [of host_key_name] show ?thesis by (cases r) (auto simp: key_at_def)
qed (use ok key in auto)

text \<open>What one task does leaves the claims of every other task alone.\<close>

lemma task_ok_others:
  assumes "key_step K (t, d) (t', d')" and "task_ok K d0 d t" and "task_ok K d0 d u" and "dir_ok K d0 d"
    and apart: "\<And>x. held t = Some x \<Longrightarrow> held u \<noteq> Some x"
  shows "task_ok K d0 d' u"
proof -
  have nodes: "inodes_ok d" using assms(4) by (simp add: dir_ok_def)
  then have bound: "entries d n = Some (HostFile j) \<Longrightarrow> j < length (inodes d)" for n j
    by (auto simp: inodes_ok_def)
  have there: "held u = Some n \<Longrightarrow> entries d n \<noteq> None \<and> n \<in> range temporary_key_name" for n
    using assms(3) by (cases u) auto
  from key_step_dir [OF assms(1)]
  consider (same) "d' = d"
    | (new) pem r where "t = OpenTemporary pem" "entries d (temporary_key_name r) = None"
        "d' = d\<lparr>entries := (entries d)(temporary_key_name r \<mapsto> HostFile (length (inodes d))),
              inodes := inodes d @ [([], host_key_mode)]\<rparr>"
    | (wrote) n i bs rest where "t = WriteTemporary n i (bs @ rest)"
        "d' = d\<lparr>inodes := (inodes d)[i := (fst (inodes d ! i) @ bs, snd (inodes d ! i))]\<rparr>"
    | (link) n e where "t = LinkTemporary n" "entries d n = Some e" "entries d host_key_name = None"
        "d' = d\<lparr>entries := (entries d)(host_key_name \<mapsto> e)\<rparr>"
    | (gone) n r where "t = RemoveTemporary n r" "d' = d\<lparr>entries := (entries d)(n := None)\<rparr>"
    by blast
  then show ?thesis
  proof cases
    case same
    with assms(3) show ?thesis by simp
  next
    case new
    show ?thesis
    proof (rule task_ok_frame [OF assms(3) nodes])
      fix n j rest m
      assume "u = WriteTemporary n j rest" "entries d' m = Some (HostFile j)"
      with assms(3) new(3) bound show "m = n \<or> entries d m = Some (HostFile j)" by (auto split: if_splits)
    next
      fix n
      assume "held u = Some n"
      with there new(2,3) show "entries d' n = entries d n" by auto
    next
      fix n j
      assume "entries d n = Some (HostFile j)"
      with bound new(3) show "inodes d' ! j = inodes d ! j" by (simp add: nth_append)
    qed (simp_all add: new(3))
  next
    case wrote
    have "m \<noteq> n \<Longrightarrow> entries d m \<noteq> Some (HostFile i)" for m
      using assms(2) wrote(1) by (simp add: sole_name_def)
    moreover have "n \<noteq> host_key_name" "held u \<noteq> Some n" using assms(2) apart wrote(1) by auto
    ultimately have other: "held u = Some m \<or> m = host_key_name \<Longrightarrow> entries d m = Some (HostFile j) \<Longrightarrow> j \<noteq> i" for m j
      by auto
    show ?thesis
    proof (rule task_ok_frame [OF assms(3) nodes])
      fix m j
      assume "held u = Some m \<or> m = host_key_name" "entries d m = Some (HostFile j)"
      from other [OF this] wrote(2) show "inodes d' ! j = inodes d ! j" by simp
    qed (simp_all add: wrote(2))
  next
    case link
    show ?thesis
    proof (rule task_ok_frame [OF assms(3) nodes])
      fix m j rest x
      assume u: "u = WriteTemporary m j rest" and x: "entries d' x = Some (HostFile j)"
      have "n \<noteq> m" using apart u link(1) by auto
      with assms(3) u link(2) have "e \<noteq> HostFile j" by (auto simp: sole_name_def)
      with x link(4) show "x = m \<or> entries d x = Some (HostFile j)" by (auto split: if_splits)
    next
      fix m
      assume "held u = Some m"
      with there link(4) show "entries d' m = entries d m" by auto
    qed (simp_all add: link(3,4))
  next
    case gone
    have "n \<noteq> host_key_name" "held u \<noteq> Some n" using assms(2) apart gone(1) by auto
    with gone(2) show ?thesis
      by (intro task_ok_frame [OF assms(3) nodes]) (auto split: if_splits)
  qed
qed


text \<open>A step keeps the claims of its own task, but for the key law and what the directory says.\<close>

definition key_format_law :: "'k key_format \<Rightarrow> bool" where
  "key_format_law K \<longleftrightarrow>
     (\<forall>k pem. encode_pem K k = Ok pem \<longrightarrow>
        load_key K pem = Ok k \<and> (\<exists>text. from_utf8 pem = Some text \<and> decode_key K text = Ok k))"

lemma task_ok_own:
  assumes "key_step K (t, d) (t', d')" and "task_ok K d0 d t" and "dir_ok K d0 d" and "key_format_law K"
  shows "task_ok K d0 d' t'"
  using assms(1)
proof cases
  case (key_found i u)
  with assms(3) show ?thesis
    by (cases "decode_key K u") (auto simp: key_at_def result_simps)
next
  case key_missing
  with assms(3) show ?thesis by (auto simp: key_file_at_def dir_ok_def)
next
  case (temporary_opened r pem)
  with assms(2,3) show ?thesis by (auto simp: dir_ok_def inodes_ok_def sole_name_def)
next
  case (some_written bs t i rest)
  with assms(2) show ?thesis by (auto simp: sole_name_def)
next
  case (all_written t i)
  with assms(2) show ?thesis by (auto simp: made_whole_def)
next
  case (linked t e)
  with assms(2) show ?thesis by auto
next
  case (removed t r)
  with assms(2) show ?thesis by (cases r) auto
next
  case (remove_failed t r)
  with assms(2) show ?thesis by (cases r) auto
next
  case (loaded i)
  with assms(2,3) have "made_whole K d0 d i"
    by (auto simp: dir_ok_def key_file_at_def)
  then obtain k where "encode_pem K k = Ok (fst (inodes d ! i))" by (auto simp: made_whole_def)
  with assms(4) loaded show ?thesis by (auto simp: key_format_law_def key_at_def)
qed (use assms(2) in \<open>auto simp: made_whole_def\<close>)

lemma dir_ok_step:
  assumes "key_step K (t, d) (t', d')" and "task_ok K d0 d t" and "dir_ok K d0 d"
  shows "dir_ok K d0 d'"
  using key_step_dir [OF assms(1)]
proof (elim disjE exE conjE)
  fix pem r
  assume "entries d (temporary_key_name r) = None"
    and "d' = d\<lparr>entries := (entries d)(temporary_key_name r \<mapsto> HostFile (length (inodes d))),
               inodes := inodes d @ [([], host_key_mode)]\<rparr>"
  with assms(3) show ?thesis
    by (auto simp: dir_ok_def inodes_ok_def made_whole_def nth_append less_Suc_eq)
next
  fix n i bs rest
  assume t: "t = WriteTemporary n i (bs @ rest)"
    and d': "d' = d\<lparr>inodes := (inodes d)[i := (fst (inodes d ! i) @ bs, snd (inodes d ! i))]\<rparr>"
  with assms(2) have "length (inodes d0) \<le> i" "entries d host_key_name \<noteq> Some (HostFile i)"
    by (auto simp: sole_name_def)
  with assms(3) d' show ?thesis
    by (auto simp: dir_ok_def inodes_ok_def made_whole_def nth_list_update)
next
  fix n e
  assume "t = LinkTemporary n" "entries d n = Some e" "entries d host_key_name = None"
    and "d' = d\<lparr>entries := (entries d)(host_key_name \<mapsto> e)\<rparr>"
  with assms(2,3) show ?thesis
    by (auto simp: dir_ok_def inodes_ok_def made_whole_def)
next
  fix n r
  assume "t = RemoveTemporary n r" "d' = d\<lparr>entries := (entries d)(n := None)\<rparr>"
  with assms(2,3) show ?thesis
    by (auto simp: dir_ok_def inodes_ok_def made_whole_def)
qed (use assms(3) in simp)

text \<open>A task only takes the name of a temporary file that nobody has.\<close>

lemma held_step:
  assumes "key_step K (t, d) (t', d')" and "held t' = Some x"
  shows "held t = Some x \<or> entries d x = None"
  using assms
proof cases
  case (removed t r)
  with assms(2) show ?thesis by (cases r) auto
next
  case (remove_failed t r)
  with assms(2) show ?thesis by (cases r) auto
qed auto

lemma held_there: "task_ok K d0 d t \<Longrightarrow> held t = Some x \<Longrightarrow> entries d x \<noteq> None"
  by (cases t) auto

lemma keys_ok_step:
  assumes "keys_step K s s'" and "keys_ok K d0 s" and "key_format_law K"
  shows "keys_ok K d0 s'"
  using assms(1)
proof cases
  case (task_step n ts d t d')
  with assms(2) have dir: "dir_ok K d0 d" and tasks: "\<And>i. i < length ts \<Longrightarrow> task_ok K d0 d (ts ! i)"
    and apart: "\<And>i j x. i < length ts \<Longrightarrow> j < length ts \<Longrightarrow> i \<noteq> j \<Longrightarrow> held (ts ! i) = Some x \<Longrightarrow> held (ts ! j) \<noteq> Some x"
    by (auto simp: keys_ok_def)
  note step = task_step(4) and n = task_step(3)
  have "task_ok K d0 d' (ts[n := t] ! i)" if "i < length ts" for i
  proof (cases "i = n")
    case True
    with task_ok_own [OF step tasks [OF n] dir assms(3)] n show ?thesis by simp
  next
    case False
    with task_ok_others [OF step tasks [OF n] tasks [OF that] dir] apart [OF n that] show ?thesis by auto
  qed
  moreover have "held (ts[n := t] ! j) \<noteq> Some x"
    if "i < length ts" "j < length ts" "i \<noteq> j" "held (ts[n := t] ! i) = Some x" for i j x
    using that apart [of i j x] held_step [OF step, of x] held_there [OF tasks, of i x] held_there [OF tasks, of j x] n
      apart [of n j x] apart [of i n x]
    by (auto simp: nth_list_update split: if_splits)
  ultimately show ?thesis
    using dir_ok_step [OF step tasks [OF n] dir] task_step(2) by (auto simp: keys_ok_def all_set_conv_all_nth)
qed


section \<open>Every call returns\<close>

text \<open>The stage of a task and what it still has to write.\<close>

fun key_work :: "'k key_task \<Rightarrow> nat \<times> nat" where
  "key_work ReadKey = (8, 0)"
| "key_work MakeParent = (7, 0)"
| "key_work MakeKey = (6, 0)"
| "key_work (OpenTemporary pem) = (5, 0)"
| "key_work (WriteTemporary t i rest) = (4, length rest)"
| "key_work (SyncTemporary t) = (3, 0)"
| "key_work (LinkTemporary t) = (2, 1)"
| "key_work (RemoveTemporary t r) = (2, 0)"
| "key_work LoadKey = (1, 0)"
| "key_work (KeyResult r) = (0, 0)"

abbreviation work_less :: "((nat \<times> nat) \<times> nat \<times> nat) set" where
  "work_less \<equiv> less_than <*lex*> less_than"

lemma key_step_work: "key_step K (t, d) (t', d') \<Longrightarrow> (key_work t', key_work t) \<in> work_less"
proof (induction "(t, d)" "(t', d')" arbitrary: t d t' d' rule: key_step.induct)
  case (removed x r)
  then show ?case by (cases r) auto
next
  case (remove_failed x r)
  then show ?case by (cases r) auto
qed auto

lemma keys_step_work:
  assumes "keys_step K s s'"
  shows "(image_mset key_work (mset (fst s')), image_mset key_work (mset (fst s))) \<in> mult work_less"
  using assms
proof cases
  case (task_step n ts d t d')
  let ?rest = "image_mset key_work (mset ts - {#ts ! n#})"
  have "image_mset key_work (mset ts) = ?rest + {#key_work (ts ! n)#}"
    using task_step(3) by (metis image_mset_add_mset add_mset_add_single insert_DiffM nth_mem_mset)
  moreover have "image_mset key_work (mset (ts[n := t])) = ?rest + {#key_work t#}"
    using task_step(3) by (simp add: mset_update)
  ultimately show ?thesis
    using one_step_implies_mult [of "{#key_work (ts ! n)#}" "{#key_work t#}" work_less ?rest]
      key_step_work [OF task_step(4)] task_step(1,2) by simp
qed

lemma keys_step_wf: "wfp (keys_step K)\<inverse>\<inverse>"
proof -
  have "wf (inv_image (mult work_less) (\<lambda>s. image_mset key_work (mset (fst s))))"
    by (intro wf_inv_image wf_mult) auto
  moreover have "{(s', s). keys_step K s s'} \<subseteq> inv_image (mult work_less) (\<lambda>s. image_mset key_work (mset (fst s)))"
    using keys_step_work by (auto simp: in_inv_image)
  ultimately have "wf {(s', s). keys_step K s s'}" by (rule wf_subset)
  then show ?thesis by (simp add: wfp_def conversep_iff)
qed

lemma key_task_moves: "(\<exists>r. t = KeyResult r) \<or> (\<exists>t' d'. key_step K (t, d) (t', d'))"
  by (cases t) (blast intro: key_step.intros)+

section \<open>A call that meets no failure\<close>

lemma task_run:
  assumes "(key_step K)\<^sup>*\<^sup>* (ts ! n, d) (t, d')" and "n < length ts"
  shows "keys_run K (ts, d) (ts[n := t], d')"
  using assms(1)
proof (induction "(t, d')" arbitrary: t d' rule: rtranclp_induct)
  case base
  then show ?case by simp
next
  case (step s)
  obtain t1 d1 where s: "s = (t1, d1)" by fastforce
  have "keys_step K (ts[n := t1], d1) (ts[n := t1, n := t], d')"
    by (rule task_step) (use step(2) s assms(2) in auto)
  with step(3) [OF s] show ?case by simp
qed

lemma write_run:
  assumes "encode_pem K k = Ok pem" and "entries d (temporary_key_name r) = None"
  shows "(key_step K)\<^sup>*\<^sup>* (MakeKey, d) (LinkTemporary (temporary_key_name r),
    d\<lparr>entries := (entries d)(temporary_key_name r \<mapsto> HostFile (length (inodes d))),
      inodes := inodes d @ [(pem, host_key_mode)]\<rparr>)"
proof -
  let ?t = "temporary_key_name r" and ?i = "length (inodes d)"
  let ?d' = "d\<lparr>entries := (entries d)(?t \<mapsto> HostFile ?i), inodes := inodes d @ [(pem, host_key_mode)]\<rparr>"
  let ?d1 = "d\<lparr>entries := (entries d)(?t \<mapsto> HostFile ?i), inodes := inodes d @ [([], host_key_mode)]\<rparr>"
  have "(key_step K)\<^sup>*\<^sup>* (MakeKey, d) (OpenTemporary pem, d)" using key_made [OF assms(1)] by (rule r_into_rtranclp)
  also have "(key_step K)\<^sup>*\<^sup>* (OpenTemporary pem, d) (WriteTemporary ?t ?i pem, ?d1)" using temporary_opened [OF assms(2)] by (rule r_into_rtranclp)
  also (rtranclp_trans) have "(key_step K)\<^sup>*\<^sup>* (WriteTemporary ?t ?i pem, ?d1) (WriteTemporary ?t ?i [], ?d')"
  proof (cases "pem = []")
    case False
    from some_written [OF this, of K ?t ?i "[]" ?d1] show ?thesis by (auto simp: list_update_append)
  qed simp
  also (rtranclp_trans) have "(key_step K)\<^sup>*\<^sup>* (WriteTemporary ?t ?i [], ?d') (SyncTemporary ?t, ?d')" by (rule r_into_rtranclp, rule all_written)
  also (rtranclp_trans) have "(key_step K)\<^sup>*\<^sup>* (SyncTemporary ?t, ?d') (LinkTemporary ?t, ?d')" by (rule r_into_rtranclp, rule synced)
  finally (rtranclp_trans) show ?thesis .
qed

text \<open>The first to publish gets its own key, one that comes too late the key of the first.\<close>

lemma publish_run:
  assumes "encode_pem K k = Ok pem" and "load_key K pem = Ok k"
    and "entries d (temporary_key_name r) = None" and "entries d host_key_name = None"
  shows "(key_step K)\<^sup>*\<^sup>* (MakeParent, d) (KeyResult (Ok k),
    d\<lparr>entries := (entries d)(host_key_name \<mapsto> HostFile (length (inodes d))),
      inodes := inodes d @ [(pem, host_key_mode)]\<rparr>)"
proof -
  let ?t = "temporary_key_name r" and ?e = "HostFile (length (inodes d))"
  let ?d' = "d\<lparr>entries := (entries d)(host_key_name \<mapsto> ?e), inodes := inodes d @ [(pem, host_key_mode)]\<rparr>"
  let ?d1 = "d\<lparr>entries := (entries d)(?t \<mapsto> ?e), inodes := inodes d @ [(pem, host_key_mode)]\<rparr>"
  let ?d2 = "?d1\<lparr>entries := (entries ?d1)(host_key_name \<mapsto> ?e)\<rparr>"
  have "(key_step K)\<^sup>*\<^sup>* (MakeParent, d) (MakeKey, d)" by (rule r_into_rtranclp, rule parent_made)
  also have "(key_step K)\<^sup>*\<^sup>* (MakeKey, d) (LinkTemporary ?t, ?d1)" using assms(1,3) by (rule write_run)
  also (rtranclp_trans) have "(key_step K)\<^sup>*\<^sup>* (LinkTemporary ?t, ?d1) (RemoveTemporary ?t (Ok ()), ?d2)"
    by (rule r_into_rtranclp, rule linked) (simp_all add: assms(4))
  also (rtranclp_trans) have "(key_step K)\<^sup>*\<^sup>* (RemoveTemporary ?t (Ok ()), ?d2) (LoadKey, ?d')"
    using removed [of K ?t "Ok ()" ?d2] assms(3) by (intro r_into_rtranclp, cases d) (simp add: fun_upd_twist fun_upd_idem)
  also (rtranclp_trans) have "(key_step K)\<^sup>*\<^sup>* (LoadKey, ?d') (KeyResult (Ok k), ?d')"
    using loaded [of ?d' "length (inodes d)" K] assms(2) by (intro r_into_rtranclp) simp
  finally (rtranclp_trans) show ?thesis .
qed

lemma late_run:
  assumes "encode_pem K k = Ok pem" and "entries d (temporary_key_name r) = None"
    and "entries d host_key_name = Some (HostFile i)" and "i < length (inodes d)" and "load_key K (fst (inodes d ! i)) = Ok k'"
  shows "(key_step K)\<^sup>*\<^sup>* (MakeParent, d) (KeyResult (Ok k'), d\<lparr>inodes := inodes d @ [(pem, host_key_mode)]\<rparr>)"
   
proof -
  let ?t = "temporary_key_name r" and ?d' = "d\<lparr>inodes := inodes d @ [(pem, host_key_mode)]\<rparr>"
  let ?d1 = "d\<lparr>entries := (entries d)(?t \<mapsto> HostFile (length (inodes d))), inodes := inodes d @ [(pem, host_key_mode)]\<rparr>"
  have "(key_step K)\<^sup>*\<^sup>* (MakeParent, d) (MakeKey, d)" by (rule r_into_rtranclp, rule parent_made)
  also have "(key_step K)\<^sup>*\<^sup>* (MakeKey, d) (LinkTemporary ?t, ?d1)" using assms(1,2) by (rule write_run)
  also (rtranclp_trans) have "(key_step K)\<^sup>*\<^sup>* (LinkTemporary ?t, ?d1) (RemoveTemporary ?t (Ok ()), ?d1)"
    by (rule r_into_rtranclp, rule link_exists) (simp add: assms(3))
  also (rtranclp_trans) have "(key_step K)\<^sup>*\<^sup>* (RemoveTemporary ?t (Ok ()), ?d1) (LoadKey, ?d')"
    using removed [of K ?t "Ok ()" ?d1] assms(2) by (intro r_into_rtranclp) (simp add: fun_upd_idem)
  also (rtranclp_trans) have "(key_step K)\<^sup>*\<^sup>* (LoadKey, ?d') (KeyResult (Ok k'), ?d')"
    using loaded [of ?d' i K] assms(3-5) by (intro r_into_rtranclp) (simp add: nth_append)
  finally (rtranclp_trans) show ?thesis .
qed

section \<open>One key for all\<close>

definition key_kept :: "host_dir \<Rightarrow> host_dir \<Rightarrow> bool" where
  "key_kept d d' \<longleftrightarrow>
     (entries d host_key_name \<noteq> None \<longrightarrow>
        entries d' host_key_name = entries d host_key_name \<and>
        (\<forall>i. entries d host_key_name = Some (HostFile i) \<longrightarrow> inodes d' ! i = inodes d ! i))"

lemma key_kept_step:
  assumes "keys_step K (ts, d) (ts', d')" and "keys_ok K d0 (ts, d)"
  shows "key_kept d d'"
  using assms(1)
proof cases
  case (task_step n t)
  with assms(2) have t: "task_ok K d0 d (ts ! n)" and dir: "dir_ok K d0 d" by (auto simp: keys_ok_def)
  from key_step_dir [OF task_step(3)] show ?thesis
  proof (elim disjE exE conjE)
    fix x i bs rest
    assume "ts ! n = WriteTemporary x i (bs @ rest)"
      and d': "d' = d\<lparr>inodes := (inodes d)[i := (fst (inodes d ! i) @ bs, snd (inodes d ! i))]\<rparr>"
    with t have "entries d host_key_name = Some (HostFile j) \<Longrightarrow> i \<noteq> j" for j by (auto simp: sole_name_def)
    with d' show ?thesis by (auto simp: key_kept_def)
  qed (use t dir in \<open>auto simp: key_kept_def dir_ok_def inodes_ok_def nth_append\<close>)
qed

lemma keys_run_ok:
  assumes "keys_run K s s'" and "keys_ok K d0 s" and "key_format_law K"
  shows "keys_ok K d0 s' \<and> key_kept (snd s) (snd s')"
  using assms(1)
proof (induction rule: rtranclp_induct)
  case base
  from assms(2) show ?case by (simp add: key_kept_def)
next
  case (step s1 s2)
  then have "key_kept (snd s1) (snd s2)"
    using key_kept_step [of K "fst s1" "snd s1" "fst s2" "snd s2" d0] by simp
  with step.IH have "key_kept (snd s) (snd s2)" by (auto simp: key_kept_def)
  with keys_ok_step [OF step.hyps(2)] step.IH assms(3) show ?case by blast
qed

lemma keys_ok_start: "inodes_ok d \<Longrightarrow> keys_ok K d (replicate n ReadKey, d)"
  by (auto simp: keys_ok_def dir_ok_def)

lemma key_at_unique: "key_at K d k \<Longrightarrow> key_at K d k' \<Longrightarrow> k = k'"
  by (auto simp: key_at_def)

text \<open>
  C15. Any number of processes, also at the same time and whatever call of them fails or is cut short,
  agree on the host key: whoever gets a key gets the one in the file, two that get a key get the same,
  and no later step replaces or changes the file. Where there was no file, one that appears holds a
  whole key and is private. No call is ever stuck, and there is no infinite run.
\<close>

theorem host_keys_agree:
  assumes "key_format_law K" and "inodes_ok d0"
    and "keys_run K (replicate n ReadKey, d0) (ts, d)" and "keys_run K (ts, d) (ts', d')"
  shows "(\<forall>k k'. KeyResult (Ok k) \<in> set ts \<longrightarrow> KeyResult (Ok k') \<in> set ts' \<longrightarrow> key_at K d k \<and> k' = k) \<and>
    (\<forall>i. entries d host_key_name = Some (HostFile i) \<longrightarrow>
       entries d' host_key_name = Some (HostFile i) \<and> inodes d' ! i = inodes d ! i) \<and>
    (entries d0 host_key_name = None \<longrightarrow> entries d host_key_name = None \<or>
       (\<exists>i k. entries d host_key_name = Some (HostFile i) \<and> encode_pem K k = Ok (fst (inodes d ! i)) \<and>
          snd (inodes d ! i) = host_key_mode)) \<and>
    (\<forall>t\<in>set ts. (\<exists>r. t = KeyResult r) \<or> (\<exists>t1 d1. key_step K (t, d) (t1, d1))) \<and>
    wfp (keys_step K)\<inverse>\<inverse>"
proof (intro conjI)
  note run = keys_run_ok [OF assms(3) keys_ok_start [OF assms(2)] assms(1), simplified]
  then have ok: "keys_ok K d0 (ts, d)" ..
  from keys_run_ok [OF assms(4) ok assms(1)] have ok': "keys_ok K d0 (ts', d')" and kept: "key_kept d d'" by auto
  show "\<forall>k k'. KeyResult (Ok k) \<in> set ts \<longrightarrow> KeyResult (Ok k') \<in> set ts' \<longrightarrow> key_at K d k \<and> k' = k"
  proof (intro allI impI)
    fix k k'
    assume "KeyResult (Ok k) \<in> set ts" "KeyResult (Ok k') \<in> set ts'"
    with ok ok' have at: "key_at K d k" "key_at K d' k'" by (fastforce simp: keys_ok_def)+
    with kept have "key_at K d' k" by (auto simp: key_at_def key_kept_def)
    with at show "key_at K d k \<and> k' = k" using key_at_unique [of K d' k k'] by simp
  qed
  show "\<forall>i. entries d host_key_name = Some (HostFile i) \<longrightarrow>
      entries d' host_key_name = Some (HostFile i) \<and> inodes d' ! i = inodes d ! i"
    using kept by (simp add: key_kept_def)
  show "entries d0 host_key_name = None \<longrightarrow> entries d host_key_name = None \<or>
      (\<exists>i k. entries d host_key_name = Some (HostFile i) \<and> encode_pem K k = Ok (fst (inodes d ! i)) \<and>
         snd (inodes d ! i) = host_key_mode)"
    using ok by (auto simp: keys_ok_def dir_ok_def made_whole_def)
qed (use key_task_moves keys_step_wf in auto)


text \<open>Two processes that both find no file: the second one publishes, and both have its key.\<close>

definition sample_format :: "bool key_format" where
  "sample_format =
     \<lparr>decode_key = (\<lambda>text. if text = ''A'' then Ok True else if text = ''B'' then Ok False else Err ''key''),
      load_key = (\<lambda>bs. if bs = as_bytes ''A'' then Ok True else if bs = as_bytes ''B'' then Ok False else Err ''key''),
      encode_pem = (\<lambda>k. Ok (as_bytes (if k then ''A'' else ''B'')))\<rparr>"

lemma sample_format_law: "key_format_law sample_format"
proof -
  have "from_utf8 (as_bytes ''A'') = Some ''A''" "from_utf8 (as_bytes ''B'') = Some ''B''"
    by code_simp+
  moreover have "as_bytes ''B'' \<noteq> as_bytes ''A''" by code_simp
  ultimately show ?thesis by (simp add: key_format_law_def sample_format_def)
qed

lemma sample_race:
  defines "d0 \<equiv> \<lparr>entries = Map.empty, inodes = []\<rparr>"
    and "d \<equiv> \<lparr>entries = [host_key_name \<mapsto> HostFile 0], inodes = [(as_bytes ''B'', host_key_mode)]\<rparr>"
  shows "keys_run sample_format (replicate 2 ReadKey, d0) ([MakeParent, KeyResult (Ok False)], d)"
    and "keys_run sample_format ([MakeParent, KeyResult (Ok False)], d)
      ([KeyResult (Ok False), KeyResult (Ok False)], d\<lparr>inodes := inodes d @ [(as_bytes ''A'', host_key_mode)]\<rparr>)"
proof -
  have differ: "as_bytes ''B'' \<noteq> as_bytes ''A''" by code_simp
  have read: "(key_step sample_format)\<^sup>*\<^sup>* (ReadKey, d0) (MakeParent, d0)"
    by (rule r_into_rtranclp, rule key_missing) (simp add: d0_def)
  have "keys_run sample_format ([ReadKey, ReadKey], d0) ([MakeParent, ReadKey], d0)"
    using task_run [of sample_format "[ReadKey, ReadKey]" 0] read by simp
  also have "keys_run sample_format ([MakeParent, ReadKey], d0) ([MakeParent, MakeParent], d0)"
    using task_run [of sample_format "[MakeParent, ReadKey]" 1] read by simp
  also (rtranclp_trans) have "keys_run sample_format ([MakeParent, MakeParent], d0) ([MakeParent, KeyResult (Ok False)], d)"
    using task_run [of sample_format "[MakeParent, MakeParent]" 1 d0]
      publish_run [of sample_format False "as_bytes ''B''" d0 0] differ
    by (simp add: sample_format_def d0_def d_def)
  finally (rtranclp_trans) show "keys_run sample_format (replicate 2 ReadKey, d0) ([MakeParent, KeyResult (Ok False)], d)"
    by (simp add: numeral_2_eq_2)
  show "keys_run sample_format ([MakeParent, KeyResult (Ok False)], d)
      ([KeyResult (Ok False), KeyResult (Ok False)], d\<lparr>inodes := inodes d @ [(as_bytes ''A'', host_key_mode)]\<rparr>)"
    using task_run [of sample_format "[MakeParent, KeyResult (Ok False)]" 0 d]
      late_run [of sample_format True "as_bytes ''A''" d 0 0 False] differ
    by (simp add: sample_format_def d_def)
qed

lemma host_keys_agree_witness:
  "key_at sample_format \<lparr>entries = [host_key_name \<mapsto> HostFile 0], inodes = [(as_bytes ''B'', host_key_mode)]\<rparr> False"
  using host_keys_agree [OF sample_format_law _ sample_race, THEN conjunct1, rule_format, of False False]
  by (simp add: inodes_ok_def)

end
