(* ===== verification/Shell.thy ===== *)
theory Shell
  imports Ssh
begin

text \<open>
  A running command of an SSH session (\<open>run_pipes\<close>, \<open>run_pty\<close> and \<open>apply_modes\<close> of
  \<open>src/services/shell.rs\<close>, on Linux): what goes between the channel and the program, over pipes or over a
  terminal, and when the channel gets its exit status.

  Tasks and threads run side by side, so a session is a sequence of events: what the program, the
  client and the operating system do, and each turn of the program's own loops. An event that cannot
  happen in a state has no next state. Every event yields effects, the calls made to the outside.
\<close>

datatype shell_effect =
    OpenTerminal pty_size
  | SetTermios
  | StartChild command_spec
  | ToChild "byte list"
  | CloseChildInput
  | KillChild
  | ResizeTerminal pty_size
  | ChannelData "byte list"
  | ChannelStderr "byte list"
  | SendExit u32
  | SendEof
  | SendClose

text \<open>What comes from the client on the channel; \<open>ClientGone\<close> is \<open>Close\<close> or the end of the messages.\<close>

datatype client_msg =
    ClientData "byte list"
  | ClientEof
  | ClientWindow u32 u32 u32 u32
  | ClientGone
  | ClientOther

datatype run_phase = Running | Waiting | Ended | Failed

fun shell_events :: "('e \<Rightarrow> 's \<Rightarrow> ('x list \<times> 's) option) \<Rightarrow> 'e list \<Rightarrow> 's \<Rightarrow> ('x list \<times> 's) option" where
  "shell_events step [] s = Some ([], s)"
| "shell_events step (e # es) s =
     (case step e s of
        None \<Rightarrow> None
      | Some (fx, s) \<Rightarrow> (case shell_events step es s of None \<Rightarrow> None | Some (fx', s) \<Rightarrow> Some (fx @ fx', s)))"

section \<open>Over pipes\<close>

text \<open>
  The two output pipes hold what the program wrote and nobody has read; \<open>out_open\<close> and \<open>err_open\<close> say whether a
  process can still write to them, \<open>out_copied\<close> and \<open>err_copied\<close> whether the copy of this pipe has ended.
\<close>

record pipes =
  pipe_phase :: run_phase
  out_pipe :: "byte list"
  err_pipe :: "byte list"
  out_open :: bool
  err_open :: bool
  out_copied :: bool
  err_copied :: bool
  stdin_open :: bool
  client_closed :: bool

datatype pipe_event =
    ChildOut "byte list"
  | ChildErr "byte list"
  | OutCloses
  | ErrCloses
  | PipeInput client_msg bool
  | CopyOut nat bool
  | CopyErr nat bool
  | OutEnds
  | ErrEnds
  | CopyFails
  | DrainDone
  | CloseSeen
  | ChildWaited "int option res" nat

definition pipes_begin :: "bool \<Rightarrow> nat \<Rightarrow> command_spec \<Rightarrow> shell_effect list \<times> pipes option" where
  "pipes_begin spawned sends spec =
     (if spawned
      then ([StartChild spec],
            Some \<lparr>pipe_phase = Running, out_pipe = [], err_pipe = [], out_open = True, err_open = True,
                  out_copied = False, err_copied = False, stdin_open = True, client_closed = False\<rparr>)
      else (take sends [ChannelStderr (as_bytes ''start''), SendExit 1, SendEof, SendClose], None))"

text \<open>The input task: a failed write to the program ends its input, the first end of the messages ends the task.\<close>

fun pipe_input :: "client_msg \<Rightarrow> bool \<Rightarrow> pipes \<Rightarrow> shell_effect list \<times> pipes" where
  "pipe_input (ClientData data) ok s =
     (if \<not> stdin_open s then ([], s)
      else if ok then ([ToChild data], s) else ([CloseChildInput], s\<lparr>stdin_open := False\<rparr>))"
| "pipe_input ClientEof ok s = (if stdin_open s then [CloseChildInput] else [], s\<lparr>stdin_open := False\<rparr>)"
| "pipe_input ClientGone ok s =
     (if stdin_open s then [CloseChildInput] else [], s\<lparr>stdin_open := False, client_closed := True\<rparr>)"
| "pipe_input (ClientWindow c r w h) ok s = ([], s)"
| "pipe_input ClientOther ok s = ([], s)"

text \<open>The calls that end a session; one that fails ends it without the later ones.\<close>

definition closing :: "u32 \<Rightarrow> shell_effect list" where
  "closing code = [SendExit code, SendEof, SendClose]"

definition ending_phase :: "nat \<Rightarrow> run_phase" where
  "ending_phase sends = (if 3 \<le> sends then Ended else Failed)"

text \<open>An error return drops the child, and that kills it.\<close>

fun pipes_step :: "pipe_event \<Rightarrow> pipes \<Rightarrow> (shell_effect list \<times> pipes) option" where
  "pipes_step (ChildOut bs) s = (if out_open s then Some ([], s\<lparr>out_pipe := out_pipe s @ bs\<rparr>) else None)"
| "pipes_step (ChildErr bs) s = (if err_open s then Some ([], s\<lparr>err_pipe := err_pipe s @ bs\<rparr>) else None)"
| "pipes_step OutCloses s = Some ([], s\<lparr>out_open := False\<rparr>)"
| "pipes_step ErrCloses s = Some ([], s\<lparr>err_open := False\<rparr>)"
| "pipes_step (PipeInput m ok) s =
     (if pipe_phase s \<noteq> Ended \<and> \<not> client_closed s then Some (pipe_input m ok s) else None)"
| "pipes_step (CopyOut n ok) s =
     (if pipe_phase s = Running \<and> \<not> out_copied s \<and> 0 < n \<and> n \<le> length (out_pipe s)
      then if ok then Some ([ChannelData (take n (out_pipe s))], s\<lparr>out_pipe := drop n (out_pipe s)\<rparr>)
           else Some ([KillChild], s\<lparr>pipe_phase := Failed\<rparr>)
      else None)"
| "pipes_step (CopyErr n ok) s =
     (if pipe_phase s = Running \<and> \<not> err_copied s \<and> 0 < n \<and> n \<le> length (err_pipe s)
      then if ok then Some ([ChannelStderr (take n (err_pipe s))], s\<lparr>err_pipe := drop n (err_pipe s)\<rparr>)
           else Some ([KillChild], s\<lparr>pipe_phase := Failed\<rparr>)
      else None)"
| "pipes_step OutEnds s =
     (if pipe_phase s = Running \<and> out_pipe s = [] \<and> \<not> out_open s then Some ([], s\<lparr>out_copied := True\<rparr>) else None)"
| "pipes_step ErrEnds s =
     (if pipe_phase s = Running \<and> err_pipe s = [] \<and> \<not> err_open s then Some ([], s\<lparr>err_copied := True\<rparr>) else None)"
| "pipes_step CopyFails s = (if pipe_phase s = Running then Some ([KillChild], s\<lparr>pipe_phase := Failed\<rparr>) else None)"
| "pipes_step DrainDone s =
     (if pipe_phase s = Running \<and> out_copied s \<and> err_copied s then Some ([], s\<lparr>pipe_phase := Waiting\<rparr>) else None)"
| "pipes_step CloseSeen s =
     (if pipe_phase s = Running \<and> client_closed s then Some ([KillChild], s\<lparr>pipe_phase := Waiting\<rparr>) else None)"
| "pipes_step (ChildWaited status sends) s =
     (if pipe_phase s = Waiting
      then case status of
             Inl e \<Rightarrow> Some ([KillChild], s\<lparr>pipe_phase := Failed\<rparr>)
           | Inr code \<Rightarrow>
               Some (take sends (closing (case code of Some c \<Rightarrow> word_of_int c | None \<Rightarrow> 1)),
                     s\<lparr>pipe_phase := ending_phase sends\<rparr>)
      else None)"


section \<open>Terminal modes\<close>

text \<open>
  The terminal settings of the operating system. The numbers of its flags, control characters and
  speeds are constants of the crate \<open>libc\<close>, and so are the two functions that set a speed.
\<close>

record termios =
  c_iflag :: u32
  c_oflag :: u32
  c_cflag :: u32
  c_lflag :: u32
  c_cc :: "nat \<Rightarrow> byte"

record libc_tty =
  cc_index :: "pty_mode \<Rightarrow> nat"
  flag_mask :: "pty_mode \<Rightarrow> u32"
  size_mask :: u32
  size_7 :: u32
  size_8 :: u32
  baud :: "nat \<Rightarrow> u32"
  cfsetispeed :: "u32 \<Rightarrow> termios \<Rightarrow> termios"
  cfsetospeed :: "u32 \<Rightarrow> termios \<Rightarrow> termios"

definition control_chars :: "pty_mode list" where
  "control_chars =
     [VINTR, VQUIT, VERASE, VKILL, VEOF, VEOL, VEOL2, VSTART, VSTOP, VSUSP, VREPRINT, VWERASE, VLNEXT, VDISCARD, VSWTCH]"

definition input_flags :: "pty_mode list" where
  "input_flags =
     [IGNPAR, PARMRK, INPCK, ISTRIP, INLCR, IGNCR, ICRNL, IUCLC, IXON, IXANY, IXOFF, IMAXBEL, IUTF8]"

definition local_flags :: "pty_mode list" where
  "local_flags =
     [ISIG, ICANON, XCASE, ECHO, ECHOE, ECHOK, ECHONL, NOFLSH, TOSTOP, IEXTEN, ECHOCTL, ECHOKE, PENDIN]"

definition output_flags :: "pty_mode list" where
  "output_flags = [OPOST, OLCUC, ONLCR, OCRNL, ONOCR, ONLRET]"

definition control_flags :: "pty_mode list" where
  "control_flags = [PARENB, PARODD]"

definition baud_rates :: "nat list" where
  "baud_rates = [0, 50, 75, 110, 300, 600, 1200, 2400, 4800, 9600, 19200, 38400, 57600, 115200]"

definition assign_flag :: "u32 \<Rightarrow> u32 \<Rightarrow> u32 \<Rightarrow> u32" where
  "assign_flag bits val flags = (if val = 0 then flags AND NOT bits else flags OR bits)"

definition apply_flag_mode :: "libc_tty \<Rightarrow> pty_mode \<Rightarrow> u32 \<Rightarrow> termios \<Rightarrow> termios" where
  "apply_flag_mode L m val t =
     (let change = assign_flag (flag_mask L m) val
      in if m \<in> set input_flags then t\<lparr>c_iflag := change (c_iflag t)\<rparr>
         else if m \<in> set local_flags then t\<lparr>c_lflag := change (c_lflag t)\<rparr>
         else if m \<in> set output_flags then t\<lparr>c_oflag := change (c_oflag t)\<rparr>
         else if m \<in> set control_flags then t\<lparr>c_cflag := change (c_cflag t)\<rparr>
         else t)"

definition apply_size_speed :: "libc_tty \<Rightarrow> pty_mode \<Rightarrow> u32 \<Rightarrow> termios \<Rightarrow> termios" where
  "apply_size_speed L m val t =
     (if m = CS7 \<and> val \<noteq> 0 then t\<lparr>c_cflag := (c_cflag t AND NOT (size_mask L)) OR size_7 L\<rparr>
      else if m = CS8 \<and> val \<noteq> 0 then t\<lparr>c_cflag := (c_cflag t AND NOT (size_mask L)) OR size_8 L\<rparr>
      else if m \<in> {TTY_OP_ISPEED, TTY_OP_OSPEED} \<and> unat val \<in> set baud_rates
      then (if m = TTY_OP_ISPEED then cfsetispeed L else cfsetospeed L) (baud L (unat val)) t
      else t)"

definition apply_mode :: "libc_tty \<Rightarrow> pty_mode \<times> u32 \<Rightarrow> termios \<Rightarrow> termios" where
  "apply_mode L mv t =
     (case mv of (m, val) \<Rightarrow>
        if m \<in> set control_chars then t\<lparr>c_cc := (c_cc t)(cc_index L m := ucast val)\<rparr>
        else apply_size_speed L m val (apply_flag_mode L m val t))"

text \<open>The settings of the terminal before, if they can be read, and whether they can be set.\<close>

definition apply_modes :: "libc_tty \<Rightarrow> termios option \<Rightarrow> bool \<Rightarrow> (pty_mode \<times> u32) list \<Rightarrow> termios res" where
  "apply_modes L attrs settable modes =
     (case attrs of
        None \<Rightarrow> Err ''tcgetattr''
      | Some t \<Rightarrow> if settable then Ok (fold (apply_mode L) modes t) else Err ''tcsetattr'')"

section \<open>Over a terminal\<close>

text \<open>
  One thread reads the terminal into a queue, one writes from a queue to it, and the main loop serves
  both and the channel. \<open>sending\<close> is the input the main loop waits to put into the full queue.
\<close>

record pty =
  pty_phase :: run_phase
  tty_output :: "byte list"
  tty_open :: bool
  out_queue :: "byte list list"
  reader_alive :: bool
  in_queue :: "byte list list"
  writer_alive :: bool
  in_open :: bool
  sending :: "byte list option"
  exited :: "u32 option"
  output_done :: bool
  input_done :: bool
  killer_armed :: bool
  master_open :: bool

datatype pty_event =
    TtyOutput "byte list"
  | TtyCloses
  | ReaderTakes nat
  | ReaderEnds
  | ReaderFails
  | WriterWrites
  | WriterFails nat
  | WriterEnds
  | ChildReaped "u32 res"
  | OutputForwarded bool
  | OutputEnds
  | InputReceived client_msg
  | SendResumes
  | Finishes nat

definition queue_size :: nat where "queue_size = 8"

definition read_size :: nat where "read_size = 2 ^ 15"

text \<open>What the operating system answers when a terminal session is set up.\<close>

record pty_setup =
  can_open :: bool
  has_descriptor :: bool
  tty_attrs :: "termios option"
  tty_settable :: bool
  can_spawn :: bool
  can_attach :: bool

definition pty_refusal :: "string \<Rightarrow> shell_effect list" where
  "pty_refusal m = [ChannelStderr (as_bytes m), SendExit 1, SendClose]"

definition pty_begin ::
  "libc_tty \<Rightarrow> pty_setup \<Rightarrow> nat \<Rightarrow> command_spec \<Rightarrow> terminal \<Rightarrow> shell_effect list \<times> pty option" where
  "pty_begin L setup sends spec t =
     (if \<not> can_open setup then (take sends (pty_refusal ''pty open''), None)
      else if has_descriptor setup \<and> \<not> is_ok (apply_modes L (tty_attrs setup) (tty_settable setup) (term_modes t))
      then ([OpenTerminal (term_size t)], None)
      else let opened = OpenTerminal (term_size t) # (if has_descriptor setup then [SetTermios] else [])
      in if \<not> can_spawn setup then (opened @ take sends (pty_refusal ''start''), None)
      else if \<not> can_attach setup then (opened @ [StartChild spec, KillChild], None)
      else (opened @ [StartChild spec],
            Some \<lparr>pty_phase = Running, tty_output = [], tty_open = True, out_queue = [], reader_alive = True,
                  in_queue = [], writer_alive = True, in_open = True, sending = None, exited = None,
                  output_done = False, input_done = False, killer_armed = True, master_open = True\<rparr>))"

text \<open>The main loop waits in its \<open>select!\<close>: it has neither ended nor waits for the input queue.\<close>

definition looping :: "pty \<Rightarrow> bool" where
  "looping s \<longleftrightarrow> pty_phase s = Running \<and> sending s = None \<and> (exited s = None \<or> \<not> output_done s)"

definition give_up :: "pty \<Rightarrow> shell_effect list \<times> pty" where
  "give_up s = (if killer_armed s then [KillChild] else [], s\<lparr>pty_phase := Failed, in_open := False\<rparr>)"

fun pty_input :: "client_msg \<Rightarrow> pty \<Rightarrow> shell_effect list \<times> pty" where
  "pty_input (ClientData data) s =
     (if \<not> in_open s \<or> \<not> writer_alive s then ([], s)
      else if length (in_queue s) < queue_size then ([], s\<lparr>in_queue := in_queue s @ [data]\<rparr>)
      else ([], s\<lparr>sending := Some data\<rparr>))"
| "pty_input ClientEof s = ([], s\<lparr>in_open := False\<rparr>)"
| "pty_input (ClientWindow c r w h) s = (if master_open s then [ResizeTerminal (size_of c r w h)] else [], s)"
| "pty_input ClientGone s =
     (if killer_armed s then [KillChild] else [], s\<lparr>input_done := True, in_open := False\<rparr>)"
| "pty_input ClientOther s = ([], s)"

fun pty_step :: "pty_event \<Rightarrow> pty \<Rightarrow> (shell_effect list \<times> pty) option" where
  "pty_step (TtyOutput bs) s = (if tty_open s then Some ([], s\<lparr>tty_output := tty_output s @ bs\<rparr>) else None)"
| "pty_step TtyCloses s = Some ([], s\<lparr>tty_open := False\<rparr>)"
| "pty_step (ReaderTakes n) s =
     (if reader_alive s \<and> pty_phase s = Running \<and> 0 < n \<and> n \<le> read_size \<and> n \<le> length (tty_output s) \<and>
         length (out_queue s) < queue_size
      then Some ([], s\<lparr>tty_output := drop n (tty_output s), out_queue := out_queue s @ [take n (tty_output s)]\<rparr>)
      else None)"
| "pty_step ReaderEnds s =
     (if reader_alive s \<and> tty_output s = [] \<and> \<not> tty_open s then Some ([], s\<lparr>reader_alive := False\<rparr>) else None)"
| "pty_step ReaderFails s = (if reader_alive s then Some ([], s\<lparr>reader_alive := False\<rparr>) else None)"
| "pty_step WriterWrites s =
     (if writer_alive s
      then case in_queue s of [] \<Rightarrow> None | d # ds \<Rightarrow> Some ([ToChild d], s\<lparr>in_queue := ds\<rparr>)
      else None)"
| "pty_step (WriterFails n) s =
     (if writer_alive s
      then case in_queue s of
             [] \<Rightarrow> None
           | d # ds \<Rightarrow> Some ([ToChild (take n d)], s\<lparr>in_queue := [], writer_alive := False\<rparr>)
      else None)"
| "pty_step WriterEnds s =
     (if writer_alive s \<and> in_queue s = [] \<and> \<not> in_open s
      then Some ([CloseChildInput], s\<lparr>writer_alive := False\<rparr>) else None)"
| "pty_step (ChildReaped r) s =
     (if looping s \<and> exited s = None
      then case r of
             Inl e \<Rightarrow> Some (give_up s)
           | Inr code \<Rightarrow>
               Some ([], s\<lparr>exited := Some code, killer_armed := False, in_open := False, master_open := False\<rparr>)
      else None)"
| "pty_step (OutputForwarded ok) s =
     (if looping s \<and> \<not> output_done s
      then case out_queue s of
             [] \<Rightarrow> None
           | d # ds \<Rightarrow> Some (if ok then ([ChannelData d], s\<lparr>out_queue := ds\<rparr>) else give_up s)
      else None)"
| "pty_step OutputEnds s =
     (if looping s \<and> \<not> output_done s \<and> out_queue s = [] \<and> \<not> reader_alive s
      then Some ([], s\<lparr>output_done := True\<rparr>) else None)"
| "pty_step (InputReceived m) s = (if looping s \<and> \<not> input_done s then Some (pty_input m s) else None)"
| "pty_step SendResumes s =
     (case sending s of
        None \<Rightarrow> None
      | Some d \<Rightarrow>
          if \<not> writer_alive s then Some ([], s\<lparr>sending := None\<rparr>)
          else if length (in_queue s) < queue_size
          then Some ([], s\<lparr>sending := None, in_queue := in_queue s @ [d]\<rparr>)
          else None)"
| "pty_step (Finishes sends) s =
     (if pty_phase s = Running \<and> sending s = None \<and> output_done s
      then case exited s of
             None \<Rightarrow> None
           | Some code \<Rightarrow> Some (take sends (closing code), s\<lparr>pty_phase := ending_phase sends\<rparr>)
      else None)"

end
