(* ===== verification/ShellProps.thy ===== *)
theory ShellProps
  imports Shell "HOL-Library.Sublist"
begin

text \<open>
  What a client and a running command get of each other: every byte once and in order, the exit status
  after the last byte, and what happens when a side goes away.
\<close>

section \<open>Relays of bytes\<close>

text \<open>
  A side of a session takes bytes with some events, holds them, and passes them on with some effects. While
  it is good nothing is lost; once it is not, it takes nothing more and what it passes on is still what it held.
\<close>

definition passed_on :: "('x \<Rightarrow> byte list) \<Rightarrow> 'x list \<Rightarrow> byte list" where
  "passed_on p fx = concat (map p fx)"

lemma passed_on_simps [simp]:
  "passed_on p [] = []" "passed_on p (x # fx) = p x @ passed_on p fx"
  "passed_on p (fx @ fx') = passed_on p fx @ passed_on p fx'"
  by (simp_all add: passed_on_def)

lemma shell_events_Cons_iff:
  "shell_events step (e # es) s = Some (fx, t) \<longleftrightarrow>
     (\<exists>fx1 s1 fx2. step e s = Some (fx1, s1) \<and> shell_events step es s1 = Some (fx2, t) \<and> fx = fx1 @ fx2)"
  by (auto split: option.splits)

lemma shell_events_append:
  "shell_events step es s = Some (fx, t) \<Longrightarrow> shell_events step es' t = Some (fx', u) \<Longrightarrow>
   shell_events step (es @ es') s = Some (fx @ fx', u)"
  by (induction es arbitrary: s fx) (auto split: option.splits)

text \<open>An invariant of the steps holds after any events.\<close>

lemma shell_events_invariant:
  assumes "shell_events step es s = Some (fx, t)" and "P s"
    and "\<And>e s fx t. e \<in> set es \<Longrightarrow> step e s = Some (fx, t) \<Longrightarrow> P s \<Longrightarrow> P t"
  shows "P t"
  using assms
proof (induction es arbitrary: s fx)
  case (Cons e es)
  from Cons.prems(1) obtain fx1 u fx2 where "step e s = Some (fx1, u)" "shell_events step es u = Some (fx2, t)"
    by (auto simp: shell_events_Cons_iff simp del: shell_events.simps)
  with Cons.prems(2,3) Cons.IH [of u fx2] show ?case by (metis list.set_intros)
qed simp

lemma prefix_chain: "prefix (a @ b) s \<Longrightarrow> prefix c b \<Longrightarrow> prefix (a @ c) s"
  by (auto simp: prefix_def)

locale byte_relay =
  fixes step :: "'e \<Rightarrow> 's \<Rightarrow> ('x list \<times> 's) option"
    and good :: "'s \<Rightarrow> bool"
    and taken :: "'e \<Rightarrow> byte list"
    and kept :: "'s \<Rightarrow> byte list"
    and passed :: "'x \<Rightarrow> byte list"
  assumes still_good: "step e s = Some (fx, t) \<Longrightarrow> good t \<Longrightarrow> good s \<and> kept s @ taken e = passed_on passed fx @ kept t"
    and good_prefix: "step e s = Some (fx, t) \<Longrightarrow> good s \<Longrightarrow> prefix (passed_on passed fx @ kept t) (kept s @ taken e)"
    and ended_prefix: "step e s = Some (fx, t) \<Longrightarrow> \<not> good s \<Longrightarrow> prefix (passed_on passed fx @ kept t) (kept s)"
begin

lemma relay_exact:
  "shell_events step es s = Some (fx, t) \<Longrightarrow> good t \<Longrightarrow>
   good s \<and> kept s @ concat (map taken es) = passed_on passed fx @ kept t"
proof (induction es arbitrary: s fx)
  case (Cons e es)
  then obtain fx1 u fx2 where step: "step e s = Some (fx1, u)" and rest: "shell_events step es u = Some (fx2, t)"
    and fx: "fx = fx1 @ fx2"
    by (auto simp: shell_events_Cons_iff simp del: shell_events.simps)
  from Cons.IH [OF rest Cons.prems(2)] have u: "good u" "kept u @ concat (map taken es) = passed_on passed fx2 @ kept t"
    by auto
  from still_good [OF step u(1)] have "good s" "kept s @ taken e = passed_on passed fx1 @ kept u" by auto
  with u(2) fx show ?case by (metis append.assoc concat.simps(2) list.simps(9) passed_on_simps(3))
qed simp

lemma relay_ended:
  "shell_events step es s = Some (fx, t) \<Longrightarrow> \<not> good s \<Longrightarrow> prefix (passed_on passed fx @ kept t) (kept s)"
proof (induction es arbitrary: s fx)
  case (Cons e es)
  then obtain fx1 u fx2 where step: "step e s = Some (fx1, u)" and rest: "shell_events step es u = Some (fx2, t)"
    and fx: "fx = fx1 @ fx2"
    by (auto simp: shell_events_Cons_iff simp del: shell_events.simps)
  have "\<not> good u" using still_good [OF step] Cons.prems(2) by blast
  from prefix_chain [OF ended_prefix [OF step Cons.prems(2)] Cons.IH [OF rest this]] fx show ?case by simp
qed simp

lemma relay_prefix:
  "shell_events step es s = Some (fx, t) \<Longrightarrow>
   prefix (passed_on passed fx @ kept t) (kept s @ concat (map taken es))"
proof (induction es arbitrary: s fx)
  case (Cons e es)
  then obtain fx1 u fx2 where step: "step e s = Some (fx1, u)" and rest: "shell_events step es u = Some (fx2, t)"
    and fx: "fx = fx1 @ fx2"
    by (auto simp: shell_events_Cons_iff simp del: shell_events.simps)
  show ?case
  proof (cases "good u")
    case True
    from still_good [OF step this]
    have "kept s @ concat (map taken (e # es)) = passed_on passed fx1 @ kept u @ concat (map taken es)"
      by (metis append.assoc concat.simps(2) list.simps(9))
    with Cons.IH [OF rest] fx show ?thesis by (simp del: concat.simps list.map)
  next
    case False
    have "prefix (passed_on passed fx2 @ kept t) (kept u)" using relay_ended [OF rest False] .
    moreover have "prefix (passed_on passed fx1 @ kept u) (kept s @ taken e)"
      using good_prefix [OF step] ended_prefix [OF step] by (cases "good s") (auto intro: prefix_prefix)
    ultimately have "prefix (passed_on passed fx @ kept t) (kept s @ taken e)"
      using prefix_chain [of "passed_on passed fx1" "kept u"] fx by simp
    from prefix_prefix [OF this, of "concat (map taken es)"] show ?thesis by simp
  qed
qed simp

end


fun channel_data :: "shell_effect \<Rightarrow> byte list" where
  "channel_data (ChannelData bs) = bs"
| "channel_data _ = []"

fun channel_stderr :: "shell_effect \<Rightarrow> byte list" where
  "channel_stderr (ChannelStderr bs) = bs"
| "channel_stderr _ = []"

fun child_data :: "shell_effect \<Rightarrow> byte list" where
  "child_data (ToChild bs) = bs"
| "child_data _ = []"

fun msg_data :: "client_msg \<Rightarrow> byte list" where
  "msg_data (ClientData bs) = bs"
| "msg_data _ = []"

fun on_channel :: "shell_effect \<Rightarrow> bool" where
  "on_channel (ChannelData bs) = True"
| "on_channel (ChannelStderr bs) = True"
| "on_channel (SendExit c) = True"
| "on_channel SendEof = True"
| "on_channel SendClose = True"
| "on_channel _ = False"

fun is_output :: "shell_effect \<Rightarrow> bool" where
  "is_output (ChannelData bs) = True"
| "is_output (ChannelStderr bs) = True"
| "is_output _ = False"

section \<open>A session over pipes\<close>

fun pipe_out :: "pipe_event \<Rightarrow> byte list" where
  "pipe_out (ChildOut bs) = bs"
| "pipe_out _ = []"

fun pipe_err :: "pipe_event \<Rightarrow> byte list" where
  "pipe_err (ChildErr bs) = bs"
| "pipe_err _ = []"

fun pipe_in :: "pipe_event \<Rightarrow> byte list" where
  "pipe_in (PipeInput m ok) = msg_data m"
| "pipe_in _ = []"

lemma closing_data [simp]:
  "passed_on channel_data (take n (closing c)) = []" "passed_on channel_stderr (take n (closing c)) = []"
  "passed_on child_data (take n (closing c)) = []"
  by (simp_all add: closing_def take_Cons' passed_on_def split: nat.splits)

lemma pipe_input_facts:
  "pipe_input m ok s = (fx, t) \<Longrightarrow> pipe_phase t = pipe_phase s \<and> out_pipe t = out_pipe s \<and> err_pipe t = err_pipe s \<and>
   out_open t = out_open s \<and> err_open t = err_open s \<and> out_copied t = out_copied s \<and> err_copied t = err_copied s \<and>
   passed_on channel_data fx = [] \<and> passed_on channel_stderr fx = [] \<and> filter on_channel fx = []"
  by (cases m) (auto split: if_splits)

interpretation pipe_output: byte_relay pipes_step "\<lambda>s. pipe_phase s \<noteq> Failed" pipe_out
  "\<lambda>s. if pipe_phase s = Failed then [] else out_pipe s" channel_data
proof unfold_locales
  fix e s fx t
  assume step: "pipes_step e s = Some (fx, t)"
  show "pipe_phase t \<noteq> Failed \<Longrightarrow> pipe_phase s \<noteq> Failed \<and>
      (if pipe_phase s = Failed then [] else out_pipe s) @ pipe_out e =
      passed_on channel_data fx @ (if pipe_phase t = Failed then [] else out_pipe t)"
    using step by (cases e) (auto dest!: pipe_input_facts split: if_splits sum.splits)
  show "pipe_phase s \<noteq> Failed \<Longrightarrow>
      prefix (passed_on channel_data fx @ (if pipe_phase t = Failed then [] else out_pipe t))
        ((if pipe_phase s = Failed then [] else out_pipe s) @ pipe_out e)"
    using step by (cases e) (auto dest!: pipe_input_facts split: if_splits sum.splits)
  show "\<not> pipe_phase s \<noteq> Failed \<Longrightarrow>
      prefix (passed_on channel_data fx @ (if pipe_phase t = Failed then [] else out_pipe t))
        (if pipe_phase s = Failed then [] else out_pipe s)"
    using step by (cases e) (auto dest!: pipe_input_facts split: if_splits sum.splits)
qed


interpretation pipe_errors: byte_relay pipes_step "\<lambda>s. pipe_phase s \<noteq> Failed" pipe_err
  "\<lambda>s. if pipe_phase s = Failed then [] else err_pipe s" channel_stderr
proof unfold_locales
  fix e s fx t
  assume step: "pipes_step e s = Some (fx, t)"
  show "pipe_phase t \<noteq> Failed \<Longrightarrow> pipe_phase s \<noteq> Failed \<and>
      (if pipe_phase s = Failed then [] else err_pipe s) @ pipe_err e =
      passed_on channel_stderr fx @ (if pipe_phase t = Failed then [] else err_pipe t)"
    using step by (cases e) (auto dest!: pipe_input_facts split: if_splits sum.splits)
  show "pipe_phase s \<noteq> Failed \<Longrightarrow>
      prefix (passed_on channel_stderr fx @ (if pipe_phase t = Failed then [] else err_pipe t))
        ((if pipe_phase s = Failed then [] else err_pipe s) @ pipe_err e)"
    using step by (cases e) (auto dest!: pipe_input_facts split: if_splits sum.splits)
  show "\<not> pipe_phase s \<noteq> Failed \<Longrightarrow>
      prefix (passed_on channel_stderr fx @ (if pipe_phase t = Failed then [] else err_pipe t))
        (if pipe_phase s = Failed then [] else err_pipe s)"
    using step by (cases e) (auto dest!: pipe_input_facts split: if_splits sum.splits)
qed

lemma pipe_input_child:
  "pipe_input m ok s = (fx, t) \<Longrightarrow> stdin_open t \<Longrightarrow> stdin_open s \<and> msg_data m = passed_on child_data fx"
  "pipe_input m ok s = (fx, t) \<Longrightarrow> passed_on child_data fx = [] \<or> passed_on child_data fx = msg_data m \<and> stdin_open s"
  by (cases m; auto split: if_splits)+

interpretation pipe_inputs: byte_relay pipes_step stdin_open pipe_in "\<lambda>s. []" child_data
proof unfold_locales
  fix e s fx t
  assume step: "pipes_step e s = Some (fx, t)"
  show "stdin_open t \<Longrightarrow> stdin_open s \<and> [] @ pipe_in e = passed_on child_data fx @ []"
    using step by (cases e) (auto split: if_splits sum.splits dest: pipe_input_child)
  show "stdin_open s \<Longrightarrow> prefix (passed_on child_data fx @ []) ([] @ pipe_in e)"
    using step by (cases e) (auto split: if_splits sum.splits dest: pipe_input_child(2))
  show "\<not> stdin_open s \<Longrightarrow> prefix (passed_on child_data fx @ []) []"
    using step by (cases e) (auto split: if_splits sum.splits dest: pipe_input_child(2))
qed

section \<open>A session over a terminal\<close>

fun tty_out :: "pty_event \<Rightarrow> byte list" where
  "tty_out (TtyOutput bs) = bs"
| "tty_out _ = []"

fun tty_in :: "pty_event \<Rightarrow> byte list" where
  "tty_in (InputReceived m) = msg_data m"
| "tty_in _ = []"

definition unsent_output :: "pty \<Rightarrow> byte list" where
  "unsent_output s = (if pty_phase s = Failed then [] else concat (out_queue s) @ tty_output s)"

definition unwritten_input :: "pty \<Rightarrow> byte list" where
  "unwritten_input s =
     (if writer_alive s then concat (in_queue s) @ (case sending s of Some d \<Rightarrow> d | None \<Rightarrow> []) else [])"

lemma pty_input_facts:
  "pty_input m s = (fx, t) \<Longrightarrow> pty_phase t = pty_phase s \<and> out_queue t = out_queue s \<and> tty_output t = tty_output s \<and>
   writer_alive t = writer_alive s \<and> reader_alive t = reader_alive s \<and> tty_open t = tty_open s \<and>
   exited t = exited s \<and> output_done t = output_done s \<and> passed_on channel_data fx = [] \<and> passed_on child_data fx = [] \<and>
   filter on_channel fx = []"
  by (cases m) (auto split: if_splits)

lemma give_up_facts:
  "give_up s = (fx, t) \<Longrightarrow> pty_phase t = Failed \<and> passed_on channel_data fx = [] \<and> passed_on child_data fx = [] \<and>
   \<not> in_open t \<and> writer_alive t = writer_alive s \<and> in_queue t = in_queue s \<and> sending t = sending s \<and>
   exited t = exited s \<and> output_done t = output_done s \<and> out_queue t = out_queue s \<and> tty_output t = tty_output s \<and>
   reader_alive t = reader_alive s \<and> tty_open t = tty_open s \<and> filter on_channel fx = []"
  by (auto simp: give_up_def)

interpretation terminal_output: byte_relay pty_step "\<lambda>s. pty_phase s \<noteq> Failed" tty_out unsent_output channel_data
proof unfold_locales
  fix e s fx t
  assume step: "pty_step e s = Some (fx, t)"
  show "pty_phase t \<noteq> Failed \<Longrightarrow> pty_phase s \<noteq> Failed \<and>
      unsent_output s @ tty_out e = passed_on channel_data fx @ unsent_output t"
    using step by (cases e) (auto simp: unsent_output_def looping_def dest!: pty_input_facts give_up_facts split: if_splits sum.splits list.splits option.splits)
  show "pty_phase s \<noteq> Failed \<Longrightarrow>
      prefix (passed_on channel_data fx @ unsent_output t) (unsent_output s @ tty_out e)"
    using step by (cases e) (auto simp: unsent_output_def looping_def dest!: pty_input_facts give_up_facts split: if_splits sum.splits list.splits option.splits)
  show "\<not> pty_phase s \<noteq> Failed \<Longrightarrow> prefix (passed_on channel_data fx @ unsent_output t) (unsent_output s)"
    using step by (cases e) (auto simp: unsent_output_def looping_def dest!: pty_input_facts give_up_facts split: if_splits sum.splits list.splits option.splits)
qed

lemma pty_input_child:
  assumes "pty_input m s = (fx, t)" and "sending s = None"
  shows "in_open t \<Longrightarrow> writer_alive t \<Longrightarrow> in_open s \<and> unwritten_input s @ msg_data m = unwritten_input t"
    and "prefix (unwritten_input t) (unwritten_input s @ msg_data m)"
    and "\<not> (in_open s \<and> writer_alive s) \<Longrightarrow> unwritten_input t = unwritten_input s"
  using assms by (cases m; auto simp: unwritten_input_def split: if_splits)+

interpretation terminal_input: byte_relay pty_step "\<lambda>s. in_open s \<and> writer_alive s" tty_in unwritten_input child_data
proof unfold_locales
  fix e s fx t
  assume step: "pty_step e s = Some (fx, t)"
  show "in_open t \<and> writer_alive t \<Longrightarrow> (in_open s \<and> writer_alive s) \<and>
      unwritten_input s @ tty_in e = passed_on child_data fx @ unwritten_input t"
  proof (cases e)
    case (InputReceived m)
    then show "in_open t \<and> writer_alive t \<Longrightarrow> ?thesis"
      using step pty_input_child(1) [of m s fx t] pty_input_facts [of m s fx t] by (auto simp: looping_def split: if_splits)
  qed (use step in \<open>auto simp: unwritten_input_def dest!: give_up_facts split: if_splits sum.splits list.splits option.splits\<close>)
  show "in_open s \<and> writer_alive s \<Longrightarrow>
      prefix (passed_on child_data fx @ unwritten_input t) (unwritten_input s @ tty_in e)"
  proof (cases e)
    case (InputReceived m)
    then show "prefix (passed_on child_data fx @ unwritten_input t) (unwritten_input s @ tty_in e)"
      using step pty_input_child(2) [of m s fx t] pty_input_facts [of m s fx t] by (auto simp: looping_def split: if_splits)
  qed (use step in \<open>auto simp: unwritten_input_def take_is_prefix dest!: give_up_facts split: if_splits sum.splits list.splits option.splits\<close>)
  show "\<not> (in_open s \<and> writer_alive s) \<Longrightarrow>
      prefix (passed_on child_data fx @ unwritten_input t) (unwritten_input s)"
  proof (cases e)
    case (InputReceived m)
    then show "\<not> (in_open s \<and> writer_alive s) \<Longrightarrow> ?thesis"
      using step pty_input_child(3) [of m s fx t] pty_input_facts [of m s fx t] by (auto simp: looping_def split: if_splits)
  qed (use step in \<open>auto simp: unwritten_input_def take_is_prefix dest!: give_up_facts split: if_splits sum.splits list.splits option.splits\<close>)
qed


section \<open>The end of a session\<close>

text \<open>A live session sends output only, until the event that ends it sends the exit status, the end and the close.\<close>

locale session_end =
  fixes step :: "'e \<Rightarrow> 's \<Rightarrow> (shell_effect list \<times> 's) option"
    and phase :: "'s \<Rightarrow> run_phase"
    and status :: "'e \<Rightarrow> 's \<Rightarrow> u32 option"
  assumes live_step: "step e s = Some (fx, t) \<Longrightarrow> phase s \<in> {Running, Waiting} \<Longrightarrow> phase t \<in> {Running, Waiting} \<Longrightarrow>
      list_all is_output (filter on_channel fx)"
    and last_step: "step e s = Some (fx, t) \<Longrightarrow> phase s \<in> {Running, Waiting} \<Longrightarrow> phase t = Ended \<Longrightarrow>
      \<exists>c. status e s = Some c \<and> fx = closing c"
    and ended_step: "step e s = Some (fx, t) \<Longrightarrow> phase s = Ended \<Longrightarrow> phase t = Ended \<and> filter on_channel fx = []"
    and failed_step: "step e s = Some (fx, t) \<Longrightarrow> phase s = Failed \<Longrightarrow> phase t = Failed"
begin

lemma not_failed: "shell_events step es s = Some (fx, t) \<Longrightarrow> phase t \<noteq> Failed \<Longrightarrow> phase s \<noteq> Failed"
  using shell_events_invariant [of step es s fx t "\<lambda>s. phase s = Failed"] failed_step by blast

lemma ended_silent: "shell_events step es s = Some (fx, t) \<Longrightarrow> phase s = Ended \<Longrightarrow> filter on_channel fx = []"
  by (induction es arbitrary: s fx) (auto split: option.splits dest!: ended_step)

lemma session_closing:
  assumes "shell_events step es s = Some (fx, t)" and "phase s \<in> {Running, Waiting}" and "phase t = Ended"
  shows "\<exists>before c e u. filter on_channel fx = before @ closing c \<and> list_all is_output before \<and>
    e \<in> set es \<and> status e u = Some c \<and> (\<exists>es1 es2 fx1. es = es1 @ e # es2 \<and> shell_events step es1 s = Some (fx1, u))"
  using assms
proof (induction es arbitrary: s fx)
  case (Cons e es)
  then obtain fx1 u fx2 where step: "step e s = Some (fx1, u)" and rest: "shell_events step es u = Some (fx2, t)"
    and fx: "fx = fx1 @ fx2"
    by (auto simp: shell_events_Cons_iff simp del: shell_events.simps)
  have "phase u \<noteq> Failed" using not_failed [OF rest] Cons.prems(3) by simp
  then consider (live) "phase u \<in> {Running, Waiting}" | (last) "phase u = Ended" by (cases "phase u") auto
  then show ?case
  proof cases
    case live
    from Cons.IH [OF rest live Cons.prems(3)] obtain before c e' v es1 es2 fx'
      where ih: "filter on_channel fx2 = before @ closing c" "list_all is_output before" "status e' v = Some c"
        "es = es1 @ e' # es2" "shell_events step es1 u = Some (fx', v)" by blast
    from live_step [OF step Cons.prems(2) live] ih(1,2) fx
    have "filter on_channel fx = (filter on_channel fx1 @ before) @ closing c"
      "list_all is_output (filter on_channel fx1 @ before)" by auto
    moreover have "shell_events step (e # es1) s = Some (fx1 @ fx', v)" using step ih(5) by simp
    ultimately show ?thesis using ih(3,4) by (metis append_Cons in_set_conv_decomp)
  next
    case last
    from last_step [OF step Cons.prems(2) last] obtain c where c: "status e s = Some c" "fx1 = closing c" by blast
    from ended_silent [OF rest last] c(2) fx have "filter on_channel fx = [] @ closing c"
      by (simp add: closing_def)
    with c(1) show ?thesis by (metis append_Nil list.pred_inject(1) list.set_intros(1) shell_events.simps(1))
  qed
qed simp

end

definition pipe_status :: "pipe_event \<Rightarrow> pipes \<Rightarrow> u32 option" where
  "pipe_status e s =
     (case e of
        ChildWaited (Inr code) sends \<Rightarrow> Some (case code of Some c \<Rightarrow> word_of_int c | None \<Rightarrow> 1)
      | _ \<Rightarrow> None)"

definition pty_status :: "pty_event \<Rightarrow> pty \<Rightarrow> u32 option" where
  "pty_status e s = (case e of Finishes n \<Rightarrow> exited s | _ \<Rightarrow> None)"

lemma ending_phase_Ended [simp]: "ending_phase n = Ended \<longleftrightarrow> 3 \<le> n" "ending_phase n \<noteq> Running" "ending_phase n \<noteq> Waiting"
  by (simp_all add: ending_phase_def)

lemma take_closing [simp]: "3 \<le> n \<Longrightarrow> take n (closing c) = closing c"
  by (simp add: closing_def)

interpretation pipe_end: session_end pipes_step pipe_phase pipe_status
proof unfold_locales
  fix e s fx t
  assume step: "pipes_step e s = Some (fx, t)"
  show "pipe_phase s \<in> {Running, Waiting} \<Longrightarrow> pipe_phase t \<in> {Running, Waiting} \<Longrightarrow>
      list_all is_output (filter on_channel fx)"
    using step by (cases e) (auto dest!: pipe_input_facts split: if_splits sum.splits)
  show "pipe_phase s \<in> {Running, Waiting} \<Longrightarrow> pipe_phase t = Ended \<Longrightarrow> \<exists>c. pipe_status e s = Some c \<and> fx = closing c"
    using step by (cases e) (auto simp: pipe_status_def dest!: pipe_input_facts split: if_splits sum.splits)
  show "pipe_phase s = Ended \<Longrightarrow> pipe_phase t = Ended \<and> filter on_channel fx = []"
    using step by (cases e) (auto dest!: pipe_input_facts split: if_splits sum.splits)
  show "pipe_phase s = Failed \<Longrightarrow> pipe_phase t = Failed"
    using step by (cases e) (auto dest!: pipe_input_facts split: if_splits sum.splits)
qed

interpretation pty_end: session_end pty_step pty_phase pty_status
proof unfold_locales
  fix e s fx t
  assume step: "pty_step e s = Some (fx, t)"
  show "pty_phase s \<in> {Running, Waiting} \<Longrightarrow> pty_phase t \<in> {Running, Waiting} \<Longrightarrow>
      list_all is_output (filter on_channel fx)"
    using step by (cases e) (auto dest!: pty_input_facts give_up_facts split: if_splits sum.splits list.splits option.splits)
  show "pty_phase s \<in> {Running, Waiting} \<Longrightarrow> pty_phase t = Ended \<Longrightarrow> \<exists>c. pty_status e s = Some c \<and> fx = closing c"
    using step by (cases e) (auto simp: pty_status_def looping_def dest!: pty_input_facts give_up_facts split: if_splits sum.splits list.splits option.splits)
  show "pty_phase s = Ended \<Longrightarrow> pty_phase t = Ended \<and> filter on_channel fx = []"
    using step by (cases e) (auto simp: looping_def dest!: pty_input_facts give_up_facts split: if_splits sum.splits list.splits option.splits)
  show "pty_phase s = Failed \<Longrightarrow> pty_phase t = Failed"
    using step by (cases e) (auto simp: looping_def dest!: pty_input_facts give_up_facts split: if_splits sum.splits list.splits option.splits)
qed


section \<open>Invariants of the two sessions\<close>

definition pipes_ok :: "pipe_event list \<Rightarrow> pipes \<Rightarrow> bool" where
  "pipes_ok es s \<longleftrightarrow>
     (out_copied s \<longrightarrow> out_pipe s = [] \<and> \<not> out_open s) \<and> (err_copied s \<longrightarrow> err_pipe s = [] \<and> \<not> err_open s) \<and>
     (CloseSeen \<notin> set es \<longrightarrow> pipe_phase s \<in> {Waiting, Ended} \<longrightarrow> out_copied s \<and> err_copied s)"

lemma pipes_ok_step: "e \<in> set es \<Longrightarrow> pipes_step e s = Some (fx, t) \<Longrightarrow> pipes_ok es s \<Longrightarrow> pipes_ok es t"
  unfolding pipes_ok_def by (cases e) (auto dest!: pipe_input_facts split: if_splits sum.splits)

lemma close_seen_kills:
  "shell_events pipes_step es s = Some (fx, t) \<Longrightarrow> CloseSeen \<in> set es \<Longrightarrow> KillChild \<in> set fx"
  by (induction es arbitrary: s fx) (auto split: option.splits if_splits)

definition reader_ok :: "pty_event list \<Rightarrow> pty \<Rightarrow> bool" where
  "reader_ok es s \<longleftrightarrow> (ReaderFails \<notin> set es \<longrightarrow> \<not> reader_alive s \<longrightarrow> tty_output s = [] \<and> \<not> tty_open s)"

definition output_ok :: "pty \<Rightarrow> bool" where
  "output_ok s \<longleftrightarrow> pty_phase s \<noteq> Waiting \<and> (output_done s \<longrightarrow> out_queue s = [] \<and> \<not> reader_alive s) \<and>
     (pty_phase s = Ended \<longrightarrow> output_done s)"

definition exited_ok :: "pty_event list \<Rightarrow> pty \<Rightarrow> bool" where
  "exited_ok es s \<longleftrightarrow> (exited s \<noteq> None \<longrightarrow> \<not> in_open s \<and> sending s = None \<and> ChildReaped (Ok (the (exited s))) \<in> set es)"

lemma reader_ok_step: "e \<in> set es \<Longrightarrow> pty_step e s = Some (fx, t) \<Longrightarrow> reader_ok es s \<Longrightarrow> reader_ok es t"
  unfolding reader_ok_def
  by (cases e) (auto dest!: pty_input_facts give_up_facts split: if_splits sum.splits list.splits option.splits)

lemma output_ok_step: "pty_step e s = Some (fx, t) \<Longrightarrow> output_ok s \<Longrightarrow> output_ok t"
  unfolding output_ok_def ending_phase_def
  by (cases e) (auto dest!: pty_input_facts give_up_facts split: if_splits sum.splits list.splits option.splits)

lemma exited_ok_step: "e \<in> set es \<Longrightarrow> pty_step e s = Some (fx, t) \<Longrightarrow> exited_ok es s \<Longrightarrow> exited_ok es t"
proof (cases e)
  case (InputReceived m)
  then show "pty_step e s = Some (fx, t) \<Longrightarrow> exited_ok es s \<Longrightarrow> exited_ok es t"
    by (cases m) (auto simp: exited_ok_def split: if_splits)
qed (auto simp: exited_ok_def looping_def dest!: give_up_facts split: if_splits sum.splits list.splits option.splits)

text \<open>Once the child has been waited for, its status stays.\<close>

lemma exited_step: "pty_step e s = Some (fx, t) \<Longrightarrow> exited s = Some c \<Longrightarrow> exited t = Some c"
  by (cases e) (auto dest!: pty_input_facts give_up_facts split: if_splits sum.splits list.splits option.splits)

lemma exited_events: "shell_events pty_step es s = Some (fx, t) \<Longrightarrow> exited s = Some c \<Longrightarrow> exited t = Some c"
  using shell_events_invariant [of pty_step es s fx t "\<lambda>s. exited s = Some c"] exited_step by blast

lemma reaped_status: "shell_events pty_step es s = Some (fx, t) \<Longrightarrow> ChildReaped (Ok c) \<in> set es \<Longrightarrow> exited t = Some c"
proof (induction es arbitrary: s fx)
  case (Cons e es)
  then obtain fx1 u fx2 where step: "pty_step e s = Some (fx1, u)" and rest: "shell_events pty_step es u = Some (fx2, t)"
    by (auto simp: shell_events_Cons_iff simp del: shell_events.simps)
  show ?case
  proof (cases "e = ChildReaped (Ok c)")
    case True
    with step have "exited u = Some c" by (auto split: if_splits)
    with exited_events [OF rest] show ?thesis .
  next
    case False
    with Cons.prems(2) Cons.IH [OF rest] show ?thesis by simp
  qed
qed simp

text \<open>The program is only killed for a client that is gone, unless the session has failed.\<close>

lemma kill_step: "pty_step e s = Some (fx, t) \<Longrightarrow> KillChild \<in> set fx \<Longrightarrow> e = InputReceived ClientGone \<or> pty_phase t = Failed"
proof (cases e)
  case (InputReceived m)
  then show "pty_step e s = Some (fx, t) \<Longrightarrow> KillChild \<in> set fx \<Longrightarrow> ?thesis"
    by (cases m) (auto split: if_splits)
next
  case (Finishes n)
  then show "pty_step e s = Some (fx, t) \<Longrightarrow> KillChild \<in> set fx \<Longrightarrow> ?thesis"
    by (auto simp: closing_def dest: in_set_takeD split: if_splits option.splits)
qed (auto dest!: give_up_facts split: if_splits sum.splits list.splits option.splits)

lemma kill_events:
  "shell_events pty_step es s = Some (fx, t) \<Longrightarrow> pty_phase t \<noteq> Failed \<Longrightarrow> KillChild \<in> set fx \<Longrightarrow>
   InputReceived ClientGone \<in> set es"
proof (induction es arbitrary: s fx)
  case (Cons e es)
  then obtain fx1 u fx2 where step: "pty_step e s = Some (fx1, u)" and rest: "shell_events pty_step es u = Some (fx2, t)"
    and fx: "fx = fx1 @ fx2"
    by (auto simp: shell_events_Cons_iff simp del: shell_events.simps)
  have "pty_phase u \<noteq> Failed" using pty_end.not_failed [OF rest Cons.prems(2)] .
  with kill_step [OF step] Cons.IH [OF rest Cons.prems(2)] Cons.prems(3) fx show ?case by auto
qed simp


section \<open>What the two sides get\<close>

text \<open>A terminal whose program is gone: the loops of the session alone bring it to its end.\<close>

lemma terminal_session_finishes:
  assumes "pty_phase s = Running" and "exited s \<noteq> None" and "sending s = None" and "\<not> tty_open s" and "output_ok s"
  shows "\<exists>es fx t. shell_events pty_step es s = Some (fx, t) \<and> pty_phase t = Ended"
  using assms
proof (induction "2 * length (tty_output s) + length (out_queue s) + of_bool (reader_alive s) + of_bool (\<not> output_done s)"
    arbitrary: s rule: less_induct)
  case less
  obtain c where c: "exited s = Some c" using less.prems(2) by auto
  have next_step: ?case if "pty_step e s = Some (fx1, u)"
    and "2 * length (tty_output u) + length (out_queue u) + of_bool (reader_alive u) + of_bool (\<not> output_done u) <
      2 * length (tty_output s) + length (out_queue s) + of_bool (reader_alive s) + of_bool (\<not> output_done s)"
    and "pty_phase u = Running" "exited u = exited s" "sending u = None" "\<not> tty_open u" for e fx1 u
  proof -
    from less.hyps [OF that(2,3) _ that(5,6) output_ok_step [OF that(1) less.prems(5)]] that(4) less.prems(2)
    obtain es fx2 t where "shell_events pty_step es u = Some (fx2, t)" "pty_phase t = Ended" by auto
    with that(1) have "shell_events pty_step (e # es) s = Some (fx1 @ fx2, t)" by simp
    with \<open>pty_phase t = Ended\<close> show ?case by blast
  qed
  show ?case
  proof (cases "output_done s")
    case True
    with c less.prems have "pty_step (Finishes 3) s = Some (closing c, s\<lparr>pty_phase := Ended\<rparr>)"
      by (simp add: ending_phase_def)
    then have "shell_events pty_step [Finishes 3] s = Some (closing c, s\<lparr>pty_phase := Ended\<rparr>)" by simp
    moreover have "pty_phase (s\<lparr>pty_phase := Ended\<rparr>) = Ended" by simp
    ultimately show ?thesis by blast
  next
    case False
    then have loop: "looping s" using less.prems by (simp add: looping_def)
    consider (queued) d ds where "out_queue s = d # ds" | (unread) "out_queue s = []" "reader_alive s" "tty_output s \<noteq> []"
      | (read) "out_queue s = []" "reader_alive s" "tty_output s = []" | (over) "out_queue s = []" "\<not> reader_alive s"
      by (cases "out_queue s") auto
    then show ?thesis
    proof cases
      case queued
      show ?thesis
        by (rule next_step [of "OutputForwarded True" "[ChannelData d]" "s\<lparr>out_queue := ds\<rparr>"])
          (use queued loop False less.prems in auto)
    next
      case unread
      let ?n = "min read_size (length (tty_output s))"
      have "0 < ?n" "?n \<le> length (tty_output s)" using unread(3) by (simp_all add: read_size_def)
      then have "0 < ?n" "Suc (2 * (length (tty_output s) - ?n)) < 2 * length (tty_output s)" by linarith+
      then show ?thesis
        by (intro next_step [of "ReaderTakes ?n" "[]"
              "s\<lparr>tty_output := drop ?n (tty_output s), out_queue := [take ?n (tty_output s)]\<rparr>"])
          (use unread less.prems in \<open>auto simp: queue_size_def\<close>)
    next
      case read
      show ?thesis
        by (rule next_step [of ReaderEnds "[]" "s\<lparr>reader_alive := False\<rparr>"]) (use read less.prems in auto)
    next
      case over
      show ?thesis
        by (rule next_step [of OutputEnds "[]" "s\<lparr>output_done := True\<rparr>"]) (use over loop False less.prems in auto)
    qed
  qed
qed

lemma pty_begin_ok:
  "pty_begin L setup sends spec tm = (fx, Some s) \<Longrightarrow>
   pty_phase s = Running \<and> unsent_output s = [] \<and> unwritten_input s = [] \<and> in_open s \<and> writer_alive s \<and>
   reader_ok es s \<and> output_ok s \<and> exited_ok es s"
  by (auto simp: pty_begin_def unsent_output_def unwritten_input_def reader_ok_def output_ok_def exited_ok_def Let_def
      split: if_splits)


text \<open>
  C18. A session over pipes: the client is sent a beginning of what the program wrote to each of its outputs and the
  program is given a beginning of what the client sent, all of it while its input is open. A session that
  ends has sent after all output the exit status, an end and a close, each once. Unless it noticed that the client had
  closed the channel, it has sent both outputs completely; if it did notice, it has killed the program.
\<close>

theorem pipe_session_exact:
  assumes "pipes_begin True sends spec = (fx0, Some s)" and "shell_events pipes_step es s = Some (fx, t)"
  shows "prefix (passed_on channel_data fx) (concat (map pipe_out es)) \<and>
    prefix (passed_on channel_stderr fx) (concat (map pipe_err es)) \<and>
    prefix (passed_on child_data fx) (concat (map pipe_in es)) \<and>
    (stdin_open t \<longrightarrow> passed_on child_data fx = concat (map pipe_in es)) \<and>
    (CloseSeen \<in> set es \<longrightarrow> KillChild \<in> set fx) \<and>
    (pipe_phase t = Ended \<longrightarrow>
       (\<exists>sent code n. filter on_channel fx = sent @ closing (case code of Some c \<Rightarrow> word_of_int c | None \<Rightarrow> 1) \<and>
          list_all is_output sent \<and> ChildWaited (Ok code) n \<in> set es) \<and>
       (CloseSeen \<notin> set es \<longrightarrow>
          passed_on channel_data fx = concat (map pipe_out es) \<and> passed_on channel_stderr fx = concat (map pipe_err es)))"
proof (intro conjI impI)
  note run = assms(2)
  from assms(1) have s: "s = \<lparr>pipe_phase = Running, out_pipe = [], err_pipe = [], out_open = True, err_open = True,
      out_copied = False, err_copied = False, stdin_open = True, client_closed = False\<rparr>"
    by (simp add: pipes_begin_def)
  have ok: "pipes_ok es t"
    by (rule shell_events_invariant [OF run, of "pipes_ok es"]) (auto simp: s pipes_ok_def [of _ s] intro: pipes_ok_step, simp add: pipes_ok_def)
  show "prefix (passed_on channel_data fx) (concat (map pipe_out es))"
    using pipe_output.relay_prefix [OF run] by (auto simp: s elim: append_prefixD)
  show "prefix (passed_on channel_stderr fx) (concat (map pipe_err es))"
    using pipe_errors.relay_prefix [OF run] by (auto simp: s elim: append_prefixD)
  show "prefix (passed_on child_data fx) (concat (map pipe_in es))"
    using pipe_inputs.relay_prefix [OF run] by simp
  show "passed_on child_data fx = concat (map pipe_in es)" if "stdin_open t"
    using pipe_inputs.relay_exact [OF run that] by simp
  show "KillChild \<in> set fx" if "CloseSeen \<in> set es"
    using close_seen_kills [OF run that] .
  show "\<exists>sent code n. filter on_channel fx = sent @ closing (case code of Some c \<Rightarrow> word_of_int c | None \<Rightarrow> 1) \<and>
      list_all is_output sent \<and> ChildWaited (Ok code) n \<in> set es" if ended: "pipe_phase t = Ended"
  proof -
    from pipe_end.session_closing [OF run _ ended] obtain sent c e u
      where sent: "filter on_channel fx = sent @ closing c" "list_all is_output sent"
        and e: "e \<in> set es" "pipe_status e u = Some c" by (auto simp: s)
    from e(2) obtain code n where "e = ChildWaited (Ok code) n" "c = (case code of Some c \<Rightarrow> word_of_int c | None \<Rightarrow> 1)"
      by (auto simp: pipe_status_def split: pipe_event.splits sum.splits)
    with sent e(1) show ?thesis by blast
  qed
  show "passed_on channel_data fx = concat (map pipe_out es)" if "pipe_phase t = Ended" and "CloseSeen \<notin> set es"
    using pipe_output.relay_exact [OF run] ok that by (simp add: s pipes_ok_def)
  show "passed_on channel_stderr fx = concat (map pipe_err es)" if "pipe_phase t = Ended" and "CloseSeen \<notin> set es"
    using pipe_errors.relay_exact [OF run] ok that by (simp add: s pipes_ok_def)
qed


section \<open>Two sessions\<close>

definition sample_tty :: libc_tty where
  "sample_tty =
     \<lparr>cc_index = (\<lambda>_. 0), flag_mask = (\<lambda>_. 1), size_mask = 0, size_7 = 0, size_8 = 0, baud = (\<lambda>n. of_nat n),
      cfsetispeed = (\<lambda>_ t. t), cfsetospeed = (\<lambda>_ t. t)\<rparr>"

definition sample_terminal :: terminal where
  "sample_terminal = \<lparr>term_name = ''xterm'', term_size = size_of 80 24 0 0, term_modes = [(ECHO, 1)]\<rparr>"

definition sample_setup :: pty_setup where
  "sample_setup =
     \<lparr>can_open = True, has_descriptor = True,
      tty_attrs = Some \<lparr>c_iflag = 0, c_oflag = 0, c_cflag = 0, c_lflag = 0, c_cc = (\<lambda>_. 0)\<rparr>, tty_settable = True,
      can_spawn = True, can_attach = True\<rparr>"

definition pty_start :: pty where
  "pty_start =
     \<lparr>pty_phase = Running, tty_output = [], tty_open = True, out_queue = [], reader_alive = True,
      in_queue = [], writer_alive = True, in_open = True, sending = None, exited = None,
      output_done = False, input_done = False, killer_armed = True, master_open = True\<rparr>"

lemma sample_begin:
  "pty_begin sample_tty sample_setup 4 spec sample_terminal =
   ([OpenTerminal (size_of 80 24 0 0), SetTermios, StartChild spec], Some pty_start)"
  by (simp add: pty_begin_def sample_setup_def apply_modes_def sample_terminal_def pty_start_def)


lemma pipe_session_exact_witness:
  "\<exists>s fx t. shell_events pipes_step [ChildOut [1], ChildErr [9], CopyErr 1 True, PipeInput (ClientData [7]) True, ChildOut [2],
       CopyOut 2 True, OutCloses, OutEnds, ErrCloses, ErrEnds, DrainDone, ChildWaited (Ok (Some 0)) 3] s = Some (fx, t) \<and>
     passed_on channel_data fx = [1, 2] \<and> passed_on channel_stderr fx = [9] \<and> passed_on child_data fx = [7]"
proof -
  let ?es = "[ChildOut [1], ChildErr [9], CopyErr 1 True, PipeInput (ClientData [7]) True, ChildOut [2],
       CopyOut 2 True, OutCloses, OutEnds, ErrCloses, ErrEnds, DrainDone, ChildWaited (Ok (Some 0)) 3]"
  obtain fx0 s where begun: "pipes_begin True 4 spec = (fx0, Some s)" by (simp add: pipes_begin_def)
  moreover obtain fx t where run: "shell_events pipes_step ?es s = Some (fx, t)" and ended: "pipe_phase t = Ended" "stdin_open t"
    using begun by (auto simp: pipes_begin_def ending_phase_def)
  ultimately have "passed_on channel_data fx = concat (map pipe_out ?es)" "passed_on channel_stderr fx = concat (map pipe_err ?es)"
    "passed_on child_data fx = concat (map pipe_in ?es)"
    using pipe_session_exact [OF begun run] by auto
  then have "passed_on channel_data fx = [1, 2]" "passed_on channel_stderr fx = [9]" "passed_on child_data fx = [7]"
    by simp_all
  with run show ?thesis by blast
qed

text \<open>
  The main loop hands input on inside its own turn. With both queues full it waits there for the writer, and
  nothing but the world outside can move: no output is forwarded, and the end of the channel or of the program is
  not seen, before the program reads its input again.
\<close>

lemma terminal_session_stalls:
  "\<exists>es fx t. shell_events pty_step es pty_start = Some (fx, t) \<and> pty_phase t = Running \<and>
     (\<forall>e fx' u. pty_step e t = Some (fx', u) \<longrightarrow>
        e \<in> {TtyCloses, ReaderFails, WriterWrites} \<or> (\<exists>bs. e = TtyOutput bs) \<or> (\<exists>n. e = WriterFails n))"
proof -
  let ?read = "[ReaderTakes 1, ReaderTakes 1, ReaderTakes 1, ReaderTakes 1, ReaderTakes 1, ReaderTakes 1, ReaderTakes 1,
    ReaderTakes 1]"
  let ?input = "InputReceived (ClientData [7])"
  let ?es = "TtyOutput [0, 0, 0, 0, 0, 0, 0, 0, 0] # ?read @
    [?input, ?input, ?input, ?input, ?input, ?input, ?input, ?input, ?input]"
  let ?t = "pty_start\<lparr>tty_output := [0], out_queue := [[0], [0], [0], [0], [0], [0], [0], [0]],
    in_queue := [[7], [7], [7], [7], [7], [7], [7], [7]], sending := Some [7]\<rparr>"
  have "shell_events pty_step ?es pty_start = Some ([], ?t)"
    by (simp add: pty_start_def looping_def queue_size_def read_size_def)
  moreover have "pty_phase ?t = Running" by (simp add: pty_start_def)
  moreover have "e \<in> {TtyCloses, ReaderFails, WriterWrites} \<or> (\<exists>bs. e = TtyOutput bs) \<or> (\<exists>n. e = WriterFails n)"
    if "pty_step e ?t = Some (fx', u)" for e fx' u
    using that by (cases e) (simp_all add: pty_start_def looping_def queue_size_def)
  ultimately show ?thesis by blast
qed

end
