(* ===== verification/CliKeys.thy ===== *)
theory CliKeys
  imports CliUtil Paths Files
begin

text \<open>
  Saved keys (\<open>src/cli/keys.rs\<close>, on Unix): where a key is kept, which one a command uses, how its file
  is written, and the checks and the connection info of \<open>genkey\<close>.

  The directory of a file is a map from names to nodes, and the operations of \<open>secure_write\<close> on it can
  each fail as \<open>faults\<close> says. The user's configuration directory, the JSON form of a saved key, random
  values and the relay map are arguments.
\<close>

section \<open>Where keys are\<close>

record saved_key =
  private_key :: key
  public_info :: conn_info

definition key_is_path :: "string \<Rightarrow> bool" where
  "key_is_path name \<longleftrightarrow> CHR ''/'' \<in> set name \<or> CHR 0x5C \<in> set name"

definition key_dir :: "string option \<Rightarrow> string res" where
  "key_dir config_dir =
     and_then (ok_or ''cannot determine user configuration directory'' config_dir)
       (\<lambda>d. Ok (push (push d ''tailcat'') ''keys''))"

definition key_path :: "string option \<Rightarrow> string \<Rightarrow> string res" where
  "key_path config_dir name =
     (if key_is_path name then Ok name
      else and_then (key_dir config_dir) (\<lambda>d. Ok (push d (name @ ''.private.json''))))"

text \<open>What the file system and the JSON decoder answer.\<close>

record key_store =
  config_dir :: "string option"
  key_metadata :: "string \<Rightarrow> io_kind + unit"
  key_file :: "string \<Rightarrow> byte list res"
  decode_key :: "byte list \<Rightarrow> saved_key res"

definition read_saved_key :: "key_store \<Rightarrow> string \<Rightarrow> saved_key res" where
  "read_saved_key K name =
     and_then (key_path (config_dir K) name) (\<lambda>path.
     and_then (context_of ''reading'' (key_file K path)) (\<lambda>data.
     context_of ''failed to parse'' (decode_key K data)))"

definition default_key_name :: "bool \<Rightarrow> string" where
  "default_key_name for_server = (if for_server then ''default'' else ''client-default'')"

definition selected_name :: "key_store \<Rightarrow> args \<Rightarrow> bool \<Rightarrow> string option res" where
  "selected_name K a for_server =
     (if key_flag a \<noteq> [] then Ok (Some (key_flag a))
      else and_then (key_path (config_dir K) (default_key_name for_server)) (\<lambda>path.
           case key_metadata K path of
             Inr _ \<Rightarrow> Ok (Some (default_key_name for_server))
           | Inl IoNotFound \<Rightarrow> Ok None
           | Inl _ \<Rightarrow> Err ''key metadata''))"

definition selected_key :: "key_store \<Rightarrow> args \<Rightarrow> bool \<Rightarrow> saved_key option res" where
  "selected_key K a for_server =
     and_then (selected_name K a for_server) (\<lambda>name.
     case name of
       None \<Rightarrow> Ok None
     | Some n \<Rightarrow> if n = ''new'' then Ok None else and_then (read_saved_key K n) (\<lambda>k. Ok (Some k)))"

text \<open>\<open>client_key\<close>: \<open>raw\<close> is the randomness of a new key.\<close>

definition chosen_client_key :: "key_store \<Rightarrow> key \<Rightarrow> args \<Rightarrow> key res" where
  "chosen_client_key K raw a =
     and_then (selected_key K a False) (\<lambda>saved.
     Ok (case saved of Some k \<Rightarrow> private_key k | None \<Rightarrow> private_key_new raw))"

section \<open>Writing a key\<close>

datatype dir_node = Regular "byte list" u32 | Symlink string

type_synonym directory = "string \<rightharpoonup> dir_node"

text \<open>Which operation fails: creation, the write after so many bytes, the flush, the rename, the removal.\<close>

record faults =
  create_fails :: bool
  write_stops :: "nat option"
  sync_fails :: bool
  rename_fails :: bool
  remove_fails :: bool

definition private_mode :: u32 where
  "private_mode = 0x180"

text \<open>\<open>create_new\<close> and the two writes: whether they succeeded, and the directory after.\<close>

definition write_new :: "faults \<Rightarrow> string \<Rightarrow> byte list \<Rightarrow> directory \<Rightarrow> bool \<times> directory" where
  "write_new F name data d =
     (if create_fails F \<or> d name \<noteq> None then (False, d)
      else case write_stops F of
        Some n \<Rightarrow> (False, d(name \<mapsto> Regular (take n data) private_mode))
      | None \<Rightarrow> (\<not> sync_fails F, d(name \<mapsto> Regular data private_mode)))"

definition temporary_name :: "string \<Rightarrow> string \<Rightarrow> string \<Rightarrow> string" where
  "temporary_name name pid nanos = ''.'' @ name @ ''.'' @ pid @ ''.'' @ nanos @ ''.tmp''"

definition remove_node :: "faults \<Rightarrow> string \<Rightarrow> directory \<Rightarrow> directory" where
  "remove_node F name d = (if remove_fails F then d else d(name := None))"

text \<open>The rename replaces the name itself, whatever it was, and a failed run removes its temporary file.\<close>

definition secure_write ::
  "faults \<Rightarrow> string \<Rightarrow> string \<Rightarrow> string \<Rightarrow> byte list \<Rightarrow> bool \<Rightarrow> directory \<Rightarrow> bool \<times> directory" where
  "secure_write F pid nanos name data force d =
     (if \<not> force then write_new F name data d
      else let tmp = temporary_name name pid nanos
           in case write_new F tmp data d of
                (ok, d) \<Rightarrow>
                  if ok \<and> \<not> rename_fails F then (True, d(name := d tmp, tmp := None))
                  else (False, remove_node F tmp d))"

section \<open>Generating a key\<close>

definition parse_i64 :: "string \<Rightarrow> i64 option" where
  "parse_i64 s =
     (let (neg, ds) =
        (case s of
           c # cs \<Rightarrow> if c = CHR ''+'' then (False, cs) else if c = CHR ''-'' then (True, cs) else (False, s)
         | [] \<Rightarrow> (False, []))
      in if ds \<noteq> [] \<and> list_all is_digit ds \<and> digits_value ds < 2 ^ 63 + (if neg then 1 else 0)
         then Some (of_int (if neg then - int (digits_value ds) else int (digits_value ds))) else None)"

definition check_client_flags :: "args \<Rightarrow> unit res" where
  "check_client_flags a =
     (if client_flag a then
        if list_ex (\<lambda>f. f \<in> explicit a) [''region'', ''fixed-region'', ''embed-derp-map'', ''psk'']
        then Err ''client keys have no DERP region''
        else if genkey_key a = ''default'' then Err ''--key=default is probably a mistake''
        else Ok ()
      else Ok ())"

definition check_genkey :: "args \<Rightarrow> unit res" where
  "check_genkey a =
     (if genkey_key a = [] \<and> region_flag a \<noteq> ''list'' then Err ''genkey requires a --key=<name>''
      else and_then (check_client_flags a) (\<lambda>_.
      if fixed_region a \<and> ''region'' \<in> explicit a
      then Err ''genkey --fixed-region and --region are mutually exclusive'' else Ok ()))"

definition new_info :: "crypto \<Rightarrow> key \<Rightarrow> key \<Rightarrow> args \<Rightarrow> conn_info" where
  "new_info C k rnd a =
     \<lparr>server_public = public C k, server_disco_public = Some (disco_public C k),
      preshared_key = (if psk_flag a \<and> \<not> client_flag a then Some rnd else None), regions = [], ci_region_id = 0\<rparr>"

text \<open>\<open>text.contains(part)\<close>, and a region by its code or a part of its name (in ASCII).\<close>

fun contains_text :: "string \<Rightarrow> string \<Rightarrow> bool" where
  "contains_text [] part = (part = [])"
| "contains_text (c # cs) part = (starts_with (c # cs) part \<or> contains_text cs part)"

definition find_region :: "derp_map \<Rightarrow> string \<Rightarrow> region option" where
  "find_region dm name =
     (case find (\<lambda>r. eq_ignore_ascii_case (region_code r) name) (map snd dm) of
        Some r \<Rightarrow> Some r
      | None \<Rightarrow> find (\<lambda>r. contains_text (map ascii_lower (region_name r)) (map ascii_lower name)) (map snd dm))"

definition region_of_hosts :: "string \<Rightarrow> region" where
  "region_of_hosts hosts =
     \<lparr>region_id = 0, region_code = [], region_name = [],
      nodes = map (\<lambda>h. node_default\<lparr>host_name := h\<rparr>) (split_on CHR '','' hosts)\<rparr>"

text \<open>\<open>ex\<close> is the expansion of a connection info. \<open>None\<close> is the list of the regions, printed.\<close>

definition region_choice ::
  "(conn_info \<Rightarrow> conn_info res) \<Rightarrow> derp_map res \<Rightarrow> args \<Rightarrow> conn_info \<Rightarrow> conn_info option res" where
  "region_choice ex fetched a info =
     (if fixed_region a then
        and_then (ex (info\<lparr>ci_region_id := -1\<rparr>)) (\<lambda>info.
        case regions info of
          [] \<Rightarrow> Err ''couldn't determine the closest DERP region; specify --region''
        | r # _ \<Rightarrow>
            Ok (Some (info\<lparr>ci_region_id := region_id r, regions := (if embed_derp_map a then regions info else [])\<rparr>)))
      else if region_flag a = ''auto'' then Ok (Some (info\<lparr>ci_region_id := -1\<rparr>))
      else case parse_i64 (region_flag a) of
        Some i \<Rightarrow> Ok (Some (info\<lparr>ci_region_id := i\<rparr>))
      | None \<Rightarrow>
          if CHR ''.'' \<in> set (region_flag a)
          then Ok (Some (info\<lparr>regions := regions info @ [region_of_hosts (region_flag a)]\<rparr>))
          else and_then fetched (\<lambda>dm.
            if region_flag a = ''list'' then Ok None
            else case find_region dm (region_flag a) of
                   None \<Rightarrow> Err ''no region found''
                 | Some r \<Rightarrow> Ok (Some (info\<lparr>ci_region_id := region_id r\<rparr>))))"

definition embed_region :: "(conn_info \<Rightarrow> conn_info res) \<Rightarrow> conn_info \<Rightarrow> conn_info res" where
  "embed_region ex info =
     and_then (ex info) (\<lambda>info.
     Ok (info\<lparr>regions := map (\<lambda>r. r\<lparr>nodes := map (\<lambda>n. n\<lparr>node_ipv6 := []\<rparr>) (take 2 (nodes r))\<rparr>) (regions info),
              ci_region_id := 0\<rparr>))"

datatype genkey_result = ListedKeys | DeletedKey string | ListedRegions | NewKey string saved_key

definition generated ::
  "crypto \<Rightarrow> (conn_info \<Rightarrow> conn_info res) \<Rightarrow> derp_map res \<Rightarrow> key \<Rightarrow> key \<Rightarrow> args \<Rightarrow> saved_key option res" where
  "generated C ex fetched raw rnd a =
     (let k = private_key_new raw; info = new_info C k rnd a
      in if client_flag a then Ok (Some \<lparr>private_key = k, public_info = info\<rparr>)
         else and_then (region_choice ex fetched a info) (\<lambda>choice.
              case choice of
                None \<Rightarrow> Ok None
              | Some info \<Rightarrow>
                  and_then (if embed_derp_map a then embed_region ex info else Ok info) (\<lambda>info.
                  Ok (Some \<lparr>private_key = k, public_info = info\<rparr>))))"

text \<open>\<open>genkey\<close> up to the file system: what is listed, removed or written to which path.\<close>

definition genkey ::
  "crypto \<Rightarrow> string option \<Rightarrow> (conn_info \<Rightarrow> conn_info res) \<Rightarrow> derp_map res \<Rightarrow> key \<Rightarrow> key \<Rightarrow> args \<Rightarrow> genkey_result res" where
  "genkey C dir ex fetched raw rnd a =
     (if key_flag a \<noteq> [] then Err ''genkey's --key argument must be after \"genkey\"''
      else if positional a \<noteq> [] then Err ''genkey takes no positional arguments''
      else if list_flag a then and_then (key_dir dir) (\<lambda>_. Ok ListedKeys)
      else if delete_flag a then
        if genkey_key a = [] then Err ''genkey --delete requires saying which key to delete''
        else if key_is_path (genkey_key a) then Err ''can't delete key; it's a path''
        else and_then (key_path dir (genkey_key a)) (\<lambda>p. Ok (DeletedKey p))
      else and_then (check_genkey a) (\<lambda>_.
        and_then (generated C ex fetched raw rnd a) (\<lambda>r.
        case r of
          None \<Rightarrow> Ok ListedRegions
        | Some k \<Rightarrow> and_then (key_path dir (genkey_key a)) (\<lambda>p. Ok (NewKey p k)))))"

section \<open>Facts\<close>

lemma temporary_name_neq: "temporary_name name pid nanos \<noteq> name"
proof
  assume "temporary_name name pid nanos = name"
  then have "length (temporary_name name pid nanos) = length name" by simp
  then show False by (simp add: temporary_name_def)
qed



end
