(* ===== verification/Serving.thy ===== *)
theory Serving
  imports CliKeys Ssh Runtime
begin

text \<open>
  \<open>tailcat serve\<close> and \<open>tailcat recv\<close> (\<open>src/cli/serving.rs\<close>): from the arguments to the services, the
  handler of every port, the SSH configuration, the allow list, the key and the configuration the
  server is started with (\<open>server_start\<close> of the model of the runtime), and the address it prints.

  A handler is a value of \<open>tcp_service\<close>; the runtime's model numbers handlers, so the configuration is
  built with a numbering \<open>number\<close>. What the operating system answers is the record \<open>serve_host\<close>.
\<close>

section \<open>The services\<close>

text \<open>\<open>args.positional.join(",")\<close>.\<close>

definition join_commas :: "string list \<Rightarrow> string" where
  "join_commas ps = (case ps of [] \<Rightarrow> [] | p # ps \<Rightarrow> p @ concat (map (\<lambda>q. CHR '','' # q) ps))"

text \<open>The value of \<open>--serve\<close> and of \<open>--files\<close>.\<close>

definition serve_values :: "args \<Rightarrow> (string \<times> string) res" where
  "serve_values a =
     (if subcommand a = ''recv'' then
        if 1 < length (positional a) then Err ''recv takes at most one directory argument''
        else if files_flag a \<noteq> [] then Err ''recv takes the directory as an argument, not --files''
        else Ok ([], (case positional a of [] \<Rightarrow> ''.'' | p # _ \<Rightarrow> p) @ '':'' @ (if accept_dirs a then ''wo+'' else ''wo''))
      else if positional a \<noteq> [] then
        if subcommand a = [] then Err ''no positional arguments are valid along with --serve''
        else if serve_flag a \<noteq> [] then Err ''use either --serve or positional port/service arguments, not both''
        else Ok (join_commas (positional a), files_flag a)
      else Ok (serve_flag a, files_flag a))"

text \<open>The default service of a command, and the combinations that are refused.\<close>

definition has :: "serve_spec \<Rightarrow> string \<Rightarrow> bool" where
  "has spec service \<longleftrightarrow> service \<in> spec_services spec"

definition offers_ssh :: "serve_spec \<Rightarrow> bool" where
  "offers_ssh spec \<longleftrightarrow> has spec ''ssh'' \<or> has spec ''no-auth-ssh''"

definition perf_port :: u16 where "perf_port = 5201"

definition add_service :: "string \<Rightarrow> serve_spec \<Rightarrow> serve_spec" where
  "add_service service spec = spec\<lparr>spec_services := insert service (spec_services spec)\<rparr>"

definition serve_services :: "(string list \<Rightarrow> string list res) \<Rightarrow> args \<Rightarrow> (serve_spec \<times> string \<times> string list) res" where
  "serve_services resolve a =
     and_then (serve_values a) (\<lambda>(spec_text, files_value).
     and_then (context_of ''invalid port or service to serve'' (parse_serve_spec spec_text)) (\<lambda>spec.
     let spec = (if files_value \<noteq> [] then add_service ''files'' spec else spec)
     in and_then (context_of ''exec command:'' (resolve (exec a))) (\<lambda>exec_args.
        let spec = (if exec a \<noteq> [] \<and> \<not> offers_ssh spec then add_service ''exec'' spec else spec)
        in Ok (spec, files_value, exec_args))))"

definition check_services :: "args \<Rightarrow> serve_spec \<Rightarrow> unit res" where
  "check_services a spec =
     (if has spec ''perf'' \<and> perf_port \<in> spec_ports spec
      then Err ''port 5201 is used by the 'perf' service and cannot also be proxied''
      else if has spec ''exec'' \<and> exec a = [] then Err ''exec requires a command after --''
      else if exec a \<noteq> [] \<and> \<not> has spec ''exec'' \<and> \<not> offers_ssh spec
      then Err ''command after -- requires exec or SSH service''
      else if exec a \<noteq> [] \<and> offers_ssh spec \<and> has spec ''files''
      then Err ''files cannot be served with an SSH -- command''
      else Ok ())"

definition check_ssh :: "args \<Rightarrow> serve_spec \<Rightarrow> unit res" where
  "check_ssh a spec =
     (if has spec ''ssh'' \<and> has spec ''no-auth-ssh'' then Err ''ssh and no-auth-ssh are mutually exclusive''
      else if has spec ''ssh'' \<and> ssh_authorized_keys a = [] then Err ''ssh requires --ssh-authorized-keys''
      else if ssh_authorized_keys a \<noteq> [] \<and> \<not> has spec ''ssh'' then Err ''--ssh-authorized-keys requires the ssh service''
      else Ok ())"

section \<open>The SSH configuration and the allow list\<close>

record serve_host =
  resolve_exec :: "string list \<Rightarrow> string list res"
  open_root :: "string \<Rightarrow> unit res"
  ssh_host_key :: "unit res"
  authorized_from :: "string \<Rightarrow> ssh_key list res"
  keys_on_disk :: key_store
  local_derp :: "region res option"

definition file_share :: "serve_host \<Rightarrow> serve_spec \<Rightarrow> string \<Rightarrow> (string \<times> file_mode) option res" where
  "file_share H spec files_value =
     (if has spec ''files''
      then and_then (parse_share (if files_value = [] then ''.'' else files_value)) (\<lambda>(dir, mode).
           and_then (open_root H dir) (\<lambda>_. Ok (Some (dir, mode))))
      else Ok None)"

definition ssh_service :: "serve_host \<Rightarrow> args \<Rightarrow> serve_spec \<Rightarrow> (string \<times> file_mode) option \<Rightarrow> string list \<Rightarrow> ssh_config option res" where
  "ssh_service H a spec share exec_args =
     (if offers_ssh spec \<or> share \<noteq> None then
        and_then (ssh_host_key H) (\<lambda>_.
        and_then (if has spec ''ssh'' then and_then (authorized_from H (ssh_authorized_keys a)) (\<lambda>ks. Ok (Some ks)) else Ok None)
          (\<lambda>keys.
        Ok (Some \<lparr>ssh_shell = offers_ssh spec, ssh_files = share, forced_command = exec_args, authorized_keys = keys\<rparr>)))
      else Ok None)"

definition allow_entry :: "hex_crate \<Rightarrow> string \<Rightarrow> key res" where
  "allow_entry X v =
     (if v = ''none'' then Ok zeros
      else and_then (ok_or ''--allow keys must begin with nodekey:'' (strip_prefix ''nodekey:'' v)) (\<lambda>h.
           and_then (ok_or ''invalid key in --allow'' (hex_decode X h)) (\<lambda>bytes.
           ok_or ''invalid key length in --allow'' (try_into bytes))))"

definition allow_list :: "hex_crate \<Rightarrow> string \<Rightarrow> key list res" where
  "allow_list X v = (if v = [] then Ok [] else collect_results (allow_entry X) (split_on CHR '','' v))"

section \<open>The key\<close>

definition new_server_info :: conn_info where
  "new_server_info =
     \<lparr>server_public = zeros, server_disco_public = None, preshared_key = None, regions = [], ci_region_id = -1\<rparr>"

definition uses_psk :: "args \<Rightarrow> saved_key option \<Rightarrow> bool" where
  "uses_psk a saved \<longleftrightarrow>
     psk_flag a \<and>
     (case saved of None \<Rightarrow> True | Some k \<Rightarrow> preshared_key (public_info k) \<noteq> None \<or> ''psk'' \<in> explicit a)"

definition serve_key :: "args \<Rightarrow> saved_key option \<Rightarrow> key \<Rightarrow> key \<Rightarrow> (key \<times> conn_info \<times> key option) res" where
  "serve_key a saved raw rnd =
     (let k = (case saved of Some s \<Rightarrow> private_key s | None \<Rightarrow> private_key_new raw);
          info = (case saved of Some s \<Rightarrow> public_info s | None \<Rightarrow> new_server_info);
          with_psk = uses_psk a saved
      in if saved \<noteq> None \<and> with_psk \<and> preshared_key info = None
         then Err ''key file has no WireGuard pre-shared key''
         else Ok (k, info, if with_psk then Some (case preshared_key info of Some p \<Rightarrow> p | None \<Rightarrow> rnd) else None))"

section \<open>The handlers\<close>

datatype tcp_service = PerfTcp | SshService | OneShot | ForwardTo string | RunCommand "string list"

definition one_shot :: "serve_spec \<Rightarrow> bool" where
  "one_shot spec \<longleftrightarrow> spec_ports spec = {} \<and> spec_services spec = {}"

definition port_service :: "serve_spec \<Rightarrow> bool \<Rightarrow> string list \<Rightarrow> u16 \<Rightarrow> tcp_service option" where
  "port_service spec has_ssh exec_args port =
     (if port = perf_port \<and> has spec ''perf'' then Some PerfTcp
      else if port = 22 \<and> has_ssh then Some SshService
      else if one_shot spec then Some OneShot
      else if port \<in> spec_ports spec
      then Some (ForwardTo (case spec_targets spec port of Some t \<Rightarrow> t | None \<Rightarrow> ''localhost:'' @ show_port port))
      else if has spec ''exec'' then Some (RunCommand exec_args)
      else if has spec ''exit-node'' then Some (ForwardTo (''localhost:'' @ show_port port))
      else None)"

definition served_ports :: "serve_spec \<Rightarrow> bool \<Rightarrow> (u16 \<times> u16) list option" where
  "served_ports spec has_ssh =
     (if one_shot spec \<or> has spec ''exit-node'' \<or> has spec ''exec'' then None
      else Some (port_ranges (spec_ports spec \<union> (if has_ssh then {22} else {}) \<union> (if has spec ''perf'' then {perf_port} else {}))))"

record numbering =
  number :: "tcp_service \<Rightarrow> nat"
  number_perf_udp :: nat
  number_udp :: "sock_addr \<Rightarrow> nat"
  show_target :: "sock_addr \<Rightarrow> string"

definition serve_config ::
  "numbering \<Rightarrow> key \<Rightarrow> conn_info \<Rightarrow> key option \<Rightarrow> region option \<Rightarrow> key list \<Rightarrow> serve_spec \<Rightarrow> bool \<Rightarrow> string list \<Rightarrow> server_config" where
  "serve_config N k info p derp allowed spec has_ssh exec_args =
     \<lparr>cfg_key = Some k, cfg_preshared_key = p, disable_preshared_key = (p = None),
      cfg_region = (case derp of Some r \<Rightarrow> Some r | None \<Rightarrow> (case regions info of [] \<Rightarrow> None | r # _ \<Rightarrow> Some r)),
      cfg_region_id = ci_region_id info, allowed_clients = allowed,
      on_tcp = Some (\<lambda>port. map_option (number N) (port_service spec has_ssh exec_args port)),
      on_tcp_forward = (if has spec ''exit-node'' then Some (\<lambda>t. Some (number N (ForwardTo (show_target N t)))) else None),
      served_tcp_ports = served_ports spec has_ssh,
      on_udp = (if has spec ''perf'' then Some (\<lambda>port. if port = perf_port then Some (number_perf_udp N) else None) else None),
      on_udp_forward = (if has spec ''exit-node'' then Some (\<lambda>t. Some (number_udp N t)) else None),
      served_udp_ports = None, udp_idle_timeout = None\<rparr>"

section \<open>The command\<close>

record serve_plan =
  plan_spec :: serve_spec
  plan_ssh :: "ssh_config option"
  plan_config :: server_config
  plan_key :: key
  plan_psk :: "key option"
  plan_embed :: bool

definition serve_plan_of :: "hex_crate \<Rightarrow> numbering \<Rightarrow> serve_host \<Rightarrow> key \<Rightarrow> key \<Rightarrow> args \<Rightarrow> serve_plan res" where
  "serve_plan_of X N H raw rnd a =
     and_then (serve_services (resolve_exec H) a) (\<lambda>(spec, files_value, exec_args).
     and_then (check_services a spec) (\<lambda>_.
     and_then (file_share H spec files_value) (\<lambda>share.
     and_then (check_ssh a spec) (\<lambda>_.
     and_then (ssh_service H a spec share exec_args) (\<lambda>ssh.
     and_then (allow_list X (allow a)) (\<lambda>allowed.
     and_then (selected_key (keys_on_disk H) a True) (\<lambda>saved.
     and_then (serve_key a saved raw rnd) (\<lambda>(k, info, p).
     and_then (case local_derp H of Some r \<Rightarrow> and_then r (\<lambda>r. Ok (Some r)) | None \<Rightarrow> Ok None) (\<lambda>derp.
     Ok \<lparr>plan_spec = spec, plan_ssh = ssh,
         plan_config = serve_config N k info p derp allowed spec (ssh \<noteq> None) exec_args,
         plan_key = k, plan_psk = p,
         plan_embed = (full_address a \<or> regions info \<noteq> [] \<or> derp \<noteq> None)\<rparr>)))))))))"

text \<open>The address that is printed, from the region the server runs in.\<close>

definition serve_info :: "crypto \<Rightarrow> serve_plan \<Rightarrow> region \<Rightarrow> conn_info" where
  "serve_info C p r =
     \<lparr>server_public = public C (plan_key p), server_disco_public = Some (disco_public C (plan_key p)),
      preshared_key = plan_psk p,
      regions = (if plan_embed p
                 then [r\<lparr>region_code := [], nodes := map (\<lambda>n. n\<lparr>node_region_id := 0\<rparr>) (take 1 (nodes r))\<rparr>] else []),
      ci_region_id = (if plan_embed p then 0 else region_id r)\<rparr>"

definition serve_address :: "crypto \<Rightarrow> addr_crates \<Rightarrow> serve_plan \<Rightarrow> region \<Rightarrow> string res" where
  "serve_address C A p r = encode_addr A (serve_info C p r)"

end
