(* ===== verification/ServingProps.thy ===== *)
theory ServingProps
  imports Serving ActorTheorems
begin

text \<open>
  The properties of \<open>tailcat serve\<close>: the port ranges it announces, the agreement of the packet filter
  with its handlers, who gets a shell, and whom the allow list lets in.
\<close>

section \<open>Port ranges\<close>

text \<open>The ranges of \<open>port_ranges\<close>, last first: in descending order, apart from each other, and exactly the ports.\<close>

definition covers :: "(u16 \<times> u16) list \<Rightarrow> u16 set" where
  "covers rs = (\<Union>(a, b) \<in> set rs. {a..b})"

definition apart :: "(u16 \<times> u16) list \<Rightarrow> bool" where
  "apart rs \<longleftrightarrow> (\<forall>(a, b) \<in> set rs. a \<le> b) \<and> sorted_wrt (\<lambda>(a, b) (c, d). unat b + 1 < unat c) rs"

lemma next_port: "(b :: u16) < p \<Longrightarrow> (b \<noteq> -1 \<and> b + 1 = p) = (unat p = unat b + 1)"
proof -
  assume "b < p"
  then have lt: "unat b < unat p" by (simp add: word_less_nat_alt)
  moreover have "unat p < 2 ^ 16" using unsigned_less [of p] by simp
  ultimately have "unat b + 1 < 2 ^ 16" by linarith
  then have plus: "unat (b + 1) = unat b + 1" by (simp add: unat_word_ariths)
  moreover have "b \<noteq> -1" using plus by auto
  ultimately show ?thesis by (metis word_unat_eq_iff)
qed

lemma add_port_covers:
  assumes "apart (rev rs)" "rs = [] \<or> snd (hd rs) < p"
  shows "apart (rev (add_port rs p)) \<and> covers (add_port rs p) = insert p (covers rs) \<and> snd (hd (add_port rs p)) = p"
proof (cases rs)
  case Nil
  then show ?thesis by (simp add: apart_def covers_def)
next
  case (Cons r rs')
  obtain a b where r: "r = (a, b)" by (metis surj_pair)
  have lt: "b < p" and le: "a \<le> b" using assms Cons r by (auto simp: apart_def)
  show ?thesis
  proof (cases "b \<noteq> -1 \<and> b + 1 = p")
    case True
    then have p: "unat p = unat b + 1" using next_port [OF lt] by simp
    have "{a..p} = insert p {a..b}"
    proof (rule set_eqI)
      fix x
      show "x \<in> {a..p} \<longleftrightarrow> x \<in> insert p {a..b}"
        using le lt p by (auto simp: word_le_nat_alt word_less_nat_alt word_unat_eq_iff)
    qed
    moreover have "apart (rev ((a, p) # rs'))"
      using assms(1) Cons r le lt by (auto simp: apart_def sorted_wrt_append)
    ultimately show ?thesis using True Cons r by (auto simp: covers_def)
  next
    case False
    then have p: "unat b + 1 < unat p" using next_port [OF lt] lt by (auto simp: word_less_nat_alt)
    have "apart (rev ((p, p) # (a, b) # rs'))"
      using assms(1) Cons r p le by (fastforce simp: apart_def sorted_wrt_append word_le_nat_alt)
    then show ?thesis using False Cons r by (auto simp: covers_def)
  qed
qed

lemma add_ports:
  assumes "sorted_wrt (<) ps"
  shows "apart (rev (foldl add_port [] ps)) \<and> covers (foldl add_port [] ps) = set ps \<and>
    (ps \<noteq> [] \<longrightarrow> foldl add_port [] ps \<noteq> [] \<and> snd (hd (foldl add_port [] ps)) = last ps)"
  using assms
proof (induction ps rule: rev_induct)
  case Nil
  then show ?case by (simp add: apart_def covers_def)
next
  case (snoc p ps)
  let ?rs = "foldl add_port [] ps"
  have IH: "apart (rev ?rs)" "covers ?rs = set ps" "ps \<noteq> [] \<Longrightarrow> ?rs \<noteq> [] \<and> snd (hd ?rs) = last ps"
    using snoc by (auto simp: sorted_wrt_append)
  have "?rs = [] \<or> snd (hd ?rs) < p"
    using snoc.prems IH(3) by (cases "ps = []") (auto simp: sorted_wrt_append)
  from add_port_covers [OF IH(1) this] IH(2) show ?case
    by (auto simp: neq_Nil_conv) (metis add_port.elims list.distinct(1))
qed

lemma covers_rev [simp]: "covers (rev rs) = covers rs"
  by (simp add: covers_def)

text \<open>
  The ranges that announce a set of ports to the packet filter are exactly those ports, for every
  set: in ascending order, each with its ends in order, and none touching the next, so no two could be
  joined into one.
\<close>

theorem port_ranges_exact:
  "covers (port_ranges ports) = ports \<and> list_all (\<lambda>(a, b). a \<le> b) (port_ranges ports) \<and>
   sorted_wrt (\<lambda>(a, b) (c, d). unat b + 1 < unat c) (port_ranges ports)"
proof -
  have "finite ports" by simp
  then show ?thesis
    using add_ports [of "sorted_list_of_set ports"] by (simp add: port_ranges_def apart_def list_all_iff)
qed

lemma port_served_covers: "port_served (Some rs) p \<longleftrightarrow> p \<in> covers rs"
  unfolding port_served_def covers_def by (force simp: list_ex_iff)

lemma port_served_ranges: "port_served (Some (port_ranges ports)) p \<longleftrightarrow> p \<in> ports"
  using add_ports [of "sorted_list_of_set ports"] unfolding port_served_covers by (simp add: port_ranges_def)

section \<open>The plan\<close>

lemma serve_servicesE:
  assumes "serve_services resolve a = Ok (spec, files_value, exec_args)"
  obtains spec0 spec_text where "parse_serve_spec spec_text = Ok spec0"
    "spec_ports spec = spec_ports spec0" "spec_targets spec = spec_targets spec0"
    "resolve (exec a) = Ok exec_args"
    "offers_ssh spec = offers_ssh spec0" "has spec ''ssh'' = has spec0 ''ssh''" "has spec ''no-auth-ssh'' = has spec0 ''no-auth-ssh''"
  using assms
  by (fastforce simp: serve_services_def Let_def result_simps has_def offers_ssh_def add_service_def split: if_split_asm)

lemma serve_planE:
  assumes "serve_plan_of X N H raw rnd a = Ok plan"
  obtains spec files_value exec_args share ssh allowed saved k info p derp where
    "serve_services (resolve_exec H) a = Ok (spec, files_value, exec_args)" "check_services a spec = Ok ()"
    "file_share H spec files_value = Ok share" "check_ssh a spec = Ok ()"
    "ssh_service H a spec share exec_args = Ok ssh" "allow_list X (allow a) = Ok allowed"
    "selected_key (keys_on_disk H) a True = Ok saved" "serve_key a saved raw rnd = Ok (k, info, p)"
    "plan = \<lparr>plan_spec = spec, plan_ssh = ssh,
       plan_config = serve_config N k info p derp allowed spec (ssh \<noteq> None) exec_args,
       plan_key = k, plan_psk = p, plan_embed = (full_address a \<or> regions info \<noteq> [] \<or> derp \<noteq> None)\<rparr>"
  using assms by (auto simp: serve_plan_of_def result_simps)

text \<open>A port has a handler, by the services.\<close>

lemma port_service_None:
  "port_service spec has_ssh exec_args port = None \<longleftrightarrow>
   \<not> (port = perf_port \<and> has spec ''perf'') \<and> \<not> (port = 22 \<and> has_ssh) \<and> \<not> one_shot spec \<and>
   port \<notin> spec_ports spec \<and> \<not> has spec ''exec'' \<and> \<not> has spec ''exit-node''"
  by (simp add: port_service_def)

lemma served_ports_handlers:
  "port_served (served_ports spec has_ssh) port \<longleftrightarrow> port_service spec has_ssh exec_args port \<noteq> None"
proof (cases "one_shot spec \<or> has spec ''exit-node'' \<or> has spec ''exec''")
  case True
  then show ?thesis unfolding port_service_None by (auto simp: served_ports_def port_served_def)
next
  case False
  then have "served_ports spec has_ssh =
      Some (port_ranges (spec_ports spec \<union> (if has_ssh then {22} else {}) \<union> (if has spec ''perf'' then {perf_port} else {})))"
    by (auto simp: served_ports_def)
  then show ?thesis unfolding port_service_None using False by (simp add: port_served_ranges) blast
qed

text \<open>
  C23. The packet filter of a server and its handlers agree: it lets a TCP packet to a port through
  exactly when the server has a handler for that port, whatever was asked to be served. A connection
  that the filter admits is never refused for want of a handler, and no handler is out of reach.
\<close>

theorem filter_matches_handlers:
  assumes "serve_plan_of X N H raw rnd a = Ok plan"
  shows "\<exists>on. on_tcp (plan_config plan) = Some on \<and>
    (port_served (served_tcp_ports (plan_config plan)) port \<longleftrightarrow> on port \<noteq> None)"
  using assms
proof (rule serve_planE)
  fix spec files_value exec_args share ssh allowed saved k info p derp
  assume "plan = \<lparr>plan_spec = spec, plan_ssh = ssh,
       plan_config = serve_config N k info p derp allowed spec (ssh \<noteq> None) exec_args,
       plan_key = k, plan_psk = p, plan_embed = (full_address a \<or> regions info \<noteq> [] \<or> derp \<noteq> None)\<rparr>"
  then show ?thesis
    by (simp add: serve_config_def served_ports_handlers [where exec_args = exec_args] del: not_None_eq)
qed

section \<open>A server to evaluate\<close>

definition ref_serve_args :: args where
  "ref_serve_args = (default_args None)\<lparr>subcommand := ''serve'', positional := [''ssh'', ''80''],
     ssh_authorized_keys := ''k'', allow := ''none'', key_flag := ''new'', exec := [''/bin/date'', ''-u'']\<rparr>"

definition ref_serve_host :: serve_host where
  "ref_serve_host = \<lparr>resolve_exec = resolve_command (\<lambda>_. True) [] (Ok ''/''), open_root = (\<lambda>_. Ok ()), ssh_host_key = Ok (),
     authorized_from = (\<lambda>_. Ok [([1], ''a'')]),
     keys_on_disk = \<lparr>config_dir = None, key_metadata = (\<lambda>_. Inr ()), key_file = (\<lambda>_. Err ''none''), decode_key = (\<lambda>_. Err ''none'')\<rparr>,
     local_derp = Some (Ok (own_region ref_actor))\<rparr>"

definition ref_numbering :: numbering where
  "ref_numbering = \<lparr>number = (\<lambda>_. 0), number_perf_udp = 0, number_udp = (\<lambda>_. 0), show_target = (\<lambda>_. [])\<rparr>"

definition ref_spec_served :: serve_spec where
  "ref_spec_served = \<lparr>spec_ports = {80}, spec_targets = Map.empty, spec_services = {''ssh''}\<rparr>"

definition ref_ssh_served :: ssh_config where
  "ref_ssh_served = \<lparr>ssh_shell = True, ssh_files = None, forced_command = [''/bin/date'', ''-u''],
     authorized_keys = Some [([1], ''a'')]\<rparr>"

lemma ref_parse_serve_spec: "parse_serve_spec ''ssh,80'' = Ok ref_spec_served"
  by (simp add: parse_serve_spec_def serve_part_def serve_spec_default_def named_services_def trim_def is_ws_def
      decimal_port_def parse_uint_def is_digit_def digits_value_def ref_spec_served_def)

lemma ref_plan:
  "serve_plan_of X ref_numbering ref_serve_host zeros ref_key ref_serve_args =
   Ok \<lparr>plan_spec = ref_spec_served, plan_ssh = Some ref_ssh_served,
       plan_config = serve_config ref_numbering (private_key_new zeros) new_server_info (Some ref_key)
         (Some (own_region ref_actor)) [zeros] ref_spec_served True [''/bin/date'', ''-u''],
       plan_key = private_key_new zeros, plan_psk = Some ref_key, plan_embed = True\<rparr>"
  by (simp add: serve_plan_of_def serve_services_def serve_values_def ref_serve_args_def default_args_def join_commas_def
      ref_parse_serve_spec ref_serve_host_def resolve_command_def is_absolute_def starts_with_def offers_ssh_def has_def
      ref_spec_served_def check_services_def check_ssh_def file_share_def ssh_service_def allow_list_def allow_entry_def
      selected_key_def selected_name_def serve_key_def uses_psk_def new_server_info_def ref_ssh_served_def Let_def)

text \<open>The SSH port is served, the mail port is not.\<close>

theorem filter_matches_handlers_witness:
  "\<exists>plan. serve_plan_of ref_hex ref_numbering ref_serve_host zeros ref_key ref_serve_args = Ok plan \<and>
     port_served (served_tcp_ports (plan_config plan)) 22 \<and> \<not> port_served (served_tcp_ports (plan_config plan)) 25"
  using filter_matches_handlers [OF ref_plan [of ref_hex], of 22] filter_matches_handlers [OF ref_plan [of ref_hex], of 25]
  by (auto simp: ref_plan serve_config_def port_service_def ref_spec_served_def has_def one_shot_def perf_port_def)

section \<open>The SSH service of a server\<close>

lemma ssh_serviceE:
  assumes "ssh_service H a spec share exec_args = Ok (Some cfg)"
  obtains keys where
    "cfg = \<lparr>ssh_shell = offers_ssh spec, ssh_files = share, forced_command = exec_args, authorized_keys = keys\<rparr>"
    "has spec ''ssh'' \<Longrightarrow> \<exists>ks. keys = Some ks \<and> authorized_from H (ssh_authorized_keys a) = Ok ks"
    "\<not> has spec ''ssh'' \<Longrightarrow> keys = None"
  using assms by (auto simp: ssh_service_def result_simps split: if_split_asm)

lemma check_sshD:
  assumes "check_ssh a spec = Ok ()"
  shows "\<not> (has spec ''ssh'' \<and> has spec ''no-auth-ssh'')" "has spec ''ssh'' \<longleftrightarrow> ssh_authorized_keys a \<noteq> []"
  using assms by (auto simp: check_ssh_def split: if_split_asm)

lemma check_servicesD:
  assumes "check_services a spec = Ok ()"
  shows "exec a \<noteq> [] \<Longrightarrow> offers_ssh spec \<Longrightarrow> \<not> has spec ''files''"
    "has spec ''exec'' \<Longrightarrow> exec a \<noteq> []" "has spec ''perf'' \<Longrightarrow> perf_port \<notin> spec_ports spec"
  using assms by (auto simp: check_services_def split: if_split_asm)

text \<open>A command to run is resolved to one that is not empty, and no command to none.\<close>

definition resolves :: "(string list \<Rightarrow> string list res) \<Rightarrow> bool" where
  "resolves f \<longleftrightarrow> (\<forall>args out. f args = Ok out \<longrightarrow> (out = [] \<longleftrightarrow> args = []) \<and> tl out = tl args)"

lemma resolves_resolve_command: "resolves (resolve_command executable path cwd)"
  unfolding resolves_def
proof (intro allI impI)
  fix args out assume r: "resolve_command executable path cwd args = Ok out"
  show "(out = [] \<longleftrightarrow> args = []) \<and> tl out = tl args"
  proof (cases args)
    case (Cons name rest)
    then show ?thesis using r by (auto simp: resolve_command_def Let_def result_simps split: if_split_asm)
  qed (use r in \<open>simp add: resolve_command_def\<close>)
qed

lemma file_share_Some: "file_share H spec v = Ok share \<Longrightarrow> share \<noteq> None \<longleftrightarrow> has spec ''files''"
  by (auto simp: file_share_def result_simps split: if_split_asm)

text \<open>
  A server offers a shell over SSH only where it was asked to, and says who may use it: with
  \<open>ssh\<close> only clients with one of the keys loaded from \<open>--ssh-authorized-keys\<close>, and without keys only
  with \<open>no-auth-ssh\<close>, never both; keys are never ignored. With a command after \<open>--\<close> every such session
  runs that command and no files are served beside it; \<open>--files\<close> alone gives no shell.
\<close>

theorem shell_as_asked:
  assumes "serve_plan_of X N H raw rnd a = Ok plan" "resolves (resolve_exec H)"
  shows "(case plan_ssh plan of
       None \<Rightarrow> \<not> offers_ssh (plan_spec plan) \<and> \<not> has (plan_spec plan) ''files''
     | Some cfg \<Rightarrow>
         ssh_shell cfg = offers_ssh (plan_spec plan) \<and>
         (ssh_files cfg \<noteq> None \<longleftrightarrow> has (plan_spec plan) ''files'') \<and>
         (ssh_shell cfg \<and> authorized_keys cfg = None \<longrightarrow> has (plan_spec plan) ''no-auth-ssh'') \<and>
         (\<forall>ks. authorized_keys cfg = Some ks \<longrightarrow>
            authorized_from H (ssh_authorized_keys a) = Ok ks \<and> \<not> has (plan_spec plan) ''no-auth-ssh'') \<and>
         (ssh_authorized_keys a \<noteq> [] \<longrightarrow> authorized_keys cfg \<noteq> None) \<and>
         (ssh_shell cfg \<and> exec a \<noteq> [] \<longrightarrow>
            forced_command cfg \<noteq> [] \<and> tl (forced_command cfg) = tl (exec a) \<and> ssh_files cfg = None) \<and>
         (exec a = [] \<longrightarrow> forced_command cfg = []))"
  using assms(1)
proof (rule serve_planE)
  fix spec files_value exec_args share ssh allowed saved k info p derp
  assume sv: "serve_services (resolve_exec H) a = Ok (spec, files_value, exec_args)"
    and ck: "check_services a spec = Ok ()" and sh: "file_share H spec files_value = Ok share"
    and cs: "check_ssh a spec = Ok ()" and ss: "ssh_service H a spec share exec_args = Ok ssh"
    and plan: "plan = \<lparr>plan_spec = spec, plan_ssh = ssh,
       plan_config = serve_config N k info p derp allowed spec (ssh \<noteq> None) exec_args,
       plan_key = k, plan_psk = p, plan_embed = (full_address a \<or> regions info \<noteq> [] \<or> derp \<noteq> None)\<rparr>"
  have res: "exec_args = [] \<longleftrightarrow> exec a = []" "tl exec_args = tl (exec a)"
    using sv assms(2) by (auto elim!: serve_servicesE simp: resolves_def)
  have files: "share \<noteq> None \<longleftrightarrow> has spec ''files''" by (rule file_share_Some [OF sh])
  show ?thesis
  proof (cases ssh)
    case None
    with ss files plan show ?thesis by (auto simp: ssh_service_def result_simps split: if_split_asm)
  next
    case (Some cfg)
    with ss have "ssh_service H a spec share exec_args = Ok (Some cfg)" by simp
    then obtain keys where cfg: "cfg = \<lparr>ssh_shell = offers_ssh spec, ssh_files = share, forced_command = exec_args, authorized_keys = keys\<rparr>"
      and keys: "has spec ''ssh'' \<Longrightarrow> \<exists>ks. keys = Some ks \<and> authorized_from H (ssh_authorized_keys a) = Ok ks"
        "\<not> has spec ''ssh'' \<Longrightarrow> keys = None"
      by (rule ssh_serviceE) blast
    have k1: "\<And>ks. keys = Some ks \<Longrightarrow> has spec ''ssh'' \<and> authorized_from H (ssh_authorized_keys a) = Ok ks"
      using keys by fastforce
    show ?thesis
      unfolding plan Some cfg using files res keys k1 check_sshD [OF cs] check_servicesD(1) [OF ck]
      by (cases share) (auto simp: offers_ssh_def)
  qed
qed

theorem shell_as_asked_witness:
  "case Some ref_ssh_served of None \<Rightarrow> False
   | Some cfg \<Rightarrow> ssh_shell cfg \<and> authorized_from ref_serve_host (ssh_authorized_keys ref_serve_args) = Ok [([1], ''a'')] \<and>
       tl (forced_command cfg) = [''-u''] \<and> ssh_files cfg = None"
proof -
  have "resolves (resolve_exec ref_serve_host)" by (simp add: ref_serve_host_def resolves_resolve_command)
  from shell_as_asked [OF ref_plan [of ref_hex] this] show ?thesis
    by (simp add: ref_ssh_served_def ref_serve_args_def)
qed

section \<open>Whom a server lets in\<close>

lemma allow_list_entries:
  assumes "allow_list X v = Ok ks"
  shows "v = [] \<longleftrightarrow> ks = []" "\<And>k. k \<in> set ks \<Longrightarrow> k \<noteq> zeros \<Longrightarrow>
    \<exists>h. ''nodekey:'' @ h \<in> set (split_on CHR '','' v) \<and> hex_decode X h = Some (octets k)"
proof -
  show "v = [] \<longleftrightarrow> ks = []"
    using assms by (auto simp: allow_list_def collect_results_Inr_iff split: if_split_asm)
  fix k assume "k \<in> set ks" "k \<noteq> zeros"
  with assms have "list_all2 (\<lambda>e k. allow_entry X e = Ok k) (split_on CHR '','' v) ks"
    by (auto simp: allow_list_def collect_results_Inr_iff split: if_split_asm)
  with \<open>k \<in> set ks\<close> obtain e where e: "e \<in> set (split_on CHR '','' v)" "allow_entry X e = Ok k"
    by (auto simp: list_all2_conv_all_nth in_set_conv_nth) (metis nth_mem)
  with \<open>k \<noteq> zeros\<close> show "\<exists>h. ''nodekey:'' @ h \<in> set (split_on CHR '','' v) \<and> hex_decode X h = Some (octets k)"
    by (auto simp: allow_entry_def result_simps strip_prefix_Some_iff split: if_split_asm)
qed

lemma server_start_limited:
  assumes "server_start E H ex raw rnd cfg w = Inr (Ok (s, info))" "allowed_clients cfg = ks" "ks \<noteq> []"
  shows "limited_to ks s"
proof -
  from assms(1) obtain r s' where s: "s = send_stun s'"
    and new: "actor_new E H (server_key cfg raw) r
       (Some (cfg\<lparr>cfg_preshared_key := server_psk cfg rnd, cfg_region := Some r\<rparr>)) None w = Inr (Ok s')"
    by (rule server_startE)
  from new have "config s' = Some (cfg\<lparr>cfg_preshared_key := server_psk cfg rnd, cfg_region := Some r\<rparr>)" "peers s' = []"
    by (auto elim!: actor_newE simp: initial_actor_def)
  with s assms(2,3) show ?thesis by (simp add: limited_to_def keys_def)
qed

text \<open>
  C5. The keys on the command line are the only ones that can ever reach a server that was given
  \<open>--allow\<close>: from its start on, whatever it receives and whatever its handles ask of it short of
  extending the list, every peer has a key that is written after \<open>--allow\<close>. So \<open>--allow=none\<close> lets nobody in.
\<close>

theorem served_peers_are_allowed:
  assumes "serve_plan_of X N H raw rnd a = Ok plan" "allow a \<noteq> []"
    and "server_start E OS ex raw' rnd' (plan_config plan) w = Inr (Ok (s, info))"
    and "run E fuel es s = Inr (b, t)" "\<forall>k. Command (CmdAllow k) \<notin> snd ` set es"
  shows "keys t \<subseteq> {k. \<exists>h. ''nodekey:'' @ h \<in> set (split_on CHR '','' (allow a)) \<and> hex_decode X h = Some (octets k)}"
proof -
  obtain ks where ks: "allow_list X (allow a) = Ok ks" "allowed_clients (plan_config plan) = ks"
    using assms(1) by (rule serve_planE) (simp add: serve_config_def)
  with assms(2) have "ks \<noteq> []" using allow_list_entries(1) by blast
  from server_start_limited [OF assms(3) ks(2) this] have "limited_to ks s" .
  then have "limited_to ks t" using run_limited_to [OF assms(4)] assms(5) by blast
  then have "keys t \<subseteq> set ks - {zeros}" by (simp add: limited_to_def)
  with allow_list_entries(2) [OF ks(1)] show ?thesis by blast
qed

lemma ref_server_starts:
  "\<exists>s info. server_start ref_env ref_host Ok zeros ref_key
     (serve_config ref_numbering (private_key_new zeros) new_server_info (Some ref_key) (Some (own_region ref_actor)) [zeros]
        ref_spec_served True [''/bin/date'', ''-u'']) () = Inr (Ok (s, info)) \<and> actor_inv s"
proof -
  let ?cfg = "serve_config ref_numbering (private_key_new zeros) new_server_info (Some ref_key) (Some (own_region ref_actor))
    [zeros] ref_spec_served True [''/bin/date'', ''-u'']"
  have "\<exists>s info. server_start ref_env ref_host Ok zeros ref_key ?cfg () = Inr (Ok (s, info))"
    by (simp add: server_start_def server_info_def ref_actor_def actor_start_def actor_new_def host_setup_def
        open_sockets_def configure_udp_receive_buffer_def ref_host_def serve_config_def new_server_info_def Let_def)
  then obtain s info where st: "server_start ref_env ref_host Ok zeros ref_key ?cfg () = Inr (Ok (s, info))" by blast
  then have "actor_inv s"
    by (auto elim!: server_startE actor_newE intro: actor_inv_initial)
  with st show ?thesis by blast
qed

text \<open>A stranger asks to register with the server of the example, which was given \<open>--allow=none\<close>.\<close>

theorem served_peers_are_allowed_witness:
  "\<exists>n s info b t. server_start ref_env ref_host Ok zeros ref_key
     (serve_config ref_numbering (private_key_new zeros) new_server_info (Some ref_key) (Some (own_region ref_actor)) [zeros]
        ref_spec_served True [''/bin/date'', ''-u'']) () = Inr (Ok (s, info)) \<and>
     run ref_env n [(secs 101, FromRelay ref_key (encode_meow_ping ref_key ref_key))] s = Inr (b, t) \<and> keys t = {}"
proof -
  obtain s info where st: "server_start ref_env ref_host Ok zeros ref_key
     (serve_config ref_numbering (private_key_new zeros) new_server_info (Some ref_key) (Some (own_region ref_actor)) [zeros]
        ref_spec_served True [''/bin/date'', ''-u'']) () = Inr (Ok (s, info))" and inv: "actor_inv s"
    using ref_server_starts by blast
  obtain n t where "iteration ref_env n (secs 101, FromRelay ref_key (encode_meow_ping ref_key ref_key)) s = Inr t"
    using ref_iteration [OF inv] by blast
  then have r: "run ref_env n [(secs 101, FromRelay ref_key (encode_meow_ping ref_key ref_key))] s = Inr (True, t)" by simp
  have allow: "allow ref_serve_args \<noteq> []" by (simp add: ref_serve_args_def)
  have "keys t \<subseteq> {k. \<exists>h. ''nodekey:'' @ h \<in> set (split_on CHR '','' (allow ref_serve_args)) \<and> hex_decode ref_hex h = Some (octets k)}"
    by (rule served_peers_are_allowed [OF ref_plan [of ref_hex] allow _ r]) (use st in simp_all)
  then have "keys t = {}" by (simp add: ref_serve_args_def)
  with st r show ?thesis by blast
qed

end
