(* ===== verification/Socks.thy ===== *)
theory Socks
  imports CliKeys Framing Endpoints
begin

text \<open>
  The SOCKS proxy (\<open>src/cli/clients.rs\<close>): the negotiation of a connection, the choice of what to dial,
  the table of clients, and the UDP association with its routes.

  A connection is the list of the bytes that arrive on it; \<open>silent\<close> says that the other side then
  stays silent until the timeout rather than closing. Bytes written are part of the result; a failed
  write, which ends the connection, is left out. The answers of \<open>Client::connect\<close> and of the DNS
  resolver are arguments.
\<close>

record socks_text = net_text +
  show_ip :: "ip_addr \<Rightarrow> string"

section \<open>Negotiation\<close>

text \<open>What was written so far, and the result.\<close>

type_synonym 'a written = "byte list \<times> 'a res"

definition say :: "byte list \<Rightarrow> 'a written \<Rightarrow> 'a written" where
  "say bs w = (bs @ fst w, snd w)"

fun afterwards :: "'a written \<Rightarrow> ('a \<Rightarrow> 'b written) \<Rightarrow> 'b written" where
  "afterwards (out, Inl e) f = (out, Inl e)"
| "afterwards (out, Inr x) f = say out (f x)"

definition take_bytes :: "bool \<Rightarrow> nat \<Rightarrow> byte list \<Rightarrow> (byte list \<times> byte list) written" where
  "take_bytes silent n inp =
     ([], if n \<le> length inp then Ok (take n inp, drop n inp)
          else if silent then Err ''SOCKS negotiation timed out'' else Err ''early eof'')"

definition socks_refusal :: "byte \<Rightarrow> byte list" where
  "socks_refusal code = [5, code, 0, 1, 0, 0, 0, 0, 0, 0]"

definition read_host :: "socks_text \<Rightarrow> bool \<Rightarrow> byte \<Rightarrow> byte list \<Rightarrow> (string \<times> byte list) written" where
  "read_host T silent kind inp =
     (if kind = 1 then
        afterwards (take_bytes silent 4 inp) (\<lambda>(a, inp). ([], Ok (show_ip T (V4 (arr a)), inp)))
      else if kind = 3 then
        afterwards (take_bytes silent 1 inp) (\<lambda>(n, inp).
        afterwards (take_bytes silent (unat (hd n)) inp) (\<lambda>(name, inp).
        ([], and_then (ok_or ''invalid SOCKS hostname'' (from_utf8 name)) (\<lambda>name. Ok (name, inp)))))
      else if kind = 4 then
        afterwards (take_bytes silent 16 inp) (\<lambda>(a, inp). ([], Ok (show_ip T (V6 (arr a)), inp)))
      else (socks_refusal 8, Err ''unsupported SOCKS address type''))"

text \<open>The host, the port, the operation and the bytes that follow.\<close>

definition read_request ::
  "socks_text \<Rightarrow> bool \<Rightarrow> byte list \<Rightarrow> (string \<times> u16 \<times> byte \<times> byte list) written" where
  "read_request T silent inp =
     afterwards (take_bytes silent 4 inp) (\<lambda>(h, inp).
     if h ! 0 \<noteq> 5 \<or> h ! 1 \<notin> {1, 3} \<or> h ! 2 \<noteq> 0
     then (socks_refusal 7, Err ''SOCKS supports CONNECT and UDP ASSOCIATE only'')
     else afterwards (read_host T silent (h ! 3) inp) (\<lambda>(host, inp).
          afterwards (take_bytes silent 2 inp) (\<lambda>(p, inp). ([], Ok (host, from_be_bytes p, h ! 1, inp)))))"

definition negotiate ::
  "socks_text \<Rightarrow> bool \<Rightarrow> byte list \<Rightarrow> (string \<times> u16 \<times> byte \<times> byte list) written" where
  "negotiate T silent inp =
     afterwards (take_bytes silent 1 inp) (\<lambda>(v, inp).
     if hd v \<noteq> 5 then ([], Err ''unsupported SOCKS version'')
     else afterwards (take_bytes silent 1 inp) (\<lambda>(n, inp).
          afterwards (take_bytes silent (unat (hd n)) inp) (\<lambda>(methods, inp).
          if 0 \<notin> set methods then ([5, 255], Err ''client does not support no-auth SOCKS'')
          else say [5, 0] (read_request T silent inp))))"

section \<open>Dialing\<close>

text \<open>\<open>dial_tcp_port\<close> or \<open>dial_udp_port\<close> of the client for an address, and \<open>dial_tcp\<close> or \<open>dial_udp\<close>.\<close>

datatype dial = DialPort string u16 | DialSock string sock_addr

definition socks_resolve ::
  "socks_text \<Rightarrow> addr_crates \<Rightarrow> (string \<Rightarrow> u16 \<Rightarrow> ip_addr list res) \<Rightarrow> string \<Rightarrow> u16 \<Rightarrow> socks_target res" where
  "socks_resolve T A dns host port =
     (case classify_socks_target (net_text.truncate T) A host port [] of
        Inr target \<Rightarrow> Ok target
      | Inl _ \<Rightarrow> and_then (dns host port) (classify_socks_target (net_text.truncate T) A host port))"

definition socks_dial ::
  "socks_text \<Rightarrow> addr_crates \<Rightarrow> (string \<Rightarrow> u16 \<Rightarrow> ip_addr list res) \<Rightarrow> string option \<Rightarrow> string \<Rightarrow> u16 \<Rightarrow> dial res" where
  "socks_dial T A dns fixed host port =
     and_then (socks_resolve T A dns host port) (\<lambda>target.
     case target of
       SocksAddress a p \<Rightarrow> Ok (DialPort a p)
     | SocksServer p \<Rightarrow>
         and_then (ok_or ''no tailcat address argument was given to tailcat socks'' fixed) (\<lambda>a. Ok (DialPort a p))
     | SocksExit sock \<Rightarrow>
         and_then (ok_or ''no tailcat address argument was given to tailcat socks; only tailcat address hostnames can be dialed''
                     fixed) (\<lambda>a. Ok (DialSock a sock)))"

text \<open>
  What a connection comes to: an error, a UDP association for a host and port, or the copying between
  the client and the dialed stream, beginning with the bytes already there. \<open>dialed\<close> is the answer of
  the dial, \<open>None\<close> when it times out.
\<close>

datatype socks_outcome = SocksFailed error | SocksAssociate string u16 | SocksRelay dial "byte list"

definition socks_connect ::
  "socks_text \<Rightarrow> addr_crates \<Rightarrow> (string \<Rightarrow> u16 \<Rightarrow> ip_addr list res) \<Rightarrow> (dial \<Rightarrow> unit res option) \<Rightarrow>
   string option \<Rightarrow> string \<Rightarrow> u16 \<Rightarrow> byte list \<Rightarrow> byte list \<times> socks_outcome" where
  "socks_connect T A dns dialed fixed host port rest =
     (case socks_dial T A dns fixed host port of
        Inl e \<Rightarrow> (socks_refusal 5, SocksFailed e)
      | Inr d \<Rightarrow>
          (case dialed d of
             None \<Rightarrow> (socks_refusal 5, SocksFailed (Error ''SOCKS dial timed out''))
           | Some (Inl e) \<Rightarrow> (socks_refusal 5, SocksFailed e)
           | Some (Inr _) \<Rightarrow> (socks_refusal 0, SocksRelay d rest)))"

definition socks_connection ::
  "socks_text \<Rightarrow> addr_crates \<Rightarrow> (string \<Rightarrow> u16 \<Rightarrow> ip_addr list res) \<Rightarrow> (dial \<Rightarrow> unit res option) \<Rightarrow>
   string option \<Rightarrow> bool \<Rightarrow> byte list \<Rightarrow> byte list \<times> socks_outcome" where
  "socks_connection T A dns dialed fixed silent inp =
     (case negotiate T silent inp of
        (out, Inl e) \<Rightarrow> (out, SocksFailed e)
      | (out, Inr (host, port, operation, rest)) \<Rightarrow>
          if operation = 3 then (out, SocksAssociate host port)
          else (let (more_out, r) = socks_connect T A dns dialed fixed host port rest in (out @ more_out, r)))"

section \<open>The table of clients\<close>

text \<open>
  \<open>SocksClients::get\<close> under its lock. \<open>answer\<close> is what \<open>Client::connect\<close> gives if it is called; the
  second component says whether it was.
\<close>

definition clients_get ::
  "'c res \<Rightarrow> string \<Rightarrow> (string \<rightharpoonup> 'c) \<Rightarrow> (string \<rightharpoonup> 'c) \<times> bool \<times> 'c res" where
  "clients_get answer addr clients =
     (case clients addr of
        Some c \<Rightarrow> (clients, False, Ok c)
      | None \<Rightarrow>
          (case answer of
             Inl e \<Rightarrow> (clients, True, Inl e)
           | Inr c \<Rightarrow> (clients(addr \<mapsto> c), True, Ok c)))"

text \<open>\<open>executable_exists\<close> on Unix; \<open>is_file\<close> is the file system and \<open>paths\<close> the variable \<open>PATH\<close>.\<close>

definition executable_exists :: "(string \<Rightarrow> bool) \<Rightarrow> string option \<Rightarrow> string \<Rightarrow> bool" where
  "executable_exists is_file paths prog =
     (if CHR ''/'' \<in> set prog \<or> CHR 0x5C \<in> set prog then is_file prog
      else case paths of
             None \<Rightarrow> False
           | Some ps \<Rightarrow> list_ex (\<lambda>p. is_file (push p prog)) (split_on CHR '':'' ps))"

text \<open>The fixed server, when the first argument names one, and the command to run under the proxy.\<close>

definition socks_fixed ::
  "addr_crates \<Rightarrow> (string \<Rightarrow> string list res) \<Rightarrow> (string \<Rightarrow> bool) \<Rightarrow> string list \<Rightarrow> (string option \<times> string list) res" where
  "socks_fixed A txts exists cmds =
     (case cmds of
        [] \<Rightarrow> Ok (None, [])
      | first # rest \<Rightarrow>
          if is_ok (parse_addr A first) \<or> CHR ''.'' \<in> set first \<and> \<not> exists first
          then and_then (resolve_address A txts first) (\<lambda>a. Ok (Some a, rest))
          else Ok (None, cmds))"

definition socks_listen :: "string \<Rightarrow> string" where
  "socks_listen flag =
     (let listen = normalize_listen flag
      in if starts_with listen '':'' then ''0.0.0.0'' @ listen else listen)"

section \<open>UDP associations\<close>

text \<open>The host, the port and the length of the header of a datagram.\<close>

definition udp_socks_host :: "socks_text \<Rightarrow> byte list \<Rightarrow> (string \<times> nat) res" where
  "udp_socks_host T packet =
     (if packet ! 3 = 1 \<and> 10 \<le> length packet then
        Ok (show_ip T (V4 (arr (take 4 (drop 4 packet)))), 8)
      else if packet ! 3 = 4 \<and> 22 \<le> length packet then
        Ok (show_ip T (V6 (arr (take 16 (drop 4 packet)))), 20)
      else if packet ! 3 = 3 \<and> 5 \<le> length packet \<and> 7 + unat (packet ! 4) \<le> length packet then
        and_then (ok_or ''invalid utf-8'' (from_utf8 (take (unat (packet ! 4)) (drop 5 packet)))) (\<lambda>name.
        Ok (name, 5 + unat (packet ! 4)))
      else Err ''invalid SOCKS UDP address'')"

definition udp_socks_target :: "socks_text \<Rightarrow> byte list \<Rightarrow> (string \<times> u16 \<times> nat) res" where
  "udp_socks_target T packet =
     (if length packet < 4 \<or> take 3 packet \<noteq> [0, 0, 0] then Err ''fragmented or invalid SOCKS UDP packet''
      else and_then (udp_socks_host T packet) (\<lambda>(host, offset).
           Ok (host, from_be_bytes (take 2 (drop offset packet)), offset + 2)))"

text \<open>The check of the announced address, and the reply with the address of the socket.\<close>

definition udp_association :: "socks_text \<Rightarrow> ip_addr \<Rightarrow> string \<Rightarrow> unit res" where
  "udp_association T peer host =
     and_then (ok_or ''UDP association requires an IP address'' (parse_ip T host)) (\<lambda>requested.
     if \<not> is_unspecified requested \<and> requested \<noteq> peer
     then Err ''UDP association address does not match TCP peer'' else Ok ())"

definition udp_reply :: "sock_addr \<Rightarrow> byte list" where
  "udp_reply bound =
     [5, 0, 0] @ (case fst bound of V4 a \<Rightarrow> 1 # octets a | V6 a \<Rightarrow> 4 # octets a) @ to_be_bytes 2 (snd bound)"

text \<open>
  A route is the sender of a channel and the task behind it: the header and the source of the datagram
  that opened it, what waits in the channel, and whether the task still runs.
\<close>

type_synonym route_key = "string \<times> u16"

record route =
  route_header :: "byte list"
  route_from :: sock_addr
  waiting :: "byte list list"
  running :: bool

record association =
  udp_source :: "sock_addr option"
  routes :: "(route_key \<times> route) list"

definition max_routes :: nat where
  "max_routes = 256"

definition route_capacity :: nat where
  "route_capacity = 32"

definition new_association :: "ip_addr \<Rightarrow> u16 \<Rightarrow> association" where
  "new_association peer port = \<lparr>udp_source = (if port \<noteq> 0 then Some (peer, port) else None), routes = []\<rparr>"

text \<open>
  A datagram arrives; the task of a route ends (its dial or its flow failed); it sends the next waiting
  datagram; the remote side answers.
\<close>

datatype udp_event =
    FromClient sock_addr "byte list"
  | RouteEnds route_key
  | RouteSends route_key
  | FromRemote route_key "byte list"

text \<open>A task is spawned for a key; bytes go to the remote side of a key; a datagram goes to the client.\<close>

datatype udp_effect =
    Opens route_key
  | ToRemote route_key "byte list"
  | ToClient sock_addr "byte list"

definition try_send :: "byte list \<Rightarrow> route \<Rightarrow> route" where
  "try_send payload r =
     (if running r \<and> length (waiting r) < route_capacity then r\<lparr>waiting := waiting r @ [payload]\<rparr> else r)"

definition open_route ::
  "route_key \<Rightarrow> byte list \<Rightarrow> sock_addr \<Rightarrow> (route_key \<times> route) list \<Rightarrow>
   (route_key \<times> route) list \<times> udp_effect list" where
  "open_route key hdr from rs =
     (if map_of rs key \<noteq> None \<or> max_routes \<le> length rs then (rs, [])
      else ((key, \<lparr>route_header = hdr, route_from = from, waiting = [], running = True\<rparr>) # rs, [Opens key]))"

definition update_route :: "route_key \<Rightarrow> (route \<Rightarrow> route) \<Rightarrow> (route_key \<times> route) list \<Rightarrow> (route_key \<times> route) list" where
  "update_route key f rs = map (\<lambda>(k, r). (k, if k = key then f r else r)) rs"

definition from_client ::
  "socks_text \<Rightarrow> ip_addr \<Rightarrow> sock_addr \<Rightarrow> byte list \<Rightarrow> association \<Rightarrow> association \<times> udp_effect list" where
  "from_client T peer from packet s =
     (if fst from \<noteq> peer \<or> (case udp_source s of Some src \<Rightarrow> src \<noteq> from | None \<Rightarrow> False) then (s, [])
      else case udp_socks_target T packet of
             Inl _ \<Rightarrow> (s, [])
           | Inr (host, port, offset) \<Rightarrow>
               (let key = (host, port);
                    live = filter (\<lambda>(k, r). running r) (routes s);
                    (rs, fx) = open_route key (take offset packet) from live
                in (s\<lparr>udp_source := Some from,
                     routes := update_route key (try_send (drop offset packet)) rs\<rparr>, fx)))"

definition on_route :: "route_key \<Rightarrow> (route \<Rightarrow> route) \<Rightarrow> association \<Rightarrow> association" where
  "on_route key f s = s\<lparr>routes := update_route key f (routes s)\<rparr>"

definition live_route :: "association \<Rightarrow> route_key \<Rightarrow> route option" where
  "live_route s key =
     (case map_of (routes s) key of Some r \<Rightarrow> if running r then Some r else None | None \<Rightarrow> None)"

fun udp_step :: "socks_text \<Rightarrow> ip_addr \<Rightarrow> udp_event \<Rightarrow> association \<Rightarrow> association \<times> udp_effect list" where
  "udp_step T peer (FromClient from packet) s = from_client T peer from packet s"
| "udp_step T peer (RouteEnds key) s = (on_route key (\<lambda>r. r\<lparr>waiting := [], running := False\<rparr>) s, [])"
| "udp_step T peer (RouteSends key) s =
     (case live_route s key of
        Some r \<Rightarrow>
          (case waiting r of
             payload # _ \<Rightarrow>
               (on_route key (\<lambda>r. r\<lparr>waiting := tl (waiting r)\<rparr>) s, [ToRemote key payload])
           | [] \<Rightarrow> (s, []))
      | None \<Rightarrow> (s, []))"
| "udp_step T peer (FromRemote key bytes) s =
     (case live_route s key of
        Some r \<Rightarrow> (s, [ToClient (route_from r) (route_header r @ bytes)])
      | None \<Rightarrow> (s, []))"

fun udp_run :: "socks_text \<Rightarrow> ip_addr \<Rightarrow> udp_event list \<Rightarrow> association \<Rightarrow> association \<times> udp_effect list" where
  "udp_run T peer [] s = (s, [])"
| "udp_run T peer (e # es) s =
     (let (s, fx) = udp_step T peer e s; (s, gx) = udp_run T peer es s in (s, fx @ gx))"

text \<open>\<open>socks_udp\<close> up to the loop: the reply and the first state, or the error.\<close>

definition socks_udp :: "socks_text \<Rightarrow> ip_addr \<Rightarrow> sock_addr res \<Rightarrow> string \<Rightarrow> u16 \<Rightarrow> byte list \<times> association res" where
  "socks_udp T peer bound host port =
     (case udp_association T peer host of
        Inl e \<Rightarrow> ([], Inl e)
      | Inr _ \<Rightarrow>
          (case bound of
             Inl e \<Rightarrow> ([], Inl e)
           | Inr b \<Rightarrow> (udp_reply b, Ok (new_association peer port))))"

end
