(* ===== verification/SocksProps.thy ===== *)
theory SocksProps
  imports Socks
begin

text \<open>
  The properties of the SOCKS proxy: which bytes are a negotiation, what may be dialed for it, and
  whose datagrams an association forwards.
\<close>

section \<open>Addresses of a request\<close>

text \<open>The three forms of an address in a request and in the header of a datagram.\<close>

datatype socks_host = ByIp4 ipv4 | ByName "byte list" | ByIp6 ipv6

fun put_host :: "socks_host \<Rightarrow> byte list" where
  "put_host (ByIp4 a) = 1 # octets a"
| "put_host (ByName n) = 3 # of_nat (length n) # n"
| "put_host (ByIp6 a) = 4 # octets a"

fun host_fits :: "socks_host \<Rightarrow> bool" where
  "host_fits (ByName n) = (length n < 256 \<and> utf8_valid n)"
| "host_fits _ = True"

fun host_text :: "socks_text \<Rightarrow> socks_host \<Rightarrow> string" where
  "host_text T (ByIp4 a) = show_ip T (V4 a)"
| "host_text T (ByName n) = chars n"
| "host_text T (ByIp6 a) = show_ip T (V6 a)"

section \<open>Reading with replies\<close>

lemma say_simps [simp]: "say bs (out, r) = (bs @ out, r)"
  by (simp add: say_def)

lemma say_eq_iff: "say bs w = (out, r) \<longleftrightarrow> (\<exists>o2. w = (o2, r) \<and> out = bs @ o2)"
  by (cases w) auto

lemma afterwards_Ok_iff:
  "afterwards w f = (out, Inr y) \<longleftrightarrow>
     (\<exists>o1 x o2. w = (o1, Inr x) \<and> f x = (o2, Inr y) \<and> out = o1 @ o2)"
proof (cases w)
  case (Pair o1 r)
  show ?thesis
  proof (cases r)
    case (Inl e)
    with Pair show ?thesis by simp
  next
    case (Inr x)
    with Pair show ?thesis by (cases "f x") auto
  qed
qed

lemma take_bytes_Ok_iff:
  "take_bytes silent n inp = (out, Inr (a, rest)) \<longleftrightarrow> out = [] \<and> inp = a @ rest \<and> length a = n"
  by (auto simp: take_bytes_def)

lemma byte_list_1: "length xs = Suc 0 \<longleftrightarrow> (\<exists>x. xs = [x])"
  by (simp add: length_Suc_conv)

lemma byte_list_4: "length xs = 4 \<longleftrightarrow> (\<exists>a b c d. xs = [a, b, c, d])"
  by (simp add: eval_nat_numeral length_Suc_conv) blast

lemma unat_byte_less: "unat (b :: byte) < 256"
  using unsigned_less [of b, where ?'a = nat] by simp

lemma unat_of_nat_byte: "n < 256 \<Longrightarrow> unat (of_nat n :: byte) = n"
  by (simp add: unat_of_nat)

lemma byte_of_unat: "of_nat (unat b) = (b :: byte)"
  by simp

lemma read_address_Ok_iff:
  assumes "LENGTH('n::len) = n"
  shows "afterwards (take_bytes silent n inp) (\<lambda>(a, inp). ([], Ok (f (arr a :: 'n bytes), inp))) = (out, Inr (host, rest)) \<longleftrightarrow>
     out = [] \<and> (\<exists>a :: 'n bytes. inp = octets a @ rest \<and> host = f a)"
proof -
  have "(\<exists>a. inp = a @ rest \<and> length a = n \<and> host = f (arr a :: 'n bytes)) \<longleftrightarrow>
        (\<exists>a :: 'n bytes. inp = octets a @ rest \<and> host = f a)"
  proof safe
    fix a :: "byte list" assume "n = length a"
    with assms have "a = octets (arr a :: 'n bytes)" by simp
    then show "\<exists>a'. a @ rest = octets (a' :: 'n bytes) @ rest \<and> f (arr a) = f a'" by metis
  next
    fix a :: "'n bytes"
    show "\<exists>a'. octets a @ rest = a' @ rest \<and> length a' = n \<and> f a = f (arr a' :: 'n bytes)"
      using assms by (intro exI [of _ "octets a"]) simp
  qed
  then show ?thesis by (auto simp: afterwards_Ok_iff take_bytes_Ok_iff)
qed

lemma read_name_Ok_iff:
  "afterwards (take_bytes silent 1 inp) (\<lambda>(n, inp).
   afterwards (take_bytes silent (unat (hd n)) inp) (\<lambda>(name, inp).
   ([], and_then (ok_or m (from_utf8 name)) (\<lambda>name. Ok (name, inp))))) = (out, Inr (host, rest)) \<longleftrightarrow>
   out = [] \<and> (\<exists>n. length n < 256 \<and> utf8_valid n \<and> inp = of_nat (length n) # n @ rest \<and> host = chars n)"
(is "?L \<longleftrightarrow> ?R")
proof
  assume ?L
  then obtain b n where n: "out = []" "inp = b # n @ rest" "length n = unat b" "utf8_valid n" "host = chars n"
    by (auto simp: afterwards_Ok_iff take_bytes_Ok_iff byte_list_1 from_utf8_def result_simps split: if_splits)
  then show ?R using unat_byte_less [of b] byte_of_unat [of b] by auto
next
  assume ?R
  then show ?L by (auto simp: take_bytes_def unat_of_nat_byte from_utf8_def)
qed

lemma read_host_Ok_iff:
  "read_host T silent k inp = (out, Inr (host, rest)) \<longleftrightarrow>
     out = [] \<and> (\<exists>h. host_fits h \<and> k # inp = put_host h @ rest \<and> host = host_text T h)"
proof -
  have *: "(\<exists>h. host_fits h \<and> k # inp = put_host h @ rest \<and> host = host_text T h) \<longleftrightarrow>
     (k = 1 \<and> (\<exists>a. inp = octets a @ rest \<and> host = show_ip T (V4 a))) \<or>
     (k = 3 \<and> (\<exists>n. length n < 256 \<and> utf8_valid n \<and> inp = of_nat (length n) # n @ rest \<and> host = chars n)) \<or>
     (k = 4 \<and> (\<exists>a. inp = octets a @ rest \<and> host = show_ip T (V6 a)))" (is "(\<exists>h. ?P h) = _")
  proof -
    have "(\<exists>h. ?P h) \<longleftrightarrow> (\<exists>a. ?P (ByIp4 a)) \<or> (\<exists>n. ?P (ByName n)) \<or> (\<exists>a. ?P (ByIp6 a))"
      using socks_host.exhaust by (intro iffI) (elim exE, metis, blast)
    then show ?thesis by (simp del: word_of_nat_eq_iff) blast
  qed
  show ?thesis
    unfolding read_host_def *
    using read_address_Ok_iff [where ?'n = 4 and n = 4 and f = "\<lambda>a. show_ip T (V4 a)" and inp = inp and silent = silent]
      read_address_Ok_iff [where ?'n = 16 and n = 16 and f = "\<lambda>a. show_ip T (V6 a)" and inp = inp and silent = silent]
      read_name_Ok_iff [where inp = inp and silent = silent]
    by simp
qed

lemma put_host_split: "put_host h = hd (put_host h) # tl (put_host h)"
  by (cases h) simp_all

lemma read_host_put:
  "host_fits h \<Longrightarrow> read_host T silent (hd (put_host h)) (tl (put_host h) @ rest) = ([], Inr (host_text T h, rest))"
  unfolding read_host_Ok_iff using put_host_split [of h] by (metis append_Cons)

text \<open>What a client writes after the methods.\<close>

definition put_request :: "byte \<Rightarrow> socks_host \<Rightarrow> u16 \<Rightarrow> byte list" where
  "put_request op h port = [5, op, 0] @ put_host h @ to_be_bytes 2 port"

lemma port_bytes: "length p = 2 \<Longrightarrow> to_be_bytes 2 (from_be_bytes p :: u16) = p"
  using to_from_be_bytes [of p, where ?'a = 16] by simp

lemma read_request_put:
  assumes "host_fits h" "op \<in> {1, 3}"
  shows "read_request T silent (put_request op h port @ rest) = ([], Inr (host_text T h, port, op, rest))"
proof -
  have "put_request op h port @ rest =
        [5, op, 0, hd (put_host h)] @ (tl (put_host h) @ (to_be_bytes 2 port @ rest))"
    unfolding put_request_def by (subst put_host_split) simp
  then have "take_bytes silent 4 (put_request op h port @ rest) =
      ([], Inr ([5, op, 0, hd (put_host h)], tl (put_host h) @ (to_be_bytes 2 port @ rest)))"
    by (simp add: take_bytes_Ok_iff)
  moreover have "take_bytes silent 2 (to_be_bytes 2 port @ rest) = ([], Inr (to_be_bytes 2 port, rest))"
    by (simp add: take_bytes_Ok_iff)
  ultimately show ?thesis
    using assms read_host_put [of h T silent "to_be_bytes 2 port @ rest"] by (auto simp: read_request_def)
qed

lemma read_request_Ok:
  assumes "read_request T silent inp = (out, Inr (host, port, op, rest))"
  shows "\<exists>h. host_fits h \<and> op \<in> {1, 3} \<and> host = host_text T h \<and> inp = put_request op h port @ rest \<and> out = []"
proof -
  from assms obtain a b c d r1 h r2 p where
    inp: "inp = a # b # c # d # r1" and abc: "a = 5" "b \<in> {1, 3}" "c = 0" "op = b"
    and h: "host_fits h" "d # r1 = put_host h @ r2" "host = host_text T h"
    and p: "r2 = p @ rest" "length p = 2" "port = from_be_bytes p" and out: "out = []"
    by (auto simp: read_request_def afterwards_Ok_iff take_bytes_Ok_iff byte_list_4 read_host_Ok_iff
        split: if_splits)
  with port_bytes [OF p(2)] show ?thesis unfolding put_request_def by auto
qed

definition put_hello :: "byte list \<Rightarrow> byte list" where
  "put_hello methods = [5, of_nat (length methods)] @ methods"

lemma negotiate_put:
  assumes "host_fits h" "op \<in> {1, 3}" "length methods < 256" "0 \<in> set methods"
  shows "negotiate T silent (put_hello methods @ put_request op h port @ rest) =
    ([5, 0], Inr (host_text T h, port, op, rest))"
  using assms read_request_put [OF assms(1,2)]
  by (simp add: negotiate_def put_hello_def take_bytes_def unat_of_nat_byte)

lemma negotiate_Ok:
  assumes "negotiate T silent inp = (out, Inr (host, port, op, rest))"
  shows "\<exists>methods h. host_fits h \<and> op \<in> {1, 3} \<and> length methods < 256 \<and> 0 \<in> set methods \<and>
    host = host_text T h \<and> inp = put_hello methods @ put_request op h port @ rest \<and> out = [5, 0]"
proof -
  from assms obtain n methods r o2 where
    inp: "inp = 5 # n # methods @ r" and m: "length methods = unat n" "0 \<in> set methods" and
    r: "read_request T silent r = (o2, Inr (host, port, op, rest))" and out: "out = [5, 0] @ o2"
    by (auto simp: negotiate_def afterwards_Ok_iff take_bytes_Ok_iff byte_list_1 say_eq_iff
        split: if_splits)
  from read_request_Ok [OF r] obtain h where
    h: "host_fits h" "op \<in> {1, 3}" "host = host_text T h" "r = put_request op h port @ rest" "o2 = []" by blast
  have "n = of_nat (length methods)" "length methods < 256"
    using m(1) unat_byte_less [of n] by simp_all
  with h m(2) inp out show ?thesis
    unfolding put_hello_def by (intro exI [of _ methods] exI [of _ h]) simp
qed

section \<open>Headers of datagrams\<close>

definition put_udp_header :: "socks_host \<Rightarrow> u16 \<Rightarrow> byte list" where
  "put_udp_header h port = [0, 0, 0] @ put_host h @ to_be_bytes 2 port"

lemma drop_5: "drop (5 + n) (a # b # c # d # e # xs) = drop n xs"
  by (simp add: numeral_eq_Suc)

lemma udp_socks_target_put:
  assumes "host_fits h"
  shows "udp_socks_target T (put_udp_header h port @ payload) =
    Inr (host_text T h, port, length (put_udp_header h port))"
  using assms
  by (cases h) (simp_all add: udp_socks_target_def udp_socks_host_def put_udp_header_def from_utf8_def unat_of_nat_byte drop_5)

lemma packet_split:
  assumes "4 \<le> length packet" "take 3 packet = [0, 0, 0]"
  shows "packet = [0, 0, 0, packet ! 3] @ drop 4 packet"
proof -
  have "drop 3 packet = packet ! 3 # drop 4 packet"
    using assms(1) Cons_nth_drop_Suc [of 3 packet] by simp
  moreover have "packet = take 3 packet @ drop 3 packet" by simp
  ultimately show ?thesis using assms(2) by simp
qed

lemma address_split:
  assumes "n + 2 \<le> length x"
  shows "x = take n x @ to_be_bytes 2 (from_be_bytes (take 2 (drop n x)) :: u16) @ drop (n + 2) x"
proof -
  have "length (take 2 (drop n x)) = 2" using assms by simp
  then have "to_be_bytes 2 (from_be_bytes (take 2 (drop n x)) :: u16) = take 2 (drop n x)"
    by (rule port_bytes)
  then show ?thesis by (metis append_take_drop_id drop_drop add.commute)
qed

lemma udp_socks_target_Ok:
  assumes "udp_socks_target T packet = Inr (host, port, off)"
  shows "\<exists>h payload. host_fits h \<and> host = host_text T h \<and> off = length (put_udp_header h port) \<and>
    packet = put_udp_header h port @ payload"
proof -
  let ?x = "drop 4 packet"
  from assms have p: "packet = [0, 0, 0, packet ! 3] @ ?x"
    by (intro packet_split) (auto simp: udp_socks_target_def split: if_splits)
  from assms obtain o1 where o: "udp_socks_host T packet = Inr (host, o1)" "off = o1 + 2"
    and port: "port = from_be_bytes (take 2 (drop o1 packet))"
    by (auto simp: udp_socks_target_def result_simps split: if_splits)
  from o(1) consider
      (ip4) "packet ! 3 = 1" "10 \<le> length packet" "host = show_ip T (V4 (arr (take 4 ?x)))" "o1 = 8"
    | (ip6) "packet ! 3 = 4" "22 \<le> length packet" "host = show_ip T (V6 (arr (take 16 ?x)))" "o1 = 20"
    | (name) n where "packet ! 3 = 3" "n = unat (packet ! 4)" "7 + n \<le> length packet"
        "utf8_valid (take n (drop 5 packet))" "host = chars (take n (drop 5 packet))" "o1 = 5 + n"
    by (auto simp: udp_socks_host_def result_simps from_utf8_def split: if_splits)
  then show ?thesis
  proof cases
    case ip4
    have "?x = take 4 ?x @ to_be_bytes 2 port @ drop 6 ?x"
      using address_split [of 4 ?x] ip4(2,4) port by simp
    with p ip4 o(2) show ?thesis
      by (intro exI [of _ "ByIp4 (arr (take 4 ?x))"] exI [of _ "drop 6 ?x"]) (simp add: put_udp_header_def)
  next
    case ip6
    have "?x = take 16 ?x @ to_be_bytes 2 port @ drop 18 ?x"
      using address_split [of 16 ?x] ip6(2,4) port by simp
    with p ip6 o(2) show ?thesis
      by (intro exI [of _ "ByIp6 (arr (take 16 ?x))"] exI [of _ "drop 18 ?x"]) (simp add: put_udp_header_def)
  next
    case name
    let ?y = "drop 5 packet"
    have x: "?x = packet ! 4 # ?y"
      using name(3) Cons_nth_drop_Suc [of 4 packet] by simp
    have "?y = take n ?y @ to_be_bytes 2 port @ drop (n + 2) ?y"
      using address_split [of n ?y] name(3,6) port by (simp add: add.commute)
    then obtain nm pl where y: "?y = nm @ to_be_bytes 2 port @ pl" and nm: "nm = take n ?y" by blast
    have len: "length nm = n" using name(3) nm by simp
    have "packet ! 4 = of_nat n" "n < 256" using name(2) unat_byte_less by simp_all
    with p x y name(1) len have "packet = put_udp_header (ByName nm) port @ pl"
      by (simp add: put_udp_header_def)
    moreover have "host_fits (ByName nm)" "host = host_text T (ByName nm)"
      "off = length (put_udp_header (ByName nm) port)"
      using name(4-6) len o(2) \<open>n < 256\<close> unfolding nm by (simp_all add: put_udp_header_def)
    ultimately show ?thesis by blast
  qed
qed

lemma header_answers:
  assumes "udp_socks_target T packet = Inr (host, port, off)"
  shows "udp_socks_target T (take off packet @ reply) = Inr (host, port, off) \<and>
    drop off (take off packet @ reply) = reply"
proof -
  obtain h payload where "host_fits h" "host = host_text T h" "off = length (put_udp_header h port)"
      "packet = put_udp_header h port @ payload"
    using udp_socks_target_Ok [OF assms] by blast
  then show ?thesis using udp_socks_target_put [of h T port reply] by simp
qed

section \<open>The association\<close>

text \<open>
  The header and the payload are those of a datagram for the key that \<open>src\<close> sent; \<open>D\<close> holds the
  datagrams received and their sources.
\<close>

definition datagram_accepted ::
  "socks_text \<Rightarrow> (sock_addr \<times> byte list) set \<Rightarrow> sock_addr \<Rightarrow> route_key \<Rightarrow> byte list \<Rightarrow> byte list \<Rightarrow> bool" where
  "datagram_accepted T D src key hdr payload \<longleftrightarrow>
     (\<exists>packet off. (src, packet) \<in> D \<and> udp_socks_target T packet = Inr (fst key, snd key, off) \<and>
        hdr = take off packet \<and> payload = drop off packet)"

definition route_ok ::
  "socks_text \<Rightarrow> (sock_addr \<times> byte list) set \<Rightarrow> sock_addr \<Rightarrow> route_key \<Rightarrow> route \<Rightarrow> bool" where
  "route_ok T D src key r \<longleftrightarrow>
     route_from r = src \<and> (\<exists>payload. datagram_accepted T D src key (route_header r) payload) \<and>
     (\<forall>w \<in> set (waiting r). \<exists>hdr. datagram_accepted T D src key hdr w) \<and> length (waiting r) \<le> route_capacity"

definition routes_ok ::
  "socks_text \<Rightarrow> (sock_addr \<times> byte list) set \<Rightarrow> sock_addr \<Rightarrow> (route_key \<times> route) list \<Rightarrow> bool" where
  "routes_ok T D src rs \<longleftrightarrow> list_all (\<lambda>(key, r). route_ok T D src key r) rs"

definition source_ok :: "ip_addr \<Rightarrow> u16 \<Rightarrow> sock_addr \<Rightarrow> bool" where
  "source_ok peer port src \<longleftrightarrow> fst src = peer \<and> (port \<noteq> 0 \<longrightarrow> src = (peer, port))"

definition association_ok ::
  "socks_text \<Rightarrow> ip_addr \<Rightarrow> u16 \<Rightarrow> (sock_addr \<times> byte list) set \<Rightarrow> association \<Rightarrow> bool" where
  "association_ok T peer port D s \<longleftrightarrow>
     distinct (map fst (routes s)) \<and>
     (case udp_source s of
        None \<Rightarrow> port = 0 \<and> routes s = []
      | Some src \<Rightarrow> source_ok peer port src \<and> routes_ok T D src (routes s))"

lemma routes_ok_simps [simp]:
  "routes_ok T D src []"
  "routes_ok T D src ((key, r) # rs) \<longleftrightarrow> route_ok T D src key r \<and> routes_ok T D src rs"
  by (simp_all add: routes_ok_def)

lemma routes_ok_filter: "routes_ok T D src rs \<Longrightarrow> routes_ok T D src (filter P rs)"
  by (auto simp: routes_ok_def list_all_iff)

lemma routes_okD: "routes_ok T D src rs \<Longrightarrow> (key, r) \<in> set rs \<Longrightarrow> route_ok T D src key r"
  by (auto simp: routes_ok_def list_all_iff)

lemma association_ok_new: "association_ok T peer port D (new_association peer port)"
  by (simp add: association_ok_def new_association_def source_ok_def)

lemma route_ok_try_send:
  "route_ok T D src key r \<Longrightarrow> datagram_accepted T D src key hdr payload \<Longrightarrow> route_ok T D src key (try_send payload r)"
  by (auto simp: route_ok_def try_send_def)

lemma update_route_ok:
  assumes "routes_ok T D src rs" "\<And>r. route_ok T D src k r \<Longrightarrow> route_ok T D src k (f r)"
  shows "routes_ok T D src (update_route k f rs)"
  using assms by (induction rs) (auto simp: update_route_def)

lemma update_route_keys [simp]: "map fst (update_route k f rs) = map fst rs"
  by (induction rs) (auto simp: update_route_def)

lemma update_route_length [simp]: "length (update_route k f rs) = length rs"
  by (simp add: update_route_def)

lemma update_route_Nil [simp]: "update_route k f [] = []"
  by (simp add: update_route_def)

lemma on_route_ok:
  assumes "association_ok T peer port D s"
    "\<And>src r. route_ok T D src key r \<Longrightarrow> route_ok T D src key (f r)"
  shows "association_ok T peer port D (on_route key f s)"
proof -
  have "routes_ok T D src (routes s) \<Longrightarrow> routes_ok T D src (update_route key f (routes s))" for src
    by (rule update_route_ok) (use assms(2) in auto)
  with assms(1) show ?thesis
    by (auto simp: association_ok_def on_route_def split: option.splits)
qed

lemma in_tl: "x \<in> set (tl xs) \<Longrightarrow> x \<in> set xs"
  by (cases xs) simp_all

lemma live_route_Some:
  "live_route s key = Some r \<Longrightarrow> (key, r) \<in> set (routes s)"
  by (auto simp: live_route_def dest: map_of_SomeD split: option.splits if_splits)

lemma open_route_ok:
  assumes "distinct (map fst rs)" "routes_ok T D src rs"
    "datagram_accepted T D src key hdr payload" "open_route key hdr src rs = (rs', fx)"
  shows "distinct (map fst rs')" "routes_ok T D src rs'"
proof -
  have "route_ok T D src key \<lparr>route_header = hdr, route_from = src, waiting = [], running = True\<rparr>"
    using assms(3) by (auto simp: route_ok_def)
  with assms show "distinct (map fst rs')" "routes_ok T D src rs'"
    by (simp_all add: open_route_def map_of_eq_None_iff split: if_splits) auto
qed

lemma from_client_ok:
  assumes ok: "association_ok T peer port D s" and D: "(from, packet) \<in> D"
  shows "association_ok T peer port D (fst (from_client T peer from packet s))"
proof (cases "fst from \<noteq> peer \<or> (case udp_source s of Some src \<Rightarrow> src \<noteq> from | None \<Rightarrow> False)")
  case True
  with ok show ?thesis by (simp add: from_client_def)
next
  case src: False
  show ?thesis
  proof (cases "udp_socks_target T packet")
    case (Inl e)
    with src ok show ?thesis by (simp add: from_client_def)
  next
    case (Inr t)
    obtain host p off where t: "t = (host, p, off)" by (cases t)
    let ?live = "filter (\<lambda>(k, r). running r) (routes s)"
    obtain rs fx where o: "open_route (host, p) (take off packet) from ?live = (rs, fx)" by fastforce
    have acc: "datagram_accepted T D from (host, p) (take off packet) (drop off packet)"
      using D Inr t unfolding datagram_accepted_def by auto
    have live: "distinct (map fst ?live)" "routes_ok T D from ?live"
      using ok src by (auto simp: association_ok_def distinct_map_filter routes_ok_filter split: option.splits)
    have srcok: "source_ok peer port from"
      using ok src by (auto simp: association_ok_def source_ok_def split: option.splits)
    note rs = open_route_ok [OF live acc o]
    have "routes_ok T D from (update_route (host, p) (try_send (drop off packet)) rs)"
      by (rule update_route_ok [OF rs(2)]) (rule route_ok_try_send [OF _ acc])
    with rs(1) srcok src Inr t o show ?thesis
      by (simp add: from_client_def association_ok_def Let_def)
  qed
qed

definition datagrams :: "udp_event list \<Rightarrow> (sock_addr \<times> byte list) set" where
  "datagrams es = {(from, packet). FromClient from packet \<in> set es}"

lemma udp_step_ok:
  assumes "association_ok T peer port D s" "datagrams [e] \<subseteq> D"
  shows "association_ok T peer port D (fst (udp_step T peer e s))"
proof (cases e)
  case (FromClient who packet)
  with assms show ?thesis by (simp add: from_client_ok datagrams_def)
next
  case (RouteEnds key)
  with assms show ?thesis by (auto intro!: on_route_ok simp: route_ok_def)
next
  case (RouteSends key)
  have "association_ok T peer port D (on_route key (\<lambda>r. r\<lparr>waiting := tl (waiting r)\<rparr>) s)"
    using assms(1) by (rule on_route_ok) (auto simp: route_ok_def dest: in_tl)
  with RouteSends assms show ?thesis by (simp split: option.splits list.splits)
next
  case (FromRemote key bytes)
  with assms show ?thesis by (simp split: option.splits)
qed

text \<open>What an effect must come from, with the source of the association.\<close>

fun effect_ok ::
  "socks_text \<Rightarrow> ip_addr \<Rightarrow> u16 \<Rightarrow> udp_event list \<Rightarrow> sock_addr option \<Rightarrow> udp_effect \<Rightarrow> bool" where
  "effect_ok T peer port es src (Opens key) = True"
| "effect_ok T peer port es src (ToRemote key payload) =
     (\<exists>from packet off. FromClient from packet \<in> set es \<and> src = Some from \<and> source_ok peer port from \<and>
        udp_socks_target T packet = Inr (fst key, snd key, off) \<and> payload = drop off packet)"
| "effect_ok T peer port es src (ToClient dst bytes) =
     (\<exists>key reply off. FromRemote key reply \<in> set es \<and> src = Some dst \<and> source_ok peer port dst \<and>
        udp_socks_target T bytes = Inr (fst key, snd key, off) \<and> drop off bytes = reply)"

lemma on_route_source [simp]: "udp_source (on_route key f s) = udp_source s"
  by (simp add: on_route_def)

lemma udp_step_source:
  "udp_source s = Some src \<Longrightarrow> udp_source (fst (udp_step T peer e s)) = Some src"
  by (cases e) (auto simp: from_client_def Let_def split: option.splits sum.splits prod.splits list.splits)

lemma udp_run_source: "udp_source s = Some src \<Longrightarrow> udp_source (fst (udp_run T peer es s)) = Some src"
  by (induction es arbitrary: s) (auto simp: Let_def split_beta dest: udp_step_source)

lemma live_route_ok:
  assumes "association_ok T peer port D s" "live_route s key = Some r"
  obtains src where "udp_source s = Some src" "source_ok peer port src" "route_ok T D src key r"
  using assms live_route_Some [OF assms(2)]
  by (auto simp: association_ok_def dest: routes_okD split: option.splits)

lemma udp_step_effects:
  assumes ok: "association_ok T peer port (datagrams es) s" and e: "e \<in> set es"
    and fx: "x \<in> set (snd (udp_step T peer e s))"
  shows "(\<exists>key. x = Opens key) \<or> effect_ok T peer port es (udp_source s) x"
proof (cases e)
  case (FromClient who packet)
  with fx show ?thesis
    by (auto simp: from_client_def open_route_def Let_def split: if_splits sum.splits prod.splits)
next
  case (RouteEnds key)
  with fx show ?thesis by simp
next
  case (RouteSends key)
  with fx obtain r p ps where r: "live_route s key = Some r" "waiting r = p # ps" "x = ToRemote key p"
    by (auto split: option.splits list.splits)
  from ok r(1) obtain src where src: "udp_source s = Some src" "source_ok peer port src"
      "route_ok T (datagrams es) src key r"
    by (rule live_route_ok)
  then obtain packet off where "FromClient src packet \<in> set es" "p = drop off packet"
      "udp_socks_target T packet = Inr (fst key, snd key, off)"
    using r(2) by (auto simp: route_ok_def datagram_accepted_def datagrams_def simp del: split_paired_Ex)
  with src show ?thesis unfolding r(3) effect_ok.simps by blast
next
  case (FromRemote key bytes)
  with fx obtain r where r: "live_route s key = Some r" "x = ToClient (route_from r) (route_header r @ bytes)"
    by (auto split: option.splits)
  from ok r(1) obtain src where src: "udp_source s = Some src" "source_ok peer port src"
      "route_ok T (datagrams es) src key r"
    by (rule live_route_ok)
  then obtain packet off where "udp_socks_target T packet = Inr (fst key, snd key, off)"
      "route_header r = take off packet" "route_from r = src"
    by (auto simp: route_ok_def datagram_accepted_def)
  with header_answers [of T packet "fst key" "snd key" off bytes] r(2) src e FromRemote show ?thesis by auto
qed

lemma udp_run_ok:
  "association_ok T peer port D s \<Longrightarrow> datagrams es \<subseteq> D \<Longrightarrow> association_ok T peer port D (fst (udp_run T peer es s))"
proof (induction es arbitrary: s)
  case Nil
  then show ?case by simp
next
  case (Cons e es)
  have "association_ok T peer port D (fst (udp_step T peer e s))"
    by (rule udp_step_ok [OF Cons.prems(1)]) (use Cons.prems(2) in \<open>auto simp: datagrams_def\<close>)
  with Cons show ?case by (auto simp: Let_def split_beta datagrams_def)
qed

lemma effect_ok_mono:
  "effect_ok T peer port es src x \<Longrightarrow> (\<And>s. src = Some s \<Longrightarrow> src' = Some s) \<Longrightarrow> effect_ok T peer port es src' x"
  by (cases x) fastforce+

lemma udp_run_effects:
  assumes "association_ok T peer port (datagrams all_es) s" "set es \<subseteq> set all_es"
    "x \<in> set (snd (udp_run T peer es s))"
  shows "effect_ok T peer port all_es (udp_source (fst (udp_run T peer es s))) x"
  using assms
proof (induction es arbitrary: s)
  case Nil
  then show ?case by simp
next
  case (Cons e es)
  obtain s1 fx where s1: "udp_step T peer e s = (s1, fx)" by fastforce
  have ok: "association_ok T peer port (datagrams all_es) s1"
    using udp_step_ok [OF Cons.prems(1), of e] Cons.prems(2) s1 by (auto simp: datagrams_def)
  show ?case
  proof (cases "x \<in> set fx")
    case True
    then have "(\<exists>key. x = Opens key) \<or> effect_ok T peer port all_es (udp_source s) x"
      using udp_step_effects [OF Cons.prems(1), of e x] Cons.prems(2) s1 by simp
    moreover have "udp_source s = Some src \<Longrightarrow> udp_source (fst (udp_run T peer (e # es) s)) = Some src" for src
      by (rule udp_run_source)
    ultimately show ?thesis by (metis effect_ok_mono effect_ok.simps(1))
  next
    case False
    with Cons.IH [OF ok] Cons.prems s1 show ?thesis by (simp add: Let_def split_beta)
  qed
qed

text \<open>The routes are a table of 256 entries.\<close>

lemma length_open_route:
  "open_route key hdr from rs = (rs', fx) \<Longrightarrow> length rs \<le> max_routes \<Longrightarrow> length rs' \<le> max_routes"
  by (auto simp: open_route_def split: if_splits)

lemma udp_step_routes: "length (routes s) \<le> max_routes \<Longrightarrow> length (routes (fst (udp_step T peer e s))) \<le> max_routes"
  by (cases e)
    (auto simp: from_client_def on_route_def Let_def
      intro: length_open_route order_trans [OF length_filter_le]
      split: sum.splits prod.splits option.splits list.splits)

interpretation udp_routes: bounded_table "\<lambda>e s. fst (udp_step T peer e s)" "\<lambda>s. length (routes s)" max_routes
  for T peer
  by unfold_locales (rule udp_step_routes)

lemma udp_run_fold: "fst (udp_run T peer es s) = fold (\<lambda>e s. fst (udp_step T peer e s)) es s"
  by (induction es arbitrary: s) (simp_all add: Let_def split_beta)

lemma udp_run_bounded: "length (routes (fst (udp_run T peer es (new_association ip port)))) \<le> max_routes"
  unfolding udp_run_fold by (rule udp_routes.steps_bounded) (simp add: new_association_def)

section \<open>The properties\<close>

definition ref_socks :: socks_text where
  "ref_socks =
     \<lparr>parse_ip = (\<lambda>s. if s = ''0.0.0.0'' then Some (V4 zeros) else None), parse_sock = (\<lambda>_. None), show_sock = (\<lambda>_. []),
      show_ip = (\<lambda>_. ''0.0.0.0'')\<rparr>"

text \<open>
  The negotiation of a connection succeeds exactly on a hello with at most 255 methods, one of them
  no authentication, followed by a CONNECT or UDP ASSOCIATE request with an address in one of the three
  forms; it then yields the host, the port and the operation of the request, leaves the bytes after it,
  and has answered that no authentication is needed.
\<close>

theorem socks_negotiation_exact:
  "negotiate T silent inp = (out, Inr (host, port, op, rest)) \<longleftrightarrow>
     (\<exists>methods h. inp = put_hello methods @ put_request op h port @ rest \<and>
        length methods < 256 \<and> 0 \<in> set methods \<and> op \<in> {1, 3} \<and> host_fits h \<and>
        host = host_text T h \<and> out = [5, 0])"
  using negotiate_Ok negotiate_put by (metis (no_types, lifting))

definition dial_allowed ::
  "socks_text \<Rightarrow> addr_crates \<Rightarrow> (string \<Rightarrow> u16 \<Rightarrow> ip_addr list res) \<Rightarrow> string option \<Rightarrow> string \<Rightarrow> u16 \<Rightarrow> dial \<Rightarrow> bool" where
  "dial_allowed T A dns fixed host port d \<longleftrightarrow>
     (case d of
        DialPort a p \<Rightarrow>
          p = port \<and> (fixed = Some a \<and> host \<in> {[], ''server.tailcat''} \<or> a = host \<and> is_ok (parse_addr A a))
      | DialSock a sock \<Rightarrow>
          fixed = Some a \<and> snd sock = port \<and>
          (\<exists>ip. fst sock = unmap ip \<and> (parse_ip T host = Some ip \<or> (\<exists>ips. dns host port = Inr ips \<and> ip \<in> set ips))))"

lemma preferred_address_in: "preferred_address ips = Some ip \<Longrightarrow> ip \<in> set ips"
  by (auto simp: preferred_address_def find_Some_iff split: option.splits list.splits)

lemma classify_socks_target_allowed:
  assumes "classify_socks_target (net_text.truncate T) A host port ips = Inr t"
  shows "t = SocksServer port \<and> host \<in> {[], ''server.tailcat''} \<or>
    t = SocksAddress host port \<and> is_ok (parse_addr A host) \<or>
    (\<exists>ip. t = SocksExit (unmap ip, port) \<and> (parse_ip T host = Some ip \<or> ip \<in> set ips))"
  using assms preferred_address_in [of ips]
  by (auto simp: classify_socks_target_def net_text.defs result_simps split: if_splits option.splits)

lemma socks_resolve_allowed:
  assumes "socks_resolve T A dns host port = Inr t"
  shows "t = SocksServer port \<and> host \<in> {[], ''server.tailcat''} \<or>
    t = SocksAddress host port \<and> is_ok (parse_addr A host) \<or>
    (\<exists>ip. t = SocksExit (unmap ip, port) \<and>
       (parse_ip T host = Some ip \<or> (\<exists>ips. dns host port = Inr ips \<and> ip \<in> set ips)))"
proof (cases "classify_socks_target (net_text.truncate T) A host port []")
  case (Inl e)
  with assms obtain ips where "dns host port = Inr ips"
      "classify_socks_target (net_text.truncate T) A host port ips = Inr t"
    by (auto simp: socks_resolve_def result_simps)
  with classify_socks_target_allowed [of T A host port ips t] show ?thesis by auto
next
  case (Inr t')
  with assms have "classify_socks_target (net_text.truncate T) A host port [] = Inr t"
    by (simp add: socks_resolve_def)
  from classify_socks_target_allowed [OF this] show ?thesis by auto
qed

lemma socks_dial_allowed:
  assumes "socks_dial T A dns fixed host port = Inr d"
  shows "dial_allowed T A dns fixed host port d"
proof -
  from assms obtain t where t: "socks_resolve T A dns host port = Inr t"
    by (auto simp: socks_dial_def result_simps)
  from socks_resolve_allowed [OF t] assms t show ?thesis
    by (auto simp: socks_dial_def dial_allowed_def result_simps) blast+
qed

lemma socks_dial_address:
  assumes "starts_with host ''tc''" "CHR ''.'' \<notin> set host" "is_ok (parse_addr A host)"
  shows "socks_dial T A dns fixed host port = Inr (DialPort host port)"
proof -
  have "host \<noteq> []" "host \<noteq> ''server.tailcat''" using assms(1) by (auto simp: starts_with_def)
  with assms show ?thesis
    by (simp add: socks_dial_def socks_resolve_def classify_socks_target_def)
qed

lemma socks_connect_cases:
  assumes "socks_connect T A dns dialed fixed host port rest = (out, SocksRelay d bytes)"
  shows "socks_dial T A dns fixed host port = Inr d \<and> dialed d = Some (Inr ()) \<and> bytes = rest \<and>
    out = socks_refusal 0"
  using assms by (auto simp: socks_connect_def split: sum.splits option.splits)

text \<open>
  C35. What a negotiated connection may reach: the stream is connected only for a CONNECT request, after
  a dial that succeeded and one success reply, and the dial goes to the requested port at the fixed
  server, to the tailcat address that is the requested host, or through the fixed server to an
  address the host stands for; a host that is a tailcat address is never given to the resolver.
\<close>

theorem socks_policy:
  assumes "socks_connection T A dns dialed fixed silent inp = (out, SocksRelay d rest)"
  shows "\<exists>methods h port. inp = put_hello methods @ put_request 1 h port @ rest \<and>
    out = [5, 0] @ socks_refusal 0 \<and> dialed d = Some (Inr ()) \<and>
    dial_allowed T A dns fixed (host_text T h) port d \<and>
    (starts_with (host_text T h) ''tc'' \<and> CHR ''.'' \<notin> set (host_text T h) \<and> is_ok (parse_addr A (host_text T h))
       \<longrightarrow> d = DialPort (host_text T h) port)"
proof -
  from assms obtain o1 host port op r where n: "negotiate T silent inp = (o1, Inr (host, port, op, r))" "op \<noteq> 3"
      and c: "socks_connect T A dns dialed fixed host port r = (drop (length o1) out, SocksRelay d rest)"
      and out: "take (length o1) out = o1"
    by (auto simp: socks_connection_def Let_def split: prod.splits sum.splits if_splits)
  from negotiate_Ok [OF n(1)] n(2) obtain methods h where
    h: "inp = put_hello methods @ put_request 1 h port @ r" "host = host_text T h" "o1 = [5, 0]" by auto
  note d = socks_connect_cases [OF c]
  have "out = [5, 0] @ socks_refusal 0"
    using d out h(3) append_take_drop_id [of "length o1" out] by simp
  moreover have "dial_allowed T A dns fixed (host_text T h) port d"
    using d h(2) by (intro socks_dial_allowed) simp
  ultimately show ?thesis
    using d h socks_dial_address [of "host_text T h" A T dns fixed port] by (intro exI conjI) auto
qed

lemma socks_policy_witness:
  "\<exists>methods h port.
     put_hello [0] @ put_request 1 (ByName (as_bytes ''server.tailcat'')) 80 @ [7] =
       put_hello methods @ put_request 1 h port @ [7] \<and>
     dial_allowed ref_socks (ref_addr_crates CNull) (\<lambda>_ _. Err []) (Some ''tcA'') (host_text ref_socks h) port
       (DialPort ''tcA'' 80)"
proof -
  have name: "host_fits (ByName (as_bytes ''server.tailcat''))" by code_simp
  have "socks_connection ref_socks (ref_addr_crates CNull) (\<lambda>_ _. Err []) (\<lambda>_. Some (Ok ())) (Some ''tcA'') False
      (put_hello [0] @ put_request 1 (ByName (as_bytes ''server.tailcat'')) 80 @ [7]) =
    ([5, 0] @ socks_refusal 0, SocksRelay (DialPort ''tcA'' 80) [7])"
    using negotiate_put [OF name, of 1 "[0]" ref_socks False 80 "[7]"]
    by (simp add: socks_connection_def socks_connect_def socks_dial_def socks_resolve_def classify_socks_target_def)
  from socks_policy [OF this] show ?thesis by blast
qed

text \<open>
  C20. A UDP association serves the peer of its control connection only: a datagram is forwarded only
  when it came from the one source the association is bound to, an address of that peer and, when the
  request announced one, with the announced port; it goes to the destination of its header with
  exactly the payload after the header. What the client receives goes to that same source, with a
  header that names the destination and the unchanged answer. There are never more than 256 routes and
  never two to the same destination.
\<close>

theorem udp_association_policy:
  assumes "socks_udp T peer bound host port = (reply, Inr s0)" "udp_run T peer es s0 = (s, fx)"
  shows "(\<exists>ip. parse_ip T host = Some ip \<and> (is_unspecified ip \<or> ip = peer)) \<and>
    (\<exists>b. bound = Inr b \<and> reply = udp_reply b) \<and>
    length (routes s) \<le> 256 \<and> distinct (map fst (routes s)) \<and>
    list_all (effect_ok T peer port es (udp_source s)) fx"
proof -
  from assms(1) have s0: "s0 = new_association peer port"
    and start: "\<exists>ip. parse_ip T host = Some ip \<and> (is_unspecified ip \<or> ip = peer)"
      "\<exists>b. bound = Inr b \<and> reply = udp_reply b"
    by (auto simp: socks_udp_def udp_association_def result_simps split: sum.splits if_splits)
  note run = assms(2) [unfolded s0]
  have ok0: "association_ok T peer port (datagrams es) (new_association peer port)"
    by (rule association_ok_new)
  have "association_ok T peer port (datagrams es) (fst (udp_run T peer es (new_association peer port)))"
    using udp_run_ok [OF ok0] by simp
  with run have "distinct (map fst (routes s))" by (simp add: association_ok_def)
  moreover have "length (routes s) \<le> 256"
    using udp_run_bounded [of T peer es peer port] run by (simp add: max_routes_def)
  moreover have "list_all (effect_ok T peer port es (udp_source s)) fx"
    using udp_run_effects [OF ok0 subset_refl] run by (auto simp: list_all_iff)
  ultimately show ?thesis using start by blast
qed

definition ref_udp_events :: "udp_event list" where
  "ref_udp_events =
     [FromClient (V4 zeros, 9) [0, 0, 0, 1, 0, 0, 0, 0, 0, 80, 1, 2], RouteSends (''0.0.0.0'', 80),
      FromRemote (''0.0.0.0'', 80) [7]]"

lemma udp_association_policy_witness:
  "list_all (effect_ok ref_socks (V4 zeros) 0 ref_udp_events (Some (V4 zeros, 9)))
     [Opens (''0.0.0.0'', 80), ToRemote (''0.0.0.0'', 80) [1, 2],
      ToClient (V4 zeros, 9) [0, 0, 0, 1, 0, 0, 0, 0, 0, 80, 7]]"
proof -
  have start: "socks_udp ref_socks (V4 zeros) (Ok (V4 zeros, 4000)) ''0.0.0.0'' 0 =
      (udp_reply (V4 zeros, 4000), Inr (new_association (V4 zeros) 0))"
    by (simp add: socks_udp_def udp_association_def ref_socks_def)
  have run: "map_prod udp_source id (udp_run ref_socks (V4 zeros) ref_udp_events (new_association (V4 zeros) 0)) =
      (Some (V4 zeros, 9), [Opens (''0.0.0.0'', 80), ToRemote (''0.0.0.0'', 80) [1, 2],
        ToClient (V4 zeros, 9) [0, 0, 0, 1, 0, 0, 0, 0, 0, 80, 7]])"
    by code_simp
  obtain s fx where s: "udp_run ref_socks (V4 zeros) ref_udp_events (new_association (V4 zeros) 0) = (s, fx)"
    by fastforce
  from udp_association_policy [OF start s] run s show ?thesis by simp
qed

end
