(* ===== verification/Perf.thy ===== *)
theory Perf
  imports Numbers Framing
begin

text \<open>
  The throughput test (\<open>src/perf.rs\<close>): parameters and their limits, the JSON values of the control
  connection, its reader, the header of a datagram, the sending and the receiving of data, and the
  totals.

  A JSON value is the tree of \<open>serde_json\<close>, whose text form is an argument (\<open>json_crate\<close>). Clocks are
  readings given with each turn of a loop, in nanoseconds since the start of the test for an
  \<open>Instant\<close>. The pauses that hold a sender to its bit rate only move these readings.
\<close>

section \<open>JSON\<close>

text \<open>\<open>JNumber\<close> is any number that is not a \<open>u64\<close>.\<close>

datatype json_value =
    JNull | JBool bool | JNat u64 | JNumber string | JText string | JList "json_value list" | JObject "(string \<times> json_value) list"

record json_crate =
  json_write :: "json_value \<Rightarrow> byte list"
  json_read :: "byte list \<Rightarrow> json_value option"

text \<open>Reading undoes the writing of the value, white space at the end is skipped, and the compact form has no
  line break.\<close>

definition json_law :: "json_crate \<Rightarrow> json_value \<Rightarrow> bool" where
  "json_law J v \<longleftrightarrow> json_read J (json_write J v @ [10]) = Some v \<and> 10 \<notin> set (json_write J v)"

text \<open>\<open>v["k"]\<close>, \<open>as_str\<close> and \<open>as_u64\<close>.\<close>

definition index :: "json_value \<Rightarrow> string \<Rightarrow> json_value" where
  "index v k = (case v of JObject kvs \<Rightarrow> (case map_of kvs k of Some x \<Rightarrow> x | None \<Rightarrow> JNull) | _ \<Rightarrow> JNull)"

definition as_str :: "json_value \<Rightarrow> string option" where
  "as_str v = (case v of JText s \<Rightarrow> Some s | _ \<Rightarrow> None)"

definition as_u64 :: "json_value \<Rightarrow> u64 option" where
  "as_u64 v = (case v of JNat n \<Rightarrow> Some n | _ \<Rightarrow> None)"

text \<open>
  A derived \<open>Deserialize\<close> takes an object, with any other fields, or an array of the fields in order,
  whose end may be missing.
\<close>

definition struct_fields :: "string list \<Rightarrow> json_value \<Rightarrow> (string \<rightharpoonup> json_value) res" where
  "struct_fields names v =
     (case v of
        JObject kvs \<Rightarrow> Ok (map_of kvs)
      | JList xs \<Rightarrow> if length xs \<le> length names then Ok (map_of (zip names xs)) else Err ''invalid length''
      | _ \<Rightarrow> Err ''invalid type'')"

definition required :: "(string \<rightharpoonup> json_value) \<Rightarrow> string \<Rightarrow> (json_value \<Rightarrow> 'a option) \<Rightarrow> 'a res" where
  "required m k conv =
     (case m k of None \<Rightarrow> Err ''missing field'' | Some v \<Rightarrow> ok_or ''invalid type'' (conv v))"

definition defaulted :: "'a \<Rightarrow> (string \<rightharpoonup> json_value) \<Rightarrow> string \<Rightarrow> (json_value \<Rightarrow> 'a option) \<Rightarrow> 'a res" where
  "defaulted d m k conv =
     (case m k of None \<Rightarrow> Ok d | Some v \<Rightarrow> ok_or ''invalid type'' (conv v))"

section \<open>Parameters\<close>

record params =
  proto :: string
  dir :: string
  test_duration :: u64
  test_bytes :: u64
  streams :: nat
  data_length :: nat
  bitrate :: u64
  report_interval :: u64

definition validate :: "params \<Rightarrow> unit res" where
  "validate p =
     (if proto p \<notin> {''tcp'', ''udp''} \<or> dir p \<notin> {''up'', ''down'', ''both''} then Err ''unknown protocol or direction''
      else if streams p = 0 \<or> 128 < streams p then Err ''streams must be between 1 and 128''
      else if test_bytes p = 0 \<and> (test_duration p = 0 \<or> 600000000000 < test_duration p)
      then Err ''duration must be positive and at most ten minutes''
      else if data_length p = 0 \<or> 2 ^ 20 < data_length p \<or>
              proto p = ''udp'' \<and> \<not> (32 \<le> data_length p \<and> data_length p \<le> 65507)
      then Err ''invalid data length''
      else if report_interval p \<noteq> 0 \<and> report_interval p < 100000000 then Err ''interval must be at least 100ms''
      else Ok ())"

definition sends :: "bool \<Rightarrow> params \<Rightarrow> bool" where
  "sends is_server p = (dir p = ''both'' \<or> dir p = (if is_server then ''down'' else ''up''))"

definition params_names :: "string list" where
  "params_names =
     [''proto'', ''dir'', ''duration'', ''bytes'', ''streams'', ''length'', ''bitrate'', ''interval'']"

definition params_of_value :: "json_value \<Rightarrow> params res" where
  "params_of_value v =
     and_then (struct_fields params_names v) (\<lambda>m.
     and_then (required m ''proto'' as_str) (\<lambda>pr.
     and_then (required m ''dir'' as_str) (\<lambda>d.
     and_then (defaulted 0 m ''duration'' as_u64) (\<lambda>dur.
     and_then (defaulted 0 m ''bytes'' as_u64) (\<lambda>b.
     and_then (required m ''streams'' as_u64) (\<lambda>n.
     and_then (required m ''length'' as_u64) (\<lambda>l.
     and_then (defaulted 0 m ''bitrate'' as_u64) (\<lambda>r.
     and_then (defaulted 0 m ''interval'' as_u64) (\<lambda>i.
     Ok \<lparr>proto = pr, dir = d, test_duration = dur, test_bytes = b, streams = unat n, data_length = unat l,
         bitrate = r, report_interval = i\<rparr>)))))))))"

definition value_of_params :: "params \<Rightarrow> json_value" where
  "value_of_params p =
     JObject [(''proto'', JText (proto p)), (''dir'', JText (dir p)), (''duration'', JNat (test_duration p)),
       (''bytes'', JNat (test_bytes p)), (''streams'', JNat (of_nat (streams p))),
       (''length'', JNat (of_nat (data_length p))), (''bitrate'', JNat (bitrate p)),
       (''interval'', JNat (report_interval p))]"

definition direction_name :: "string \<Rightarrow> string" where
  "direction_name d =
     (if d = ''up'' then ''client -> server'' else if d = ''down'' then ''server -> client'' else ''both directions'')"

section \<open>Statistics\<close>

record interval_count =
  iv_bytes :: u64
  iv_datagrams :: u64

record stats =
  st_bytes :: u64
  st_duration :: u64
  st_datagrams :: u64
  st_reordered :: u64
  st_jitter :: u64
  st_intervals :: "interval_count list"

definition no_interval :: interval_count where
  "no_interval = \<lparr>iv_bytes = 0, iv_datagrams = 0\<rparr>"

definition no_stats :: stats where
  "no_stats =
     \<lparr>st_bytes = 0, st_duration = 0, st_datagrams = 0, st_reordered = 0, st_jitter = 0, st_intervals = []\<rparr>"

definition value_of_interval :: "interval_count \<Rightarrow> json_value" where
  "value_of_interval v = JObject [(''bytes'', JNat (iv_bytes v)), (''datagrams'', JNat (iv_datagrams v))]"

definition unless_zero :: "string \<Rightarrow> u64 \<Rightarrow> (string \<times> json_value) list" where
  "unless_zero k n = (if n = 0 then [] else [(k, JNat n)])"

definition value_of_stats :: "stats \<Rightarrow> json_value" where
  "value_of_stats s =
     JObject ([(''bytes'', JNat (st_bytes s)), (''duration'', JNat (st_duration s))] @
       unless_zero ''datagrams'' (st_datagrams s) @ unless_zero ''reordered'' (st_reordered s) @
       unless_zero ''jitter'' (st_jitter s) @
       (if st_intervals s = [] then [] else [(''intervals'', JList (map value_of_interval (st_intervals s)))]))"

definition interval_of_value :: "json_value \<Rightarrow> interval_count res" where
  "interval_of_value v =
     and_then (struct_fields [''bytes'', ''datagrams''] v) (\<lambda>m.
     and_then (required m ''bytes'' as_u64) (\<lambda>b.
     and_then (defaulted 0 m ''datagrams'' as_u64) (\<lambda>d.
     Ok \<lparr>iv_bytes = b, iv_datagrams = d\<rparr>)))"

definition intervals_of_value :: "json_value \<Rightarrow> interval_count list option" where
  "intervals_of_value v =
     (case v of
        JList vs \<Rightarrow> (case collect_results interval_of_value vs of Inr is \<Rightarrow> Some is | Inl _ \<Rightarrow> None)
      | _ \<Rightarrow> None)"

definition stats_of_value :: "json_value \<Rightarrow> stats res" where
  "stats_of_value v =
     and_then (struct_fields [''bytes'', ''duration'', ''datagrams'', ''reordered'', ''jitter'', ''intervals''] v) (\<lambda>m.
     and_then (required m ''bytes'' as_u64) (\<lambda>b.
     and_then (required m ''duration'' as_u64) (\<lambda>d.
     and_then (defaulted 0 m ''datagrams'' as_u64) (\<lambda>n.
     and_then (defaulted 0 m ''reordered'' as_u64) (\<lambda>r.
     and_then (defaulted 0 m ''jitter'' as_u64) (\<lambda>j.
     and_then (defaulted [] m ''intervals'' intervals_of_value) (\<lambda>vs.
     Ok \<lparr>st_bytes = b, st_duration = d, st_datagrams = n, st_reordered = r, st_jitter = j, st_intervals = vs\<rparr>)))))))"

section \<open>The control connection\<close>

text \<open>
  What is in the buffer of the \<open>BufReader\<close>, the line so far, the chunks that reads of the stream will
  give, and whether the stream then ends. A read that has nothing to give yet leaves the reader as it is.
\<close>

record control_reader =
  buffered :: "byte list"
  pending_line :: "byte list"
  arrived :: "byte list list"
  closed :: bool

datatype 'a read_poll = Waiting | Ready 'a

definition new_reader :: "byte list list \<Rightarrow> bool \<Rightarrow> control_reader" where
  "new_reader chunks ends = \<lparr>buffered = [], pending_line = [], arrived = chunks, closed = ends\<rparr>"

definition fill_buf :: "control_reader \<Rightarrow> control_reader read_poll" where
  "fill_buf r =
     (if buffered r \<noteq> [] then Ready r
      else case arrived r of
             c # cs \<Rightarrow> Ready (r\<lparr>buffered := c, arrived := cs\<rparr>)
           | [] \<Rightarrow> if closed r then Ready r else Waiting)"

definition line_end :: "byte list \<Rightarrow> nat" where
  "line_end buf =
     (let k = length (takeWhile (\<lambda>b. b \<noteq> 10) buf) in if k < length buf then k + 1 else length buf)"

definition max_line :: nat where
  "max_line = 65536"

definition unread :: "control_reader \<Rightarrow> nat" where
  "unread r = length (buffered r) + length (concat (arrived r))"

lemma fill_buf_unread: "fill_buf r = Ready r' \<Longrightarrow> unread r' = unread r"
  by (auto simp: fill_buf_def unread_def split: if_splits list.splits)

lemma line_end_pos: "buf \<noteq> [] \<Longrightarrow> 0 < line_end buf \<and> line_end buf \<le> length buf"
  by (auto simp: line_end_def Let_def)

text \<open>The bytes of a line, up to the end of the line or of what is there.\<close>

function read_line :: "control_reader \<Rightarrow> control_reader \<times> byte list res read_poll" where
  "read_line r =
     (case fill_buf r of
        Waiting \<Rightarrow> (r, Waiting)
      | Ready r \<Rightarrow>
          if buffered r = [] then (r, Ready (Err ''performance control connection closed''))
          else (let n = line_end (buffered r);
                    line = pending_line r @ take n (buffered r);
                    r' = r\<lparr>pending_line := line, buffered := drop n (buffered r)\<rparr>
                in if max_line < length (pending_line r) + n
                   then (r, Ready (Err ''performance control line is too long''))
                   else if buffered r ! (n - 1) = 10 then (r'\<lparr>pending_line := []\<rparr>, Ready (Ok line))
                   else read_line r'))"
  by pat_completeness auto
termination
proof (relation "measure unread")
  fix r r' n line r''
  assume "fill_buf r = Ready r'" "buffered r' \<noteq> []" and n: "n = line_end (buffered r')"
    and r'': "r'' = r'\<lparr>pending_line := line, buffered := drop n (buffered r')\<rparr>"
  then have "unread r'' < unread r'" using line_end_pos [of "buffered r'"] by (simp add: unread_def)
  then show "(r'', r) \<in> measure unread" using fill_buf_unread \<open>fill_buf r = Ready r'\<close> by simp
qed simp

declare read_line.simps [simp del]

definition read_message :: "json_crate \<Rightarrow> control_reader \<Rightarrow> control_reader \<times> json_value res read_poll" where
  "read_message J r =
     (case read_line r of
        (r, Waiting) \<Rightarrow> (r, Waiting)
      | (r, Ready line) \<Rightarrow> (r, Ready (and_then line (\<lambda>l. ok_or ''invalid JSON'' (json_read J l)))))"

definition control_line :: "json_crate \<Rightarrow> json_value \<Rightarrow> byte list" where
  "control_line J v = json_write J v @ [10]"

section \<open>Sending data\<close>

text \<open>What a task comes to; \<open>Running\<close> when the readings end before it does.\<close>

datatype 'a task = Running | Panicked | Failed error | Done 'a

text \<open>\<open>None\<close> is the panic of a copy between slices of different lengths. \<open>now\<close> is \<open>now_ns\<close>.\<close>

definition header ::
  "byte list \<Rightarrow> nat \<Rightarrow> byte \<Rightarrow> u64 \<Rightarrow> u64 \<Rightarrow> byte list \<Rightarrow> byte list option" where
  "header ident stream flags seq now data =
     (if length ident = 8 \<and> 32 \<le> length data
      then Some (ident @ to_be_bytes 2 (of_nat stream :: u16) @ [flags] @ replicate 5 0 @ to_be_bytes 8 seq @
                 to_be_bytes 8 now @ drop 32 data)
      else None)"

text \<open>\<open>Vec::resize_with\<close> with empty counts.\<close>

definition resize :: "nat \<Rightarrow> interval_count list \<Rightarrow> interval_count list" where
  "resize n xs = take n xs @ replicate (n - length xs) no_interval"

definition add_interval :: "u64 \<Rightarrow> u64 \<Rightarrow> interval_count \<Rightarrow> interval_count" where
  "add_interval b d v = \<lparr>iv_bytes = iv_bytes v + b, iv_datagrams = iv_datagrams v + d\<rparr>"

definition count_interval :: "nat \<Rightarrow> bool \<Rightarrow> nat \<Rightarrow> u64 \<Rightarrow> interval_count list \<Rightarrow> interval_count list" where
  "count_interval n udp elapsed interval ivs =
     (if interval = 0 then ivs
      else let slot = elapsed div unat interval mod 2 ^ 64
           in if slot < 6001
              then let ivs = resize (slot + 1) ivs
                   in ivs[slot := add_interval (of_nat n) (if udp then 1 else 0) (ivs ! slot)]
              else ivs)"

definition count :: "nat \<Rightarrow> bool \<Rightarrow> nat \<Rightarrow> u64 \<Rightarrow> stats \<Rightarrow> stats" where
  "count n udp elapsed interval s =
     s\<lparr>st_bytes := st_bytes s + of_nat n, st_datagrams := st_datagrams s + (if udp then 1 else 0),
       st_intervals := count_interval n udp elapsed interval (st_intervals s)\<rparr>"

text \<open>The clock and the outcome of the write in one turn of the sending loop, and at its end.\<close>

record turn =
  at_check :: nat
  at_header :: u64
  written :: "unit res"
  at_count :: nat

record ending =
  end_elapsed :: nat
  end_header :: u64
  end_written :: "nat \<Rightarrow> unit res"

definition all_sent :: "params \<Rightarrow> nat \<Rightarrow> stats \<Rightarrow> bool" where
  "all_sent p elapsed s =
     (0 < test_bytes p \<and> test_bytes p \<le> st_bytes s \<or>
      test_bytes p = 0 \<and> unat (test_duration p) \<le> elapsed)"

definition pattern :: "params \<Rightarrow> byte list" where
  "pattern p = map of_nat [0..<data_length p]"

text \<open>The bytes the next write sends, which for a datagram stay in the buffer.\<close>

definition next_data ::
  "params \<Rightarrow> bool \<Rightarrow> byte list \<Rightarrow> nat \<Rightarrow> u64 \<Rightarrow> byte list \<Rightarrow> stats \<Rightarrow> byte list option" where
  "next_data p udp ident stream now buf s =
     (if udp then header ident stream 0 (st_datagrams s) now buf
      else Some (take (if 0 < test_bytes p then min (length buf) (unat (test_bytes p - st_bytes s)) else length buf) buf))"

fun send_loop ::
  "params \<Rightarrow> bool \<Rightarrow> byte list \<Rightarrow> nat \<Rightarrow> byte list \<Rightarrow> stats \<Rightarrow> turn list \<Rightarrow> byte list list \<times> stats task" where
  "send_loop p udp ident stream buf s [] = ([], Running)"
| "send_loop p udp ident stream buf s (t # ts) =
     (if all_sent p (at_check t) s then ([], Done s)
      else case next_data p udp ident stream (at_header t) buf s of
             None \<Rightarrow> ([], Panicked)
           | Some data \<Rightarrow>
               (case written t of
                  Inl e \<Rightarrow> ([], Failed e)
                | Inr _ \<Rightarrow>
                    (let (out, r) = send_loop p udp ident stream (if udp then data else buf)
                                      (count (length data) udp (at_count t) (report_interval p) s) ts
                     in (data # out, r))))"

text \<open>Three datagrams that mark the end, or the shutdown of the stream.\<close>

definition send_end ::
  "bool \<Rightarrow> byte list \<Rightarrow> nat \<Rightarrow> ending \<Rightarrow> stats \<Rightarrow> byte list list \<times> stats task" where
  "send_end udp ident stream en s =
     (let s = s\<lparr>st_duration := of_nat (end_elapsed en)\<rparr>
      in if udp then
           (case header ident stream 2 0 (end_header en) (replicate 32 0) of
              None \<Rightarrow> ([], Panicked)
            | Some fin \<Rightarrow>
                (case collect_results (end_written en) [0, 1, 2] of
                   Inl e \<Rightarrow> (replicate (length (takeWhile (\<lambda>i. is_ok (end_written en i)) [0, 1, 2])) fin, Failed e)
                 | Inr _ \<Rightarrow> ([fin, fin, fin], Done s)))
         else (case end_written en 0 of Inl e \<Rightarrow> ([], Failed e) | Inr _ \<Rightarrow> ([], Done s)))"

definition send_data ::
  "params \<Rightarrow> bool \<Rightarrow> byte list \<Rightarrow> nat \<Rightarrow> turn list \<Rightarrow> ending \<Rightarrow> byte list list \<times> stats task" where
  "send_data p udp ident stream ts en =
     (case send_loop p udp ident stream (pattern p) no_stats ts of
        (out, Done s) \<Rightarrow> (let (fins, r) = send_end udp ident stream en s in (out @ fins, r))
      | (out, r) \<Rightarrow> (out, r))"

section \<open>Receiving data\<close>

definition f64_sub :: "f64 \<Rightarrow> f64 \<Rightarrow> f64" where
  "f64_sub x y =
     f64_add x (case y of Nan \<Rightarrow> Nan | Infinite neg \<Rightarrow> Infinite (\<not> neg) | Finite r \<Rightarrow> Finite (- r))"

text \<open>\<open>as u64\<close> saturates.\<close>

definition f64_to_u64 :: "f64 \<Rightarrow> u64" where
  "f64_to_u64 x =
     (case x of
        Nan \<Rightarrow> 0
      | Infinite neg \<Rightarrow> if neg then 0 else -1
      | Finite r \<Rightarrow> if r < 0 then 0 else if 2 ^ 64 - 1 \<le> r then -1 else of_int \<lfloor>r\<rfloor>)"

text \<open>
  What the receiving loop sees: data with the readings of the clock (\<open>now_ns\<close>, the \<open>Instant\<close> that
  may become the first, the one its \<open>elapsed\<close> takes, the elapsed time of the test), the deadline after
  the sender is done, or an error.
\<close>

record reading =
  read_now :: u64
  read_first :: nat
  read_elapsed :: nat
  read_count :: nat

datatype arrival = Data "byte list" reading | Deadline | ReadError error

record receiving =
  rc_stats :: stats
  rc_expected :: u64
  rc_transit :: "int option"
  rc_jitter :: f64
  rc_first :: "nat option"

definition no_receiving :: receiving where
  "no_receiving =
     \<lparr>rc_stats = no_stats, rc_expected = 0, rc_transit = None, rc_jitter = Finite 0, rc_first = None\<rparr>"

definition slice64 :: "nat \<Rightarrow> byte list \<Rightarrow> u64" where
  "slice64 i data = from_be_bytes (take 8 (drop i data))"

definition jitter_step :: "int \<Rightarrow> int option \<Rightarrow> f64 \<Rightarrow> f64" where
  "jitter_step current transit j =
     (case transit of
        None \<Rightarrow> j
      | Some old \<Rightarrow> f64_add j (f64_mul (f64_sub (f64_round (of_int \<bar>current - old\<bar>)) j) (Finite (1 / 16))))"

text \<open>The order and the jitter of a datagram.\<close>

definition track :: "byte list \<Rightarrow> u64 \<Rightarrow> receiving \<Rightarrow> receiving" where
  "track data now r =
     (let seq = slice64 16 data;
          current = int (unat now) - int (unat (slice64 24 data));
          r = (if seq < rc_expected r
               then r\<lparr>rc_stats := (rc_stats r)\<lparr>st_reordered := st_reordered (rc_stats r) + 1\<rparr>\<rparr>
               else r\<lparr>rc_expected := seq + 1\<rparr>)
      in r\<lparr>rc_jitter := jitter_step current (rc_transit r) (rc_jitter r), rc_transit := Some current\<rparr>)"

definition count_data :: "params \<Rightarrow> bool \<Rightarrow> byte list \<Rightarrow> reading \<Rightarrow> receiving \<Rightarrow> receiving" where
  "count_data p udp data t r =
     (let first = (case rc_first r of Some f \<Rightarrow> f | None \<Rightarrow> read_first t);
          s = (rc_stats r)\<lparr>st_duration := of_nat (read_elapsed t - first)\<rparr>
      in r\<lparr>rc_first := Some first, rc_stats := count (length data) udp (read_count t) (report_interval p) s\<rparr>)"

definition received :: "receiving \<Rightarrow> stats" where
  "received r = (rc_stats r)\<lparr>st_jitter := f64_to_u64 (rc_jitter r)\<rparr>"

fun receive_loop :: "params \<Rightarrow> bool \<Rightarrow> byte list \<Rightarrow> receiving \<Rightarrow> arrival list \<Rightarrow> stats task" where
  "receive_loop p udp ident r [] = Running"
| "receive_loop p udp ident r (Deadline # as) = Done (received r)"
| "receive_loop p udp ident r (ReadError e # as) = Failed e"
| "receive_loop p udp ident r (Data data t # as) =
     (if udp then
        if length data < 32 \<or> take 8 data \<noteq> ident then receive_loop p udp ident r as
        else if data ! 10 AND 2 \<noteq> 0 then Done (received r)
        else if data ! 10 AND 1 \<noteq> 0 then receive_loop p udp ident r as
        else receive_loop p udp ident (count_data p udp data t (track data (read_now t) r)) as
      else if data = [] then Done (received r)
      else receive_loop p udp ident (count_data p udp data t r) as)"

definition receive_data :: "params \<Rightarrow> bool \<Rightarrow> byte list \<Rightarrow> arrival list \<Rightarrow> stats task" where
  "receive_data p udp ident as = receive_loop p udp ident no_receiving as"

section \<open>Totals\<close>

definition add_intervals :: "interval_count list \<Rightarrow> interval_count list \<Rightarrow> interval_count list" where
  "add_intervals acc ivs =
     (let acc = resize (max (length acc) (length ivs)) acc
      in map (\<lambda>i. if i < length ivs
                 then add_interval (iv_bytes (ivs ! i)) (iv_datagrams (ivs ! i)) (acc ! i)
                 else acc ! i) [0..<length acc])"

definition combine_step :: "nat \<Rightarrow> stats \<Rightarrow> stats \<Rightarrow> stats" where
  "combine_step n s acc =
     \<lparr>st_bytes = st_bytes acc + st_bytes s, st_duration = max (st_duration acc) (st_duration s),
      st_datagrams = st_datagrams acc + st_datagrams s, st_reordered = st_reordered acc + st_reordered s,
      st_jitter = st_jitter acc + st_jitter s div of_nat n,
      st_intervals = add_intervals (st_intervals acc) (st_intervals s)\<rparr>"

definition combine :: "stats list \<Rightarrow> stats" where
  "combine xs = fold (combine_step (length xs)) xs no_stats"

section \<open>The server\<close>

text \<open>
  A data stream handed over: a TCP or a UDP flow, by the number of its connection. The channel of the
  running test holds at most 128 of them. \<open>slots\<close> is what its handler has collected.
\<close>

datatype perf_flow = TcpFlow nat | UdpFlow nat

record active_test =
  test_id :: string
  test_proto :: string
  test_queue :: "(nat \<times> perf_flow) list"

record perf_server =
  active :: "active_test option"
  slots :: "perf_flow option list"

definition idle_server :: perf_server where
  "idle_server = \<lparr>active = None, slots = []\<rparr>"

definition is_udp :: "perf_flow \<Rightarrow> bool" where
  "is_udp fl = (case fl of UdpFlow _ \<Rightarrow> True | TcpFlow _ \<Rightarrow> False)"

definition attach :: "string \<Rightarrow> nat \<Rightarrow> perf_flow \<Rightarrow> perf_server \<Rightarrow> perf_server" where
  "attach ident i fl s =
     (case active s of
        Some a \<Rightarrow>
          if test_id a = ident \<and> (test_proto a = ''udp'') = is_udp fl \<and> length (test_queue a) < 128
          then s\<lparr>active := Some (a\<lparr>test_queue := test_queue a @ [(i, fl)]\<rparr>)\<rparr> else s
      | None \<Rightarrow> s)"

text \<open>The first datagram of a UDP flow.\<close>

definition udp_first :: "(byte list \<Rightarrow> string) \<Rightarrow> byte list \<Rightarrow> nat \<Rightarrow> perf_server \<Rightarrow> perf_server" where
  "udp_first hex bs conn s =
     (if 32 \<le> length bs
      then attach (hex (take 8 bs)) (unat (from_be_bytes (take 2 (drop 8 bs)) :: u16)) (UdpFlow conn) s else s)"

definition error_reply :: "string \<Rightarrow> json_value" where
  "error_reply m = JObject [(''type'', JText ''error''), (''error'', JText m)]"

definition valid_params :: "json_value \<Rightarrow> params res" where
  "valid_params v = and_then (params_of_value v) (\<lambda>p. and_then (validate p) (\<lambda>_. Ok p))"

text \<open>
  \<open>handle_tcp\<close> up to the answer to the first message: the state, what is written, and the parameters
  when a test begins. \<open>raw\<close> is the random identifier.
\<close>

definition open_control ::
  "(byte list \<Rightarrow> string) \<Rightarrow> byte list \<Rightarrow> nat \<Rightarrow> json_value \<Rightarrow> perf_server \<Rightarrow> perf_server \<times> json_value list \<times> params option res" where
  "open_control hex raw conn first s =
     (if index first ''type'' = JText ''stream'' then
        (attach (case as_str (index first ''id'') of Some i \<Rightarrow> i | None \<Rightarrow> [])
           (unat (case as_u64 (index first ''stream'') of Some n \<Rightarrow> n | None \<Rightarrow> 0)) (TcpFlow conn) s, [], Ok None)
      else if index first ''type'' \<noteq> JText ''hello'' then (s, [], Err ''expected hello'')
      else case valid_params (index first ''params'') of
             Inl (Error m) \<Rightarrow> (s, [error_reply m], Ok None)
           | Inr p \<Rightarrow>
               if active s \<noteq> None then (s, [error_reply ''the server is busy with another test''], Ok None)
               else (\<lparr>active = Some \<lparr>test_id = hex raw, test_proto = proto p, test_queue = []\<rparr>,
                      slots = replicate (streams p) None\<rparr>,
                     [JObject [(''type'', JText ''ok''), (''id'', JText (hex raw))]], Ok (Some p)))"

definition place :: "nat \<times> perf_flow \<Rightarrow> perf_flow option list \<Rightarrow> perf_flow option list" where
  "place x xs = (if fst x < length xs \<and> xs ! fst x = None then xs[fst x := Some (snd x)] else xs)"

text \<open>One turn of the loop that collects the streams; it ends when every slot is taken.\<close>

definition take_flow :: "perf_server \<Rightarrow> perf_server" where
  "take_flow s =
     (if None \<notin> set (slots s) then s
      else case active s of
             None \<Rightarrow> s
           | Some a \<Rightarrow>
               (case test_queue a of
                  [] \<Rightarrow> s
                | x # xs \<Rightarrow> s\<lparr>active := Some (a\<lparr>test_queue := xs\<rparr>), slots := place x (slots s)\<rparr>))"

datatype perf_event =
    ControlOpens "byte list" nat json_value
  | DatagramOpens "byte list" nat
  | TakesFlow
  | TestEnds

fun perf_step :: "(byte list \<Rightarrow> string) \<Rightarrow> perf_event \<Rightarrow> perf_server \<Rightarrow> perf_server \<times> json_value list" where
  "perf_step hex (ControlOpens raw conn first) s =
     (let (s, out, _) = open_control hex raw conn first s in (s, out))"
| "perf_step hex (DatagramOpens bs conn) s = (udp_first hex bs conn s, [])"
| "perf_step hex TakesFlow s = (take_flow s, [])"
| "perf_step hex TestEnds s = (idle_server, [])"

section \<open>A running test\<close>

record run_state =
  senders_left :: nat
  receivers_left :: nat
  sent_stats :: "stats list"
  received_stats :: "stats list"
  local_sent :: "stats option"
  local_received :: "stats option"
  peer_sent :: "stats option"
  peer_received :: "stats option"
  rtts :: "u64 list"
  pending_ping :: "(u64 \<times> nat) option"
  done_at :: "nat option"

definition run_start :: "params \<Rightarrow> bool \<Rightarrow> nat \<Rightarrow> run_state" where
  "run_start p is_server n =
     \<lparr>senders_left = (if sends is_server p then n else 0),
      receivers_left = (if sends (\<not> is_server) p then n else 0), sent_stats = [], received_stats = [],
      local_sent = None, local_received = None, peer_sent = None, peer_received = None, rtts = [],
      pending_ping = None, done_at = None\<rparr>"

definition stats_message :: "string \<Rightarrow> stats \<Rightarrow> json_value" where
  "stats_message kind s = JObject [(''type'', JText kind), (''stats'', value_of_stats (s\<lparr>st_intervals := []\<rparr>))]"

text \<open>The top of the loop: the totals of a side whose tasks have all ended are sent, once.\<close>

definition report_sent :: "params \<Rightarrow> bool \<Rightarrow> run_state \<Rightarrow> run_state \<times> json_value list" where
  "report_sent p is_server s =
     (if sends is_server p \<and> senders_left s = 0 \<and> local_sent s = None
      then let c = combine (sent_stats s) in (s\<lparr>local_sent := Some c\<rparr>, [stats_message ''done'' c])
      else (s, []))"

definition report_received :: "params \<Rightarrow> bool \<Rightarrow> run_state \<Rightarrow> run_state \<times> json_value list" where
  "report_received p is_server s =
     (if sends (\<not> is_server) p \<and> receivers_left s = 0 \<and> local_received s = None
      then let c = combine (received_stats s) in (s\<lparr>local_received := Some c\<rparr>, [stats_message ''result'' c])
      else (s, []))"

definition run_top :: "params \<Rightarrow> bool \<Rightarrow> run_state \<Rightarrow> run_state \<times> json_value list" where
  "run_top p is_server s =
     (let (s, a) = report_sent p is_server s; (s, b) = report_received p is_server s in (s, a @ b))"

definition run_finished :: "params \<Rightarrow> bool \<Rightarrow> run_state \<Rightarrow> bool" where
  "run_finished p is_server s =
     ((sends is_server p \<longrightarrow> local_sent s \<noteq> None \<and> peer_received s \<noteq> None) \<and>
      (sends (\<not> is_server) p \<longrightarrow> local_received s \<noteq> None \<and> peer_sent s \<noteq> None))"

text \<open>
  What \<open>select!\<close> may yield: a task that ends, a message of the control connection at an \<open>Instant\<close>, or
  the tick of the ping timer of the client with \<open>now_ns\<close>. The report on the terminal changes nothing.
\<close>

datatype run_event =
    SenderEnds "stats res"
  | ReceiverEnds "stats res"
  | Control "json_value res" nat
  | PingTick u64 nat

definition pong_received :: "json_value \<Rightarrow> nat \<Rightarrow> run_state \<Rightarrow> run_state" where
  "pong_received m now s =
     (case pending_ping s of
        Some (stamp, since) \<Rightarrow>
          if as_u64 (index m ''t'') = Some stamp
          then s\<lparr>pending_ping := None, rtts := rtts s @ [of_nat (now - since)]\<rparr> else s\<lparr>pending_ping := None\<rparr>
      | None \<Rightarrow> s)"

definition control_message :: "json_value \<Rightarrow> nat \<Rightarrow> run_state \<Rightarrow> (run_state \<times> json_value list) res" where
  "control_message m now s =
     (case as_str (index m ''type'') of
        None \<Rightarrow> Ok (s, [])
      | Some kind \<Rightarrow>
          if kind = ''ping'' then Ok (s, [JObject [(''type'', JText ''pong''), (''t'', index m ''t'')]])
          else if kind = ''pong'' then Ok (pong_received m now s, [])
          else if kind = ''done'' then
            and_then (stats_of_value (index m ''stats'')) (\<lambda>st.
            Ok (s\<lparr>peer_sent := Some st, done_at := Some now\<rparr>, []))
          else if kind = ''result'' then
            and_then (stats_of_value (index m ''stats'')) (\<lambda>st. Ok (s\<lparr>peer_received := Some st\<rparr>, []))
          else if kind = ''error'' then Err ''perf''
          else Ok (s, []))"

text \<open>A branch of \<open>select!\<close> whose condition is false cannot be taken; its event leaves the state as it is.\<close>

fun on_event :: "bool \<Rightarrow> run_event \<Rightarrow> run_state \<Rightarrow> (run_state \<times> json_value list) res" where
  "on_event is_server (SenderEnds r) s =
     (if senders_left s = 0 then Ok (s, [])
      else and_then r (\<lambda>st. Ok (s\<lparr>senders_left := senders_left s - 1, sent_stats := sent_stats s @ [st]\<rparr>, [])))"
| "on_event is_server (ReceiverEnds r) s =
     (if receivers_left s = 0 then Ok (s, [])
      else and_then r (\<lambda>st.
        Ok (s\<lparr>receivers_left := receivers_left s - 1, received_stats := received_stats s @ [st]\<rparr>, [])))"
| "on_event is_server (Control r now) s = and_then r (\<lambda>m. control_message m now s)"
| "on_event is_server (PingTick stamp now) s =
     (if is_server \<or> pending_ping s \<noteq> None then Ok (s, [])
      else Ok (s\<lparr>pending_ping := Some (stamp, now)\<rparr>, [JObject [(''type'', JText ''ping''), (''t'', JNat stamp)]]))"

fun run_loop :: "params \<Rightarrow> bool \<Rightarrow> run_state \<Rightarrow> run_event list \<Rightarrow> json_value list \<times> run_state task" where
  "run_loop p is_server s [] =
     (let (s, out) = run_top p is_server s in (out, if run_finished p is_server s then Done s else Running))"
| "run_loop p is_server s (e # es) =
     (let (s, out) = run_top p is_server s
      in if run_finished p is_server s then (out, Done s)
         else case on_event is_server e s of
                Inl err \<Rightarrow> (out, Failed err)
              | Inr (s, more_out) \<Rightarrow>
                  (let (rest, r) = run_loop p is_server s es in (out @ more_out @ rest, r)))"

definition optional_value :: "string \<Rightarrow> stats option \<Rightarrow> (string \<times> json_value) list" where
  "optional_value k v = (case v of Some s \<Rightarrow> [(k, value_of_stats s)] | None \<Rightarrow> [])"

definition rtt_value :: "u64 list \<Rightarrow> (string \<times> json_value) list" where
  "rtt_value xs =
     (if xs = [] then []
      else [(''rtt'', JObject [(''min'', JNat (Min (set xs))), (''max'', JNat (Max (set xs))),
              (''avg'', JNat (sum_list xs div of_nat (length xs))), (''count'', JNat (of_nat (length xs)))])])"

definition run_result :: "params \<Rightarrow> bool \<Rightarrow> run_state \<Rightarrow> json_value" where
  "run_result p is_server s =
     (let (client_sent, server_sent, client_received, server_received) =
        (if is_server then (peer_sent s, local_sent s, peer_received s, local_received s)
         else (local_sent s, peer_sent s, local_received s, peer_received s))
      in JObject ([(''params'', value_of_params p)] @ optional_value ''clientSent'' client_sent @
           optional_value ''serverSent'' server_sent @ optional_value ''clientReceived'' client_received @
           optional_value ''serverReceived'' server_received @ rtt_value (rtts s)))"

section \<open>The client\<close>

definition hello :: "params \<Rightarrow> json_value" where
  "hello p = JObject [(''type'', JText ''hello''), (''params'', value_of_params p)]"

text \<open>The answer to the hello: the identifier as text and as its eight bytes.\<close>

definition accept_reply :: "(string \<Rightarrow> byte list option) \<Rightarrow> json_value \<Rightarrow> (string \<times> byte list) res" where
  "accept_reply unhex reply =
     (if index reply ''type'' \<noteq> JText ''ok'' then Err ''perf''
      else and_then (ok_or ''missing test ID'' (as_str (index reply ''id''))) (\<lambda>ident.
           and_then (ok_or ''invalid hex'' (unhex ident)) (\<lambda>decoded.
           if length decoded \<noteq> 8 then Err ''invalid test ID'' else Ok (ident, decoded))))"

definition stream_message :: "string \<Rightarrow> nat \<Rightarrow> json_value" where
  "stream_message ident i =
     JObject [(''type'', JText ''stream''), (''id'', JText ident), (''stream'', JNat (of_nat i))]"

definition setup_datagram :: "byte list \<Rightarrow> nat \<Rightarrow> u64 \<Rightarrow> byte list option" where
  "setup_datagram decoded i now = header decoded i 1 0 now (replicate 32 0)"

text \<open>Waiting for \<open>ready\<close>: \<open>Running\<close> when the messages end before it.\<close>

fun await_ready :: "json_value res list \<Rightarrow> unit task" where
  "await_ready [] = Running"
| "await_ready (Inl e # ms) = Failed e"
| "await_ready (Inr m # ms) =
     (if index m ''type'' = JText ''ready'' then Done ()
      else if index m ''type'' = JText ''error'' then Failed (Error ''perf'') else await_ready ms)"

end
