(* ===== verification/PerfProps.thy ===== *)
theory PerfProps
  imports Perf
begin

text \<open>
  The properties of the throughput test: the lines of the control connection whatever the reads, the
  JSON values, what a sender sends and a receiver counts, which streams a test is given, and that a
  test ends.
\<close>

section \<open>The lines of the control connection\<close>

text \<open>All that has arrived and is not yet part of a message.\<close>

definition content :: "control_reader \<Rightarrow> byte list" where
  "content r = pending_line r @ buffered r @ concat (arrived r)"

text \<open>A line so far has no end and is within the limit, and no read gave nothing.\<close>

definition reader_ok :: "control_reader \<Rightarrow> bool" where
  "reader_ok r \<longleftrightarrow> 10 \<notin> set (pending_line r) \<and> length (pending_line r) \<le> max_line \<and> [] \<notin> set (arrived r)"

text \<open>The next line of some bytes, and the bytes after it.\<close>

definition next_line :: "bool \<Rightarrow> byte list \<Rightarrow> byte list \<times> byte list res read_poll" where
  "next_line ends bs =
     (case split_once 10 bs of
        Some (l, rest) \<Rightarrow>
          if max_line \<le> length l then (bs, Ready (Err ''performance control line is too long''))
          else (rest, Ready (Ok (l @ [10])))
      | None \<Rightarrow>
          if max_line < length bs then (bs, Ready (Err ''performance control line is too long''))
          else (bs, if ends then Ready (Err ''performance control connection closed'') else Waiting))"

lemma line_end_split:
  assumes "split_once 10 buf = Some (l, rest)"
  shows "line_end buf = Suc (length l)" "take (Suc (length l)) buf = l @ [10]"
proof -
  from assms have buf: "buf = l @ 10 # rest" "10 \<notin> set l" by (simp_all add: split_once_Some_iff)
  then have "takeWhile (\<lambda>b. b \<noteq> 10) buf = l" by (subst buf(1), subst takeWhile_append2) auto
  with buf(1) show "line_end buf = Suc (length l)" by (simp add: line_end_def)
  show "take (Suc (length l)) buf = l @ [10]" by (simp add: buf(1))
qed

lemma line_end_None: "split_once 10 buf = None \<Longrightarrow> line_end buf = length buf"
proof -
  assume "split_once 10 buf = None"
  then have "takeWhile (\<lambda>b. b \<noteq> 10) buf = buf" by (auto simp: split_once_None_iff takeWhile_eq_all_conv)
  then show ?thesis by (simp only: line_end_def Let_def less_irrefl if_False)
qed

lemma fill_buf_content:
  assumes "fill_buf r = Ready r1" "reader_ok r"
  shows "content r1 = content r \<and> pending_line r1 = pending_line r \<and> closed r1 = closed r \<and> reader_ok r1 \<and>
    (buffered r1 = [] \<longrightarrow> content r = pending_line r \<and> closed r)"
  using assms by (auto simp: fill_buf_def content_def reader_ok_def split: if_splits list.splits)

lemma fill_buf_Waiting: "fill_buf r = Waiting \<Longrightarrow> content r = pending_line r \<and> \<not> closed r"
  by (auto simp: fill_buf_def content_def split: if_splits list.splits)

lemma split_once_skip:
  "c \<notin> set p \<Longrightarrow> split_once c (p @ xs) = map_option (\<lambda>(l, r). (p @ l, r)) (split_once c xs)"
  by (induction p; cases "split_once c xs") auto

lemma split_once_stop:
  "split_once c xs = Some (l, r) \<Longrightarrow> split_once c (xs @ ys) = Some (l, r @ ys)"
  by (auto simp: split_once_Some_iff)

lemma next_line_Nil: "10 \<notin> set p \<Longrightarrow> length p \<le> max_line \<Longrightarrow>
    next_line ends p = (p, if ends then Ready (Err ''performance control connection closed'') else Waiting)"
  using split_once_None_iff [of 10 p] by (simp add: next_line_def)

text \<open>One turn of the loop that finds the end of a line in the buffer, and one that does not.\<close>

lemma next_line_found:
  assumes "reader_ok r" "split_once 10 (buffered r) = Some (l, rest)"
  shows "next_line ends (content r) =
    (if max_line \<le> length (pending_line r) + length l
     then (content r, Ready (Err ''performance control line is too long''))
     else (rest @ concat (arrived r), Ready (Ok (pending_line r @ l @ [10]))))"
  using assms split_once_stop [OF assms(2)]
  by (simp add: next_line_def content_def reader_ok_def split_once_skip)

lemma next_line_long:
  assumes "reader_ok r" "split_once 10 (buffered r) = None"
    "max_line < length (pending_line r) + length (buffered r)"
  shows "next_line ends (content r) = (content r, Ready (Err ''performance control line is too long''))"
proof -
  have "10 \<notin> set (pending_line r @ buffered r)"
    using assms(1,2) by (simp add: reader_ok_def split_once_None_iff)
  then have "split_once 10 (content r) =
      map_option (\<lambda>(l, rest). ((pending_line r @ buffered r) @ l, rest)) (split_once 10 (concat (arrived r)))"
    unfolding content_def append.assoc [symmetric] by (rule split_once_skip)
  with assms(3) show ?thesis
    by (auto simp: next_line_def content_def split: option.splits)
qed

lemma last_nth_in: "xs \<noteq> [] \<Longrightarrow> xs ! (length xs - Suc 0) \<in> set xs"
  by simp

lemma read_line_next_line:
  "reader_ok r \<Longrightarrow> map_prod content id (read_line r) = next_line (closed r) (content r)"
proof (induction r rule: read_line.induct)
  case (1 r)
  show ?case
  proof (cases "fill_buf r")
    case Waiting
    with fill_buf_Waiting [OF Waiting] \<open>reader_ok r\<close> show ?thesis
      by (subst read_line.simps) (simp add: reader_ok_def next_line_Nil)
  next
    case (Ready r1)
    note f = fill_buf_content [OF Ready \<open>reader_ok r\<close>]
    show ?thesis
    proof (cases "buffered r1 = []")
      case True
      with f \<open>reader_ok r\<close> Ready show ?thesis
        by (subst read_line.simps) (simp add: reader_ok_def next_line_Nil)
    next
      case ne: False
      show ?thesis
      proof (cases "split_once 10 (buffered r1)")
        case (Some lr)
        obtain l rest where lr: "lr = (l, rest)" by (cases lr)
        from Some lr line_end_split [of "buffered r1" l rest] f ne Ready
          next_line_found [of r1 l rest "closed r1"]
        show ?thesis
          by (subst read_line.simps) (auto simp: content_def split_once_Some_iff)
      next
        case None
        let ?r = "r1\<lparr>pending_line := pending_line r1 @ buffered r1, buffered := []\<rparr>"
        have n: "line_end (buffered r1) = length (buffered r1)" by (rule line_end_None [OF None])
        have last: "buffered r1 ! (length (buffered r1) - Suc 0) \<noteq> 10"
          using None ne by (metis last_nth_in split_once_None_iff)
        show ?thesis
        proof (cases "max_line < length (pending_line r1) + length (buffered r1)")
          case True
          with f n ne Ready next_line_long [of r1 "closed r1"] None show ?thesis
            by (subst read_line.simps) simp
        next
          case False
          have r1: "reader_ok r1" "pending_line r1 = pending_line r" using f by blast+
          then have ok: "reader_ok ?r" using None False by (simp add: reader_ok_def split_once_None_iff)
          have "content ?r = content r1" by (simp add: content_def)
          moreover have "read_line r = read_line ?r"
            using Ready ne n last False by (subst read_line.simps) simp
          ultimately show ?thesis
            using "1.IH" [OF Ready ne refl refl refl] ok n last False f by simp
        qed
      qed
    qed
  qed
qed

lemma next_line_limits:
  "next_line ends bs = (bs', Ready (Ok l)) \<Longrightarrow> length l \<le> max_line"
  by (auto simp: next_line_def split: option.splits if_splits)

text \<open>Messages read one after the other, until one is not there yet or fails.\<close>

primrec read_times :: "json_crate \<Rightarrow> nat \<Rightarrow> control_reader \<Rightarrow> json_value list \<times> json_value res read_poll" where
  "read_times J 0 r = ([], Waiting)"
| "read_times J (Suc n) r =
     (case read_message J r of
        (r, Ready (Inr v)) \<Rightarrow> (let (vs, x) = read_times J n r in (v # vs, x))
      | (_, x) \<Rightarrow> ([], x))"

lemma read_line_ok:
  assumes "reader_ok r" "read_line r = (r', x)"
  shows "closed r' = closed r \<and> (\<forall>l. x = Ready (Ok l) \<longrightarrow> reader_ok r')"
  using assms
proof (induction r rule: read_line.induct)
  case (1 r)
  show ?case
  proof (cases "fill_buf r")
    case Waiting
    with 1(3) show ?thesis by (simp add: read_line.simps [of r])
  next
    case (Ready r1)
    note f = fill_buf_content [OF Ready 1(2)]
    let ?n = "line_end (buffered r1)"
    let ?r = "r1\<lparr>pending_line := pending_line r1 @ take ?n (buffered r1), buffered := drop ?n (buffered r1)\<rparr>"
    consider "buffered r1 = []" | "buffered r1 \<noteq> []" "max_line < length (pending_line r1) + ?n"
      | "buffered r1 \<noteq> []" "\<not> max_line < length (pending_line r1) + ?n" "buffered r1 ! (?n - 1) = 10"
      | "buffered r1 \<noteq> []" "\<not> max_line < length (pending_line r1) + ?n" "buffered r1 ! (?n - 1) \<noteq> 10" by blast
    then show ?thesis
    proof cases
      case 4
      have "10 \<notin> set (take ?n (buffered r1))"
      proof (cases "split_once 10 (buffered r1)")
        case None
        then show ?thesis by (auto simp: split_once_None_iff dest: in_set_takeD)
      next
        case (Some lr)
        obtain l rest where lr: "lr = (l, rest)" by (cases lr)
        with Some have "buffered r1 ! length l = 10" by (simp add: split_once_Some_iff)
        with 4(3) line_end_split [of "buffered r1" l rest] Some lr show ?thesis by simp
      qed
      then have "reader_ok ?r" using f 4(2) line_end_pos [OF 4(1)] by (auto simp: reader_ok_def)
      moreover have "read_line ?r = (r', x)"
        using 1(3) Ready 4 by (subst (asm) read_line.simps) (simp add: Let_def)
      ultimately show ?thesis using "1.IH" [OF Ready 4(1) refl refl refl 4(2,3)] f by simp
    qed (use 1(3) Ready f in \<open>subst (asm) read_line.simps, auto simp: Let_def reader_ok_def\<close>)+
  qed
qed

lemma read_message_line:
  assumes "json_law J v" "reader_ok r" "content r = control_line J v @ rest" "length (control_line J v) \<le> max_line"
  obtains r' where "read_message J r = (r', Ready (Ok v))" "reader_ok r'" "content r' = rest" "closed r' = closed r"
proof -
  have v: "json_read J (json_write J v @ [10]) = Some v" "10 \<notin> set (json_write J v)"
    using assms(1) by (simp_all add: json_law_def)
  then have "split_once 10 (content r) = Some (json_write J v, rest)"
    using assms(3) by (simp add: control_line_def split_once_Some_iff)
  then have n: "next_line (closed r) (content r) = (rest, Ready (Ok (json_write J v @ [10])))"
    using assms(4) by (simp add: next_line_def control_line_def)
  obtain r' x where rx: "read_line r = (r', x)" by fastforce
  with read_line_next_line [OF assms(2)] n have "content r' = rest" "x = Ready (Ok (json_write J v @ [10]))"
    by simp_all
  moreover from this read_line_ok [OF assms(2) rx] have "reader_ok r'" "closed r' = closed r" by simp_all
  ultimately show ?thesis using that rx v(1) by (simp add: read_message_def)
qed

lemma read_message_rest:
  assumes "reader_ok r" "10 \<notin> set (content r)" "length (content r) \<le> max_line"
  shows "snd (read_message J r) =
    (if closed r then Ready (Err ''performance control connection closed'') else Waiting)"
proof -
  obtain r' x where rx: "read_line r = (r', x)" by fastforce
  have "split_once 10 (content r) = None" using assms(2) by (simp add: split_once_None_iff)
  with read_line_next_line [OF assms(1)] assms(3) rx
  have "x = (if closed r then Ready (Err ''performance control connection closed'') else Waiting)"
    by (simp add: next_line_def)
  with rx show ?thesis by (simp add: read_message_def)
qed

text \<open>
  The reader of the control connection is the reader of lines of its contents: whatever the sizes
  of the reads, and however often a read was abandoned with nothing to give, the next message is
  the next line of what has arrived, the bytes after it are kept, a line over 65536 bytes is an
  error, and an incomplete line is kept until its rest arrives or the connection ends.
\<close>

theorem control_reader_refines_lines:
  assumes "reader_ok r"
  shows "map_prod content id (read_line r) = next_line (closed r) (content r) \<and>
    content (r\<lparr>arrived := arrived r @ [chunk]\<rparr>) = content r @ chunk \<and>
    (chunk \<noteq> [] \<longrightarrow> reader_ok (r\<lparr>arrived := arrived r @ [chunk]\<rparr>)) \<and>
    (\<forall>l. snd (read_line r) = Ready (Ok l) \<longrightarrow> reader_ok (fst (read_line r)))"
  using read_line_next_line [OF assms] read_line_ok [OF assms, of "fst (read_line r)" "snd (read_line r)"] assms
  by (auto simp: content_def reader_ok_def)

lemma control_reader_refines_lines_witness:
  "map_prod content id (read_line (new_reader [[49], [50, 10, 51]] False)) = ([51], Ready (Ok [49, 50, 10]))"
proof -
  have ok: "reader_ok (new_reader [[49], [50, 10, 51]] False)" by (simp add: reader_ok_def new_reader_def)
  have "next_line False [49, 50, 10, 51] = ([51], Ready (Ok [49, 50, 10]))"
    by (simp add: next_line_def max_line_def)
  with control_reader_refines_lines [OF ok, of "[]"] show ?thesis
    by (simp add: content_def new_reader_def)
qed


text \<open>
  Messages written to a control connection, each at most 65536 bytes, are read back as the same
  values in the same order whatever chunks they arrive in; what is left of an unfinished line then
  waits for its end, or is the error of a closed connection.
\<close>

theorem control_messages_roundtrip:
  assumes "list_all (json_law J) vs" "list_all (\<lambda>v. length (control_line J v) \<le> 65536) vs" "[] \<notin> set chunks"
    and "concat chunks = concat (map (control_line J) vs) @ part" "10 \<notin> set part" "length part \<le> 65536"
  shows "read_times J (length vs + 1) (new_reader chunks ends) =
    (vs, if ends then Ready (Err ''performance control connection closed'') else Waiting)"
proof -
  have main: "read_times J (length vs + 1) r =
      (vs, if closed r then Ready (Err ''performance control connection closed'') else Waiting)"
    if "reader_ok r" "content r = concat (map (control_line J) vs) @ part" for r
    using that assms(1,2)
  proof (induction vs arbitrary: r)
    case Nil
    with read_message_rest [of r J] assms(5,6) show ?case
      by (cases "read_message J r") (simp add: max_line_def)
  next
    case (Cons v vs)
    then obtain r' where "read_message J r = (r', Ready (Ok v))" "reader_ok r'"
        "content r' = concat (map (control_line J) vs) @ part" "closed r' = closed r"
      using read_message_line [of J v r] by (auto simp: max_line_def)
    with Cons show ?case by simp
  qed
  have new: "reader_ok (new_reader chunks ends)" "closed (new_reader chunks ends) = ends"
      "content (new_reader chunks ends) = concat (map (control_line J) vs) @ part"
    using assms(3,4) by (simp_all add: new_reader_def content_def reader_ok_def)
  from main [OF new(1,3)] show ?thesis by (simp only: new(2))
qed

definition ref_json :: json_crate where
  "ref_json = \<lparr>json_write = (\<lambda>_. [49]), json_read = (\<lambda>_. Some (JNat 1))\<rparr>"

lemma control_messages_roundtrip_witness:
  "read_times ref_json 3 (new_reader [[49], [10, 49], [10, 49]] False) = ([JNat 1, JNat 1], Waiting)"
proof -
  have law: "list_all (json_law ref_json) [JNat 1, JNat 1]" by (simp add: json_law_def ref_json_def)
  have short: "list_all (\<lambda>v. length (control_line ref_json v) \<le> 65536) [JNat 1, JNat 1]"
    by (simp add: ref_json_def control_line_def)
  have chunks: "concat [[49], [10, 49], [10, 49]] = concat (map (control_line ref_json) [JNat 1, JNat 1]) @ [49]"
    by (simp add: ref_json_def control_line_def)
  from control_messages_roundtrip [OF law short _ chunks, of False] show ?thesis
    by (simp add: numeral_3_eq_3 del: read_times.simps)
qed


section \<open>Values\<close>

lemma struct_fields_object [simp]: "struct_fields names (JObject kvs) = Ok (map_of kvs)"
  by (simp add: struct_fields_def)

lemma required_Some [simp]: "m k = Some v \<Longrightarrow> required m k conv = ok_or ''invalid type'' (conv v)"
  by (simp add: required_def)

lemma conv_simps [simp]: "as_str (JText s) = Some s" "as_u64 (JNat n) = Some n"
  by (simp_all add: as_str_def as_u64_def)

lemma index_simps [simp]: "index (JObject kvs) k = (case map_of kvs k of Some x \<Rightarrow> x | None \<Rightarrow> JNull)"
  by (simp add: index_def)

lemma params_roundtrip:
  assumes "streams p < 2 ^ 64" "data_length p < 2 ^ 64"
  shows "params_of_value (value_of_params p) = Ok p"
  using assms
  by (simp add: params_of_value_def value_of_params_def defaulted_def unat_of_nat)

lemma interval_roundtrip [simp]: "interval_of_value (value_of_interval v) = Ok v"
  by (simp add: interval_of_value_def value_of_interval_def defaulted_def)

lemma intervals_roundtrip [simp]: "intervals_of_value (JList (map value_of_interval vs)) = Some vs"
proof -
  have "collect_results interval_of_value (map value_of_interval vs) = Inr vs"
    by (induction vs) simp_all
  then show ?thesis by (simp add: intervals_of_value_def)
qed

lemma map_of_unless_zero [simp]:
  "map_of (unless_zero k n) = (if n = 0 then Map.empty else [k \<mapsto> JNat n])"
  by (auto simp: unless_zero_def)

lemma stats_roundtrip [simp]: "stats_of_value (value_of_stats s) = Ok s"
  by (simp add: stats_of_value_def value_of_stats_def defaulted_def map_add_def)

lemma validate_Ok_iff:
  "validate p = Ok () \<longleftrightarrow>
     proto p \<in> {''tcp'', ''udp''} \<and> dir p \<in> {''up'', ''down'', ''both''} \<and> 0 < streams p \<and> streams p \<le> 128 \<and>
     (test_bytes p = 0 \<longrightarrow> test_duration p \<noteq> 0 \<and> test_duration p \<le> 600000000000) \<and>
     0 < data_length p \<and> data_length p \<le> 2 ^ 20 \<and>
     (proto p = ''udp'' \<longrightarrow> 32 \<le> data_length p \<and> data_length p \<le> 65507) \<and>
     (report_interval p \<noteq> 0 \<longrightarrow> 100000000 \<le> report_interval p)"
  unfolding validate_def by (simp add: not_less not_le) auto

text \<open>
  What one side of a test writes is what the other side reads: valid parameters of a hello, and the
  totals of a finished side, which travel without their intervals.
\<close>

theorem perf_values_roundtrip:
  assumes "validate p = Ok ()"
  shows "valid_params (index (hello p) ''params'') = Ok p \<and>
    stats_of_value (index (stats_message kind s) ''stats'') = Ok (s\<lparr>st_intervals := []\<rparr>) \<and>
    stats_of_value (value_of_stats s) = Ok s"
proof -
  have "params_of_value (value_of_params p) = Ok p"
    using assms by (intro params_roundtrip) (simp_all add: validate_Ok_iff)
  with assms show ?thesis by (simp add: hello_def valid_params_def stats_message_def)
qed

definition ref_params :: params where
  "ref_params =
     \<lparr>proto = ''tcp'', dir = ''up'', test_duration = 0, test_bytes = 3, streams = 1, data_length = 2, bitrate = 0,
      report_interval = 0\<rparr>"

lemma ref_params_valid: "validate ref_params = Ok ()"
  by (simp add: validate_def ref_params_def)

lemma perf_values_roundtrip_witness:
  "valid_params (index (hello ref_params) ''params'') = Ok ref_params \<and>
   stats_of_value (index (stats_message ''done'' no_stats) ''stats'') = Ok no_stats"
  using perf_values_roundtrip [OF ref_params_valid, of "''done''" no_stats] by (simp add: no_stats_def)


section \<open>What is sent\<close>

lemma header_Some_iff:
  "header ident stream flags seq now data \<noteq> None \<longleftrightarrow> length ident = 8 \<and> 32 \<le> length data"
  by (simp add: header_def)

lemma header_parts:
  assumes "header ident stream flags seq now data = Some d"
  shows "length d = length data" "32 \<le> length d" "take 8 d = ident" "d ! 10 = flags" "slice64 16 d = seq"
    "slice64 24 d = now" "take 2 (drop 8 d) = to_be_bytes 2 (of_nat stream :: u16)"
proof -
  from assms have ident: "length ident = 8" "32 \<le> length data"
    and d: "d = ident @ to_be_bytes 2 (of_nat stream :: u16) @ [flags] @ replicate 5 0 @ to_be_bytes 8 seq @
      to_be_bytes 8 now @ drop 32 data"
    by (simp_all add: header_def split: if_splits)
  show "length d = length data" "32 \<le> length d" "take 8 d = ident" "d ! 10 = flags" "slice64 16 d = seq"
    "slice64 24 d = now" "take 2 (drop 8 d) = to_be_bytes 2 (of_nat stream :: u16)"
    using ident by (simp_all add: d nth_append slice64_def)
qed

text \<open>A datagram of the test with the given sequence number.\<close>

definition data_packet :: "byte list \<Rightarrow> nat \<Rightarrow> u64 \<Rightarrow> byte list \<Rightarrow> bool" where
  "data_packet ident n seq d \<longleftrightarrow>
     32 \<le> length d \<and> length d = n \<and> take 8 d = ident \<and> d ! 10 = 0 \<and> slice64 16 d = seq"

lemma count_simps [simp]:
  "st_bytes (count n udp e i s) = st_bytes s + of_nat n"
  "st_datagrams (count n udp e i s) = st_datagrams s + (if udp then 1 else 0)"
  "st_reordered (count n udp e i s) = st_reordered s"
  by (simp_all add: count_def)

lemma no_stats_simps [simp]:
  "st_bytes no_stats = 0" "st_datagrams no_stats = 0" "st_reordered no_stats = 0"
  by (simp_all add: no_stats_def)

lemma send_loop_counts:
  "send_loop p udp ident stream buf s ts = (out, Done s') \<Longrightarrow>
     st_bytes s' = st_bytes s + of_nat (length (concat out)) \<and>
     st_datagrams s' = st_datagrams s + (if udp then of_nat (length out) else 0) \<and>
     st_reordered s' = st_reordered s \<and>
     (\<exists>elapsed. all_sent p elapsed s')"
proof (induction ts arbitrary: buf s out)
  case Nil
  then show ?case by simp
next
  case (Cons t ts)
  show ?case
  proof (cases "all_sent p (at_check t) s")
    case True
    with Cons.prems show ?thesis by auto
  next
    case False
    with Cons.prems obtain data rest where
      data: "next_data p udp ident stream (at_header t) buf s = Some data" "out = data # rest" and
      rest: "send_loop p udp ident stream (if udp then data else buf)
        (count (length data) udp (at_count t) (report_interval p) s) ts = (rest, Done s')"
      by (auto split: option.splits sum.splits prod.splits)
    from Cons.IH [OF rest] data(2) show ?thesis by (simp add: algebra_simps)
  qed
qed

lemma send_loop_packets:
  "send_loop p True ident stream buf s ts = (out, r) \<Longrightarrow>
     \<forall>i < length out. data_packet ident (length buf) (st_datagrams s + of_nat i) (out ! i)"
proof (induction ts arbitrary: buf s out)
  case Nil
  then show ?case by simp
next
  case (Cons t ts)
  show ?case
  proof (cases "out = []")
    case False
    with Cons.prems obtain d rest where
      d: "header ident stream 0 (st_datagrams s) (at_header t) buf = Some d" "out = d # rest" and
      rest: "send_loop p True ident stream d
        (count (length d) True (at_count t) (report_interval p) s) ts = (rest, r)"
      by (auto simp: next_data_def split: option.splits sum.splits prod.splits if_splits)
    show ?thesis
    proof (intro allI impI)
      fix i assume i: "i < length out"
      show "data_packet ident (length buf) (st_datagrams s + of_nat i) (out ! i)"
      proof (cases i)
        case 0
        with d header_parts [OF d(1)] show ?thesis by (simp add: data_packet_def)
      next
        case (Suc j)
        with Cons.IH [OF rest] i d header_parts(1) [OF d(1)] show ?thesis
          by (simp add: algebra_simps)
      qed
    qed
  qed simp
qed

text \<open>The bytes still to send, and how many turns they take.\<close>

definition bytes_left :: "params \<Rightarrow> stats \<Rightarrow> nat" where
  "bytes_left p s = unat (test_bytes p) - unat (st_bytes s)"

lemma send_loop_returns:
  assumes "0 < test_bytes p" "0 < length buf" "length buf < 2 ^ 64"
    "udp \<Longrightarrow> length ident = 8 \<and> 32 \<le> length buf \<and> unat (test_bytes p) + length buf < 2 ^ 64"
    "list_all (\<lambda>t. written t = Ok ()) ts"
    "bytes_left p s + length buf \<le> length ts * length buf"
    "unat (st_bytes s) < unat (test_bytes p) + (if udp then length buf else 1)"
  shows "\<exists>out s'. send_loop p udp ident stream buf s ts = (out, Done s') \<and>
    unat (st_bytes s') = unat (st_bytes s) + length (concat out) \<and>
    unat (st_bytes s') < unat (test_bytes p) + (if udp then length buf else 1)"
  using assms
proof (induction ts arbitrary: buf s)
  case Nil
  then show ?case by simp
next
  case (Cons t ts)
  show ?case
  proof (cases "all_sent p (at_check t) s")
    case True
    with Cons.prems show ?thesis by simp
  next
    case False
    have lt: "unat (st_bytes s) < unat (test_bytes p)"
      using False Cons.prems(1) by (simp add: all_sent_def word_less_nat_alt word_le_nat_alt)
    let ?n = "if udp then length buf else min (length buf) (unat (test_bytes p - st_bytes s))"
    have diff: "unat (test_bytes p - st_bytes s) = unat (test_bytes p) - unat (st_bytes s)"
      using lt by (simp add: unat_sub word_le_nat_alt)
    obtain data where data: "next_data p udp ident stream (at_header t) buf s = Some data" "length data = ?n"
        "length (if udp then data else buf) = length buf"
    proof (cases udp)
      case True
      with Cons.prems(4) obtain d where "header ident stream 0 (st_datagrams s) (at_header t) buf = Some d"
        using header_Some_iff [of ident stream 0 "st_datagrams s" "at_header t" buf] by auto
      with True that [of d] header_parts(1) show ?thesis by (simp add: next_data_def)
    next
      case False
      with that Cons.prems(1) show ?thesis by (simp add: next_data_def)
    qed
    obtain b where b: "b = (if udp then data else buf)" "length b = length buf" using data(3) by blast
    obtain s1 where s1: "s1 = count (length data) udp (at_count t) (report_interval p) s" by blast
    have n: "0 < ?n" "?n \<le> length buf" using lt diff Cons.prems(2) by auto
    have bound: "unat (st_bytes s) + ?n < 2 ^ 64"
      "unat (st_bytes s) + ?n < unat (test_bytes p) + (if udp then length buf else 1)"
      using Cons.prems(4) lt diff unsigned_less [of "test_bytes p", where ?'a = nat] by auto
    then have bytes: "unat (st_bytes s1) = unat (st_bytes s) + ?n"
      using data(2) s1 by (simp add: unat_word_ariths unat_of_nat)
    have left: "bytes_left p s1 + length buf \<le> length ts * length buf"
    proof (cases "bytes_left p s < length buf")
      case True
      then have "bytes_left p s1 = 0" using bytes lt diff by (auto simp: bytes_left_def)
      moreover have "0 < length ts"
        using Cons.prems(6) lt by (cases ts) (auto simp: bytes_left_def)
      ultimately show ?thesis by (cases ts) simp_all
    next
      case False
      then have "?n = length buf" using diff by (auto simp: bytes_left_def)
      with bytes False Cons.prems(6) show ?thesis by (simp add: bytes_left_def)
    qed
    have "\<exists>out s'. send_loop p udp ident stream b s1 ts = (out, Done s') \<and>
        unat (st_bytes s') = unat (st_bytes s1) + length (concat out) \<and>
        unat (st_bytes s') < unat (test_bytes p) + (if udp then length b else 1)"
    proof (rule Cons.IH)
      show "0 < test_bytes p" "0 < length b" "length b < 2 ^ 64" using Cons.prems(1-3) b(2) by simp_all
      show "length ident = 8 \<and> 32 \<le> length b \<and> unat (test_bytes p) + length b < 2 ^ 64" if udp
        using Cons.prems(4) that b(2) by simp
      show "list_all (\<lambda>t. written t = Ok ()) ts" using Cons.prems(5) by simp
      show "bytes_left p s1 + length b \<le> length ts * length b" using left b(2) by simp
      show "unat (st_bytes s1) < unat (test_bytes p) + (if udp then length b else 1)"
        unfolding bytes b(2) by (rule bound(2))
    qed
    then obtain out s' where "send_loop p udp ident stream b s1 ts = (out, Done s')"
        "unat (st_bytes s') = unat (st_bytes s) + ?n + length (concat out)"
        "unat (st_bytes s') < unat (test_bytes p) + (if udp then length b else 1)" unfolding bytes by blast
    with False data(1,2) Cons.prems(5) b s1 show ?thesis by (auto split: sum.splits)
  qed
qed

lemma length_concat_const: "\<forall>i < length xs. length (xs ! i) = n \<Longrightarrow> length (concat xs) = length xs * n"
proof (induction xs)
  case (Cons x xs)
  then have "length x = n" "\<forall>i < length xs. length (xs ! i) = n" by fastforce+
  with Cons.IH show ?case by simp
qed simp

lemma send_end_Done:
  assumes "udp \<Longrightarrow> length ident = 8" "\<And>i. end_written en i = Ok ()"
  shows "\<exists>fins s'. send_end udp ident stream en s = (fins, Done s') \<and> length fins = (if udp then 3 else 0) \<and>
    st_bytes s' = st_bytes s \<and> st_datagrams s' = st_datagrams s"
  using assms header_Some_iff [of ident stream 2 0 "end_header en" "replicate 32 0"]
  by (auto simp: send_end_def Let_def)

text \<open>
  A sender with a byte limit ends, after as many successful writes as the limit takes: over TCP it has
  then sent exactly the limit, over UDP the least number of full datagrams that reaches it, numbered
  from zero under the identifier of the test, and three datagrams that mark the end; its statistics
  count exactly what it sent.
\<close>

theorem perf_sender_exact:
  assumes "validate p = Ok ()" "0 < test_bytes p"
    "udp \<Longrightarrow> length ident = 8 \<and> 32 \<le> data_length p \<and> unat (test_bytes p) + data_length p < 2 ^ 64"
    "list_all (\<lambda>t. written t = Ok ()) ts" "unat (test_bytes p) + data_length p \<le> length ts * data_length p"
    "\<And>i. end_written en i = Ok ()"
  shows "\<exists>out fins s. send_data p udp ident stream ts en = (out @ fins, Done s) \<and>
    unat (st_bytes s) = length (concat out) \<and>
    (if udp
     then length fins = 3 \<and> st_datagrams s = of_nat (length out) \<and>
       (\<forall>i < length out. data_packet ident (data_length p) (of_nat i) (out ! i)) \<and>
       unat (test_bytes p) \<le> length out * data_length p \<and>
       length out * data_length p < unat (test_bytes p) + data_length p
     else fins = [] \<and> length (concat out) = unat (test_bytes p))"
proof -
  have len: "length (pattern p) = data_length p" by (simp add: pattern_def)
  have L: "0 < data_length p" "data_length p < 2 ^ 64" using assms(1) by (simp_all add: validate_Ok_iff)
  have "\<exists>out s. send_loop p udp ident stream (pattern p) no_stats ts = (out, Done s) \<and>
      unat (st_bytes s) = unat (st_bytes no_stats) + length (concat out) \<and>
      unat (st_bytes s) < unat (test_bytes p) + (if udp then length (pattern p) else 1)"
    by (rule send_loop_returns) (use assms L in \<open>auto simp: len bytes_left_def no_stats_def word_less_nat_alt\<close>)
  then obtain out s where loop: "send_loop p udp ident stream (pattern p) no_stats ts = (out, Done s)"
    and bytes: "unat (st_bytes s) = length (concat out)"
    and bound: "unat (st_bytes s) < unat (test_bytes p) + (if udp then data_length p else 1)"
    unfolding len by auto
  from send_loop_counts [OF loop] assms(2) have reached: "unat (test_bytes p) \<le> length (concat out)"
    and datagrams: "udp \<Longrightarrow> st_datagrams s = of_nat (length out)"
    using bytes by (auto simp: all_sent_def no_stats_def word_le_nat_alt)
  obtain fins s' where fins: "send_end udp ident stream en s = (fins, Done s')" "length fins = (if udp then 3 else 0)"
      "st_bytes s' = st_bytes s" "st_datagrams s' = st_datagrams s"
    using send_end_Done [of udp ident en stream s] assms(3,6) by auto
  have "send_data p udp ident stream ts en = (out @ fins, Done s')"
    using loop fins(1) by (simp add: send_data_def)
  moreover have "if udp
     then length fins = 3 \<and> st_datagrams s' = of_nat (length out) \<and>
       (\<forall>i < length out. data_packet ident (data_length p) (of_nat i) (out ! i)) \<and>
       unat (test_bytes p) \<le> length out * data_length p \<and>
       length out * data_length p < unat (test_bytes p) + data_length p
     else fins = [] \<and> length (concat out) = unat (test_bytes p)"
  proof (cases udp)
    case True
    with send_loop_packets [of p ident stream "pattern p" no_stats ts out "Done s"] loop
    have packets: "\<forall>i < length out. data_packet ident (data_length p) (of_nat i) (out ! i)"
      by (simp add: len no_stats_def)
    then have "length (concat out) = length out * data_length p"
      by (intro length_concat_const) (simp add: data_packet_def)
    with True packets fins datagrams reached bound bytes show ?thesis by simp
  next
    case False
    with fins(2) reached bound bytes show ?thesis by simp
  qed
  ultimately show ?thesis using bytes fins(3) by (intro exI conjI) auto
qed

definition ref_turn :: turn where
  "ref_turn = \<lparr>at_check = 0, at_header = 0, written = Ok (), at_count = 0\<rparr>"

definition ref_ending :: ending where
  "ref_ending = \<lparr>end_elapsed = 9, end_header = 0, end_written = (\<lambda>_. Ok ())\<rparr>"

lemma perf_sender_exact_witness:
  "\<exists>out s. send_data ref_params False [] 0 [ref_turn, ref_turn, ref_turn] ref_ending = (out, Done s) \<and>
     length (concat out) = 3"
  using perf_sender_exact [OF ref_params_valid, of False "[]" "[ref_turn, ref_turn, ref_turn]" ref_ending 0]
  by (auto simp: ref_params_def ref_turn_def ref_ending_def)


section \<open>What is counted\<close>

definition counted :: "nat \<Rightarrow> nat \<Rightarrow> receiving \<Rightarrow> receiving \<Rightarrow> bool" where
  "counted b n r r' \<longleftrightarrow>
     st_bytes (rc_stats r') = st_bytes (rc_stats r) + of_nat b \<and>
     st_datagrams (rc_stats r') = st_datagrams (rc_stats r) + of_nat n \<and>
     st_reordered (rc_stats r') = st_reordered (rc_stats r)"

lemma count_data_counted:
  "counted (length data) (if udp then 1 else 0) r (count_data p udp data t r)"
  "rc_expected (count_data p udp data t r) = rc_expected r"
  by (simp_all add: counted_def count_data_def Let_def)

lemma counted_trans: "counted a m r r' \<Longrightarrow> counted b n r' r'' \<Longrightarrow> counted (a + b) (m + n) r r''"
  by (simp add: counted_def algebra_simps)

lemma track_in_order:
  assumes "slice64 16 data = rc_expected r"
  shows "counted 0 0 r (track data now r) \<and> rc_expected (track data now r) = rc_expected r + 1"
  using assms by (simp add: track_def counted_def Let_def)

lemma receive_packets:
  assumes "\<forall>i < length ds. data_packet ident n (of_nat (k + i)) (ds ! i)" "rc_expected r = of_nat k"
    "length rs = length ds"
  shows "\<exists>r'. receive_loop p True ident r (map2 Data ds rs @ as) = receive_loop p True ident r' as \<and>
    counted (length (concat ds)) (length ds) r r'"
  using assms
proof (induction ds arbitrary: k r rs)
  case Nil
  then show ?case by (intro exI [of _ r]) (simp add: counted_def)
next
  case (Cons d ds)
  from Cons.prems(3) obtain t ts where rs: "rs = t # ts" by (cases rs) auto
  have d: "data_packet ident n (of_nat k) d" using Cons.prems(1) by fastforce
  let ?r = "count_data p True d t (track d (read_now t) r)"
  have track: "counted 0 0 r (track d (read_now t) r)" "rc_expected (track d (read_now t) r) = of_nat k + 1"
    using track_in_order [of d r "read_now t"] d Cons.prems(2) by (simp_all add: data_packet_def)
  have "counted (length d) 1 r ?r"
    using counted_trans [OF track(1) count_data_counted(1) [of d True "track d (read_now t) r" p t]] by simp
  moreover have "\<exists>r'. receive_loop p True ident ?r (map2 Data ds ts @ as) = receive_loop p True ident r' as \<and>
      counted (length (concat ds)) (length ds) ?r r'"
  proof (rule Cons.IH)
    show "\<forall>i < length ds. data_packet ident n (of_nat (Suc k + i)) (ds ! i)"
      using Cons.prems(1) by (metis Suc_less_eq add_Suc_shift length_Cons nth_Cons_Suc)
    show "rc_expected ?r = of_nat (Suc k)" using track(2) by (simp add: count_data_counted(2))
    show "length ts = length ds" using Cons.prems(3) rs by simp
  qed
  ultimately show ?case
    using d counted_trans [of "length d" 1 r ?r] unfolding rs
    by (fastforce simp: data_packet_def)
qed

lemma receive_chunks:
  assumes "[] \<notin> set cs" "length rs = length cs"
  shows "\<exists>r'. receive_loop p False ident r (map2 Data cs rs @ as) = receive_loop p False ident r' as \<and>
    counted (length (concat cs)) 0 r r'"
  using assms
proof (induction cs arbitrary: r rs)
  case Nil
  then show ?case by (intro exI [of _ r]) (simp add: counted_def)
next
  case (Cons c cs)
  from Cons.prems(2) obtain t ts where rs: "rs = t # ts" by (cases rs) auto
  let ?r = "count_data p False c t r"
  obtain r' where "receive_loop p False ident ?r (map2 Data cs ts @ as) = receive_loop p False ident r' as"
      "counted (length (concat cs)) 0 ?r r'"
    using Cons.IH [of ts ?r] Cons.prems rs by auto
  with counted_trans [OF count_data_counted(1) [of c False r p t], of "length (concat cs)" 0 r'] Cons.prems(1)
  show ?case unfolding rs by (intro exI [of _ r']) auto
qed

lemma counted_start:
  "counted b n no_receiving r \<Longrightarrow>
     st_bytes (received r) = of_nat b \<and> st_datagrams (received r) = of_nat n \<and> st_reordered (received r) = 0"
  by (simp add: counted_def no_receiving_def received_def)

lemma send_data_Done:
  assumes "send_data p udp ident stream ts en = (sent, Done s)"
  obtains out fins s1 where "send_loop p udp ident stream (pattern p) no_stats ts = (out, Done s1)"
    "sent = out @ fins" "st_bytes s = st_bytes s1" "st_datagrams s = st_datagrams s1"
    "if udp then \<exists>fin. fins = [fin, fin, fin] \<and> header ident stream 2 0 (end_header en) (replicate 32 0) = Some fin
     else fins = []"
  using assms
  by (auto simp: send_data_def send_end_def Let_def split: prod.splits task.splits option.splits sum.splits if_splits)


definition ref_reading :: reading where
  "ref_reading = \<lparr>read_now = 0, read_first = 0, read_elapsed = 0, read_count = 0\<rparr>"



section \<open>The streams of a test\<close>

fun perf_run :: "(byte list \<Rightarrow> string) \<Rightarrow> perf_event list \<Rightarrow> perf_server \<Rightarrow> perf_server" where
  "perf_run hex [] s = s"
| "perf_run hex (e # es) s = perf_run hex es (fst (perf_step hex e s))"

text \<open>A flow that asked for this index of the test with this identifier and protocol.\<close>

definition presented ::
  "(byte list \<Rightarrow> string) \<Rightarrow> perf_event list \<Rightarrow> string \<Rightarrow> string \<Rightarrow> nat \<Rightarrow> perf_flow \<Rightarrow> bool" where
  "presented hex es ident pr i fl \<longleftrightarrow>
     (case fl of
        TcpFlow c \<Rightarrow> pr \<noteq> ''udp'' \<and> (\<exists>raw first. ControlOpens raw c first \<in> set es \<and>
          index first ''type'' = JText ''stream'' \<and>
          (case as_str (index first ''id'') of Some x \<Rightarrow> x | None \<Rightarrow> []) = ident \<and>
          unat (case as_u64 (index first ''stream'') of Some n \<Rightarrow> n | None \<Rightarrow> 0) = i)
      | UdpFlow c \<Rightarrow> pr = ''udp'' \<and> (\<exists>bs. DatagramOpens bs c \<in> set es \<and> 32 \<le> length bs \<and>
          hex (take 8 bs) = ident \<and> unat (from_be_bytes (take 2 (drop 8 bs)) :: u16) = i))"

text \<open>The test was opened by a hello with valid parameters.\<close>

definition opened :: "(byte list \<Rightarrow> string) \<Rightarrow> perf_event list \<Rightarrow> active_test \<Rightarrow> nat \<Rightarrow> bool" where
  "opened hex es a n \<longleftrightarrow>
     (\<exists>raw conn first p. ControlOpens raw conn first \<in> set es \<and> index first ''type'' = JText ''hello'' \<and>
        valid_params (index first ''params'') = Ok p \<and> test_id a = hex raw \<and> test_proto a = proto p \<and>
        streams p = n)"

definition slots_ok ::
  "(byte list \<Rightarrow> string) \<Rightarrow> perf_event list \<Rightarrow> active_test \<Rightarrow> perf_flow option list \<Rightarrow> bool" where
  "slots_ok hex es a xs \<longleftrightarrow>
     (\<forall>i fl. i < length xs \<longrightarrow> xs ! i = Some fl \<longrightarrow> presented hex es (test_id a) (test_proto a) i fl)"

definition queue_ok :: "(byte list \<Rightarrow> string) \<Rightarrow> perf_event list \<Rightarrow> active_test \<Rightarrow> bool" where
  "queue_ok hex es a \<longleftrightarrow>
     length (test_queue a) \<le> 128 \<and>
     (\<forall>(i, fl) \<in> set (test_queue a). presented hex es (test_id a) (test_proto a) i fl)"

definition server_ok :: "(byte list \<Rightarrow> string) \<Rightarrow> perf_event list \<Rightarrow> perf_server \<Rightarrow> bool" where
  "server_ok hex es s \<longleftrightarrow>
     (\<forall>a. active s = Some a \<longrightarrow>
        opened hex es a (length (slots s)) \<and> slots_ok hex es a (slots s) \<and> queue_ok hex es a)"

lemma attach_ok:
  assumes "server_ok hex es s"
    "\<And>a. active s = Some a \<Longrightarrow> (test_proto a = ''udp'') = is_udp fl \<Longrightarrow> test_id a = ident \<Longrightarrow>
      presented hex es (test_id a) (test_proto a) i fl"
  shows "server_ok hex es (attach ident i fl s)"
proof (cases "active s")
  case None
  with assms(1) show ?thesis by (simp add: attach_def)
next
  case (Some a)
  with assms show ?thesis
    by (auto simp: attach_def server_ok_def opened_def slots_ok_def queue_ok_def)
qed

lemma place_ok:
  assumes "slots_ok hex es a xs" "presented hex es (test_id a) (test_proto a) i fl"
  shows "slots_ok hex es a (place (i, fl) xs)"
  using assms by (auto simp: slots_ok_def place_def nth_list_update)

lemma take_flow_ok: "server_ok hex es s \<Longrightarrow> server_ok hex es (take_flow s)"
proof -
  assume ok: "server_ok hex es s"
  show ?thesis
  proof (cases "None \<in> set (slots s) \<and> active s \<noteq> None")
    case False
    with ok show ?thesis by (auto simp: take_flow_def)
  next
    case True
    then obtain a where a: "active s = Some a" "None \<in> set (slots s)" by auto
    show ?thesis
    proof (cases "test_queue a")
      case Nil
      with a ok show ?thesis by (simp add: take_flow_def)
    next
      case (Cons x xs)
      obtain i fl where x: "x = (i, fl)" by (cases x)
      let ?a = "a\<lparr>test_queue := xs\<rparr>"
      from ok a have oka: "opened hex es a (length (slots s))" "slots_ok hex es a (slots s)" "queue_ok hex es a"
        by (auto simp: server_ok_def)
      have p: "presented hex es (test_id a) (test_proto a) i fl"
        using oka(3) Cons x by (simp add: queue_ok_def)
      have "slots_ok hex es ?a (place (i, fl) (slots s))"
        using place_ok [OF oka(2) p] by (simp add: slots_ok_def)
      moreover have "opened hex es ?a (length (place (i, fl) (slots s)))"
        using oka(1) by (simp add: opened_def place_def)
      moreover have "queue_ok hex es ?a" using oka(3) Cons by (simp add: queue_ok_def)
      ultimately show ?thesis using a Cons x by (simp add: take_flow_def server_ok_def)
    qed
  qed
qed

lemma open_control_ok:
  assumes "server_ok hex es s" "ControlOpens raw conn first \<in> set es"
  shows "server_ok hex es (fst (open_control hex raw conn first s))"
proof -
  consider (stream) "index first ''type'' = JText ''stream''"
    | (hello) p where "index first ''type'' = JText ''hello''" "valid_params (index first ''params'') = Ok p"
        "active s = None"
    | (same) "index first ''type'' \<noteq> JText ''stream''" "index first ''type'' = JText ''hello'' \<longrightarrow>
        active s \<noteq> None \<or> (\<exists>m. valid_params (index first ''params'') = Inl (Error m))"
    by (metis error.exhaust sum.exhaust)
  then show ?thesis
  proof cases
    case stream
    then have "fst (open_control hex raw conn first s) =
        attach (case as_str (index first ''id'') of Some x \<Rightarrow> x | None \<Rightarrow> [])
          (unat (case as_u64 (index first ''stream'') of Some n \<Rightarrow> n | None \<Rightarrow> 0)) (TcpFlow conn) s"
      by (simp add: open_control_def)
    moreover have "server_ok hex es (attach (case as_str (index first ''id'') of Some x \<Rightarrow> x | None \<Rightarrow> [])
          (unat (case as_u64 (index first ''stream'') of Some n \<Rightarrow> n | None \<Rightarrow> 0)) (TcpFlow conn) s)"
      by (rule attach_ok [OF assms(1)]) (use stream assms(2) in \<open>auto simp: presented_def is_udp_def\<close>)
    ultimately show ?thesis by simp
  next
    case hello
    then have "fst (open_control hex raw conn first s) =
        \<lparr>active = Some \<lparr>test_id = hex raw, test_proto = proto p, test_queue = []\<rparr>, slots = replicate (streams p) None\<rparr>"
      by (simp add: open_control_def)
    with hello assms(2) show ?thesis
      by (auto simp: server_ok_def opened_def slots_ok_def queue_ok_def)
  next
    case same
    then have "fst (open_control hex raw conn first s) = s"
      by (auto simp: open_control_def split: sum.splits error.splits)
    with assms(1) show ?thesis by simp
  qed
qed

lemma perf_step_ok:
  assumes "server_ok hex es s" "e \<in> set es"
  shows "server_ok hex es (fst (perf_step hex e s))"
proof (cases e)
  case (ControlOpens raw conn first)
  have "fst (perf_step hex (ControlOpens raw conn first) s) = fst (open_control hex raw conn first s)"
    by (simp add: split_beta)
  with ControlOpens open_control_ok [OF assms(1)] assms(2) show ?thesis by simp
next
  case (DatagramOpens bs conn)
  have "server_ok hex es (udp_first hex bs conn s)"
    unfolding udp_first_def
    using assms DatagramOpens by (auto intro!: attach_ok simp: presented_def is_udp_def)
  with DatagramOpens show ?thesis by simp
next
  case TakesFlow
  with take_flow_ok [OF assms(1)] show ?thesis by simp
next
  case TestEnds
  then show ?thesis by (simp add: server_ok_def idle_server_def)
qed

lemma perf_run_ok:
  "server_ok hex es s \<Longrightarrow> set es' \<subseteq> set es \<Longrightarrow> server_ok hex es (perf_run hex es' s)"
  by (induction es' arbitrary: s) (simp_all add: perf_step_ok)

lemma busy_refuses:
  assumes "active s = Some a" "index first ''type'' = JText ''hello''"
  shows "\<exists>m. perf_step hex (ControlOpens raw conn first) s = (s, [error_reply m])"
  using assms by (cases "valid_params (index first ''params'')") (auto simp: open_control_def split: error.splits)

text \<open>
  C31. A server runs one test at a time, opened by a hello with valid parameters; its slots are as many as the
  streams asked for, at most 128, and each holds a flow of the protocol of the test that presented
  its random identifier and that very index. While it runs every other hello is answered with an error
  and changes nothing.
\<close>

theorem perf_server_policy:
  assumes "perf_run hex es idle_server = s" "active s = Some a"
  shows "(\<exists>raw conn first p. ControlOpens raw conn first \<in> set es \<and> index first ''type'' = JText ''hello'' \<and>
      valid_params (index first ''params'') = Ok p \<and> test_id a = hex raw \<and> test_proto a = proto p \<and>
      length (slots s) = streams p \<and> streams p \<le> 128) \<and>
    (\<forall>i fl. i < length (slots s) \<longrightarrow> slots s ! i = Some fl \<longrightarrow> presented hex es (test_id a) (test_proto a) i fl) \<and>
    (\<forall>raw conn first. index first ''type'' = JText ''hello'' \<longrightarrow>
       (\<exists>m. perf_step hex (ControlOpens raw conn first) s = (s, [error_reply m])))"
proof -
  have "server_ok hex es s"
    unfolding assms(1) [symmetric] by (rule perf_run_ok) (simp_all add: server_ok_def idle_server_def)
  then have ok: "opened hex es a (length (slots s))" "slots_ok hex es a (slots s)"
    using assms(2) by (auto simp: server_ok_def)
  have "streams p \<le> 128" if "valid_params v = Ok p" for v p
    using that by (auto simp: valid_params_def result_simps validate_Ok_iff)
  with ok(1) have "\<exists>raw conn first p. ControlOpens raw conn first \<in> set es \<and> index first ''type'' = JText ''hello'' \<and>
      valid_params (index first ''params'') = Ok p \<and> test_id a = hex raw \<and> test_proto a = proto p \<and>
      length (slots s) = streams p \<and> streams p \<le> 128"
    unfolding opened_def by metis
  with ok(2) busy_refuses [OF assms(2)] show ?thesis by (simp add: slots_ok_def)
qed

lemma perf_server_policy_witness:
  "\<exists>a. active (perf_run (\<lambda>_. ''ab'') [ControlOpens [] 7 (hello ref_params)] idle_server) = Some a \<and>
     test_id a = ''ab'' \<and>
     length (slots (perf_run (\<lambda>_. ''ab'') [ControlOpens [] 7 (hello ref_params)] idle_server)) \<le> 128"
proof -
  let ?s = "perf_run (\<lambda>_. ''ab'') [ControlOpens [] 7 (hello ref_params)] idle_server"
  have v: "valid_params (index (hello ref_params) ''params'') = Ok ref_params"
    using params_roundtrip [of ref_params] ref_params_valid
    by (simp add: hello_def valid_params_def) (simp add: ref_params_def)
  then have a: "active ?s = Some \<lparr>test_id = ''ab'', test_proto = proto ref_params, test_queue = []\<rparr>"
    by (simp add: open_control_def hello_def idle_server_def)
  from perf_server_policy [OF refl a] a show ?thesis by auto
qed


section \<open>A test ends\<close>

definition is_kind :: "string \<Rightarrow> run_event \<Rightarrow> bool" where
  "is_kind kind e = (case e of Control (Inr m) _ \<Rightarrow> as_str (index m ''type'') = Some kind | _ \<Rightarrow> False)"

text \<open>No task failed, the connection holds, and no message reports an error or has malformed totals.\<close>

definition healthy :: "run_event \<Rightarrow> bool" where
  "healthy e =
     (case e of
        SenderEnds r \<Rightarrow> is_ok r
      | ReceiverEnds r \<Rightarrow> is_ok r
      | Control (Inl err) _ \<Rightarrow> False
      | Control (Inr m) _ \<Rightarrow>
          as_str (index m ''type'') \<noteq> Some ''error'' \<and>
          (as_str (index m ''type'') \<in> {Some ''done'', Some ''result''} \<longrightarrow> is_ok (stats_of_value (index m ''stats'')))
      | PingTick _ _ \<Rightarrow> True)"

definition sender_ends :: "run_event list \<Rightarrow> nat" where
  "sender_ends es = length (filter (\<lambda>e. case e of SenderEnds _ \<Rightarrow> True | _ \<Rightarrow> False) es)"

definition receiver_ends :: "run_event list \<Rightarrow> nat" where
  "receiver_ends es = length (filter (\<lambda>e. case e of ReceiverEnds _ \<Rightarrow> True | _ \<Rightarrow> False) es)"

lemma ends_Cons [simp]:
  "sender_ends [] = 0" "receiver_ends [] = 0"
  "sender_ends (e # es) = (case e of SenderEnds _ \<Rightarrow> Suc (sender_ends es) | _ \<Rightarrow> sender_ends es)"
  "receiver_ends (e # es) = (case e of ReceiverEnds _ \<Rightarrow> Suc (receiver_ends es) | _ \<Rightarrow> receiver_ends es)"
  by (simp_all add: sender_ends_def receiver_ends_def split: run_event.splits)

text \<open>The events still bring what the loop waits for.\<close>

definition supplied :: "params \<Rightarrow> bool \<Rightarrow> run_state \<Rightarrow> run_event list \<Rightarrow> bool" where
  "supplied p sv s es \<longleftrightarrow>
     (sends sv p \<longrightarrow> senders_left s \<le> sender_ends es \<and> (peer_received s \<noteq> None \<or> list_ex (is_kind ''result'') es)) \<and>
     (sends (\<not> sv) p \<longrightarrow> receivers_left s \<le> receiver_ends es \<and> (peer_sent s \<noteq> None \<or> list_ex (is_kind ''done'') es))"

lemma run_top_parts:
  assumes "run_top p sv s = (s1, out)"
  shows "senders_left s1 = senders_left s" "receivers_left s1 = receivers_left s"
    "peer_received s1 = peer_received s" "peer_sent s1 = peer_sent s"
    "sent_stats s1 = sent_stats s" "received_stats s1 = received_stats s"
    "local_sent s1 = (if sends sv p \<and> senders_left s = 0 \<and> local_sent s = None
       then Some (combine (sent_stats s)) else local_sent s)"
    "local_received s1 = (if sends (\<not> sv) p \<and> receivers_left s = 0 \<and> local_received s = None
       then Some (combine (received_stats s)) else local_received s)"
    "out = (if sends sv p \<and> senders_left s = 0 \<and> local_sent s = None
       then [stats_message ''done'' (combine (sent_stats s))] else []) @
      (if sends (\<not> sv) p \<and> receivers_left s = 0 \<and> local_received s = None
       then [stats_message ''result'' (combine (received_stats s))] else [])"
  using assms by (auto simp: run_top_def report_sent_def report_received_def Let_def split: if_splits)

lemma pong_received_parts [simp]:
  "senders_left (pong_received m now s) = senders_left s" "receivers_left (pong_received m now s) = receivers_left s"
  "sent_stats (pong_received m now s) = sent_stats s" "received_stats (pong_received m now s) = received_stats s"
  "local_sent (pong_received m now s) = local_sent s" "local_received (pong_received m now s) = local_received s"
  "peer_sent (pong_received m now s) = peer_sent s" "peer_received (pong_received m now s) = peer_received s"
  by (simp_all add: pong_received_def split: option.splits)

text \<open>What a control message changes, whatever it is.\<close>

definition same_tasks :: "run_state \<Rightarrow> run_state \<Rightarrow> bool" where
  "same_tasks s s1 \<longleftrightarrow>
     senders_left s1 = senders_left s \<and> receivers_left s1 = receivers_left s \<and> sent_stats s1 = sent_stats s \<and>
     received_stats s1 = received_stats s \<and> local_sent s1 = local_sent s \<and> local_received s1 = local_received s"

lemma same_tasks_refl [simp]: "same_tasks s s"
  by (simp add: same_tasks_def)

definition peer_after :: "string \<Rightarrow> json_value \<Rightarrow> stats option \<Rightarrow> stats option" where
  "peer_after kind m old =
     (if as_str (index m ''type'') = Some kind
      then (case stats_of_value (index m ''stats'') of Inr st \<Rightarrow> Some st | Inl _ \<Rightarrow> None) else old)"

lemma control_message_Ok:
  assumes "control_message m now s = Ok (s1, out)"
  shows "same_tasks s s1" "peer_sent s1 = peer_after ''done'' m (peer_sent s)"
    "peer_received s1 = peer_after ''result'' m (peer_received s)"
    "\<forall>x \<in> set out. as_str (index x ''type'') = Some ''pong''"
proof -
  show "same_tasks s s1"
    using assms by (auto simp: control_message_def same_tasks_def result_simps split: option.splits if_splits)
  show "peer_sent s1 = peer_after ''done'' m (peer_sent s)"
    using assms by (auto simp: control_message_def peer_after_def result_simps split: option.splits if_splits)
  show "peer_received s1 = peer_after ''result'' m (peer_received s)"
    using assms by (auto simp: control_message_def peer_after_def result_simps split: option.splits if_splits)
  show "\<forall>x \<in> set out. as_str (index x ''type'') = Some ''pong''"
    using assms by (auto simp: control_message_def result_simps split: option.splits if_splits)
qed

lemma healthy_control: "healthy (Control (Inr m) now) \<Longrightarrow> is_ok (control_message m now s)"
  by (cases "stats_of_value (index m ''stats'')")
    (auto simp: healthy_def control_message_def split: option.splits)

lemma healthy_is_ok: "healthy e \<Longrightarrow> is_ok (on_event sv e s)"
proof (cases e)
  case (Control r now)
  then show "healthy e \<Longrightarrow> ?thesis" using healthy_control [of _ now s] by (cases r) (auto simp: healthy_def)
qed (auto simp: healthy_def is_ok_iff)

lemma healthy_event:
  assumes "healthy e"
  obtains s1 out where "on_event sv e s = Ok (s1, out)"
  using healthy_is_ok [OF assms, of sv s] that by (cases "on_event sv e s") auto

lemma peer_after_healthy:
  "healthy (Control (Inr m) now) \<Longrightarrow> kind \<in> {''done'', ''result''} \<Longrightarrow>
     peer_after kind m old \<noteq> None \<longleftrightarrow> old \<noteq> None \<or> is_kind kind (Control (Inr m) now)"
  by (auto simp: healthy_def peer_after_def is_kind_def result_simps split: sum.splits if_splits)

lemma on_event_supplied:
  assumes "supplied p sv s (e # es)" "on_event sv e s = Ok (s1, out)" "healthy e"
  shows "supplied p sv s1 es"
proof (cases e)
  case (SenderEnds r)
  with assms show ?thesis
    by (cases r) (auto simp: supplied_def is_kind_def split: if_splits)
next
  case (ReceiverEnds r)
  with assms show ?thesis
    by (cases r) (auto simp: supplied_def is_kind_def split: if_splits)
next
  case (Control r now)
  with assms(3) obtain m where r: "r = Inr m" by (cases r) (auto simp: healthy_def)
  with assms(2) Control have "control_message m now s = Ok (s1, out)" by simp
  note c = control_message_Ok [OF this]
  have h: "healthy (Control (Inr m) now)" using assms(3) Control r by simp
  show ?thesis
    using assms(1) c(1) peer_after_healthy [OF h, of "''done''"] peer_after_healthy [OF h, of "''result''"]
    unfolding supplied_def c(2,3) same_tasks_def Control r by auto
next
  case (PingTick stamp now)
  with assms show ?thesis by (auto simp: supplied_def is_kind_def split: if_splits)
qed

lemma run_loop_done:
  "list_all healthy es \<Longrightarrow> supplied p sv s es \<Longrightarrow> \<exists>out s'. run_loop p sv s es = (out, Done s')"
proof (induction es arbitrary: s)
  case Nil
  obtain s1 out where top: "run_top p sv s = (s1, out)" by fastforce
  note t = run_top_parts [OF top]
  have "run_finished p sv s1"
    using Nil.prems(2) t by (auto simp: run_finished_def supplied_def)
  with top show ?case by simp
next
  case (Cons e es)
  obtain s1 out where top: "run_top p sv s = (s1, out)" by fastforce
  show ?case
  proof (cases "run_finished p sv s1")
    case True
    with top show ?thesis by simp
  next
    case False
    have sup: "supplied p sv s1 (e # es)"
      using Cons.prems(2) run_top_parts [OF top] by (simp add: supplied_def)
    obtain s2 out2 where ev: "on_event sv e s1 = Ok (s2, out2)"
      using Cons.prems(1) healthy_event [of e sv s1] by auto
    with on_event_supplied [OF sup ev] Cons.prems(1) Cons.IH [of s2]
    obtain rest s' where "run_loop p sv s2 es = (rest, Done s')" by auto
    with top False ev show ?thesis by simp
  qed
qed

text \<open>The totals of a side are those of its tasks, once all have ended.\<close>

definition run_ok :: "params \<Rightarrow> bool \<Rightarrow> nat \<Rightarrow> run_state \<Rightarrow> bool" where
  "run_ok p sv n s \<longleftrightarrow>
     (sends sv p \<longrightarrow> length (sent_stats s) + senders_left s = n) \<and>
     (sends (\<not> sv) p \<longrightarrow> length (received_stats s) + receivers_left s = n) \<and>
     (local_sent s \<noteq> None \<longrightarrow> local_sent s = Some (combine (sent_stats s)) \<and> senders_left s = 0) \<and>
     (local_received s \<noteq> None \<longrightarrow> local_received s = Some (combine (received_stats s)) \<and> receivers_left s = 0)"

lemma run_ok_start: "run_ok p sv n (run_start p sv n)"
  by (simp add: run_ok_def run_start_def)

lemma run_ok_top: "run_ok p sv n s \<Longrightarrow> run_top p sv s = (s1, out) \<Longrightarrow> run_ok p sv n s1"
  using run_top_parts [of p sv s s1 out] by (auto simp: run_ok_def)

text \<open>What an event leaves of the totals, and what it may write.\<close>

lemma on_event_Ok:
  assumes "on_event sv e s = Ok (s1, out)"
  shows "local_sent s1 = local_sent s" "local_received s1 = local_received s"
    "senders_left s = 0 \<Longrightarrow> sent_stats s1 = sent_stats s \<and> senders_left s1 = 0"
    "receivers_left s = 0 \<Longrightarrow> received_stats s1 = received_stats s \<and> receivers_left s1 = 0"
    "length (sent_stats s1) + senders_left s1 = length (sent_stats s) + senders_left s"
    "length (received_stats s1) + receivers_left s1 = length (received_stats s) + receivers_left s"
    "\<forall>x \<in> set out. as_str (index x ''type'') \<in> {Some ''ping'', Some ''pong''}"
proof -
  have *: "local_sent s1 = local_sent s \<and> local_received s1 = local_received s \<and>
    (senders_left s = 0 \<longrightarrow> sent_stats s1 = sent_stats s \<and> senders_left s1 = 0) \<and>
    (receivers_left s = 0 \<longrightarrow> received_stats s1 = received_stats s \<and> receivers_left s1 = 0) \<and>
    length (sent_stats s1) + senders_left s1 = length (sent_stats s) + senders_left s \<and>
    length (received_stats s1) + receivers_left s1 = length (received_stats s) + receivers_left s \<and>
    (\<forall>x \<in> set out. as_str (index x ''type'') \<in> {Some ''ping'', Some ''pong''})"
  proof (cases e)
    case (Control r now)
    with assms obtain m where "control_message m now s = Ok (s1, out)" by (auto simp: result_simps)
    from control_message_Ok [OF this] show ?thesis by (simp add: same_tasks_def)
  qed (use assms in \<open>auto simp: result_simps split: if_splits\<close>)
  then show "local_sent s1 = local_sent s" "local_received s1 = local_received s"
    "senders_left s = 0 \<Longrightarrow> sent_stats s1 = sent_stats s \<and> senders_left s1 = 0"
    "receivers_left s = 0 \<Longrightarrow> received_stats s1 = received_stats s \<and> receivers_left s1 = 0"
    "length (sent_stats s1) + senders_left s1 = length (sent_stats s) + senders_left s"
    "length (received_stats s1) + receivers_left s1 = length (received_stats s) + receivers_left s"
    "\<forall>x \<in> set out. as_str (index x ''type'') \<in> {Some ''ping'', Some ''pong''}"
    by blast+
qed

lemma run_ok_event: "run_ok p sv n s \<Longrightarrow> on_event sv e s = Ok (s1, out) \<Longrightarrow> run_ok p sv n s1"
  using on_event_Ok [of sv e s s1 out] by (auto simp: run_ok_def)

definition totals_sent :: "string \<Rightarrow> stats option \<Rightarrow> stats option \<Rightarrow> json_value list \<Rightarrow> bool" where
  "totals_sent kind before after out \<longleftrightarrow>
     (before \<noteq> None \<longrightarrow> after = before) \<and>
     (before = None \<longrightarrow> (\<forall>c. after = Some c \<longrightarrow> stats_message kind c \<in> set out)) \<and>
     (\<forall>x \<in> set out. as_str (index x ''type'') = Some kind \<longrightarrow> (\<exists>c. after = Some c \<and> x = stats_message kind c))"

lemma totals_sent_trans:
  assumes "totals_sent kind a b out" "totals_sent kind b c out'"
  shows "totals_sent kind a c (out @ out')"
  using assms unfolding totals_sent_def by (cases b; cases a) auto

lemma totals_sent_none:
  "\<forall>x \<in> set out. as_str (index x ''type'') \<noteq> Some kind \<Longrightarrow> totals_sent kind a a out"
  by (auto simp: totals_sent_def)

lemma stats_message_kind [simp]: "as_str (index (stats_message k c) ''type'') = Some k"
  by (simp add: stats_message_def)

lemma run_top_totals:
  assumes "run_top p sv s = (s1, out)"
  shows "totals_sent ''done'' (local_sent s) (local_sent s1) out \<and>
    totals_sent ''result'' (local_received s) (local_received s1) out"
  using run_top_parts(7-9) [OF assms] by (auto simp: totals_sent_def)

lemma run_loop_totals:
  assumes "run_ok p sv n s" "run_loop p sv s es = (out, Done s')"
  shows "run_ok p sv n s' \<and> run_finished p sv s' \<and> totals_sent ''done'' (local_sent s) (local_sent s') out \<and>
    totals_sent ''result'' (local_received s) (local_received s') out"
  using assms
proof (induction es arbitrary: s out)
  case Nil
  obtain s1 o1 where top: "run_top p sv s = (s1, o1)" by fastforce
  with Nil.prems have "s' = s1" "out = o1" "run_finished p sv s1" by (auto split: if_splits)
  with run_ok_top [OF Nil.prems(1) top] run_top_totals [OF top] show ?case by simp
next
  case (Cons e es)
  obtain s1 o1 where top: "run_top p sv s = (s1, o1)" by fastforce
  note ok1 = run_ok_top [OF Cons.prems(1) top] and t1 = run_top_totals [OF top]
  show ?case
  proof (cases "run_finished p sv s1")
    case True
    with Cons.prems(2) top ok1 t1 show ?thesis by simp
  next
    case False
    with Cons.prems(2) top obtain s2 o2 rest where ev: "on_event sv e s1 = Ok (s2, o2)"
        and loop: "run_loop p sv s2 es = (rest, Done s')" and out: "out = o1 @ o2 @ rest"
      by (auto split: sum.splits prod.splits)
    note e = on_event_Ok [OF ev]
    have t2: "totals_sent ''done'' (local_sent s1) (local_sent s2) o2"
        "totals_sent ''result'' (local_received s1) (local_received s2) o2"
      using e(7) unfolding e(1,2) by (auto intro!: totals_sent_none)
    from Cons.IH [OF run_ok_event [OF ok1 ev] loop] t1 t2 show ?thesis
      unfolding out by (blast intro: totals_sent_trans)
  qed
qed

text \<open>Where the totals of the other side come from.\<close>

definition said :: "string \<Rightarrow> run_event list \<Rightarrow> stats \<Rightarrow> bool" where
  "said kind es st \<longleftrightarrow>
     (\<exists>m now. Control (Inr m) now \<in> set es \<and> as_str (index m ''type'') = Some kind \<and>
        stats_of_value (index m ''stats'') = Inr st)"

lemma on_event_peer:
  assumes "on_event sv e s = Ok (s1, out)"
  shows "(peer_sent s1 = peer_sent s \<or> (\<forall>st. peer_sent s1 = Some st \<longrightarrow> said ''done'' [e] st)) \<and>
    (peer_received s1 = peer_received s \<or> (\<forall>st. peer_received s1 = Some st \<longrightarrow> said ''result'' [e] st))"
proof (cases e)
  case (Control r now)
  with assms obtain m where m: "r = Inr m" "control_message m now s = Ok (s1, out)" by (auto simp: result_simps)
  from control_message_Ok(2,3) [OF m(2)] Control m(1) show ?thesis
    by (auto simp: peer_after_def said_def split: sum.splits if_splits)
qed (use assms in \<open>auto simp: result_simps split: if_splits\<close>)

lemma run_loop_peer:
  assumes "run_loop p sv s es = (out, Done s')"
  shows "(peer_sent s' = peer_sent s \<or> (\<forall>st. peer_sent s' = Some st \<longrightarrow> said ''done'' es st)) \<and>
    (peer_received s' = peer_received s \<or> (\<forall>st. peer_received s' = Some st \<longrightarrow> said ''result'' es st))"
  using assms
proof (induction es arbitrary: s out)
  case Nil
  obtain s1 o1 where top: "run_top p sv s = (s1, o1)" by fastforce
  with Nil run_top_parts [OF top] show ?case by (auto split: if_splits)
next
  case (Cons e es)
  obtain s1 o1 where top: "run_top p sv s = (s1, o1)" by fastforce
  note t = run_top_parts(3,4) [OF top]
  show ?case
  proof (cases "run_finished p sv s1")
    case True
    with Cons.prems top t show ?thesis by simp
  next
    case False
    with Cons.prems top obtain s2 o2 rest where ev: "on_event sv e s1 = Ok (s2, o2)"
        and loop: "run_loop p sv s2 es = (rest, Done s')"
      by (auto split: sum.splits prod.splits)
    have mono: "said kind [e] st \<Longrightarrow> said kind (e # es) st" "said kind es st \<Longrightarrow> said kind (e # es) st" for kind st
      by (auto simp: said_def)
    from Cons.IH [OF loop] on_event_peer [OF ev] mono show ?thesis unfolding t by metis
  qed
qed

lemma run_finished_start:
  assumes "run_loop p sv (run_start p sv n) es = (out, Done s)"
  shows "sends sv p \<Longrightarrow> length (sent_stats s) = n \<and> local_sent s = Some (combine (sent_stats s)) \<and>
      stats_message ''done'' (combine (sent_stats s)) \<in> set out \<and> (\<exists>st. peer_received s = Some st \<and> said ''result'' es st)"
    "sends (\<not> sv) p \<Longrightarrow> length (received_stats s) = n \<and> local_received s = Some (combine (received_stats s)) \<and>
      stats_message ''result'' (combine (received_stats s)) \<in> set out \<and> (\<exists>st. peer_sent s = Some st \<and> said ''done'' es st)"
    "\<forall>x \<in> set out. as_str (index x ''type'') = Some ''done'' \<longrightarrow> x = stats_message ''done'' (combine (sent_stats s))"
    "\<forall>x \<in> set out. as_str (index x ''type'') = Some ''result'' \<longrightarrow> x = stats_message ''result'' (combine (received_stats s))"
proof -
  have start: "local_sent (run_start p sv n) = None" "local_received (run_start p sv n) = None"
      "peer_sent (run_start p sv n) = None" "peer_received (run_start p sv n) = None"
    by (simp_all add: run_start_def)
  have t: "run_ok p sv n s" "run_finished p sv s" "totals_sent ''done'' None (local_sent s) out"
      "totals_sent ''result'' None (local_received s) out"
    using run_loop_totals [OF run_ok_start assms] unfolding start by blast+
  have peer: "peer_sent s = Some st \<Longrightarrow> said ''done'' es st" "peer_received s = Some st \<Longrightarrow> said ''result'' es st" for st
    using run_loop_peer [OF assms] unfolding start by auto
  have sent: "local_sent s = Some x \<Longrightarrow> x = combine (sent_stats s) \<and> senders_left s = 0" for x
    using t(1) by (simp add: run_ok_def)
  have rcvd: "local_received s = Some x \<Longrightarrow> x = combine (received_stats s) \<and> receivers_left s = 0" for x
    using t(1) by (simp add: run_ok_def)
  show "length (sent_stats s) = n \<and> local_sent s = Some (combine (sent_stats s)) \<and>
      stats_message ''done'' (combine (sent_stats s)) \<in> set out \<and> (\<exists>st. peer_received s = Some st \<and> said ''result'' es st)"
    if a: "sends sv p"
  proof -
    from t(2) a obtain x st where x: "local_sent s = Some x" "peer_received s = Some st"
      by (auto simp: run_finished_def)
    with sent [OF x(1)] t(1,3) a peer(2) [OF x(2)] show ?thesis by (simp add: run_ok_def totals_sent_def)
  qed
  show "length (received_stats s) = n \<and> local_received s = Some (combine (received_stats s)) \<and>
      stats_message ''result'' (combine (received_stats s)) \<in> set out \<and> (\<exists>st. peer_sent s = Some st \<and> said ''done'' es st)"
    if a: "sends (\<not> sv) p"
  proof -
    from t(2) a obtain x st where x: "local_received s = Some x" "peer_sent s = Some st"
      by (auto simp: run_finished_def)
    with rcvd [OF x(1)] t(1,4) a peer(1) [OF x(2)] show ?thesis by (simp add: run_ok_def totals_sent_def)
  qed
  show "\<forall>x \<in> set out. as_str (index x ''type'') = Some ''done'' \<longrightarrow> x = stats_message ''done'' (combine (sent_stats s))"
    using t(3) sent unfolding totals_sent_def by metis
  show "\<forall>x \<in> set out. as_str (index x ''type'') = Some ''result'' \<longrightarrow> x = stats_message ''result'' (combine (received_stats s))"
    using t(4) rcvd unfolding totals_sent_def by metis
qed




lemma said_by:
  assumes "said kind es st" "\<forall>m now. Control (Inr m) now \<in> set es \<longrightarrow> m \<in> set out"
    "\<forall>x \<in> set out. as_str (index x ''type'') = Some kind \<longrightarrow> x = stats_message kind c"
  shows "st = c\<lparr>st_intervals := []\<rparr>"
proof -
  from assms obtain m where "m = stats_message kind c" "stats_of_value (index m ''stats'') = Inr st"
    unfolding said_def by blast
  then show ?thesis by (simp add: stats_message_def)
qed

text \<open>
  The two sides of a finished test agree: when each has heard only messages that the other wrote, the
  result of each holds, for every direction of the test, the totals that the sending side and the
  receiving side computed, up to the intervals, which do not travel.
\<close>

theorem perf_sides_agree:
  assumes "run_loop p False (run_start p False n) es_c = (out_c, Done c)"
    and "run_loop p True (run_start p True n) es_s = (out_s, Done s)"
    and "\<forall>m now. Control (Inr m) now \<in> set es_c \<longrightarrow> m \<in> set out_s"
    and "\<forall>m now. Control (Inr m) now \<in> set es_s \<longrightarrow> m \<in> set out_c"
  shows "(sends False p \<longrightarrow> local_sent c = Some (combine (sent_stats c)) \<and>
        peer_sent s = Some ((combine (sent_stats c))\<lparr>st_intervals := []\<rparr>) \<and>
        local_received s = Some (combine (received_stats s)) \<and>
        peer_received c = Some ((combine (received_stats s))\<lparr>st_intervals := []\<rparr>)) \<and>
    (sends True p \<longrightarrow> local_sent s = Some (combine (sent_stats s)) \<and>
        peer_sent c = Some ((combine (sent_stats s))\<lparr>st_intervals := []\<rparr>) \<and>
        local_received c = Some (combine (received_stats c)) \<and>
        peer_received s = Some ((combine (received_stats c))\<lparr>st_intervals := []\<rparr>))"
proof -
  note c = run_finished_start [OF assms(1)] and s = run_finished_start [OF assms(2)]
  have c_done: "peer_sent s = Some ((combine (sent_stats c))\<lparr>st_intervals := []\<rparr>)" if "sends False p"
  proof -
    have "sends (\<not> True) p" using that by simp
    from s(2) [OF this] obtain st where "peer_sent s = Some st" "said ''done'' es_s st" by blast
    with said_by [OF this(2) assms(4) c(3)] show ?thesis by simp
  qed
  have s_result: "peer_received c = Some ((combine (received_stats s))\<lparr>st_intervals := []\<rparr>)" if "sends False p"
  proof -
    from c(1) [OF that] obtain st where "peer_received c = Some st" "said ''result'' es_c st" by blast
    with said_by [OF this(2) assms(3) s(4)] show ?thesis by simp
  qed
  have s_done: "peer_sent c = Some ((combine (sent_stats s))\<lparr>st_intervals := []\<rparr>)" if "sends True p"
  proof -
    have "sends (\<not> False) p" using that by simp
    from c(2) [OF this] obtain st where "peer_sent c = Some st" "said ''done'' es_c st" by blast
    with said_by [OF this(2) assms(3) s(3)] show ?thesis by simp
  qed
  have c_result: "peer_received s = Some ((combine (received_stats c))\<lparr>st_intervals := []\<rparr>)" if "sends True p"
  proof -
    from s(1) [OF that] obtain st where "peer_received s = Some st" "said ''result'' es_s st" by blast
    with said_by [OF this(2) assms(4) c(4)] show ?thesis by simp
  qed
  from c(1,2) s(1,2) c_done s_result s_done c_result show ?thesis by simp
qed

lemma perf_sides_agree_witness:
  "\<exists>out_c c out_s s.
     run_loop ref_params False (run_start ref_params False 1)
       [SenderEnds (Ok no_stats), Control (Ok (stats_message ''result'' no_stats)) 5] = (out_c, Done c) \<and>
     run_loop ref_params True (run_start ref_params True 1)
       [ReceiverEnds (Ok no_stats), Control (Ok (stats_message ''done'' no_stats)) 5] = (out_s, Done s) \<and>
     peer_sent s = Some ((combine (sent_stats c))\<lparr>st_intervals := []\<rparr>)"
proof -
  have c: "fst (run_loop ref_params False (run_start ref_params False 1)
       [SenderEnds (Ok no_stats), Control (Ok (stats_message ''result'' no_stats)) 5]) =
       [stats_message ''done'' no_stats]" by code_simp
  have s: "fst (run_loop ref_params True (run_start ref_params True 1)
       [ReceiverEnds (Ok no_stats), Control (Ok (stats_message ''done'' no_stats)) 5]) =
       [stats_message ''result'' no_stats]" by code_simp
  obtain out_c c where rc: "run_loop ref_params False (run_start ref_params False 1)
       [SenderEnds (Ok no_stats), Control (Ok (stats_message ''result'' no_stats)) 5] = (out_c, Done c)"
    using run_loop_done [of "[SenderEnds (Ok no_stats), Control (Ok (stats_message ''result'' no_stats)) 5]"
        ref_params False "run_start ref_params False 1"]
    by (auto simp: healthy_def is_kind_def sends_def ref_params_def stats_message_def supplied_def run_start_def)
  obtain out_s s where rs: "run_loop ref_params True (run_start ref_params True 1)
       [ReceiverEnds (Ok no_stats), Control (Ok (stats_message ''done'' no_stats)) 5] = (out_s, Done s)"
    using run_loop_done [of "[ReceiverEnds (Ok no_stats), Control (Ok (stats_message ''done'' no_stats)) 5]"
        ref_params True "run_start ref_params True 1"]
    by (auto simp: healthy_def is_kind_def sends_def ref_params_def stats_message_def supplied_def run_start_def)
  have up: "sends False ref_params" by (simp add: sends_def ref_params_def)
  from perf_sides_agree [OF rc rs] c s rc rs up show ?thesis by auto
qed


end
