(* ===== verification/Clients.thy ===== *)
theory Clients
  imports CliQuoting CliKeys Perf
begin

text \<open>
  The client commands (\<open>src/cli/clients.rs\<close>) and the choice of the command to run
  (\<open>src/cli/mod.rs\<close>): the target of a pipe, the rounds of \<open>ping\<close>, the mappings of \<open>forward\<close>, the
  arguments given to \<open>ssh\<close> and \<open>scp\<close>, the lines of \<open>ls\<close>, the parameters of \<open>perf\<close> and its refusal to
  test through a shared relay.

  Connecting, dialing and running programs are the arguments' part; what is modelled is what the
  commands decide before and with it.
\<close>

section \<open>The command to run\<close>

datatype client_command =
    PrintHelp | Serve | Pipe | Ping | Socks | RunSsh | Cp | Ls | Forward | Browse | PerfTest | Genkey | ParseAddr
  | ResolveAddr | PrintPub | Version | Readme | UnknownCommand

definition dispatch_of :: "args \<Rightarrow> client_command" where
  "dispatch_of a =
     (let c = subcommand a
      in if help_flag a then PrintHelp
         else if c = ''serve'' \<or> c = ''recv'' then Serve
         else if c = [] \<and> (positional a = [] \<or> serve_flag a \<noteq> []) then Serve
         else if c = [] then Pipe
         else if c = ''ping'' then Ping
         else if c = ''socks'' then Socks
         else if c = ''ssh'' then RunSsh
         else if c = ''cp'' then Cp
         else if c = ''ls'' then Ls
         else if c = ''forward'' then Forward
         else if c = ''browse'' then Browse
         else if c = ''perf'' then PerfTest
         else if c = ''genkey'' then Genkey
         else if c = ''parse'' then ParseAddr
         else if c = ''resolve'' then ResolveAddr
         else if c = ''printpub'' then PrintPub
         else if c = ''version'' then Version
         else if c = ''readme'' then Readme
         else UnknownCommand)"

definition has_part :: "string \<Rightarrow> string \<Rightarrow> bool" where
  "has_part s part = list_ex (\<lambda>i. starts_with (drop i s) part) [0..<Suc (length s)]"

text \<open>The errors that print the help of the command.\<close>

definition is_usage_error :: "string \<Rightarrow> bool" where
  "is_usage_error m =
     list_ex (has_part m)
       [''requires'', ''takes '', ''must be'', ''mutually exclusive'', ''probably a mistake'', ''positional'',
        ''use either'', ''no remote'', ''all remote'', ''invalid port'', ''mapping '']"

text \<open>The command whose help is printed when the arguments do not parse, and the exit code.\<close>

definition named_command :: "string list \<Rightarrow> string" where
  "named_command input = (case find (\<lambda>a. a \<in> set commands) input of Some c \<Rightarrow> c | None \<Rightarrow> [])"

fun exit_code :: "unit res \<Rightarrow> int" where
  "exit_code (Inl _) = 1"
| "exit_code (Inr _) = 0"

section \<open>Pipes\<close>

datatype pipe_dest = ToPort u16 | ToSock sock_addr

definition pipe_target :: "net_text \<Rightarrow> args \<Rightarrow> pipe_dest res" where
  "pipe_target T a =
     (if positional a = [] \<or> 2 < length (positional a) then Err ''client mode takes <tc-addr> [<port>]''
      else let dest = (case positional a of [_, d] \<Rightarrow> d | _ \<Rightarrow> ''1'')
           in if CHR '':'' \<in> set dest
              then and_then (ok_or ''invalid IP:port'' (parse_sock T dest)) (\<lambda>s. Ok (ToSock s))
              else and_then (context_of ''invalid port number'' (decimal_port dest True)) (\<lambda>p. Ok (ToPort p)))"

section \<open>Ping\<close>

text \<open>
  One round of \<open>ping\<close>: the deadline came first, the ping failed, or it was answered, with the region of
  the relay and the endpoint of a direct path, and the time left to the deadline afterwards.
\<close>

datatype ping_round = RoundTimedOut | RoundFailed error | RoundAnswered "sock_addr option" i64 nat

definition via_text :: "net_text \<Rightarrow> (i64 \<Rightarrow> string) \<Rightarrow> sock_addr option \<Rightarrow> i64 \<Rightarrow> string" where
  "via_text T show_i64 ep region =
     (case ep of None \<Rightarrow> ''DERP('' @ show_i64 region @ '')'' | Some e \<Rightarrow> show_sock T e)"

text \<open>The \<open>via\<close> of the lines printed, and how the command ends; \<open>None\<close> when the rounds end first.\<close>

fun ping_rounds :: "net_text \<Rightarrow> (i64 \<Rightarrow> string) \<Rightarrow> bool \<Rightarrow> ping_round list \<Rightarrow> string list \<times> unit res option" where
  "ping_rounds T sh until [] = ([], None)"
| "ping_rounds T sh until (RoundTimedOut # rs) =
     ([], Some (if until then Err ''no direct path to the server'' else Err ''ping timed out''))"
| "ping_rounds T sh until (RoundFailed e # rs) = ([], Some (Inl e))"
| "ping_rounds T sh until (RoundAnswered ep region left # rs) =
     (let line = via_text T sh ep region
      in if ep \<noteq> None \<or> \<not> until then ([line], Some (Ok ()))
         else if left < 500000000 then ([line], Some (Err ''no direct path to the server''))
         else (let (ls, r) = ping_rounds T sh until rs in (line # ls, r)))"

section \<open>Forwarding\<close>

definition browse_args :: "args \<Rightarrow> args res" where
  "browse_args a =
     (if length (positional a) \<noteq> 1 then Err ''browse requires one <tc-addr>''
      else Ok (a\<lparr>open_browser := True, positional := positional a @ [''0:80'']\<rparr>))"

text \<open>
  The mappings, in order; \<open>bind\<close> binds a listener, and the first mapping that is wrong or cannot be bound
  is the error.
\<close>

definition forward_plan ::
  "net_text \<Rightarrow> (string \<Rightarrow> unit res) \<Rightarrow> args \<Rightarrow> (string \<times> forward_spec list) res" where
  "forward_plan T bind a =
     (if length (positional a) < 2 then Err ''forward takes a <tc-addr> and at least one port mapping''
      else if open_browser a \<and> length (positional a) \<noteq> 2 then Err ''--open-browser requires exactly one port mapping''
      else and_then
             (collect_results
               (\<lambda>spec.
                 and_then (context_of ''mapping is invalid'' (parse_forward_spec T (bind_flag a) spec)) (\<lambda>m.
                 and_then (context_of ''listen'' (bind (listen_addr m))) (\<lambda>_. Ok m)))
               (tl (positional a)))
             (\<lambda>ms. Ok (hd (positional a), ms)))"

text \<open>What a connection accepted on a mapping dials.\<close>

definition forward_dial :: "forward_spec \<Rightarrow> pipe_dest" where
  "forward_dial m = (case forward_target m of Some ap \<Rightarrow> ToSock ap | None \<Rightarrow> ToPort (forward_port m))"

section \<open>SSH and copying\<close>

text \<open>The options given to \<open>ssh\<close> and \<open>scp\<close>; \<open>exe\<close> is the path of this program.\<close>

definition ssh_options :: "bool \<Rightarrow> string res \<Rightarrow> args \<Rightarrow> string \<Rightarrow> string \<Rightarrow> string list res" where
  "ssh_options windows exe a addr port =
     and_then exe (\<lambda>exe.
     and_then (ssh_proxy_command windows exe (key_flag a) (derp_map_url a) addr port) (\<lambda>proxy.
     Ok [''-o'', ''UpdateHostKeys no'', ''-o'', ''StrictHostKeyChecking no'',
         ''-o'', ''UserKnownHostsFile '' @ (if windows then ''NUL'' else ''/dev/null''), ''-o'', ''LogLevel ERROR'',
         ''-o'', ''ProxyCommand='' @ proxy]))"

text \<open>
  The checks of \<open>ssh\<close> up to the address; \<open>probe\<close> says that the server was reached through a DNS name and
  let a client in without authentication.
\<close>

definition ssh_user_host :: "string \<Rightarrow> string \<times> string" where
  "ssh_user_host dest = (case split_once CHR ''@'' dest of Some uh \<Rightarrow> uh | None \<Rightarrow> ([], dest))"

definition is_dns_name :: "address_arg \<Rightarrow> bool" where
  "is_dns_name c = (case c of DnsName _ \<Rightarrow> True | AddressText _ \<Rightarrow> False)"

definition ssh_target ::
  "net_text \<Rightarrow> addr_crates \<Rightarrow> (string \<Rightarrow> string list res) \<Rightarrow> (string \<Rightarrow> string \<Rightarrow> string \<Rightarrow> bool) \<Rightarrow> args \<Rightarrow>
   (string \<times> string \<times> string) res" where
  "ssh_target T A txts probe a =
     (if positional a = [] then Err ''ssh requires a [user@]<tc-addr> destination argument''
      else and_then (validated_ssh_port T (port_flag a)) (\<lambda>port.
           let (user, host) = ssh_user_host (hd (positional a))
           in and_then (validated_address A txts host) (\<lambda>addr.
              and_then
                (if skip_dns_safety_check a then Ok ()
                 else and_then (classify_address A host) (\<lambda>c.
                      if is_dns_name c \<and> probe addr port user
                      then Err ''refusing to connect: its SSH server is wide open'' else Ok ()))
                (\<lambda>_. Ok (user, addr, port)))))"

definition ssh_argv ::
  "net_text \<Rightarrow> addr_crates \<Rightarrow> hex_crate \<Rightarrow> (byte list \<Rightarrow> byte list) \<Rightarrow> bool \<Rightarrow> (string \<Rightarrow> string list res) \<Rightarrow>
   (string \<Rightarrow> string \<Rightarrow> string \<Rightarrow> bool) \<Rightarrow> string res \<Rightarrow> args \<Rightarrow> string list res" where
  "ssh_argv T A X sha windows txts probe exe a =
     and_then (ssh_target T A txts probe a) (\<lambda>(user, addr, port).
     and_then (ssh_options windows exe a addr port) (\<lambda>opts.
     let host = ssh_dest_host X sha addr;
         dest = (if user = [] then host else user @ ''@'' @ host)
     in Ok (opts @ [''--'', dest] @ tl (positional a))))"

text \<open>The one server that the remote arguments of \<open>cp\<close> name.\<close>

fun cp_server :: "string option \<Rightarrow> string list \<Rightarrow> string option res" where
  "cp_server server [] = Ok server"
| "cp_server server (arg # args) =
     (case split_remote_arg arg of
        None \<Rightarrow> cp_server server args
      | Some (host, _) \<Rightarrow>
          if server \<noteq> None \<and> server \<noteq> Some host then Err ''all remote paths must name the same server''
          else cp_server (Some host) args)"

text \<open>Whether \<open>scp\<close> has the option \<open>-s\<close>, from the text of its complaints, if it ran at all.\<close>

definition scp_has_s :: "string option \<Rightarrow> bool" where
  "scp_has_s output =
     (case output of
        None \<Rightarrow> False
      | Some text \<Rightarrow>
          \<not> list_ex (has_part (map ascii_lower text))
             [''unknown option -- s'', ''illegal option -- s'', ''invalid option -- s''])"

definition cp_argument :: "string \<Rightarrow> string \<Rightarrow> string" where
  "cp_argument dest arg = (case split_remote_arg arg of Some (_, path) \<Rightarrow> dest @ '':'' @ path | None \<Rightarrow> arg)"

definition cp_argv ::
  "net_text \<Rightarrow> addr_crates \<Rightarrow> hex_crate \<Rightarrow> (byte list \<Rightarrow> byte list) \<Rightarrow> bool \<Rightarrow> (string \<Rightarrow> string list res) \<Rightarrow>
   string option \<Rightarrow> string res \<Rightarrow> args \<Rightarrow> string list res" where
  "cp_argv T A X sha windows txts scp_output exe a =
     (if length (positional a) < 2 then Err ''cp requires at least one source and a target''
      else and_then (validated_ssh_port T (port_flag a)) (\<lambda>port.
           and_then (cp_server None (positional a)) (\<lambda>server.
           and_then (ok_or ''no remote <tc-addr>:path argument; nothing to copy through tailcat'' server) (\<lambda>server.
           and_then (validated_address A txts server) (\<lambda>addr.
           and_then (ssh_options windows exe a addr port) (\<lambda>opts.
           Ok (opts @ (if scp_has_s scp_output then [''-s''] else []) @
               (if recursive_flag a then [''-r''] else []) @ (if preserve a then [''-p''] else []) @
               [''--''] @ map (cp_argument (ssh_dest_host X sha addr)) (positional a))))))))"

section \<open>Listings\<close>

definition ls_target :: "args \<Rightarrow> (string \<times> string) res" where
  "ls_target a =
     (case positional a of
        [arg] \<Rightarrow>
          (let (host, path) = (case split_remote_arg arg of Some hp \<Rightarrow> hp | None \<Rightarrow> (arg, ''.''))
           in Ok (host, if path = [] then ''.'' else path))
      | _ \<Rightarrow> Err ''ls requires one <tc-addr>[:path] argument'')"

definition mode_bits :: "(u32 \<times> char) list" where
  "mode_bits =
     [(0x100, CHR ''r''), (0x80, CHR ''w''), (0x40, CHR ''x''), (0x20, CHR ''r''), (0x10, CHR ''w''), (8, CHR ''x''),
      (4, CHR ''r''), (2, CHR ''w''), (1, CHR ''x'')]"

definition mode_string :: "u32 \<Rightarrow> string" where
  "mode_string mode =
     (let kind = mode AND 0xF000
      in (if kind = 0x4000 then CHR ''d'' else if kind = 0xA000 then CHR ''L'' else CHR ''-'') #
         map (\<lambda>(bit, c). if mode AND bit \<noteq> 0 then c else CHR ''-'') mode_bits)"

definition ls_name :: "string \<Rightarrow> u32 \<Rightarrow> string" where
  "ls_name name mode = name @ (if mode AND 0xF000 = 0x4000 then ''/'' else [])"

section \<open>Throughput\<close>

text \<open>Durations are in nanoseconds; one that does not fit \<open>u64\<close> is an error.\<close>

definition nanos_u64 :: "nat \<Rightarrow> u64 res" where
  "nanos_u64 n = (if n < 2 ^ 64 then Ok (of_nat n) else Err ''out of range integral type conversion attempted'')"

definition perf_params :: "args \<Rightarrow> params res" where
  "perf_params a =
     (if length (positional a) \<noteq> 1 then Err ''perf requires one <tc-addr>''
      else if reverse_flag a \<and> bidir a then Err ''--reverse and --bidir are exclusive''
      else and_then (if 0 < perf_bytes a then Ok 0 else nanos_u64 (perf_time a)) (\<lambda>dur.
           and_then (nanos_u64 (interval_flag a)) (\<lambda>interval.
           let p = \<lparr>proto = (if perf_udp a then ''udp'' else ''tcp''),
                    dir = (if bidir a then ''both'' else if reverse_flag a then ''down'' else ''up''),
                    test_duration = dur, test_bytes = perf_bytes a, streams = parallel a,
                    data_length = (if length_flag a \<noteq> 0 then length_flag a else if perf_udp a then 1232 else 131072),
                    bitrate = (case bitrate_flag a of Some b \<Rightarrow> b | None \<Rightarrow> if perf_udp a then 1000000 else 0),
                    report_interval = interval\<rparr>
           in and_then (validate p) (\<lambda>_. Ok p))))"

text \<open>Waiting for a direct path: the pings with the elapsed time after each, until one is direct or time is up.\<close>

fun perf_path :: "nat \<Rightarrow> (sock_addr option res \<times> nat) list \<Rightarrow> sock_addr option res option" where
  "perf_path timeout [] = None"
| "perf_path timeout ((Inl e, elapsed) # rs) = Some (Inl e)"
| "perf_path timeout ((Inr ep, elapsed) # rs) =
     (if ep \<noteq> None \<or> timeout \<le> elapsed then Some (Inr ep) else perf_path timeout rs)"

definition shared_relay :: "string \<Rightarrow> bool" where
  "shared_relay name =
     (let host = map ascii_lower (rev (dropWhile (\<lambda>c. c = CHR ''.'') (rev name)))
      in ends_with host ''.ipn.dev'' \<or> ends_with host ''.tailscale.com'')"

definition perf_path_allowed :: "args \<Rightarrow> conn_info \<Rightarrow> sock_addr option \<Rightarrow> unit res" where
  "perf_path_allowed a info ep =
     (if ep \<noteq> None then Ok ()
      else if \<not> via_derp a then Err ''no direct path; refusing a throughput test through a DERP relay''
      else if list_ex (\<lambda>r. list_ex (\<lambda>n. shared_relay (host_name n)) (nodes r)) (regions info)
      then Err ''refusing a throughput test through a shared DERP relay''
      else Ok ())"

end
