(* ===== verification/ClientsProps.thy ===== *)
theory ClientsProps
  imports Clients
begin

text \<open>
  The properties of the client commands: the proxy command that \<open>ssh\<close> and \<open>scp\<close> run is this program
  again, and reaches the target that was asked for.
\<close>

section \<open>The command line of the proxy\<close>

text \<open>The standard library reads back the text of a socket address, which holds a colon.\<close>

definition sock_text :: "net_text \<Rightarrow> bool" where
  "sock_text T \<longleftrightarrow> (\<forall>s. parse_sock T (show_sock T s) = Some s \<and> CHR '':'' \<in> set (show_sock T s))"

lemma parse_addr_tc: "is_ok (parse_addr A addr) \<Longrightarrow> starts_with addr ''tc''"
  by (cases "strip_prefix ''tc'' addr")
    (auto simp: parse_addr_def decode_addr_def result_simps strip_prefix_Some_iff starts_with_iff)

lemma parse_loop_assignment:
  assumes "starts_with name ''--''" "CHR ''='' \<notin> set name" "name \<noteq> ''--''"
    "\<not> boolean_flag (subcommand out) name" "apply_flag name v out = Ok out'"
  shows "parse_loop out ((name @ ''='' @ v) # rest) = parse_loop out' rest"
proof -
  have split: "split_flag (name @ ''='' @ v) = (name, Some v)"
    using assms(2) split_once_Some_iff [of "CHR ''=''" "name @ ''='' @ v" name v] by (simp add: split_flag_def)
  have eq: "CHR ''='' \<in> set (name @ ''='' @ v)" by simp
  have "\<forall>s \<in> {''--'', ''--version'', ''-h'', ''--help'', ''-''}. CHR ''='' \<notin> set s" by simp
  with eq have "name @ ''='' @ v \<notin> {''--'', ''--version'', ''-h'', ''--help'', ''-''}" by blast
  moreover have "starts_with (name @ ''='' @ v) ''-''" using assms(1) by (auto simp: starts_with_iff)
  ultimately show ?thesis using assms(4,5) split by simp
qed

lemma parse_loop_positional:
  assumes "starts_with x ''tc''"
  shows "parse_loop out (x # rest) = Ok (False, out\<lparr>positional := positional out @ x # rest\<rparr>)"
proof -
  have "x \<notin> set commands" "x \<notin> {''--'', ''--version'', ''-h'', ''--help'', ''help''}" "\<not> starts_with x ''-''"
    using assms by (auto simp: commands_def starts_with_iff)
  then show ?thesis by simp
qed

lemma decimal_port_show [simp]: "decimal_port (show_port p) z = (if p = 0 \<and> \<not> z then Err ''invalid port'' else Ok p)"
proof -
  obtain c cs where c: "dec (unat p) = c # cs" using dec_not_Nil [of "unat p"] by (cases "dec (unat p)") auto
  have "list_all is_digit (c # cs)" "digits_value (c # cs) = unat p"
    using dec_digits [of "unat p"] digits_value_dec [of "unat p"] unfolding c .
  moreover from this(1) have "c \<noteq> CHR ''+''" by (auto simp: is_digit_def)
  moreover have "unat p < 2 ^ 16" using unsigned_less [of p, where ?'a = nat] by simp
  ultimately have "parse_uint 16 (dec (unat p)) = Some (unat p)"
    by (simp add: parse_uint_def c)
  then show ?thesis by (auto simp: decimal_port_def show_port_def unsigned_eq_0_iff)
qed

text \<open>The target that a port argument stands for.\<close>

definition port_dest :: "net_text \<Rightarrow> string \<Rightarrow> pipe_dest option" where
  "port_dest T v =
     (case decimal_port v False of
        Inr p \<Rightarrow> Some (ToPort p)
      | Inl _ \<Rightarrow> (case parse_ip T v of
                  Some ip \<Rightarrow> Some (ToSock (ip, 22))
                | None \<Rightarrow> map_option ToSock (parse_sock T v)))"

lemma validated_port_dest:
  assumes "validated_ssh_port T v = Ok port" "sock_text T"
  shows "\<exists>d. port_dest T v = Some d \<and> port \<noteq> ''--'' \<and>
    (case d of ToPort p \<Rightarrow> port = show_port p | ToSock s \<Rightarrow> port = show_sock T s)"
proof -
  have digits: "show_port p \<noteq> ''--''" for p
  proof
    assume "show_port p = ''--''"
    with dec_digits [of "unat p"] have "list_all is_digit ''--''" unfolding show_port_def by metis
    then show False by (simp add: is_digit_def)
  qed
  have colon: "show_sock T s \<noteq> ''--''" for s
  proof
    assume "show_sock T s = ''--''"
    then have "CHR '':'' \<in> set ''--''" using assms(2) unfolding sock_text_def by metis
    then show False by simp
  qed
  from assms(1) digits colon show ?thesis
    by (auto simp: validated_ssh_port_def port_dest_def split: sum.splits option.splits if_splits)
qed

lemma pipe_target_port:
  assumes "positional b = [addr, port]" "sock_text T"
    "case d of ToPort p \<Rightarrow> port = show_port p | ToSock s \<Rightarrow> port = show_sock T s"
  shows "pipe_target T b = Ok d"
proof (cases d)
  case (ToPort p)
  have "CHR '':'' \<notin> set (show_port p)"
    unfolding show_port_def by (rule not_digit_notin_dec) (simp add: is_digit_def)
  with ToPort assms show ?thesis by (simp add: pipe_target_def)
next
  case (ToSock s)
  moreover have "parse_sock T (show_sock T s) = Some s" "CHR '':'' \<in> set (show_sock T s)"
    using assms(2) unfolding sock_text_def by blast+
  ultimately show ?thesis using assms(1,3) by (simp add: pipe_target_def)
qed

text \<open>What the program makes of the words after its own path.\<close>

lemma parse_proxy_words:
  assumes "starts_with addr ''tc''" "port \<noteq> ''--''"
  shows "\<exists>b. parse_args env (tl (ssh_proxy_args exe key url addr port)) = Inr (Ok b) \<and>
    positional b = [addr, port] \<and> subcommand b = [] \<and> serve_flag b = [] \<and> help_flag b = False \<and> key_flag b = key \<and>
    derp_map_url b = (if url \<noteq> default_derp_map_url then url else derp_map_url (default_args env))"
proof -
  let ?D = "default_args env"
  let ?K = "if key = [] then ?D else ?D\<lparr>key_flag := key, explicit := insert ''key'' (explicit ?D)\<rparr>"
  let ?U = "if url = default_derp_map_url then ?K
    else ?K\<lparr>derp_map_url := url, explicit := insert ''derpmap-url'' (explicit ?K)\<rparr>"
  have D: "subcommand ?D = []" "serve_flag ?D = []" "key_flag ?D = []" "help_flag ?D = False" "positional ?D = []"
    by (simp_all add: default_args_def)
  have "apply_flag ''--key'' key ?D = Ok (?D\<lparr>key_flag := key, explicit := insert ''key'' (explicit ?D)\<rparr>)"
    by (simp add: apply_flag_def set_flag_def D)
  then have k: "parse_loop ?D ((if key \<noteq> [] then [''--key='' @ key] else []) @ rest) = parse_loop ?K rest" for rest
    using parse_loop_assignment [of "''--key''" ?D key] by (simp add: starts_with_def boolean_flag_def D)
  have subK: "subcommand ?K = []" using D by simp
  have "apply_flag ''--derpmap-url'' url ?K =
      Ok (?K\<lparr>derp_map_url := url, explicit := insert ''derpmap-url'' (explicit ?K)\<rparr>)"
    unfolding apply_flag_def set_flag_def subK by simp
  then have u: "parse_loop ?K ((if url \<noteq> default_derp_map_url then [''--derpmap-url='' @ url] else []) @ rest) =
      parse_loop ?U rest" for rest
    using parse_loop_assignment [of "''--derpmap-url''" ?K url] subK
    by (simp add: starts_with_def boolean_flag_def del: parse_loop.simps)
  have "parse_loop ?D (tl (ssh_proxy_args exe key url addr port)) =
      Ok (False, ?U\<lparr>positional := [addr, port]\<rparr>)"
    using parse_loop_positional [OF assms(1), of ?U "[port]"] D
    by (simp add: ssh_proxy_args_def k u del: parse_loop.simps)
  moreover have "addr \<noteq> ''--''" using assms(1) by (auto simp: starts_with_iff)
  ultimately show ?thesis
    using assms(2) D by (simp add: parse_args_def parse_finish_def server_mode_def)
qed

text \<open>
  C33. The proxy of \<open>ssh\<close> and \<open>scp\<close> reaches the server that was asked for: \<open>ssh\<close> and the shell read the
  proxy command as this program with arguments that it parses as a pipe to the very address and the
  target of the port argument, with the key of the command line; the map URL is that of the command line
  too, except that the built-in one gives way to the variable of the environment.
\<close>

theorem ssh_proxy_reaches_target:
  assumes "is_ok (parse_addr A addr)" "validated_ssh_port T v = Ok port" "sock_text T"
    "ssh_options False (Ok exe) a addr port = Ok opts"
  shows "\<exists>proxy t words b d. ''ProxyCommand='' @ proxy \<in> set opts \<and> percent_expand tokens proxy = Some t \<and>
    sh_words t = Some (exe # words) \<and> parse_args env words = Inr (Ok b) \<and> dispatch_of b = Pipe \<and>
    resolve_address A txts (hd (positional b)) = Ok addr \<and> port_dest T v = Some d \<and> pipe_target T b = Ok d \<and>
    key_flag b = key_flag a \<and>
    derp_map_url b =
      (if derp_map_url a \<noteq> default_derp_map_url then derp_map_url a else derp_map_url (default_args env))"
proof -
  from assms(4) obtain proxy where proxy: "ssh_proxy_command False exe (key_flag a) (derp_map_url a) addr port = Ok proxy"
      "''ProxyCommand='' @ proxy \<in> set opts"
    by (auto simp: ssh_options_def result_simps)
  let ?w = "ssh_proxy_args exe (key_flag a) (derp_map_url a) addr port"
  obtain t where t: "percent_expand tokens proxy = Some t" "sh_words t = Some ?w"
    using proxy(1) proxy_command_reads_back [of ?w proxy tokens] by (auto simp: ssh_proxy_command_def)
  obtain d where d: "port_dest T v = Some d" "port \<noteq> ''--''"
      "case d of ToPort p \<Rightarrow> port = show_port p | ToSock s \<Rightarrow> port = show_sock T s"
    using validated_port_dest [OF assms(2,3)] by blast
  obtain b where b: "parse_args env (tl ?w) = Inr (Ok b)" "positional b = [addr, port]" "subcommand b = []"
      "serve_flag b = []" "help_flag b = False" "key_flag b = key_flag a" "derp_map_url b =
      (if derp_map_url a \<noteq> default_derp_map_url then derp_map_url a else derp_map_url (default_args env))"
    using parse_proxy_words [OF parse_addr_tc [OF assms(1)] d(2)] by blast
  have "?w = exe # tl ?w" by (simp add: ssh_proxy_args_def)
  moreover have "dispatch_of b = Pipe" using b by (simp add: dispatch_of_def)
  moreover have "resolve_address A txts (hd (positional b)) = Ok addr"
    using assms(1) b(2) by (simp add: resolve_address_def classify_address_def)
  ultimately show ?thesis
    using proxy(2) t b d(1) pipe_target_port [OF b(2) assms(3) d(3)] by metis
qed

text \<open>A text form of socket addresses that can be read back.\<close>

definition ref_sock_text :: net_text where
  "ref_sock_text =
     \<lparr>parse_ip = (\<lambda>_. None),
      parse_sock = (\<lambda>s. let bs = as_bytes (drop 2 s)
        in if take 2 s = ''4:'' then Some (V4 (arr (take 4 bs)), from_be_bytes (drop 4 bs))
           else Some (V6 (arr (take 16 bs)), from_be_bytes (drop 16 bs))),
      show_sock = (\<lambda>(ip, p). case ip of
          V4 a \<Rightarrow> ''4:'' @ chars (octets a @ to_be_bytes 2 p)
        | V6 a \<Rightarrow> ''6:'' @ chars (octets a @ to_be_bytes 2 p))\<rparr>"

lemma ref_sock_text: "sock_text ref_sock_text"
  by (auto simp: sock_text_def ref_sock_text_def Let_def split: ip_addr.splits)

lemma ssh_proxy_reaches_target_witness:
  "\<exists>words b. parse_args None words = Inr (Ok b) \<and> dispatch_of b = Pipe \<and>
     pipe_target ref_sock_text b = Ok (ToPort 22)"
proof -
  let ?ci = "conn_info_for_key ref_crypto ref_key\<lparr>preshared_key := None\<rparr>"
  let ?A = "ref_addr_crates (addr_value ?ci)" and ?addr = "''tc'' @ ref_hex_encode [0xa1]"
  have "encode_addr ?A ?ci = Ok ?addr"
    by (simp add: encode_addr_def ref_addr_crates_def)
  from parse_encoded_addr [OF ref_addr_laws this] have addr: "is_ok (parse_addr ?A ?addr)"
    by (simp add: ref_hex_encode_def max_address_bytes_def)
  have show22: "show_port 22 = ''22''" by code_simp
  then have port: "validated_ssh_port ref_sock_text ''22'' = Ok ''22''"
    using decimal_port_show [of 22 False] by (simp add: validated_ssh_port_def)
  have dest: "port_dest ref_sock_text ''22'' = Some (ToPort 22)"
    using decimal_port_show [of 22 False] show22 by (simp add: port_dest_def)
  have "is_ok (ssh_proxy_command False ''tailcat'' [] default_derp_map_url ?addr ''22'')" by code_simp
  then obtain opts where opts: "ssh_options False (Ok ''tailcat'') (default_args None) ?addr ''22'' = Ok opts"
    by (auto simp: ssh_options_def default_args_def is_ok_iff)
  obtain words b d where "parse_args None words = Inr (Ok b)" "dispatch_of b = Pipe"
      "port_dest ref_sock_text ''22'' = Some d" "pipe_target ref_sock_text b = Ok d"
    using ssh_proxy_reaches_target [OF addr port ref_sock_text opts, where env = None and tokens = "\<lambda>_. None"
        and txts = "\<lambda>_. Ok []"] by blast
  with dest show ?thesis by (intro exI [of _ words] exI [of _ b]) simp
qed

end
