(* ===== verification/DerpCache.thy ===== *)
theory DerpCache
  imports Address
begin

text \<open>
  The DERP map and its caches (\<open>fetch_derp_map\<close> in \<open>src/protocol.rs\<close>): the copy in memory, the copy in
  the cache directory, which one answers a request, when the server is asked and what is kept of its
  answer.

  The cache directory is a map from names to nodes; an operation on it fails as \<open>cache_faults\<close> says. The
  JSON decoder of the map, the HTTP server and the clock are arguments, times are in nanoseconds. One
  call is atomic here: what another task stores while the server is asked is left out.
\<close>

record cached_map =
  map_data :: "byte list"
  map_etag :: string
  stored_at :: nat

section \<open>File names\<close>

definition unreserved :: "char \<Rightarrow> bool" where
  "unreserved c =
     (let n = of_char c :: nat
      in 65 \<le> n \<and> n \<le> 90 \<or> 97 \<le> n \<and> n \<le> 122 \<or> 48 \<le> n \<and> n \<le> 57 \<or> c \<in> set ''-_.~'')"

definition upper_hex :: "nat \<Rightarrow> char" where
  "upper_hex n = char_of (if n < 10 then 48 + n else 55 + n)"

definition escape_byte :: "char \<Rightarrow> string" where
  "escape_byte c =
     (if unreserved c then [c]
      else if c = CHR '' '' then ''+''
      else [CHR ''%'', upper_hex (of_char c div 16), upper_hex (of_char c mod 16)])"

definition escape_url :: "string \<Rightarrow> string" where
  "escape_url url = concat (map escape_byte url)"

definition cache_paths :: "string \<Rightarrow> string \<times> string" where
  "cache_paths url =
     (''derpmap-'' @ escape_url url @ ''.json'', ''derpmap-'' @ escape_url url @ ''.etag'')"

section \<open>The cache directory\<close>

text \<open>A file with its contents and the time of its last change, or a directory.\<close>

datatype cache_node = CacheFile "byte list" nat | Folder

type_synonym cache_dir = "string \<rightharpoonup> cache_node"

record cache_faults =
  no_directory :: bool
  open_fails :: bool
  data_stops :: "nat option"
  flush_fails :: bool
  publish_fails :: bool
  etag_open_fails :: bool
  etag_stops :: "nat option"
  unlink_fails :: bool

definition max_map :: nat where
  "max_map = 2 ^ 23"

text \<open>The etag file: nothing where it cannot be read or is no text.\<close>

definition read_etag :: "(string \<Rightarrow> bool) \<Rightarrow> string \<Rightarrow> cache_dir \<Rightarrow> string" where
  "read_etag unreadable name d =
     (if unreadable name then []
      else case d name of
        Some (CacheFile e _) \<Rightarrow> (case from_utf8 e of Some t \<Rightarrow> trim t | None \<Rightarrow> [])
      | _ \<Rightarrow> [])"

definition read_disk_cache ::
  "(byte list \<Rightarrow> derp_map res) \<Rightarrow> (string \<Rightarrow> bool) \<Rightarrow> string \<Rightarrow> cache_dir \<Rightarrow> cached_map option" where
  "read_disk_cache decode unreadable url d =
     (case cache_paths url of
        (path, etag_path) \<Rightarrow>
          if unreadable path then None
          else case d path of
            Some (CacheFile data time) \<Rightarrow>
              if max_map < length data \<or> \<not> is_ok (decode data) then None
              else Some \<lparr>map_data = data, map_etag = read_etag unreadable etag_path d, stored_at = time\<rparr>
          | _ \<Rightarrow> None)"

definition unlink :: "cache_faults \<Rightarrow> string \<Rightarrow> cache_dir \<Rightarrow> cache_dir" where
  "unlink F name d = (if unlink_fails F \<or> d name = Some Folder then d else d(name := None))"

text \<open>\<open>fs::write\<close>, which empties the file first.\<close>

definition write_etag :: "cache_faults \<Rightarrow> nat \<Rightarrow> string \<Rightarrow> string \<Rightarrow> cache_dir \<Rightarrow> bool \<times> cache_dir" where
  "write_etag F now name etag d =
     (if etag_open_fails F \<or> d name = Some Folder then (False, d)
      else case etag_stops F of
        Some n \<Rightarrow> (False, d(name \<mapsto> CacheFile (take n (as_bytes etag)) now))
      | None \<Rightarrow> (True, d(name \<mapsto> CacheFile (as_bytes etag) now)))"

text \<open>The closure of \<open>write_disk_cache\<close>: the data to a temporary file, its rename, then the etag.\<close>

definition publish ::
  "cache_faults \<Rightarrow> nat \<Rightarrow> string \<Rightarrow> string \<Rightarrow> cached_map \<Rightarrow> cache_dir \<Rightarrow> bool \<times> cache_dir" where
  "publish F now tmp url entry d =
     (case cache_paths url of
        (path, etag_path) \<Rightarrow>
          if open_fails F \<or> d tmp \<noteq> None then (False, d)
          else case data_stops F of
            Some n \<Rightarrow> (False, d(tmp \<mapsto> CacheFile (take n (map_data entry)) now))
          | None \<Rightarrow>
              if flush_fails F \<or> publish_fails F \<or> d path = Some Folder
              then (False, d(tmp \<mapsto> CacheFile (map_data entry) now))
              else let d = d(path \<mapsto> CacheFile (map_data entry) now)
                in if map_etag entry = [] then (True, unlink F etag_path d)
                   else write_etag F now etag_path (map_etag entry) d)"

definition temporary :: "string \<Rightarrow> string \<Rightarrow> string" where
  "temporary pid random = ''.derpmap-'' @ pid @ ''-'' @ random @ ''.tmp''"

definition write_disk_cache ::
  "cache_faults \<Rightarrow> nat \<Rightarrow> string \<Rightarrow> string \<Rightarrow> cached_map \<Rightarrow> cache_dir \<Rightarrow> bool \<times> cache_dir" where
  "write_disk_cache F now tmp url entry d =
     (if no_directory F then (False, d)
      else case publish F now tmp url entry d of
        (True, d) \<Rightarrow> (True, d)
      | (False, d) \<Rightarrow> (False, unlink F tmp d))"

section \<open>Fetching the map\<close>

text \<open>What the server answers; \<open>body_cut\<close> says that the connection fails after the chunks.\<close>

record http_answer =
  http_status :: nat
  etag_header :: "string option"
  body_chunks :: "byte list list"
  body_cut :: bool

record http_query =
  query_url :: string
  tailcat_mode :: string
  if_none_match :: "string option"

record map_source =
  decode_map :: "byte list \<Rightarrow> derp_map res"
  http_get :: "http_query \<Rightarrow> http_answer res"
  called_at :: nat
  answered_at :: nat
  unreadable_file :: "string \<Rightarrow> bool"
  disk_faults :: cache_faults
  temporary_file :: string

text \<open>\<open>MAP_CACHE\<close>, and \<open>DISK_CACHE\<close> where it is enabled.\<close>

record map_store =
  memory :: "string \<rightharpoonup> cached_map"
  disk :: "cache_dir option"

definition cached_for :: "map_source \<Rightarrow> string \<Rightarrow> map_store \<Rightarrow> cached_map option" where
  "cached_for W url S =
     (case memory S url of
        Some c \<Rightarrow> Some c
      | None \<Rightarrow>
          (case disk S of
             None \<Rightarrow> None
           | Some d \<Rightarrow> read_disk_cache (decode_map W) (unreadable_file W) url d))"

text \<open>An entry from the future counts as old.\<close>

definition is_fresh :: "nat \<Rightarrow> cached_map \<Rightarrow> bool" where
  "is_fresh now c \<longleftrightarrow> stored_at c \<le> now \<and> now - stored_at c < 3600 * 10 ^ 9"

definition store_entry :: "map_source \<Rightarrow> string \<Rightarrow> cached_map \<Rightarrow> map_store \<Rightarrow> map_store" where
  "store_entry W url entry S =
     S\<lparr>memory := (memory S)(url \<mapsto> entry),
       disk := map_option (\<lambda>d. snd (write_disk_cache (disk_faults W) (answered_at W) (temporary_file W) url entry d)) (disk S)\<rparr>"

fun collect_body :: "byte list \<Rightarrow> byte list list \<Rightarrow> bool \<Rightarrow> byte list res" where
  "collect_body data [] broken = (if broken then Err ''error decoding response body'' else Ok data)"
| "collect_body data (c # cs) broken =
     (if max_map < length data + length c then Err ''DERP map exceeds 8 MiB''
      else collect_body (data @ c) cs broken)"

definition map_query :: "string \<Rightarrow> bool \<Rightarrow> cached_map option \<Rightarrow> http_query" where
  "map_query url is_server cached =
     \<lparr>query_url = url, tailcat_mode = (if is_server then ''server'' else ''client''),
      if_none_match = (case cached of Some c \<Rightarrow> if map_etag c = [] then None else Some (map_etag c) | None \<Rightarrow> None)\<rparr>"

text \<open>The entry that the answer leaves, and its map.\<close>

definition fetched_entry ::
  "map_source \<Rightarrow> string \<Rightarrow> bool \<Rightarrow> cached_map option \<Rightarrow> (cached_map \<times> derp_map) res" where
  "fetched_entry W url is_server cached =
     and_then (http_get W (map_query url is_server cached)) (\<lambda>res.
     if http_status res = 304 then
       case cached of
         Some c \<Rightarrow> and_then (decode_map W (map_data c)) (\<lambda>m. Ok (c\<lparr>stored_at := answered_at W\<rparr>, m))
       | None \<Rightarrow> Err ''DERP map returned 304 without a cached representation''
     else if 400 \<le> http_status res \<and> http_status res < 600 then Err ''HTTP status''
     else and_then (collect_body [] (body_chunks res) (body_cut res)) (\<lambda>data.
          and_then (context_of ''invalid DERP map JSON'' (decode_map W data)) (\<lambda>m.
          Ok (\<lparr>map_data = data, map_etag = (case etag_header res of Some t \<Rightarrow> t | None \<Rightarrow> []),
               stored_at = answered_at W\<rparr>, m))))"

definition fetch_derp_map_cached ::
  "map_source \<Rightarrow> string \<Rightarrow> bool \<Rightarrow> map_store \<Rightarrow> derp_map res \<times> map_store" where
  "fetch_derp_map_cached W url is_server S =
     (let cached = cached_for W url S;
          ready = (case cached of
                     Some c \<Rightarrow> if is_fresh (called_at W) c then (case decode_map W (map_data c) of Inr m \<Rightarrow> Some m | Inl _ \<Rightarrow> None) else None
                   | None \<Rightarrow> None)
      in case ready of
           Some m \<Rightarrow> (Ok m, S)
         | None \<Rightarrow>
             (case fetched_entry W url is_server cached of
                Inr (entry, m) \<Rightarrow> (Ok m, store_entry W url entry S)
              | Inl e \<Rightarrow>
                  (case cached of
                     Some c \<Rightarrow> (context_of ''stale DERP map'' (decode_map W (map_data c)), S)
                   | None \<Rightarrow> (Inl e, S))))"

definition default_map_url :: string where
  "default_map_url = ''https://tailcat.dev/derpmap.json''"

definition fetch_derp_map :: "map_source \<Rightarrow> string option \<Rightarrow> bool \<Rightarrow> map_store \<Rightarrow> derp_map res \<times> map_store" where
  "fetch_derp_map W url is_server S =
     fetch_derp_map_cached W (case url of Some u \<Rightarrow> u | None \<Rightarrow> default_map_url) is_server S"

section \<open>File names of different maps\<close>

definition upper_hex_value :: "char \<Rightarrow> nat" where
  "upper_hex_value c = (let n = of_char c in if n < 65 then n - 48 else n - 55)"

fun unescape_url :: "string \<Rightarrow> string" where
  "unescape_url [] = []"
| "unescape_url (c # cs) =
     (if c = CHR ''+'' then CHR '' '' # unescape_url cs
      else if c = CHR ''%'' then
        (case cs of
           a # b # ds \<Rightarrow> char_of (16 * upper_hex_value a + upper_hex_value b) # unescape_url ds
         | _ \<Rightarrow> [])
      else c # unescape_url cs)"

lemma upper_hex_value [simp]: "n < 16 \<Longrightarrow> upper_hex_value (upper_hex n) = n"
  by (simp add: upper_hex_value_def upper_hex_def)

lemma unescape_byte: "unescape_url (escape_byte c @ s) = c # unescape_url s"
proof -
  have marks: "\<not> unreserved CHR ''%''" "\<not> unreserved CHR ''+''" by code_simp+
  have "of_char c < (256 :: nat)" by simp
  then have "of_char c div 16 < (16 :: nat)" by linarith
  moreover have "char_of (16 * (of_char c div 16) + of_char c mod 16 :: nat) = c" by simp
  ultimately show ?thesis using marks by (cases "unreserved c") (auto simp: escape_byte_def)
qed

lemma unescape_escape [simp]: "unescape_url (escape_url url) = url"
  by (induction url) (simp_all add: escape_url_def unescape_byte)

lemma escape_url_inject [simp]: "escape_url a = escape_url b \<longleftrightarrow> a = b"
  by (metis unescape_escape)

lemma cache_paths_apart:
  assumes "cache_paths a = (p, e)" "cache_paths b = (p', e')"
  shows "p \<noteq> e'" "p \<noteq> temporary pid random" "e \<noteq> temporary pid random" "p = p' \<longleftrightarrow> a = b" "e = e' \<longleftrightarrow> a = b"
proof -
  have "rev p \<noteq> rev e'" using assms by (auto simp: cache_paths_def)
  then show "p \<noteq> e'" by blast
  show "p \<noteq> temporary pid random" "e \<noteq> temporary pid random" using assms by (auto simp: cache_paths_def temporary_def)
  show "p = p' \<longleftrightarrow> a = b" "e = e' \<longleftrightarrow> a = b" using assms by (auto simp: cache_paths_def)
qed

section \<open>Reading what was written\<close>

lemma unlink_other [simp]: "n \<noteq> name \<Longrightarrow> unlink F name d n = d n"
  by (simp add: unlink_def)

lemma write_etag_other: "write_etag F now name etag d = (ok, d') \<Longrightarrow> n \<noteq> name \<Longrightarrow> d' n = d n"
  by (auto simp: write_etag_def split: if_splits option.splits)

text \<open>Only the two files of a map and the temporary one are touched.\<close>

lemma publish_other:
  assumes "publish F now tmp url entry d = (ok, d')" "cache_paths url = (p, e)" "n \<notin> {tmp, p, e}"
  shows "d' n = d n"
proof -
  have etag: "x n = d n"
    if "write_etag F now e (map_etag entry) (d(p \<mapsto> CacheFile (map_data entry) now)) = (ok, x)" for x
    using write_etag_other [OF that, of n] assms(3) by simp
  show ?thesis
    using assms etag by (auto simp: publish_def Let_def split: option.splits if_splits)
qed

text \<open>The data file is the old one or all of the new one.\<close>

lemma publish_data:
  assumes "publish F now tmp url entry d = (ok, d')" "cache_paths url = (p, e)" "p \<notin> {tmp, e}"
  shows "d' p = d p \<and> \<not> ok \<or> d' p = Some (CacheFile (map_data entry) now)"
proof -
  have etag: "x p = Some (CacheFile (map_data entry) now)"
    if "write_etag F now e (map_etag entry) (d(p \<mapsto> CacheFile (map_data entry) now)) = (ok, x)" for x
    using write_etag_other [OF that, of p] assms(3) by simp
  show ?thesis
    using assms etag by (auto simp: publish_def Let_def split: option.splits if_splits)
qed

lemma publish_etag:
  assumes "publish F now tmp url entry d = (True, d')" "cache_paths url = (p, e)" "p \<noteq> e"
  shows "if map_etag entry = [] then d' e = None \<or> d' e = Some Folder \<or> unlink_fails F
    else d' e = Some (CacheFile (as_bytes (map_etag entry)) now)"
  using assms by (auto simp: publish_def write_etag_def unlink_def Let_def split: option.splits if_splits)

lemma write_disk_cache_via:
  assumes "write_disk_cache F now tmp url entry d = (ok, d')"
  shows "(d' = d \<and> \<not> ok) \<or> (\<exists>d1. publish F now tmp url entry d = (ok, d1) \<and> (\<forall>n. n \<noteq> tmp \<longrightarrow> d' n = d1 n))"
  using assms by (auto simp: write_disk_cache_def split: if_splits prod.splits bool.splits)

lemma read_disk_cache_cong:
  assumes "cache_paths url = (p, e)" "d p = d' p" "d e = d' e"
  shows "read_disk_cache decode u url d = read_disk_cache decode u url d'"
proof -
  have "read_etag u e d = read_etag u e d'" using assms(3) by (simp add: read_etag_def)
  with assms(1,2) show ?thesis
    by (simp add: read_disk_cache_def split: option.split cache_node.split)
qed

lemma read_disk_cache_Some:
  assumes "read_disk_cache decode u url d = Some c" "cache_paths url = (p, e)"
  shows "\<not> u p" "d p = Some (CacheFile (map_data c) (stored_at c))" "is_ok (decode (map_data c))"
    "length (map_data c) \<le> max_map"
  using assms by (auto simp: read_disk_cache_def split: if_splits option.splits cache_node.splits)

lemma read_disk_cache_file:
  assumes "cache_paths url = (p, e)" "\<not> u p" "d p = Some (CacheFile data time)" "is_ok (decode data)"
    "length data \<le> max_map"
  shows "read_disk_cache decode u url d = Some \<lparr>map_data = data, map_etag = read_etag u e d, stored_at = time\<rparr>"
  using assms by (simp add: read_disk_cache_def)



section \<open>What a call answers and keeps\<close>

text \<open>Every entry in memory is a map of admissible size.\<close>

definition entry_ok :: "(byte list \<Rightarrow> derp_map res) \<Rightarrow> cached_map \<Rightarrow> bool" where
  "entry_ok decode c \<longleftrightarrow> is_ok (decode (map_data c)) \<and> length (map_data c) \<le> max_map"

definition store_ok :: "map_source \<Rightarrow> map_store \<Rightarrow> bool" where
  "store_ok W S \<longleftrightarrow> (\<forall>url c. memory S url = Some c \<longrightarrow> entry_ok (decode_map W) c)"

lemma cached_for_ok: "store_ok W S \<Longrightarrow> cached_for W url S = Some c \<Longrightarrow> entry_ok (decode_map W) c"
  using read_disk_cache_Some(3,4) [of "decode_map W"]
  by (fastforce simp: cached_for_def store_ok_def entry_ok_def cache_paths_def split: option.splits)

lemma collect_body_length:
  "collect_body data cs broken = Ok r \<Longrightarrow> length data \<le> max_map \<Longrightarrow> length r \<le> max_map \<and> r = data @ concat cs"
  by (induction data cs broken rule: collect_body.induct) (auto split: if_splits)

lemma fetched_entry_ok:
  assumes "fetched_entry W url srv cached = Ok (entry, m)" "\<And>c. cached = Some c \<Longrightarrow> entry_ok (decode_map W) c"
  shows "decode_map W (map_data entry) = Ok m" "stored_at entry = answered_at W" "entry_ok (decode_map W) entry"
  using assms collect_body_length [of "[]"]
  by (auto simp: fetched_entry_def entry_ok_def result_simps split: if_splits option.splits)

lemma store_entry_ok: "store_ok W S \<Longrightarrow> entry_ok (decode_map W) entry \<Longrightarrow> store_ok W (store_entry W url entry S)"
  by (simp add: store_ok_def store_entry_def)

text \<open>The three ways a call ends.\<close>

lemma fetch_cases:
  assumes "fetch_derp_map_cached W url srv S = (r, S')"
  obtains (cached) c where "cached_for W url S = Some c" "is_fresh (called_at W) c" "is_ok r"
      "r = decode_map W (map_data c)" "S' = S"
  | (fetched) entry m where "fetched_entry W url srv (cached_for W url S) = Ok (entry, m)" "r = Ok m"
      "S' = store_entry W url entry S"
      "\<And>c. cached_for W url S = Some c \<Longrightarrow> is_fresh (called_at W) c \<Longrightarrow> \<not> is_ok (decode_map W (map_data c))"
  | (stale) e where "fetched_entry W url srv (cached_for W url S) = Inl e" "S' = S"
      "r = (case cached_for W url S of Some c \<Rightarrow> context_of ''stale DERP map'' (decode_map W (map_data c)) | None \<Rightarrow> Inl e)"
      "\<And>c. cached_for W url S = Some c \<Longrightarrow> is_fresh (called_at W) c \<Longrightarrow> \<not> is_ok (decode_map W (map_data c))"
proof (cases "\<exists>c m. cached_for W url S = Some c \<and> is_fresh (called_at W) c \<and> decode_map W (map_data c) = Ok m")
  case True
  then obtain c m where c: "cached_for W url S = Some c" "is_fresh (called_at W) c" "decode_map W (map_data c) = Ok m"
    by blast
  then have "r = Ok m" "S' = S" using assms by (simp_all add: fetch_derp_map_cached_def)
  with c show ?thesis by (intro cached [of c]) simp_all
next
  case False
  then have none: "(case cached_for W url S of
      Some c \<Rightarrow> if is_fresh (called_at W) c then (case decode_map W (map_data c) of Inr m \<Rightarrow> Some m | Inl _ \<Rightarrow> None) else None
    | None \<Rightarrow> None) = None"
    by (auto split: option.split sum.split)
  have undecodable: "\<And>c. cached_for W url S = Some c \<Longrightarrow> is_fresh (called_at W) c \<Longrightarrow> \<not> is_ok (decode_map W (map_data c))"
    using False by (auto simp: is_ok_iff)
  have eq: "fetch_derp_map_cached W url srv S =
      (case fetched_entry W url srv (cached_for W url S) of
         Inr (entry, m) \<Rightarrow> (Ok m, store_entry W url entry S)
       | Inl e \<Rightarrow>
           (case cached_for W url S of
              Some c \<Rightarrow> (context_of ''stale DERP map'' (decode_map W (map_data c)), S)
            | None \<Rightarrow> (Inl e, S)))"
    unfolding fetch_derp_map_cached_def Let_def none by simp
  show ?thesis
  proof (cases "fetched_entry W url srv (cached_for W url S)")
    case (Inl e)
    then have "S' = S" "r = (case cached_for W url S of
        Some c \<Rightarrow> context_of ''stale DERP map'' (decode_map W (map_data c)) | None \<Rightarrow> Inl e)"
      using assms unfolding eq by (simp_all split: option.splits)
    from stale [OF Inl this undecodable] show ?thesis .
  next
    case (Inr x)
    then obtain entry m where x: "fetched_entry W url srv (cached_for W url S) = Ok (entry, m)" by (cases x) simp
    then have "r = Ok m" "S' = store_entry W url entry S" using assms unfolding eq by simp_all
    from fetched [OF x this undecodable] show ?thesis .
  qed
qed

lemma fetched_not_modified:
  assumes "http_get W (map_query url srv (Some c)) = Ok res" "http_status res = 304"
  shows "fetched_entry W url srv (Some c) =
    and_then (decode_map W (map_data c)) (\<lambda>m. Ok (c\<lparr>stored_at := answered_at W\<rparr>, m))"
  using assms by (simp add: fetched_entry_def)

lemma fetch_of_fresh:
  assumes "memory S url = Some c" "is_fresh (called_at W) c" "decode_map W (map_data c) = Ok m"
  shows "fetch_derp_map_cached W url srv S = (Ok m, S)"
  using assms by (simp add: fetch_derp_map_cached_def cached_for_def)

text \<open>
  C28. The caches of the DERP map: with a copy in memory or on disk a call always gives a map, whatever the
  server does, and with a copy less than an hour old it gives that copy without asking. A map that is
  given comes from the copy or from an answer that is then the copy, with the time of the answer; a
  \<open>304\<close> keeps data and etag and renews the time. Whatever is kept in memory decodes and has at most
  8 MiB, entries of other URLs are left alone, and after an answer was stored every call within an hour
  gives the same map again and stores nothing.
\<close>

theorem map_fetch_policy:
  assumes "store_ok W S" "fetch_derp_map_cached W url srv S = (r, S')"
  shows "store_ok W S' \<and> (\<forall>u. u \<noteq> url \<longrightarrow> memory S' u = memory S u) \<and>
    (\<forall>c. cached_for W url S = Some c \<longrightarrow> is_ok r \<and>
       (is_fresh (called_at W) c \<longrightarrow> r = decode_map W (map_data c) \<and> S' = S) \<and>
       (\<forall>res. \<not> is_fresh (called_at W) c \<and> http_get W (map_query url srv (Some c)) = Ok res \<and> http_status res = 304 \<longrightarrow>
          r = decode_map W (map_data c) \<and> memory S' url = Some (c\<lparr>stored_at := answered_at W\<rparr>))) \<and>
    (\<forall>m. r = Ok m \<longrightarrow> (\<exists>c. decode_map W (map_data c) = Ok m \<and>
       (cached_for W url S = Some c \<or> memory S' url = Some c \<and> stored_at c = answered_at W))) \<and>
    (\<forall>W' srv'. S' \<noteq> S \<and> decode_map W' = decode_map W \<and> answered_at W \<le> called_at W' \<and>
       called_at W' - answered_at W < 3600 * 10 ^ 9 \<longrightarrow> fetch_derp_map_cached W' url srv' S' = (r, S'))"
    (is "?ok \<and> ?others \<and> ?copy \<and> ?origin \<and> ?again")
proof -
  note sane = cached_for_ok [OF assms(1), of url]
  from assms(2) show ?thesis
  proof (cases rule: fetch_cases)
    case (cached c)
    then show ?thesis using assms(1) by (auto simp: is_ok_iff)
  next
    case (fetched entry m)
    note entry = fetched_entry_ok [OF fetched(1) sane]
    have stored: "memory S' url = Some entry" using fetched(3) by (simp add: store_entry_def)
    have ?ok using store_entry_ok [OF assms(1) entry(3)] fetched(3) by simp
    moreover have ?others using fetched(3) by (simp add: store_entry_def)
    moreover have ?copy
    proof (intro allI impI)
      fix c assume c: "cached_for W url S = Some c"
      then obtain m' where m': "decode_map W (map_data c) = Ok m'"
        using sane by (auto simp: entry_ok_def is_ok_iff)
      then have old: "\<not> is_fresh (called_at W) c" using fetched(4) [OF c] by (auto simp: is_ok_iff)
      have "r = decode_map W (map_data c) \<and> memory S' url = Some (c\<lparr>stored_at := answered_at W\<rparr>)"
        if "http_get W (map_query url srv (Some c)) = Ok res" "http_status res = 304" for res
        using fetched_not_modified [OF that] fetched(1,2) c m' stored by simp
      then show "is_ok r \<and> (is_fresh (called_at W) c \<longrightarrow> r = decode_map W (map_data c) \<and> S' = S) \<and>
          (\<forall>res. \<not> is_fresh (called_at W) c \<and> http_get W (map_query url srv (Some c)) = Ok res \<and> http_status res = 304 \<longrightarrow>
            r = decode_map W (map_data c) \<and> memory S' url = Some (c\<lparr>stored_at := answered_at W\<rparr>))"
        using old fetched(2) by (auto simp: is_ok_iff)
    qed
    moreover have ?origin using entry fetched(2) stored by auto
    moreover have ?again
      using fetch_of_fresh [OF stored] entry fetched(2) by (auto simp: is_fresh_def)
    ultimately show ?thesis by blast
  next
    case (stale e)
    have "?copy"
    proof (intro allI impI)
      fix c assume c: "cached_for W url S = Some c"
      then obtain m where m: "decode_map W (map_data c) = Ok m"
        using sane by (auto simp: entry_ok_def is_ok_iff)
      have no: "\<not> (http_get W (map_query url srv (Some c)) = Ok res \<and> http_status res = 304)" for res
        using fetched_not_modified [of W url srv c res] stale(1) c m by auto
      have "is_ok r" "\<not> is_fresh (called_at W) c" using stale(3) stale(4) [OF c] c m by (auto simp: is_ok_iff)
      with no show "is_ok r \<and> (is_fresh (called_at W) c \<longrightarrow> r = decode_map W (map_data c) \<and> S' = S) \<and>
          (\<forall>res. \<not> is_fresh (called_at W) c \<and> http_get W (map_query url srv (Some c)) = Ok res \<and> http_status res = 304 \<longrightarrow>
            r = decode_map W (map_data c) \<and> memory S' url = Some (c\<lparr>stored_at := answered_at W\<rparr>))"
        by blast
    qed
    moreover have ?origin using stale(3) by (auto simp: result_simps split: option.splits)
    ultimately show ?thesis using stale(2) assms(1) by simp
  qed
qed

text \<open>An old copy and no network.\<close>

lemma map_fetch_policy_witness:
  "is_ok (fst (fetch_derp_map_cached
     \<lparr>decode_map = \<lambda>_. Ok [], http_get = \<lambda>_. Err ''offline'', called_at = 4 * 10 ^ 12, answered_at = 4 * 10 ^ 12,
      unreadable_file = \<lambda>_. False,
      disk_faults = \<lparr>no_directory = True, open_fails = False, data_stops = None, flush_fails = False,
        publish_fails = False, etag_open_fails = False, etag_stops = None, unlink_fails = False\<rparr>,
      temporary_file = ''t''\<rparr> ''u'' True
     \<lparr>memory = [''u'' \<mapsto> \<lparr>map_data = [1], map_etag = ''x'', stored_at = 0\<rparr>], disk = None\<rparr>))"
    (is "is_ok (fst (fetch_derp_map_cached ?W _ _ ?S))")
proof -
  have "store_ok ?W ?S" by (simp add: store_ok_def entry_ok_def max_map_def)
  moreover obtain r S' where f: "fetch_derp_map_cached ?W ''u'' True ?S = (r, S')" by fastforce
  moreover have "cached_for ?W ''u'' ?S = Some \<lparr>map_data = [1], map_etag = ''x'', stored_at = 0\<rparr>"
    by (simp add: cached_for_def)
  ultimately have "is_ok r" using map_fetch_policy [of ?W ?S "''u''" True r S'] by blast
  with f show ?thesis by simp
qed

end
