(* ===== verification/Browser.thy ===== *)
theory Browser
  imports ActorState Derp DerpCache Numbers
begin

text \<open>
  The browser front end (\<open>wasm/src/lib.rs\<close>): its WebSocket connection to the relay, the engine that holds
  peers, tunnels and TCP sockets, the connection objects given to JavaScript, and the loop that drives
  the engine.

  The outside is the record \<open>browser\<close>, which adds the calls of the browser and of smoltcp that only this
  front end uses to \<open>env\<close>. What arrives on a WebSocket is given with the turns of the loops that wait
  for it. Instants are in nanoseconds; a handler runs at one reading of the clock.
\<close>

record 'w browser = "'w env" +
  ws_is_open :: "'w \<Rightarrow> bool"
  ws_buffered :: "'w \<Rightarrow> nat"
  ws_transmit :: "'w \<Rightarrow> byte list \<Rightarrow> bool \<times> 'w"
  ws_shutdown :: "'w \<Rightarrow> 'w"
  random_ping :: "'w \<Rightarrow> 8 bytes \<times> 'w"
  sock_may_send :: "'w \<Rightarrow> nat \<Rightarrow> bool"
  sock_recv_queue :: "'w \<Rightarrow> nat \<Rightarrow> nat"
  sock_recv_slice :: "'w \<Rightarrow> nat \<Rightarrow> nat \<Rightarrow> byte list res \<times> 'w"
  sock_send_slice :: "'w \<Rightarrow> nat \<Rightarrow> byte list \<Rightarrow> nat res \<times> 'w"
  socket_set_new :: "'w \<Rightarrow> 'w"

section \<open>The WebSocket\<close>

text \<open>The bytes not yet read, whether it has ended, and the frames the browser took for sending.\<close>

record web_socket =
  ws_queue :: "byte list"
  terminated :: bool
  ws_sent :: "frame list"

datatype ws_event = BinaryMessage "byte list" | OtherMessage | SocketClosed | SocketError

definition max_ws_queue :: nat where "max_ws_queue = 2 ^ 23"

text \<open>The three callbacks; the \<open>close\<close> that goes with an overflow has no effect on the bytes.\<close>

fun on_ws_event :: "ws_event \<Rightarrow> web_socket \<Rightarrow> web_socket" where
  "on_ws_event (BinaryMessage data) ws =
     (if terminated ws then ws
      else if max_ws_queue < length (ws_queue ws) + length data then ws\<lparr>terminated := True\<rparr>
      else ws\<lparr>ws_queue := ws_queue ws @ data\<rparr>)"
| "on_ws_event OtherMessage ws = ws"
| "on_ws_event SocketClosed ws = ws\<lparr>terminated := True\<rparr>"
| "on_ws_event SocketError ws = ws\<lparr>terminated := True\<rparr>"

definition next_frame :: "web_socket \<Rightarrow> (frame option \<times> web_socket) res" where
  "next_frame ws =
     (let bytes = ws_queue ws in
      if length bytes < 5 then Ok (None, ws)
      else let len = unat (from_be_bytes (slice 1 5 bytes) :: u32) in
           if max_frame < len then Err ''DERP frame exceeds size limit''
           else if length bytes < 5 + len then Ok (None, ws)
           else Ok (Some (hd bytes, slice 5 (5 + len) bytes), ws\<lparr>ws_queue := drop (5 + len) bytes\<rparr>))"

text \<open>
  \<open>wait_frame\<close>: a turn is the time at which it is looked at the clock and what arrives before the next
  look. It is still waiting when the turns end (\<open>None\<close>).
\<close>

type_synonym turn = "instant \<times> ws_event list"

fun wait_frame :: "instant \<Rightarrow> turn list \<Rightarrow> web_socket \<Rightarrow> (frame \<times> turn list \<times> web_socket) res option" where
  "wait_frame deadline [] ws = None"
| "wait_frame deadline ((now, events) # turns) ws =
     (case next_frame ws of
        Inl e \<Rightarrow> Some (Inl e)
      | Inr (Some f, ws) \<Rightarrow> Some (Ok (f, (now, events) # turns, ws))
      | Inr (None, _) \<Rightarrow>
          if terminated ws then Some (Err ''DERP WebSocket closed'')
          else if deadline \<le> now then Some (Err ''DERP connection timed out'')
          else wait_frame deadline turns (fold on_ws_event events ws))"

definition ws_send :: "'w browser \<Rightarrow> byte \<Rightarrow> byte list \<Rightarrow> web_socket \<Rightarrow> 'w \<Rightarrow> unit res \<times> web_socket \<times> 'w" where
  "ws_send B kind body ws w =
     (if terminated ws \<or> \<not> ws_is_open B w then (Err ''DERP WebSocket is closed'', ws, w)
      else if 2 ^ 20 < ws_buffered B w then (Err ''DERP send queue full'', ws, w)
      else case ws_transmit B w ([kind] @ to_be_bytes 4 (of_nat (length body) :: u32) @ body) of
             (ok, w) \<Rightarrow> if ok then (Ok (), ws\<lparr>ws_sent := ws_sent ws @ [(kind, body)]\<rparr>, w)
                        else (Err ''DERP send'', ws, w))"

text \<open>The authentication loop of \<open>open\<close>, after the client info was sent.\<close>

function ws_auth ::
  "'w browser \<Rightarrow> (byte list \<Rightarrow> bool) \<Rightarrow> key \<Rightarrow> key \<Rightarrow> instant \<Rightarrow> turn list \<Rightarrow> web_socket \<Rightarrow> 'w \<Rightarrow>
   (turn list \<times> web_socket \<times> 'w) res option" where
  "ws_auth B json_ok key server_key deadline turns ws w =
     (case wait_frame deadline turns ws of
        None \<Rightarrow> None
      | Some (Inl e) \<Rightarrow> Some (Inl e)
      | Some (Inr ((kind, info), turns, ws)) \<Rightarrow>
          if kind = 3 then
            Some (and_then (open_box (crypto_lib B) key server_key info) (\<lambda>info.
              if json_ok info then Ok (turns, ws, w) else Err ''invalid DERP server info''))
          else if kind = 6 then ws_auth B json_ok key server_key deadline turns ws w
          else if kind = 0x12 \<and> length info = 8 then
            (case ws_send B 0x13 info ws w of
               (Inl e, _) \<Rightarrow> Some (Inl e)
             | (Inr _, ws, w) \<Rightarrow> ws_auth B json_ok key server_key deadline turns ws w)
          else Some (Err ''unexpected DERP authentication frame''))"
  by pat_completeness auto

text \<open>Waiting uses up turns, or else bytes.\<close>

lemma next_frame_Some:
  "next_frame ws = Ok (Some f, ws') \<Longrightarrow> length (ws_queue ws') < length (ws_queue ws)"
  by (auto simp: next_frame_def Let_def split: if_splits)

lemma wait_frame_uses:
  "wait_frame deadline turns ws = Some (Ok (f, turns', ws')) \<Longrightarrow>
   length turns' < length turns \<or> turns' = turns \<and> length (ws_queue ws') < length (ws_queue ws)"
  by (induction deadline turns ws rule: wait_frame.induct)
    (auto dest: next_frame_Some split: sum.splits option.splits if_splits prod.splits)

lemma ws_send_queue: "ws_send B kind body ws w = (r, ws', w') \<Longrightarrow> ws_queue ws' = ws_queue ws \<and> terminated ws' = terminated ws"
  by (auto simp: ws_send_def split: if_splits prod.splits)

termination ws_auth
proof (relation "measures [\<lambda>(B, j, k, s, d, turns, ws, w). length turns,
    \<lambda>(B, j, k, s, d, turns, ws, w). length (ws_queue ws)]", goal_cases)
  case 1
  then show ?case by simp
next
  case 2
  then show ?case by (auto dest: wait_frame_uses)
next
  case 3
  then show ?case by (auto dest!: wait_frame_uses ws_send_queue [OF sym])
qed

declare ws_auth.simps [simp del]

text \<open>
  \<open>open\<close>: \<open>info\<close> is the JSON of the client info. The result is the connected socket with the turns left.
\<close>

definition ws_open ::
  "'w browser \<Rightarrow> byte list \<Rightarrow> (byte list \<Rightarrow> bool) \<Rightarrow> nonce \<Rightarrow> key \<Rightarrow> instant \<Rightarrow> turn list \<Rightarrow> 'w \<Rightarrow>
   (turn list \<times> web_socket \<times> 'w) res option" where
  "ws_open B info json_ok nonce key deadline turns w =
     (case wait_frame deadline turns \<lparr>ws_queue = [], terminated = False, ws_sent = []\<rparr> of
        None \<Rightarrow> None
      | Some (Inl e) \<Rightarrow> Some (Inl e)
      | Some (Inr ((kind, greeting), turns, ws)) \<Rightarrow>
          if kind \<noteq> 1 \<or> length greeting < 40 \<or> take 8 greeting \<noteq> derp_magic
          then Some (Err ''invalid DERP server greeting'')
          else let server_key = arr (slice 8 40 greeting) in
            (case seal_box (crypto_lib B) nonce key server_key info of
               Inl e \<Rightarrow> Some (Inl e)
             | Inr sealed \<Rightarrow>
                 (case ws_send B 2 (octets (public (crypto_lib B) key) @ sealed) ws w of
                    (Inl e, _) \<Rightarrow> Some (Inl e)
                  | (Inr _, ws, w) \<Rightarrow>
                      (case ws_auth B json_ok key server_key deadline turns ws w of
                         None \<Rightarrow> None
                       | Some (Inl e) \<Rightarrow> Some (Inl e)
                       | Some (Inr (turns, ws, w)) \<Rightarrow>
                           (case ws_send B 7 [1] ws w of
                              (Inl e, _) \<Rightarrow> Some (Inl e)
                            | (Inr _, ws, w) \<Rightarrow> Some (Ok (turns, ws, w)))))))"

text \<open>The URLs that \<open>connect\<close> tries: nodes with a relay and a possible port.\<close>

definition ws_url :: "node \<Rightarrow> string option" where
  "ws_url n =
     (let host = (if CHR '':'' \<in> set (host_name n) then ''['' @ host_name n @ '']'' else host_name n);
          port = (if derp_port n = 0 then 443 else sint (derp_port n))
      in if 1 \<le> port \<and> port \<le> 65535 then Some (''wss://'' @ host @ '':'' @ dec_int port @ ''/derp'') else None)"

text \<open>
  \<open>connect\<close>: \<open>attempt\<close> opens a URL, and says when it ended; nodes that come after the deadline are not tried.
\<close>

fun ws_connect_nodes :: "(string \<Rightarrow> 's res \<times> instant) \<Rightarrow> instant \<Rightarrow> instant \<Rightarrow> error \<Rightarrow> node list \<Rightarrow> 's res" where
  "ws_connect_nodes attempt deadline now error [] = Inl error"
| "ws_connect_nodes attempt deadline now error (n # ns) =
     (if deadline \<le> now then Inl error
      else case ws_url n of
        None \<Rightarrow> ws_connect_nodes attempt deadline now error ns
      | Some url \<Rightarrow>
          (case attempt url of
             (Inr ws, _) \<Rightarrow> Ok ws
           | (Inl e, now) \<Rightarrow> ws_connect_nodes attempt deadline now e ns))"

definition ws_connect :: "(string \<Rightarrow> 's res \<times> instant) \<Rightarrow> instant \<Rightarrow> region \<Rightarrow> 's res" where
  "ws_connect attempt now r =
     ws_connect_nodes attempt (now + secs 10) now (Error ''DERP region has no relay nodes'')
       (filter (\<lambda>n. \<not> stun_only n) (nodes r))"

section \<open>The engine\<close>

text \<open>A link is the TCP socket of its handle; \<open>generation\<close>, a \<open>u64\<close> in the code, tells reuses of a handle apart.\<close>

record browser_link =
  generation :: nat
  bl_flow :: "ip_endpoint \<times> ip_endpoint"
  bl_port :: u16
  notified :: bool
  app_closed :: bool
  created :: instant

text \<open>Peers are the disco keys; the tunnels are in the world, as those of the actor.\<close>

record 'w engine =
  en_key :: key
  en_region :: region
  en_ws :: web_socket
  en_local :: ipv6
  en_server :: "key option"
  has_callback :: bool
  en_psk :: "key option"
  en_peers :: "(key \<times> key) list"
  en_incoming :: "byte list list"
  en_outgoing :: "byte list list"
  en_links :: "(nat \<times> browser_link) list"
  meowed :: bool
  en_closed :: bool
  close_when_drained :: bool
  drained_at :: "instant option"
  en_last_timers :: instant
  last_meow :: instant
  last_heartbeat :: instant
  en_next_port :: u16
  next_generation :: nat
  en_clock :: instant
  en_world :: 'w

definition en_elapsed :: "'w engine \<Rightarrow> instant \<Rightarrow> instant" where
  "en_elapsed s t = max 0 (en_clock s - t)"

definition en_send :: "'w browser \<Rightarrow> byte \<Rightarrow> byte list \<Rightarrow> 'w engine \<Rightarrow> 'w engine" where
  "en_send B kind body s =
     (case ws_send B kind body (en_ws s) (en_world s) of (_, ws, w) \<Rightarrow> s\<lparr>en_ws := ws, en_world := w\<rparr>)"

definition en_packet :: "'w browser \<Rightarrow> key \<Rightarrow> byte list \<Rightarrow> 'w engine \<Rightarrow> 'w engine" where
  "en_packet B key packet s = en_send B 4 (octets key @ packet) s"

definition en_add_peer :: "'w browser \<Rightarrow> key \<Rightarrow> key \<Rightarrow> 'w engine \<Rightarrow> 'w engine" where
  "en_add_peer B key disco s =
     (if map_of (en_peers s) key \<noteq> None \<or> max_peers \<le> length (en_peers s) \<or> key = zeros \<or> disco = zeros then s
      else s\<lparr>en_peers := en_peers s @ [(key, disco)],
             en_world := tunn_new B (en_world s) (en_key s) key (en_psk s) (of_nat (length (en_peers s)) + 1)\<rparr>)"

text \<open>\<open>create\<close>, on a connected socket.\<close>

definition engine_create ::
  "'w browser \<Rightarrow> key \<Rightarrow> region \<Rightarrow> conn_info option \<Rightarrow> key option \<Rightarrow> bool \<Rightarrow> web_socket \<Rightarrow> instant \<Rightarrow> 'w \<Rightarrow> stop + 'w engine" where
  "engine_create B key r dialed shared callback ws now w =
     (let s = \<lparr>en_key = key, en_region = r, en_ws = ws, en_local = tc_addr_for_key (public (crypto_lib B) key),
            en_server = map_option server_public dialed, has_callback = callback, en_psk = shared, en_peers = [],
            en_incoming = [], en_outgoing = [], en_links = [], meowed = False, en_closed = False,
            close_when_drained = False, drained_at = None, en_last_timers = now, last_meow = now,
            last_heartbeat = now, en_next_port = 32768, next_generation = 1, en_clock = now, en_world = w\<rparr>
      in case dialed of
           None \<Rightarrow> Inr s
         | Some ci \<Rightarrow>
             (case server_disco_public ci of
                None \<Rightarrow> Inl Panic
              | Some disco \<Rightarrow> Inr (en_add_peer B (server_public ci) disco s)))"

definition live_handle :: "'w engine \<Rightarrow> nat \<Rightarrow> nat \<Rightarrow> bool" where
  "live_handle s handle gen = (case map_of (en_links s) handle of Some l \<Rightarrow> generation l = gen | None \<Rightarrow> False)"

text \<open>\<open>self.links.insert\<close> of a new link with the next generation.\<close>

definition add_link :: "nat \<Rightarrow> ip_endpoint \<times> ip_endpoint \<Rightarrow> u16 \<Rightarrow> bool \<Rightarrow> 'w engine \<Rightarrow> 'w engine" where
  "add_link handle flow port told s =
     s\<lparr>en_links := AList.update handle \<lparr>generation = next_generation s, bl_flow = flow, bl_port = port,
           notified = told, app_closed = False, created = en_clock s\<rparr> (en_links s),
       next_generation := next_generation s + 1\<rparr>"

definition en_dial :: "'w browser \<Rightarrow> ipv6 \<Rightarrow> u16 \<Rightarrow> 'w engine \<Rightarrow> (nat \<times> nat) res \<times> 'w engine" where
  "en_dial B destination port s =
     (if max_connections \<le> length (en_links s) then (Err ''too many TCP connections'', s)
      else let flow = ((en_local s, en_next_port s), (destination, port)) in
        case sock_connect B (en_world s) (snd flow) (fst flow) of
          (Inl e, w) \<Rightarrow> (Err ''TCP dial'', s\<lparr>en_world := w\<rparr>)
        | (Inr handle, w) \<Rightarrow>
            let gen = next_generation s
            in (Ok (handle, gen), add_link handle flow port True
                 (s\<lparr>en_next_port := (if en_next_port s = 65535 then 32768 else en_next_port s + 1), en_world := w\<rparr>)))"

section \<open>Packets from the relay\<close>

text \<open>A connection attempt to a server: a listening socket for it, unless the flow has one.\<close>

definition en_accept_syn :: "'w browser \<Rightarrow> ip_endpoint \<times> ip_endpoint \<Rightarrow> 'w engine \<Rightarrow> 'w engine" where
  "en_accept_syn B flow s =
     (if list_ex (\<lambda>(h, l). bl_flow l = flow \<and> sock_state B (en_world s) h \<noteq> Closed) (en_links s) \<or>
         max_connections \<le> length (en_links s) then s
      else case sock_listen B (en_world s) (en_local s, snd (fst flow)) of
             (None, w) \<Rightarrow> s\<lparr>en_world := w\<rparr>
           | (Some handle, w) \<Rightarrow> add_link handle flow (snd (fst flow)) False (s\<lparr>en_world := w\<rparr>))"

definition en_to_stack :: "byte list \<Rightarrow> 'w engine \<Rightarrow> 'w engine" where
  "en_to_stack packet s =
     (if length (en_incoming s) < 256 then s\<lparr>en_incoming := en_incoming s @ [packet]\<rparr> else s)"

definition en_receive_ip :: "'w browser \<Rightarrow> byte list \<Rightarrow> 'w engine \<Rightarrow> 'w engine" where
  "en_receive_ip B packet s =
     (case ipv6_packet B packet of
        None \<Rightarrow> s
      | Some ip \<Rightarrow>
          if ip_version ip \<noteq> 6 \<or> dst_addr ip \<noteq> en_local s \<or> next_header ip \<noteq> 6 then s
          else (case parse_tcp B (ip_payload ip) (src_addr ip) (dst_addr ip) of
              None \<Rightarrow> s
            | Some t \<Rightarrow>
                if control t = CtlSyn \<and> ack_number t = None then
                  if en_server s \<noteq> None then s
                  else en_to_stack packet
                    (en_accept_syn B ((dst_addr ip, tcp_dst t), (src_addr ip, tcp_src t)) s)
                else en_to_stack packet s))"

definition en_meow :: "'w browser \<Rightarrow> key \<Rightarrow> byte list \<Rightarrow> 'w engine \<Rightarrow> 'w engine" where
  "en_meow B source data s =
     (case en_server s of
        None \<Rightarrow>
          (case parse_meow_ping data of
             Some (node, disco) \<Rightarrow>
               if node = source then
                 let s = en_add_peer B source disco s
                 in if map_of (en_peers s) source \<noteq> None then en_packet B source encode_meowed s else s
               else s
           | None \<Rightarrow> s)
      | Some k \<Rightarrow> if k = source \<and> is_meowed_packet data then s\<lparr>meowed := True\<rparr> else s)"

text \<open>A disco ping is answered with a pong that names no endpoint.\<close>

definition en_disco :: "'w browser \<Rightarrow> key \<Rightarrow> byte list \<Rightarrow> 'w engine \<Rightarrow> 'w engine" where
  "en_disco B source data s =
     (case map_of (en_peers s) source of
        None \<Rightarrow> s
      | Some peer_disco \<Rightarrow>
          (case open_disco (crypto_lib B) (en_key s) data of
             Inl _ \<Rightarrow> s
           | Inr (disco, plain) \<Rightarrow>
               if disco = peer_disco \<and> 14 \<le> length plain \<and> plain ! 0 = 1 then
                 (case random_nonce B (en_world s) of (nonce, w) \<Rightarrow>
                    let s = s\<lparr>en_world := w\<rparr>
                    in case seal_disco (crypto_lib B) nonce (en_key s) disco ([2, 0] @ slice 2 14 plain @ replicate 18 0) of
                         Inl _ \<Rightarrow> s
                       | Inr packet \<Rightarrow> en_packet B source packet s)
               else s))"

definition en_source_allowed :: "'w engine \<Rightarrow> key \<Rightarrow> byte list \<Rightarrow> bool" where
  "en_source_allowed s source packet \<longleftrightarrow>
     40 \<le> length packet \<and> (en_server s \<noteq> None \<or> slice 8 24 packet = octets (tc_addr_for_key source))"

fun en_decapsulate :: "'w browser \<Rightarrow> nat \<Rightarrow> key \<Rightarrow> byte list \<Rightarrow> 'w engine \<Rightarrow> stop + 'w engine" where
  "en_decapsulate B 0 source data s = Inl Diverged"
| "en_decapsulate B (Suc fuel) source data s =
     (if map_of (en_peers s) source = None then Inl Panic
      else case tunn_decapsulate B (en_world s) source None data of (r, w) \<Rightarrow>
        (let s = s\<lparr>en_world := w\<rparr> in
         case r of
           WriteToNetwork b \<Rightarrow> en_decapsulate B fuel source [] (en_packet B source b s)
         | WriteToTunnelV6 b \<Rightarrow>
             en_decapsulate B fuel source [] (if en_source_allowed s source b then en_receive_ip B b s else s)
         | _ \<Rightarrow> Inr s))"

definition en_receive :: "'w browser \<Rightarrow> nat \<Rightarrow> key \<Rightarrow> byte list \<Rightarrow> 'w engine \<Rightarrow> stop + 'w engine" where
  "en_receive B fuel source data s =
     (if is_meow_packet data then Inr (en_meow B source data s)
      else if starts_with data disco_magic then Inr (en_disco B source data s)
      else if map_of (en_peers s) source = None then Inr s
      else en_decapsulate B fuel source data s)"

section \<open>A turn of the engine\<close>

definition en_frame :: "'w browser \<Rightarrow> nat \<Rightarrow> frame \<Rightarrow> 'w engine \<Rightarrow> stop + 'w engine" where
  "en_frame B fuel f s =
     (case f of (kind, body) \<Rightarrow>
        if kind = 5 \<and> 32 \<le> length body \<and> length body \<le> 65568
        then en_receive B fuel (arr (take 32 body)) (drop 32 body) s
        else if kind = 0x12 \<and> length body = 8 then Inr (en_send B 0x13 body s)
        else if kind = 0x15 then Inr (s\<lparr>en_ws := (en_ws s)\<lparr>terminated := True\<rparr>\<rparr>)
        else Inr s)"

text \<open>At most so many frames; an error of the framing ends the turn.\<close>

fun en_read_frames :: "'w browser \<Rightarrow> nat \<Rightarrow> nat \<Rightarrow> 'w engine \<Rightarrow> stop + (unit res \<times> 'w engine)" where
  "en_read_frames B fuel 0 s = Inr (Ok (), s)"
| "en_read_frames B fuel (Suc n) s =
     (case next_frame (en_ws s) of
        Inl e \<Rightarrow> Inr (Inl e, s)
      | Inr (None, _) \<Rightarrow> Inr (Ok (), s)
      | Inr (Some f, ws) \<Rightarrow> and_then (en_frame B fuel f (s\<lparr>en_ws := ws\<rparr>)) (en_read_frames B fuel n))"

definition en_register :: "'w browser \<Rightarrow> 'w engine \<Rightarrow> 'w engine" where
  "en_register B s =
     (case en_server s of
        Some k \<Rightarrow>
          if \<not> meowed s \<and> secs 1 < en_elapsed s (last_meow s)
          then en_packet B k (encode_meow_ping (public (crypto_lib B) (en_key s)) (disco_public (crypto_lib B) (en_key s)))
                 (s\<lparr>last_meow := en_clock s\<rparr>)
          else s
      | None \<Rightarrow> s)"

definition en_heartbeat :: "'w browser \<Rightarrow> 'w engine \<Rightarrow> 'w engine" where
  "en_heartbeat B s =
     (if secs 30 < en_elapsed s (last_heartbeat s) then
        (case random_ping B (en_world s) of (p, w) \<Rightarrow>
           en_send B 0x12 (octets p) (s\<lparr>last_heartbeat := en_clock s, en_world := w\<rparr>))
      else s)"

text \<open>The packet device: \<open>receive\<close> with the reply its token may be used for, and \<open>transmit\<close>.\<close>

datatype device_call = Receive "byte list option" | Transmit "byte list"

fun device_step :: "byte list list \<times> byte list list \<Rightarrow> device_call \<Rightarrow> byte list list \<times> byte list list" where
  "device_step (inc, out) (Receive answer) =
     (if 256 \<le> length out then (inc, out)
      else case inc of
        [] \<Rightarrow> (inc, out)
      | p # ps \<Rightarrow> (ps, (case answer of Some a \<Rightarrow> out @ [a] | None \<Rightarrow> out)))"
| "device_step (inc, out) (Transmit p) = (if length out < 256 then (inc, out @ [p]) else (inc, out))"

definition en_poll :: "'w browser \<Rightarrow> 'w engine \<Rightarrow> 'w engine" where
  "en_poll B s =
     (case stack_poll B (en_world s) (en_clock s) (en_incoming s) of (inc, out, w) \<Rightarrow>
        s\<lparr>en_incoming := inc, en_outgoing := en_outgoing s @ out, en_world := w\<rparr>)"

text \<open>The peer a packet goes to: the server, or the one with the destination address.\<close>

definition en_next_hop :: "'w browser \<Rightarrow> ipv6 \<Rightarrow> 'w engine \<Rightarrow> key option" where
  "en_next_hop B destination s =
     (case en_server s of
        Some k \<Rightarrow> Some k
      | None \<Rightarrow> find (\<lambda>k. tc_addr_for_key k = destination) (hash_order B (map fst (en_peers s))))"

definition en_transmit :: "'w browser \<Rightarrow> byte list \<Rightarrow> 'w engine \<Rightarrow> stop + 'w engine" where
  "en_transmit B packet s =
     (if length packet < 40 then Inr s
      else case en_next_hop B (arr (slice 24 40 packet)) s of
        None \<Rightarrow> Inr s
      | Some k \<Rightarrow>
          if map_of (en_peers s) k = None then Inl Panic
          else (case tunn_encapsulate B (en_world s) k packet of (r, w) \<Rightarrow>
            let s = s\<lparr>en_world := w\<rparr>
            in Inr (case r of WriteToNetwork b \<Rightarrow> en_packet B k b s | _ \<Rightarrow> s)))"

fun en_transmit_all :: "'w browser \<Rightarrow> byte list list \<Rightarrow> 'w engine \<Rightarrow> stop + 'w engine" where
  "en_transmit_all B [] s = Inr s"
| "en_transmit_all B (p # ps) s = and_then (en_transmit B p s) (en_transmit_all B ps)"

definition en_flush :: "'w browser \<Rightarrow> 'w engine \<Rightarrow> stop + 'w engine" where
  "en_flush B s = en_transmit_all B (en_outgoing s) (s\<lparr>en_outgoing := []\<rparr>)"

definition en_timer :: "'w browser \<Rightarrow> key \<Rightarrow> 'w engine \<Rightarrow> 'w engine" where
  "en_timer B k s =
     (case tunn_update_timers B (en_world s) k of (r, w) \<Rightarrow>
        let s = s\<lparr>en_world := w\<rparr>
        in case r of WriteToNetwork b \<Rightarrow> en_packet B k b s | _ \<Rightarrow> s)"

definition en_timers :: "'w browser \<Rightarrow> 'w engine \<Rightarrow> 'w engine" where
  "en_timers B s =
     (if millis 250 < en_elapsed s (en_last_timers s)
      then fold (en_timer B) (hash_order B (map fst (en_peers s))) (s\<lparr>en_last_timers := en_clock s\<rparr>)
      else s)"

text \<open>One link of the sweep: the link afterwards, whether it is to be announced and to be removed.\<close>

definition sweep_link :: "'w browser \<Rightarrow> instant \<Rightarrow> nat \<Rightarrow> browser_link \<Rightarrow> 'w \<Rightarrow> browser_link \<times> bool \<times> bool \<times> 'w" where
  "sweep_link B now h l w =
     (let w = (if app_closed l \<and> sock_can_recv B w h then sock_consume B w h (length (sock_received B w h)) else w);
          up = (\<not> notified l \<and> (sock_state B w h = Established \<or> sock_state B w h = CloseWait));
          l = (if up then l\<lparr>notified := True\<rparr> else l);
          late = (\<not> notified l \<and> secs 60 < max 0 (now - created l));
          w = (if late then sock_abort B w h else w);
          l = (if late then l\<lparr>app_closed := True\<rparr> else l)
      in (l, up, sock_state B w h = Closed \<and> sock_recv_queue B w h = 0, w))"

fun sweep_links ::
  "'w browser \<Rightarrow> instant \<Rightarrow> (nat \<times> browser_link) list \<Rightarrow> 'w \<Rightarrow>
   (nat \<times> browser_link) list \<times> (nat \<times> nat \<times> u16) list \<times> nat list \<times> 'w" where
  "sweep_links B now [] w = ([], [], [], w)"
| "sweep_links B now ((h, l) # ls) w =
     (case sweep_link B now h l w of (l', up, gone, w) \<Rightarrow>
      case sweep_links B now ls w of (ls', accepted, removed, w) \<Rightarrow>
        ((h, l') # ls', (if up then (h, generation l, bl_port l) # accepted else accepted),
         (if gone then h # removed else removed), w))"

definition en_sweep :: "'w browser \<Rightarrow> 'w engine \<Rightarrow> (nat \<times> nat \<times> u16) list \<times> 'w engine" where
  "en_sweep B s =
     (case sweep_links B (en_clock s) (en_links s) (en_world s) of (ls, accepted, removed, w) \<Rightarrow>
        (accepted,
         s\<lparr>en_links := filter (\<lambda>(h, l). h \<notin> set removed) ls,
           en_world := fold (\<lambda>h w. sock_remove B w h) removed w\<rparr>))"

definition en_close :: "'w browser \<Rightarrow> 'w engine \<Rightarrow> 'w engine" where
  "en_close B s =
     s\<lparr>en_closed := True, en_ws := (en_ws s)\<lparr>terminated := True, ws_queue := []\<rparr>,
       en_world := socket_set_new B (fold (\<lambda>(h, l) w. sock_abort B w h) (en_links s) (ws_shutdown B (en_world s))),
       en_links := [], en_peers := [], en_incoming := [], en_outgoing := []\<rparr>"

definition en_drain :: "'w browser \<Rightarrow> 'w engine \<Rightarrow> 'w engine" where
  "en_drain B s =
     (if close_when_drained s \<and>
         list_all (\<lambda>(h, l). sock_state B (en_world s) h \<in> {Closed, TimeWait, FinWait2}) (en_links s)
      then let since = (case drained_at s of Some t \<Rightarrow> t | None \<Rightarrow> en_clock s);
               s = s\<lparr>drained_at := Some since\<rparr>
           in if millis 100 < en_elapsed s since then en_close B s else s
      else s)"

definition en_tick :: "'w browser \<Rightarrow> nat \<Rightarrow> 'w engine \<Rightarrow> stop + ((nat \<times> nat \<times> u16) list res \<times> 'w engine)" where
  "en_tick B fuel s =
     and_then (en_read_frames B fuel 512 s) (\<lambda>(r, s).
     case r of
       Inl e \<Rightarrow> Inr (Inl e, s)
     | Inr _ \<Rightarrow>
         and_then (en_flush B (en_poll B (en_heartbeat B (en_register B s)))) (\<lambda>s.
         case en_sweep B (en_timers B s) of (accepted, s) \<Rightarrow> Inr (Ok accepted, en_drain B s)))"

section \<open>Connections\<close>

text \<open>The object given to JavaScript; a second read or write while one is waiting is refused.\<close>

record browser_conn =
  conn_handle :: nat
  conn_generation :: nat
  conn_port :: u16
  reading :: bool
  writing :: bool

definition conn_new :: "nat \<Rightarrow> nat \<Rightarrow> u16 \<Rightarrow> browser_conn" where
  "conn_new handle gen port =
     \<lparr>conn_handle = handle, conn_generation = gen, conn_port = port, reading = False, writing = False\<rparr>"

definition begin_read :: "browser_conn \<Rightarrow> unit res \<times> browser_conn" where
  "begin_read c = ((if reading c then Err ''concurrent reads are unsupported'' else Ok ()), c\<lparr>reading := True\<rparr>)"

definition begin_write :: "browser_conn \<Rightarrow> unit res \<times> browser_conn" where
  "begin_write c = ((if writing c then Err ''concurrent writes are unsupported'' else Ok ()), c\<lparr>writing := True\<rparr>)"

definition conn_live :: "browser_conn \<Rightarrow> 'w engine \<Rightarrow> bool" where
  "conn_live c s \<longleftrightarrow> \<not> en_closed s \<and> live_handle s (conn_handle c) (conn_generation c)"

text \<open>One look of the loop of \<open>read\<close>: its result (\<open>None\<close> is \<open>null\<close>), or wait and look again.\<close>

datatype 'a look = Finally "'a res" | LookAgain

definition conn_read :: "'w browser \<Rightarrow> browser_conn \<Rightarrow> 'w engine \<Rightarrow> byte list option look \<times> 'w engine" where
  "conn_read B c s =
     (if \<not> conn_live c s then (Finally (Ok None), s)
      else if sock_can_recv B (en_world s) (conn_handle c) then
        (case sock_recv_slice B (en_world s) (conn_handle c) (min 65536 (sock_recv_queue B (en_world s) (conn_handle c))) of
           (Inl e, w) \<Rightarrow> (Finally (Inl e), s\<lparr>en_world := w\<rparr>)
         | (Inr data, w) \<Rightarrow> (Finally (Ok (Some data)), s\<lparr>en_world := w\<rparr>))
      else if \<not> sock_may_recv B (en_world s) (conn_handle c) then (Finally (Ok None), s)
      else (LookAgain, s))"

text \<open>One look of the loop of \<open>write\<close> at an offset within the data, and the offset after it.\<close>

definition conn_write :: "'w browser \<Rightarrow> browser_conn \<Rightarrow> byte list \<Rightarrow> nat \<Rightarrow> 'w engine \<Rightarrow> nat res \<times> 'w engine" where
  "conn_write B c data offset s =
     (if \<not> conn_live c s then (Err ''connection is closed'', s)
      else if \<not> sock_may_send B (en_world s) (conn_handle c) then (Err ''connection write side is closed'', s)
      else if sock_can_send B (en_world s) (conn_handle c) then
        (case sock_send_slice B (en_world s) (conn_handle c) (drop offset data) of
           (Inl e, w) \<Rightarrow> (Inl e, s\<lparr>en_world := w\<rparr>)
         | (Inr n, w) \<Rightarrow> (Ok (offset + n), s\<lparr>en_world := w\<rparr>))
      else (Ok offset, s))"

definition conn_close_write :: "'w browser \<Rightarrow> browser_conn \<Rightarrow> 'w engine \<Rightarrow> unit res \<times> 'w engine" where
  "conn_close_write B c s =
     (if writing c then (Err ''write must finish before closeWrite'', s)
      else if conn_live c s then (Ok (), s\<lparr>en_world := sock_close B (en_world s) (conn_handle c)\<rparr>)
      else (Ok (), s))"

definition conn_close :: "'w browser \<Rightarrow> browser_conn \<Rightarrow> 'w engine \<Rightarrow> 'w engine" where
  "conn_close B c s =
     (if conn_live c s then
        s\<lparr>en_world := sock_close B (en_world s) (conn_handle c),
          en_links := map (\<lambda>(h, l). (h, if h = conn_handle c then l\<lparr>app_closed := True\<rparr> else l)) (en_links s),
          close_when_drained := (close_when_drained s \<or> en_server s \<noteq> None)\<rparr>
      else s)"

section \<open>The loop that drives the engine\<close>

text \<open>
  A callback that throws closes the connection it was given; \<open>throws\<close> says of which. The objects given out
  are part of the result.
\<close>

fun announce ::
  "'w browser \<Rightarrow> (nat \<Rightarrow> bool) \<Rightarrow> (nat \<times> nat \<times> u16) list \<Rightarrow> 'w engine \<Rightarrow> browser_conn list \<times> 'w engine" where
  "announce B throws [] s = ([], s)"
| "announce B throws ((h, g, port) # as) s =
     (if \<not> live_handle s h g then announce B throws as s
      else let s = (if throws g then
                 s\<lparr>en_world := sock_close B (en_world s) h,
                   en_links := map (\<lambda>(k, l). (k, if k = h then l\<lparr>app_closed := True\<rparr> else l)) (en_links s)\<rparr>
               else s)
        in case announce B throws as s of (cs, s) \<Rightarrow> (conn_new h g port # cs, s))"

definition engine_turn :: "'w browser \<Rightarrow> nat \<Rightarrow> (nat \<Rightarrow> bool) \<Rightarrow> 'w engine \<Rightarrow> stop + (browser_conn list \<times> 'w engine)" where
  "engine_turn B fuel throws s =
     and_then (en_tick B fuel s) (\<lambda>(r, s).
     Inr (case r of
            Ok accepted \<Rightarrow> if has_callback s then announce B throws accepted s else ([], s)
          | Inl e \<Rightarrow> ([], en_close B s)))"

text \<open>
  What happens to an engine: something arrives on its socket, the loop takes a turn, a new connection to
  the relay is there, JavaScript calls one of the methods.
\<close>

datatype engine_event =
    Arrives ws_event
  | LoopTurn instant "nat \<Rightarrow> bool"
  | Reconnected web_socket instant "nat \<Rightarrow> bool"
  | DialOut ipv6 u16
  | ReadFrom browser_conn
  | WriteTo browser_conn "byte list" nat
  | CloseWrite browser_conn
  | CloseConn browser_conn
  | CloseEngine

definition engine_step :: "'w browser \<Rightarrow> nat \<Rightarrow> engine_event \<Rightarrow> 'w engine \<Rightarrow> stop + (browser_conn list \<times> 'w engine)" where
  "engine_step B fuel e s =
     (case e of
        Arrives ev \<Rightarrow> Inr ([], s\<lparr>en_ws := on_ws_event ev (en_ws s)\<rparr>)
      | LoopTurn now throws \<Rightarrow>
          if en_closed s \<or> terminated (en_ws s) then Inr ([], s)
          else engine_turn B fuel throws (s\<lparr>en_clock := now\<rparr>)
      | Reconnected ws now throws \<Rightarrow>
          if en_closed s \<or> \<not> terminated (en_ws s) then Inr ([], s)
          else engine_turn B fuel throws (s\<lparr>en_ws := ws, meowed := False, en_clock := now\<rparr>)
      | DialOut destination port \<Rightarrow>
          if en_closed s then Inr ([], s)
          else (case en_dial B destination port s of
             (Inr (h, g), s) \<Rightarrow> Inr ([conn_new h g port], s)
           | (Inl _, s) \<Rightarrow> Inr ([], s))
      | ReadFrom c \<Rightarrow> Inr ([], snd (conn_read B c s))
      | WriteTo c data offset \<Rightarrow> Inr ([], snd (conn_write B c data offset s))
      | CloseWrite c \<Rightarrow> Inr ([], snd (conn_close_write B c s))
      | CloseConn c \<Rightarrow> Inr ([], conn_close B c s)
      | CloseEngine \<Rightarrow> Inr ([], en_close B s))"

text \<open>A run, with all connection objects given out.\<close>

fun engine_run :: "'w browser \<Rightarrow> nat \<Rightarrow> engine_event list \<Rightarrow> 'w engine \<Rightarrow> stop + (browser_conn list \<times> 'w engine)" where
  "engine_run B fuel [] s = Inr ([], s)"
| "engine_run B fuel (e # es) s =
     and_then (engine_step B fuel e s) (\<lambda>(cs, s).
     and_then (engine_run B fuel es s) (\<lambda>(cs', s). Inr (cs @ cs', s)))"

section \<open>Listening and dialing\<close>

text \<open>The region of a connection info in the browser; an answer is good with a status of 2xx.\<close>

definition browser_fetch :: "(byte list \<Rightarrow> derp_map res) \<Rightarrow> http_answer res \<Rightarrow> derp_map res" where
  "browser_fetch decode answer =
     and_then (context_of ''fetching DERP map'' answer) (\<lambda>res.
     if http_status res < 200 \<or> 299 < http_status res then Err ''fetching DERP map: HTTP status''
     else and_then (collect_body [] (body_chunks res) (body_cut res)) decode)"

definition browser_expand :: "derp_map res \<Rightarrow> conn_info \<Rightarrow> conn_info res" where
  "browser_expand fetched ci =
     (if regions ci \<noteq> [] then Ok ci
      else if ci_region_id ci = 0 then Err ''no DERP region in tailcat address''
      else and_then fetched (\<lambda>dm.
        and_then (if ci_region_id ci = -1
                  then ok_or ''DERP map has no regions'' (case dm of [] \<Rightarrow> None | (i, _) # _ \<Rightarrow> Some i)
                  else Ok (ci_region_id ci)) (\<lambda>i.
        and_then (ok_or ''DERP region does not exist'' (map_of dm i)) (\<lambda>r.
        Ok (ci\<lparr>regions := [r], ci_region_id := (if ci_region_id ci = -1 then 0 else ci_region_id ci)\<rparr>)))))"

text \<open>
  The key and public part that \<open>listen\<close> serves under: new ones from randomness, or the saved ones with
  their public keys computed again.
\<close>

definition listen_identity :: "crypto \<Rightarrow> key \<Rightarrow> key \<Rightarrow> (key \<times> conn_info) option \<Rightarrow> key \<times> conn_info" where
  "listen_identity C raw shared existing =
     (case (case existing of
              Some saved \<Rightarrow> saved
            | None \<Rightarrow> let k = private_key_new raw
                      in (k, (conn_info_for_key C k)\<lparr>ci_region_id := -1, preshared_key := Some shared\<rparr>)) of
        (k, info) \<Rightarrow> (k, info\<lparr>server_public := public C k, server_disco_public := Some (disco_public C k)\<rparr>))"

text \<open>\<open>listen\<close> up to the engine: the saved key, the address, and what the engine is created with.\<close>

definition browser_listen ::
  "crypto \<Rightarrow> addr_crates \<Rightarrow> derp_map res \<Rightarrow> bool \<Rightarrow> string \<Rightarrow> key \<Rightarrow> key \<Rightarrow> (key \<times> conn_info) res option \<Rightarrow>
   ((key \<times> conn_info) \<times> string \<times> (key \<times> region \<times> key option)) res" where
  "browser_listen C A fetched callback url raw shared existing =
     (if \<not> callback then Err ''onConnection function is required''
      else if url = [] then Err ''derpMapURL is required''
      else and_then (case existing of
                       None \<Rightarrow> Ok None
                     | Some saved \<Rightarrow> context_of ''parsing privateKey'' (and_then saved (\<lambda>k. Ok (Some k)))) (\<lambda>saved.
        case listen_identity C raw shared saved of (k, info) \<Rightarrow>
        and_then (browser_expand fetched info) (\<lambda>ci.
        let r = hd (regions ci);
            info = (if existing = None then info\<lparr>ci_region_id := region_id r\<rparr> else info)
        in and_then (encode_addr A info) (\<lambda>addr. Ok ((k, info), addr, (k, r, preshared_key ci))))))"

text \<open>The number given as a port, without one 1; it must be a whole number.\<close>

definition js_port :: "f64 option \<Rightarrow> nat res" where
  "js_port p =
     (case (case p of None \<Rightarrow> Finite 1 | Some n \<Rightarrow> n) of
        Finite r \<Rightarrow> if r = of_int \<lfloor>r\<rfloor> \<and> 0 \<le> r \<and> r \<le> 65535 then Ok (nat \<lfloor>r\<rfloor>) else Err ''port must be between 0 and 65535''
      | _ \<Rightarrow> Err ''port must be between 0 and 65535'')"

text \<open>\<open>dial\<close> up to the engine: what it is created with, and the port.\<close>

definition browser_dial ::
  "addr_crates \<Rightarrow> derp_map res \<Rightarrow> string \<Rightarrow> key res \<Rightarrow> f64 option \<Rightarrow> (key \<times> region \<times> conn_info \<times> nat) res" where
  "browser_dial A fetched addr client_key p =
     (if addr = [] then Err ''addr is required''
      else and_then client_key (\<lambda>k.
        and_then (js_port p) (\<lambda>port.
        and_then (parse_addr A addr) (\<lambda>ci.
        if nonzero (server_disco_public ci) = None then Err ''legacy tailcat address lacks a separate disco key''
        else and_then (browser_expand fetched ci) (\<lambda>ci. Ok (k, hd (regions ci), ci, port))))))"

end
