(* ===== verification/BrowserProps.thy ===== *)
theory BrowserProps
  imports Browser
begin

text \<open>
  The properties of the browser front end: its reader of frames agrees with the native one, it
  authenticates to the relay with the same bytes, its engine never panics and keeps its limits, takes
  peers and traffic only as the server does, and a connection object never reaches another connection.
\<close>

section \<open>Frames\<close>

lemma hd_slice_split: "5 \<le> length q \<Longrightarrow> q = [hd q] @ slice 1 5 q @ drop 5 q"
proof -
  assume "5 \<le> length q"
  then obtain a r where "q = a # r" by (cases q) auto
  then show ?thesis by (simp add: slice_def)
qed

text \<open>A frame is taken exactly when the native reader reads it.\<close>

lemma next_frame_read:
  "next_frame ws = Ok (Some f, ws') \<longleftrightarrow>
     (\<exists>rest. read_frame (ws_queue ws) = Ok (f, rest) \<and> ws' = ws\<lparr>ws_queue := rest\<rparr>)" (is "?L = ?R")
proof
  let ?q = "ws_queue ws" and ?n = "unat (from_be_bytes (slice 1 5 (ws_queue ws)) :: u32)"
  assume ?L
  then have q: "5 \<le> length ?q" "?n \<le> max_frame" "5 + ?n \<le> length ?q"
    and f: "f = (hd ?q, slice 5 (5 + ?n) ?q)" "ws' = ws\<lparr>ws_queue := drop (5 + ?n) ?q\<rparr>"
    by (auto simp: next_frame_def Let_def split: if_splits)
  have "drop 5 ?q = slice 5 (5 + ?n) ?q @ drop (5 + ?n) ?q" by (simp add: drop_slice)
  with hd_slice_split [OF q(1)] have "?q = [hd ?q] @ slice 1 5 ?q @ slice 5 (5 + ?n) ?q @ drop (5 + ?n) ?q" by metis
  then have "read_frame ?q = Ok ((hd ?q, slice 5 (5 + ?n) ?q), drop (5 + ?n) ?q)"
    using q by (subst read_frame_Ok_iff) (auto simp: length_slice intro!: exI [of _ "slice 1 5 ?q"])
  with f show ?R by blast
next
  assume ?R
  then obtain rest where r: "read_frame (ws_queue ws) = Ok ((fst f, snd f), rest)" and ws': "ws' = ws\<lparr>ws_queue := rest\<rparr>" by auto
  then obtain l where l: "ws_queue ws = [fst f] @ l @ snd f @ rest" "length l = 4"
      "length (snd f) = unat (from_be_bytes l :: u32)" "length (snd f) \<le> max_frame"
    unfolding read_frame_Ok_iff by blast
  have "slice 1 5 (ws_queue ws) = l" unfolding l(1) by (rule slice_append_mid) (simp_all add: l(2))
  moreover have "slice 5 (5 + length (snd f)) (ws_queue ws) = snd f"
    using slice_append_mid [of "[fst f] @ l" 5 "snd f" "5 + length (snd f)" rest] l(1,2) by simp
  moreover have "ws_queue ws = ([fst f] @ l @ snd f) @ rest" "length ([fst f] @ l @ snd f) = 5 + length (snd f)"
    using l(1,2) by simp_all
  then have "drop (5 + length (snd f)) (ws_queue ws) = rest" by (metis append_eq_conv_conj)
  moreover have "hd (ws_queue ws) = fst f" "5 + length (snd f) \<le> length (ws_queue ws)" using l(1,2) by simp_all
  ultimately show ?L using ws' l(3,4) by (simp add: next_frame_def Let_def)
qed

text \<open>An error is that of the native reader, and it stays whatever else arrives.\<close>

lemma next_frame_too_large:
  "next_frame ws = Inl e \<longleftrightarrow>
     e = Error ''DERP frame exceeds size limit'' \<and> 5 \<le> length (ws_queue ws) \<and>
     max_frame < unat (from_be_bytes (slice 1 5 (ws_queue ws)) :: u32)"
  by (auto simp: next_frame_def Let_def)

lemma slice_append1: "j \<le> length a \<Longrightarrow> slice i j (a @ b) = slice i j a"
  by (cases "i \<le> j") (simp_all add: slice_def)

lemma next_frame_more:
  "next_frame ws = Ok (Some f, ws') \<Longrightarrow>
   next_frame (ws\<lparr>ws_queue := ws_queue ws @ ext\<rparr>) = Ok (Some f, ws'\<lparr>ws_queue := ws_queue ws' @ ext\<rparr>)"
  "next_frame ws = Inl e \<Longrightarrow> next_frame (ws\<lparr>ws_queue := ws_queue ws @ ext\<rparr>) = Inl e"
  by (auto simp: next_frame_def Let_def slice_append1 hd_append split: if_splits)

text \<open>All frames that are complete.\<close>

function take_frames :: "web_socket \<Rightarrow> frame list \<times> web_socket" where
  "take_frames ws =
     (case next_frame ws of
        Inr (Some f, ws') \<Rightarrow> (case take_frames ws' of (fs, ws'') \<Rightarrow> (f # fs, ws''))
      | _ \<Rightarrow> ([], ws))"
  by pat_completeness auto
termination
  by (relation "measure (\<lambda>ws. length (ws_queue ws))") (auto dest: next_frame_Some)

declare take_frames.simps [simp del]

lemma take_frames_append:
  "take_frames ws = (fs, ws') \<Longrightarrow>
   take_frames (ws\<lparr>ws_queue := ws_queue ws @ ext\<rparr>) =
     (case take_frames (ws'\<lparr>ws_queue := ws_queue ws' @ ext\<rparr>) of (gs, ws'') \<Rightarrow> (fs @ gs, ws''))"
proof (induction ws arbitrary: fs ws' rule: take_frames.induct)
  case (1 ws)
  show ?case
  proof (cases "\<exists>f ws1. next_frame ws = Ok (Some f, ws1)")
    case True
    then obtain f ws1 where f: "next_frame ws = Ok (Some f, ws1)" by blast
    obtain gs where gs: "take_frames ws1 = (gs, ws')" "fs = f # gs"
      using "1.prems" f by (subst (asm) take_frames.simps) (auto split: prod.splits)
    from "1.IH" [OF f refl refl gs(1)] next_frame_more(1) [OF f, of ext] gs(2) show ?thesis
      by (subst take_frames.simps) (simp split: prod.splits)
  next
    case False
    then have "fs = [] \<and> ws' = ws" using "1.prems" by (subst (asm) take_frames.simps) (auto split: sum.splits prod.splits option.splits)
    then show ?thesis by (simp split: prod.splits)
  qed
qed

lemma take_frames_reader:
  "take_frames ws = (fs, ws') \<Longrightarrow> \<exists>e. reader_task (ws_queue ws) = map Inr fs @ [Inl e]"
proof (induction ws arbitrary: fs ws' rule: take_frames.induct)
  case (1 ws)
  show ?case
  proof (cases "read_frame (ws_queue ws)")
    case (Inl e)
    then have "fs = []" using "1.prems" next_frame_read [of ws]
      by (subst (asm) take_frames.simps) (auto split: sum.splits prod.splits option.splits)
    with Inl show ?thesis by (subst reader_task.simps) auto
  next
    case (Inr x)
    then obtain f rest where x: "read_frame (ws_queue ws) = Ok (f, rest)" by (cases x) auto
    then have f: "next_frame ws = Ok (Some f, ws\<lparr>ws_queue := rest\<rparr>)" by (auto simp: next_frame_read)
    obtain gs where gs: "take_frames (ws\<lparr>ws_queue := rest\<rparr>) = (gs, ws')" "fs = f # gs"
      using "1.prems" f by (subst (asm) take_frames.simps) (auto split: prod.splits)
    from "1.IH" [OF f refl refl gs(1)] x gs(2) show ?thesis by (subst reader_task.simps) auto
  qed
qed

text \<open>The frames taken over a sequence of messages, each followed by reading.\<close>

fun frames_of_messages :: "byte list list \<Rightarrow> web_socket \<Rightarrow> frame list \<times> web_socket" where
  "frames_of_messages [] ws = ([], ws)"
| "frames_of_messages (m # ms) ws =
     (case take_frames (on_ws_event (BinaryMessage m) ws) of (fs, ws) \<Rightarrow>
      case frames_of_messages ms ws of (gs, ws) \<Rightarrow> (fs @ gs, ws))"

lemma take_frames_stops: "take_frames ws = (fs, ws') \<Longrightarrow> take_frames ws' = ([], ws')"
proof (induction ws arbitrary: fs ws' rule: take_frames.induct)
  case (1 ws)
  show ?case
  proof (cases "\<exists>f ws1. next_frame ws = Ok (Some f, ws1)")
    case True
    then obtain f ws1 where f: "next_frame ws = Ok (Some f, ws1)" by blast
    then obtain gs where "take_frames ws1 = (gs, ws')"
      using "1.prems" by (subst (asm) take_frames.simps) (auto split: prod.splits)
    from "1.IH" [OF f refl refl this] show ?thesis .
  next
    case False
    then have "take_frames ws = ([], ws)"
      by (subst take_frames.simps) (auto split: sum.splits prod.splits option.splits)
    with "1.prems" show ?thesis by simp
  qed
qed

lemma next_frame_terminated: "next_frame ws = Ok (x, ws') \<Longrightarrow> terminated ws' = terminated ws"
  by (auto simp: next_frame_def Let_def split: if_splits)

lemma take_frames_terminated: "take_frames ws = (fs, ws') \<Longrightarrow> terminated ws' = terminated ws"
proof (induction ws arbitrary: fs ws' rule: take_frames.induct)
  case (1 ws)
  show ?case
  proof (cases "\<exists>f ws1. next_frame ws = Ok (Some f, ws1)")
    case True
    then obtain f ws1 where f: "next_frame ws = Ok (Some f, ws1)" by blast
    then obtain gs where "take_frames ws1 = (gs, ws')"
      using "1.prems" by (subst (asm) take_frames.simps) (auto split: prod.splits)
    from "1.IH" [OF f refl refl this] next_frame_terminated [OF f] show ?thesis by simp
  next
    case False
    then have "take_frames ws = ([], ws)"
      by (subst take_frames.simps) (auto split: sum.splits prod.splits option.splits)
    with "1.prems" show ?thesis by simp
  qed
qed

lemma frames_of_messages_terminated:
  "frames_of_messages ms ws = (fs, ws') \<Longrightarrow> terminated ws \<Longrightarrow> terminated ws'"
proof (induction ms arbitrary: ws fs)
  case (Cons m ms)
  then show ?case by (auto split: prod.splits dest: take_frames_terminated)
qed simp

lemma frames_of_messages_all:
  assumes "frames_of_messages ms ws = (fs, ws')" "\<not> terminated ws'" "take_frames ws = ([], ws)"
  shows "take_frames (ws\<lparr>ws_queue := ws_queue ws @ concat ms\<rparr>) = (fs, ws')"
  using assms
proof (induction ms arbitrary: ws fs)
  case (Cons m ms)
  obtain gs ws1 hs where steps: "take_frames (on_ws_event (BinaryMessage m) ws) = (gs, ws1)"
      "frames_of_messages ms ws1 = (hs, ws')" "fs = gs @ hs"
    using Cons.prems(1) by (auto split: prod.splits)
  have "\<not> terminated ws1" using frames_of_messages_terminated [OF steps(2)] Cons.prems(2) by blast
  then have "on_ws_event (BinaryMessage m) ws = ws\<lparr>ws_queue := ws_queue ws @ m\<rparr>"
    using take_frames_terminated [OF steps(1)] by (auto split: if_splits)
  with steps(1) have gs: "take_frames (ws\<lparr>ws_queue := ws_queue ws @ m\<rparr>) = (gs, ws1)" by simp
  from take_frames_append [OF gs, of "concat ms"] Cons.IH [OF steps(2) Cons.prems(2) take_frames_stops [OF gs]]
  show ?case by (simp add: steps(3))
qed simp

text \<open>
  C32. The browser reads frames as the native client does: whatever messages the stream of the relay comes
  in, the frames taken after each of them are, in order and unchanged, those that the native reader task
  takes from the whole stream before it fails, also where it fails because a frame is too large; the
  socket only must not have ended.
\<close>

theorem browser_frames_refine:
  assumes "frames_of_messages ms \<lparr>ws_queue = [], terminated = False, ws_sent = []\<rparr> = (fs, ws)" "\<not> terminated ws"
  shows "(\<exists>e. reader_task (concat ms) = map Inr fs @ [Inl e])"
proof -
  let ?new = "\<lparr>ws_queue = [], terminated = False, ws_sent = []\<rparr>"
  have "take_frames ?new = ([], ?new)" by (subst take_frames.simps) (simp add: next_frame_def)
  from frames_of_messages_all [OF assms this] have "take_frames (?new\<lparr>ws_queue := concat ms\<rparr>) = (fs, ws)" by simp
  from take_frames_reader [OF this] show ?thesis by simp
qed

text \<open>A keepalive, and the first byte of the next frame.\<close>

theorem browser_frames_refine_witness:
  "\<exists>e. reader_task (concat [frame_bytes (6, [9]), [6]]) = [Inr (6, [9]), Inl e]"
proof -
  let ?ws = "\<lambda>q. \<lparr>ws_queue = q, terminated = False, ws_sent = []\<rparr>"
  have fits: "length (snd (6, [9 :: byte])) \<le> max_frame" by (simp add: max_frame_def)
  have short: "length q < 5 \<Longrightarrow> take_frames (?ws q) = ([], ?ws q)" for q
    by (subst take_frames.simps) (simp add: next_frame_def)
  have "next_frame (?ws (frame_bytes (6, [9]))) = Ok (Some (6, [9]), ?ws [])"
    using read_frame_bytes [OF fits, of "[]"] by (simp add: next_frame_read)
  then have "take_frames (?ws (frame_bytes (6, [9]))) = ([(6, [9])], ?ws [])"
    by (subst take_frames.simps) (simp add: short)
  moreover have "length (frame_bytes (6, [9])) = 6" by (simp add: frame_bytes_def)
  ultimately have "frames_of_messages [frame_bytes (6, [9]), [6]] (?ws []) = ([(6, [9])], ?ws [6])"
    by (simp add: short max_ws_queue_def)
  from browser_frames_refine [OF this] show ?thesis by simp
qed

section \<open>Authentication\<close>

fun event_bytes :: "ws_event \<Rightarrow> byte list" where
  "event_bytes (BinaryMessage data) = data"
| "event_bytes _ = []"

definition messages :: "turn list \<Rightarrow> byte list" where
  "messages turns = concat (map event_bytes (concat (map snd turns)))"

lemma messages_simps [simp]:
  "messages [] = []" "messages ((now, evs) # ts) = concat (map event_bytes evs) @ messages ts"
  "messages (a @ b) = messages a @ messages b"
  by (simp_all add: messages_def)

lemma fold_on_ws_event:
  "\<not> terminated (fold on_ws_event evs ws) \<Longrightarrow>
   \<not> terminated ws \<and> fold on_ws_event evs ws = ws\<lparr>ws_queue := ws_queue ws @ concat (map event_bytes evs)\<rparr>"
proof (induction evs arbitrary: ws)
  case (Cons e evs)
  from Cons.IH [of "on_ws_event e ws"] Cons.prems show ?case by (cases e) (auto split: if_splits)
qed simp

lemma wait_frame_read:
  assumes "wait_frame deadline turns ws = Some (Ok (f, turns', ws'))" "\<not> terminated ws'"
  shows "\<exists>used. turns = used @ turns' \<and> read_frame (ws_queue ws @ messages used) = Ok (f, ws_queue ws') \<and>
    ws_sent ws' = ws_sent ws \<and> \<not> terminated ws"
  using assms
proof (induction deadline turns ws rule: wait_frame.induct)
  case (2 deadline now events turns ws)
  obtain x ws1 where n: "next_frame ws = Ok (x, ws1)"
    using "2.prems"(1) by (cases "next_frame ws") auto
  show ?case
  proof (cases x)
    case (Some g)
    with n "2.prems" have "f = g" "turns' = (now, events) # turns" "ws' = ws1" by auto
    with n Some "2.prems"(2) show ?thesis
      by (intro exI [of _ "[]"]) (auto simp: next_frame_read)
  next
    case None
    then have none: "\<not> terminated ws" "\<not> deadline \<le> now"
        "wait_frame deadline turns (fold on_ws_event events ws) = Some (Ok (f, turns', ws'))"
      using "2.prems" n by (auto split: if_splits)
    from "2.IH" [OF n refl None none "2.prems"(2)] fold_on_ws_event [of events ws]
    show ?thesis by (elim exE) (rule_tac x = "(now, events) # used" in exI, auto)
  qed
qed simp

lemma ws_send_Ok:
  "ws_send B kind body ws w = (Inr x, ws', w') \<Longrightarrow>
   ws' = ws\<lparr>ws_sent := ws_sent ws @ [(kind, body)]\<rparr>"
  by (auto simp: ws_send_def split: if_splits prod.splits)

lemma ws_auth_loop:
  assumes "ws_auth B json_ok key server_key deadline turns ws w = Some (Ok (turns', ws', w'))" "\<not> terminated ws'"
  shows "\<exists>used fs. turns = used @ turns' \<and> ws_sent ws' = ws_sent ws @ fs \<and> \<not> terminated ws \<and>
    (\<forall>out. auth_loop (crypto_lib B) json_ok key server_key out (ws_queue ws @ messages used) =
       Ok (out @ concat (map frame_bytes fs) @ frame_bytes (7, [1]), ws_queue ws'))"
  using assms
proof (induction B json_ok key server_key deadline turns ws w rule: ws_auth.induct)
  case (1 B json_ok key server_key deadline turns ws w)
  from "1.prems"(1) obtain kind info ts ws1 where wait: "wait_frame deadline turns ws = Some (Ok ((kind, info), ts, ws1))"
    by (subst (asm) ws_auth.simps) (auto split: option.splits sum.splits prod.splits)
  have step: "ws_auth B json_ok key server_key deadline turns ws w =
      (if kind = 3 then
         Some (and_then (open_box (crypto_lib B) key server_key info) (\<lambda>info.
           if json_ok info then Ok (ts, ws1, w) else Err ''invalid DERP server info''))
       else if kind = 6 then ws_auth B json_ok key server_key deadline ts ws1 w
       else if kind = 0x12 \<and> length info = 8 then
         (case ws_send B 0x13 info ws1 w of
            (Inl e, _) \<Rightarrow> Some (Inl e)
          | (Inr _, ws, w) \<Rightarrow> ws_auth B json_ok key server_key deadline ts ws w)
       else Some (Err ''unexpected DERP authentication frame''))"
    by (subst ws_auth.simps) (simp add: wait)
  have read: "\<exists>u. turns = u @ ts \<and> ws_sent ws1 = ws_sent ws \<and> \<not> terminated ws \<and>
      (\<forall>ext. read_frame (ws_queue ws @ messages u @ ext) = Ok ((kind, info), ws_queue ws1 @ ext))" if running: "\<not> terminated ws1"
  proof -
    obtain u where u: "turns = u @ ts" "read_frame (ws_queue ws @ messages u) = Ok ((kind, info), ws_queue ws1)"
        "ws_sent ws1 = ws_sent ws" "\<not> terminated ws"
      using wait_frame_read [OF wait running] by blast
    have "read_frame (ws_queue ws @ messages u @ ext) = Ok ((kind, info), ws_queue ws1 @ ext)" for ext
      using u(2) unfolding read_frame_Ok_iff by auto
    with u show ?thesis by blast
  qed
  have loop: "auth_loop (crypto_lib B) json_ok key server_key out inp =
      (if kind = 3 then
         and_then (context_of ''DERP server authentication'' (open_box (crypto_lib B) key server_key info)) (\<lambda>info.
         if json_ok info then and_then (write_frame out 7 [1]) (\<lambda>out. Ok (out, rest)) else Err ''invalid DERP server info'')
       else if kind = 6 then auth_loop (crypto_lib B) json_ok key server_key out rest
       else if kind = 0x12 \<and> length info = 8 then
         (case write_frame out 0x13 info of
            Inl e \<Rightarrow> Inl e
          | Inr out \<Rightarrow> auth_loop (crypto_lib B) json_ok key server_key out rest)
       else Err ''unexpected DERP frame during authentication'')"
    if "read_frame inp = Ok ((kind, info), rest)" for out inp rest
    by (subst auth_loop.simps) (simp add: that)
  consider (final) "kind = 3" | (alive) "kind = 6" | (ping) "kind = 0x12" "length info = 8" "kind \<noteq> 3" "kind \<noteq> 6"
    using "1.prems"(1) unfolding step by (auto split: if_splits)
  then show ?case
  proof cases
    case final
    with "1.prems"(1) obtain i where i: "open_box (crypto_lib B) key server_key info = Ok i" "json_ok i"
        "turns' = ts" "ws' = ws1"
      unfolding step by (auto simp: result_simps split: if_splits)
    with read "1.prems"(2) obtain u where u: "turns = u @ ts" "ws_sent ws1 = ws_sent ws" "\<not> terminated ws"
        "read_frame (ws_queue ws @ messages u @ []) = Ok ((kind, info), ws_queue ws1 @ [])" by blast
    then show ?thesis using i loop [of "ws_queue ws @ messages u" "ws_queue ws1"] final
      by (intro exI [of _ u] exI [of _ "[]"]) (simp add: write_frame_eq max_frame_def)
  next
    case alive
    then have rec: "ws_auth B json_ok key server_key deadline ts ws1 w = Some (Ok (turns', ws', w'))"
      using "1.prems"(1) unfolding step by simp
    obtain v fs where v: "ts = v @ turns'" "ws_sent ws' = ws_sent ws1 @ fs" "\<not> terminated ws1"
        "\<forall>out. auth_loop (crypto_lib B) json_ok key server_key out (ws_queue ws1 @ messages v) =
         Ok (out @ concat (map frame_bytes fs) @ frame_bytes (7, [1]), ws_queue ws')"
      using "1.IH"(1) [OF wait refl refl refl refl _ alive rec "1.prems"(2)] alive by auto
    obtain u where u: "turns = u @ ts" "ws_sent ws1 = ws_sent ws" "\<not> terminated ws"
        "read_frame (ws_queue ws @ messages u @ messages v) = Ok ((kind, info), ws_queue ws1 @ messages v)"
      using read [OF v(3)] by blast
    show ?thesis using u v loop [OF u(4)] alive
      by (intro exI [of _ "u @ v"] exI [of _ fs]) simp
  next
    case ping
    then obtain ws2 w2 where send: "ws_send B 0x13 info ws1 w = (Inr (), ws2, w2)"
        "ws_auth B json_ok key server_key deadline ts ws2 w2 = Some (Ok (turns', ws', w'))"
      using "1.prems"(1) unfolding step by (auto split: prod.splits sum.splits)
    note ws2 = ws_send_Ok [OF send(1)]
    obtain v fs where v: "ts = v @ turns'" "ws_sent ws' = ws_sent ws2 @ fs" "\<not> terminated ws2"
        "\<forall>out. auth_loop (crypto_lib B) json_ok key server_key out (ws_queue ws2 @ messages v) =
         Ok (out @ concat (map frame_bytes fs) @ frame_bytes (7, [1]), ws_queue ws')"
      using "1.IH"(2) [OF wait refl refl refl refl _ _ _ send(1) [symmetric]] ping send(2) "1.prems"(2) by auto
    then have "\<not> terminated ws1" using ws2 by simp
    then obtain u where u: "turns = u @ ts" "ws_sent ws1 = ws_sent ws" "\<not> terminated ws"
        "read_frame (ws_queue ws @ messages u @ messages v) = Ok ((kind, info), ws_queue ws1 @ messages v)"
      using read by blast
    show ?thesis using u v ws2 loop [OF u(4)] ping
      by (intro exI [of _ "u @ v"] exI [of _ "(0x13, info) # fs"]) (simp add: write_frame_eq max_frame_def)
  qed
qed

text \<open>
  C25. The browser authenticates to the relay exactly as the native client: when a connection is opened, the
  bytes it has sent and the bytes it has left unread are those of the native client's authentication on
  what had arrived, whatever the messages it came in.
\<close>

theorem browser_authenticates_as_native:
  assumes "ws_open B info json_ok nonce key deadline turns w = Some (Ok (turns', ws, w'))"
    "\<not> terminated ws" "list_all frame_fits (ws_sent ws)"
  shows "\<exists>used. turns = used @ turns' \<and> authenticate (crypto_lib B) info json_ok nonce key (messages used) =
    Ok (concat (map frame_bytes (ws_sent ws)), ws_queue ws)"
proof -
  let ?new = "\<lparr>ws_queue = [], terminated = False, ws_sent = []\<rparr>" and ?C = "crypto_lib B"
  obtain kind greeting ts ws1 where wait: "wait_frame deadline turns ?new = Some (Ok ((kind, greeting), ts, ws1))"
    using assms(1) by (auto simp: ws_open_def split: option.splits sum.splits prod.splits)
  let ?k = "arr (slice 8 40 greeting) :: key"
  obtain sealed ws2 w2 ws3 w3 where good: "kind = 1" "40 \<le> length greeting" "take 8 greeting = derp_magic"
      and sealed: "seal_box ?C nonce key ?k info = Ok sealed"
      and hello: "ws_send B 2 (octets (public ?C key) @ sealed) ws1 w = (Inr (), ws2, w2)"
      and auth: "ws_auth B json_ok key ?k deadline ts ws2 w2 = Some (Ok (turns', ws3, w3))"
      and last: "ws_send B 7 [1] ws3 w3 = (Inr (), ws, w')"
    using assms(1) wait
    by (auto simp: ws_open_def Let_def split: if_splits option.splits sum.splits prod.splits)
  note sent = ws_send_Ok [OF hello] ws_send_Ok [OF last]
  have "\<not> terminated ws3" using sent(2) assms(2) by simp
  then obtain v fs where v: "ts = v @ turns'" "ws_sent ws3 = ws_sent ws2 @ fs" "\<not> terminated ws2"
      "\<forall>out. auth_loop ?C json_ok key ?k out (ws_queue ws2 @ messages v) =
       Ok (out @ concat (map frame_bytes fs) @ frame_bytes (7, [1]), ws_queue ws3)"
    using ws_auth_loop [OF auth] by blast
  then obtain u where u: "turns = u @ ts" "read_frame (messages u) = Ok ((kind, greeting), ws_queue ws1)" "ws_sent ws1 = []"
    using wait_frame_read [OF wait] sent(1) by auto
  have "read_frame (messages u @ messages v) = Ok ((kind, greeting), ws_queue ws1 @ messages v)"
    using u(2) unfolding read_frame_Ok_iff by auto
  moreover have "try_into (slice 8 40 greeting) = Some ?k"
    using good(2) by (simp add: length_slice)
  moreover have "frame_fits (2, octets (public ?C key) @ sealed)" using assms(3) sent u(3) v(2) by simp
  ultimately have "authenticate ?C info json_ok nonce key (messages u @ messages v) =
      auth_loop ?C json_ok key ?k (frame_bytes (2, octets (public ?C key) @ sealed)) (ws_queue ws1 @ messages v)"
    using good sealed by (simp add: authenticate_def auth_hello_def write_frame_eq frame_fits_def del: try_into_Some_iff)
  then show ?thesis using u v sent by (intro exI [of _ "u @ v"]) simp
qed

text \<open>A browser whose sockets take everything, over \<open>ref_env\<close>.\<close>

definition ref_browser :: "unit browser" where
  "ref_browser =
     env.extend ref_env
       (browser.fields (\<lambda>_. True) (\<lambda>_. 0) (\<lambda>w _. (True, w)) (\<lambda>w. w) (\<lambda>w. (zeros, w)) (\<lambda>_ _. True) (\<lambda>_ _. 0)
         (\<lambda>w _ _. (Ok [], w)) (\<lambda>w _ d. (Ok (length d), w)) (\<lambda>w. w))"

lemma ref_browser_simps [simp]:
  "crypto_lib ref_browser = ref_crypto" "ws_is_open ref_browser w" "ws_buffered ref_browser w = 0"
  "ws_transmit ref_browser w p = (True, w)" "hash_order ref_browser ks = ks" "stack_poll ref_browser w t inp = ([], [], w)"
  by (simp_all add: ref_browser_def env.defs browser.defs ref_env_def)

text \<open>Greeting and server info in a message each.\<close>

theorem browser_authenticates_as_native_witness:
  "\<exists>inp box. authenticate ref_crypto [123, 125] (\<lambda>_. True) zeros ref_key inp =
     Ok (frame_bytes (2, octets ref_key @ box) @ frame_bytes (7, [1]), [])"
proof -
  let ?C = ref_crypto and ?k = ref_key
  let ?box = "replicate 24 0 @ [123, 125] @ replicate 16 0 :: byte list"
  let ?gf = "(1 :: byte, derp_magic @ octets ?k)" and ?hf = "(2 :: byte, octets ?k @ ?box)"
  let ?ws = "\<lambda>q fs. \<lparr>ws_queue = q, terminated = False, ws_sent = fs\<rparr>"
  let ?t1 = "(0, [BinaryMessage (frame_bytes ?gf)])" and ?t2 = "(1, [BinaryMessage (frame_bytes (3, ?box))])"
  let ?t3 = "(2 :: instant, [] :: ws_event list)"
  have pk: "public ?C ?k = ?k" by (simp add: public_def ref_crypto_def)
  have seal: "seal_box ?C zeros ?k ?k [123, 125] = Ok ?box"
    by (simp add: seal_box_def) (simp add: ref_crypto_def)
  have op: "open_box ?C ?k ?k ?box = Ok [123, 125]"
    by (simp add: open_box_def) (simp add: ref_crypto_def)
  have sl: "slice 8 40 (derp_magic @ octets ?k) = octets ?k" by (simp add: slice_def derp_magic_def)
  have len: "length (frame_bytes f) = 5 + length (snd f)" for f by (simp add: frame_bytes_def)
  have magic: "length derp_magic = 8" by (simp add: derp_magic_def)
  have empty: "next_frame (?ws [] fs) = Ok (None, ?ws [] fs)" for fs by (simp add: next_frame_def)
  have full: "next_frame (?ws (frame_bytes f) fs) = Ok (Some f, ?ws [] fs)" if "length (snd f) \<le> max_frame" for f fs
    using read_frame_bytes [OF that, of "[]"] by (simp add: next_frame_read)
  have one: "wait_frame 10 [?t1, ?t2, ?t3] (?ws [] []) = Some (Ok (?gf, [?t2, ?t3], ?ws [] []))"
    using full [of ?gf "[]"] by (simp add: empty len magic max_ws_queue_def max_frame_def)
  have two: "wait_frame 10 [?t2, ?t3] (?ws [] fs) = Some (Ok ((3, ?box), [?t3], ?ws [] fs))" for fs
    using full [of "(3, ?box)" fs] by (simp add: empty len max_ws_queue_def max_frame_def)
  have hello: "ws_send ref_browser kind body (?ws [] fs) w = (Ok (), ?ws [] (fs @ [(kind, body)]), w)" for kind body fs w
    by (simp add: ws_send_def)
  have auth: "ws_auth ref_browser (\<lambda>_. True) ?k ?k 10 [?t2, ?t3] (?ws [] fs) () = Some (Ok ([?t3], ?ws [] fs, ()))" for fs
    by (subst ws_auth.simps) (simp add: two [simplified] op [simplified])
  have "ws_open ref_browser [123, 125] (\<lambda>_. True) zeros ?k 10 [?t1, ?t2, ?t3] () =
      Some (Ok ([?t3], ?ws [] [?hf, (7, [1])], ()))"
    unfolding ws_open_def one by (simp add: sl seal [simplified] pk hello auth [simplified] magic)
  from browser_authenticates_as_native [OF this] show ?thesis
    by (auto simp: frame_fits_def max_frame_def)
qed

end
