(* ===== verification/BrowserEngine.thy ===== *)
theory BrowserEngine
  imports BrowserProps ActorProps
begin

text \<open>
  The engine of the browser over whole runs: what every operation keeps of its tables, that it never
  panics, who becomes a peer, whose packets reach the TCP stack, and that a connection object only ever
  reaches the connection it was made for.
\<close>

named_theorems engine_keeps \<open>what the operations of the engine keep\<close>

section \<open>The invariant\<close>

text \<open>What identifies a link for its lifetime.\<close>

definition idents :: "(nat \<times> browser_link) list \<Rightarrow> (nat \<times> nat \<times> (ip_endpoint \<times> ip_endpoint) \<times> u16) list" where
  "idents ls = map (\<lambda>(h, l). (h, generation l, bl_flow l, bl_port l)) ls"

lemma idents_simps [simp]:
  "idents [] = []" "idents ((h, l) # ls) = (h, generation l, bl_flow l, bl_port l) # idents ls"
  by (simp_all add: idents_def)

definition links_ok :: "nat \<Rightarrow> (nat \<times> browser_link) list \<Rightarrow> bool" where
  "links_ok n ls \<longleftrightarrow>
     distinct (map fst (idents ls)) \<and> distinct (map (fst \<circ> snd) (idents ls)) \<and> length (idents ls) \<le> max_connections \<and>
     (\<forall>x \<in> set (idents ls). fst (snd x) < n)"

definition peers_ok :: "(key \<times> key) list \<Rightarrow> bool" where
  "peers_ok ps \<longleftrightarrow> distinct (map fst ps) \<and> length ps \<le> max_peers \<and> (\<forall>(k, d) \<in> set ps. k \<noteq> zeros \<and> d \<noteq> zeros)"

text \<open>A running engine, and an engine between two events.\<close>

definition en_ready :: "'w engine \<Rightarrow> bool" where
  "en_ready s \<longleftrightarrow>
     \<not> en_closed s \<and> peers_ok (en_peers s) \<and> links_ok (next_generation s) (en_links s) \<and>
     length (en_incoming s) \<le> 256 \<and> length (ws_queue (en_ws s)) \<le> max_ws_queue \<and>
     (\<forall>k. en_server s = Some k \<longrightarrow> map_of (en_peers s) k \<noteq> None)"

definition engine_ok :: "'w engine \<Rightarrow> bool" where
  "engine_ok s \<longleftrightarrow>
     (if en_closed s then en_links s = [] \<and> en_peers s = [] \<and> en_incoming s = [] \<and> ws_queue (en_ws s) = [] \<and> terminated (en_ws s)
      else en_ready s)"

text \<open>The links of a later state are links of before or have a new generation.\<close>

definition later :: "'w engine \<Rightarrow> 'w engine \<Rightarrow> bool" where
  "later s t \<longleftrightarrow>
     next_generation s \<le> next_generation t \<and>
     (\<forall>x \<in> set (idents (en_links t)). x \<in> set (idents (en_links s)) \<or> next_generation s \<le> fst (snd x))"

definition keeps :: "'w engine \<Rightarrow> 'w engine \<Rightarrow> bool" where
  "keeps s t \<longleftrightarrow> later s t \<and> en_server t = en_server s \<and> en_local t = en_local s \<and> (en_ready s \<longrightarrow> en_ready t)"

lemma later_refl [simp]: "later s s"
  by (simp add: later_def)

lemma later_trans: "later s t \<Longrightarrow> later t u \<Longrightarrow> later s u"
  by (fastforce simp: later_def)

lemma keeps_refl [simp]: "keeps s s"
  by (simp add: keeps_def)

lemma keeps_trans: "keeps s t \<Longrightarrow> keeps t u \<Longrightarrow> keeps s u"
  by (auto simp: keeps_def intro: later_trans)

text \<open>Changes that no part of the invariant looks at.\<close>

lemma keeps_same:
  assumes "en_links t = en_links s" "next_generation t = next_generation s" "en_server t = en_server s"
    "en_local t = en_local s" "en_peers t = en_peers s" "en_closed t = en_closed s"
    "length (en_incoming t) \<le> max 256 (length (en_incoming s))"
    "length (en_incoming s) \<le> 256 \<Longrightarrow> length (en_incoming t) \<le> 256"
    "length (ws_queue (en_ws t)) \<le> length (ws_queue (en_ws s))"
  shows "keeps s t"
  using assms by (auto simp: keeps_def later_def en_ready_def)

lemma links_ok_idents: "idents ls = idents ls' \<Longrightarrow> links_ok n ls = links_ok n ls'"
  by (simp add: links_ok_def)

lemma idents_filter: "idents (filter (\<lambda>(h, l). P h) ls) = filter (\<lambda>x. P (fst x)) (idents ls)"
  by (induction ls) (auto simp: idents_def)

lemma links_ok_filter: "links_ok n ls \<Longrightarrow> links_ok n (filter (\<lambda>(h, l). P h) ls)"
  by (auto simp: links_ok_def idents_filter distinct_map_filter intro: order_trans [OF length_filter_le])

lemma idents_close: "idents (map (\<lambda>(k, l). (k, if k = h then l\<lparr>app_closed := True\<rparr> else l)) ls) = idents ls"
  by (induction ls) (auto simp: idents_def)

lemma live_handle_idents:
  "links_ok n (en_links s) \<Longrightarrow> live_handle s h g \<longleftrightarrow> (\<exists>f p. (h, g, f, p) \<in> set (idents (en_links s)))"
proof -
  assume "links_ok n (en_links s)"
  then have d: "distinct (map fst (en_links s))" by (simp add: links_ok_def idents_def comp_def split_beta)
  show ?thesis
  proof
    assume "live_handle s h g"
    then obtain l where "(h, l) \<in> set (en_links s)" "generation l = g"
      by (auto simp: live_handle_def dest: map_of_SomeD split: option.splits)
    then have "(h, g, bl_flow l, bl_port l) \<in> set (idents (en_links s))" by (force simp: idents_def)
    then show "\<exists>f p. (h, g, f, p) \<in> set (idents (en_links s))" by blast
  next
    assume "\<exists>f p. (h, g, f, p) \<in> set (idents (en_links s))"
    then obtain l where "(h, l) \<in> set (en_links s)" "generation l = g" by (auto simp: idents_def)
    then show "live_handle s h g" using d by (simp add: live_handle_def)
  qed
qed

section \<open>Operations on tables\<close>

lemma en_send_simps [simp]:
  "en_links (en_send B k b s) = en_links s" "next_generation (en_send B k b s) = next_generation s"
  "en_server (en_send B k b s) = en_server s" "en_local (en_send B k b s) = en_local s"
  "en_peers (en_send B k b s) = en_peers s" "en_closed (en_send B k b s) = en_closed s"
  "en_incoming (en_send B k b s) = en_incoming s" "en_key (en_send B k b s) = en_key s"
  by (simp_all add: en_send_def split: prod.split)

lemma en_send_socket [simp]:
  "ws_queue (en_ws (en_send B k b s)) = ws_queue (en_ws s)" "terminated (en_ws (en_send B k b s)) = terminated (en_ws s)"
proof -
  obtain r ws w where "ws_send B k b (en_ws s) (en_world s) = (r, ws, w)" by (metis surj_pair)
  with ws_send_queue [OF this]
  show "ws_queue (en_ws (en_send B k b s)) = ws_queue (en_ws s)" "terminated (en_ws (en_send B k b s)) = terminated (en_ws s)"
    by (simp_all add: en_send_def)
qed

lemma en_packet_simps [simp]:
  "en_links (en_packet B k b s) = en_links s" "next_generation (en_packet B k b s) = next_generation s"
  "en_server (en_packet B k b s) = en_server s" "en_local (en_packet B k b s) = en_local s"
  "en_peers (en_packet B k b s) = en_peers s" "en_closed (en_packet B k b s) = en_closed s"
  "en_incoming (en_packet B k b s) = en_incoming s" "en_key (en_packet B k b s) = en_key s"
  "ws_queue (en_ws (en_packet B k b s)) = ws_queue (en_ws s)" "terminated (en_ws (en_packet B k b s)) = terminated (en_ws s)"
  by (simp_all add: en_packet_def)

lemma keeps_send [engine_keeps]: "keeps s (en_send B k b s)" "keeps s (en_packet B key b s)"
  by (rule keeps_same; simp)+

lemma keeps_add_peer [engine_keeps]: "keeps s (en_add_peer B k d s)"
  by (auto simp: keeps_def later_def en_add_peer_def en_ready_def peers_ok_def map_of_eq_None_iff)

lemma map_fst_idents [simp]: "map fst (idents ls) = map fst ls"
  by (simp add: idents_def comp_def split_beta)

lemma idents_update:
  "set (idents (AList.update h l ls)) \<subseteq> insert (h, generation l, bl_flow l, bl_port l) (set (idents ls))"
proof (induction ls)
  case (Cons x ls)
  then show ?case by (cases x) auto
qed simp

lemma length_idents_update: "length (AList.update h l ls) \<le> Suc (length ls)"
proof (induction ls)
  case (Cons x ls)
  then show ?case by (cases x) auto
qed simp

lemma generations_update:
  "distinct (map (fst \<circ> snd) (idents ls)) \<Longrightarrow> generation l \<notin> (fst \<circ> snd) ` set (idents ls) \<Longrightarrow>
     distinct (map (fst \<circ> snd) (idents (AList.update h l ls)))"
proof (induction ls)
  case (Cons x ls)
  obtain k m where x: "x = (k, m)" by fastforce
  have "(fst \<circ> snd) ` set (idents (AList.update h l ls)) \<subseteq> insert (generation l) ((fst \<circ> snd) ` set (idents ls))"
    using image_mono [OF idents_update [of h l ls], of "fst \<circ> snd"] by simp
  then have "generation m \<notin> (fst \<circ> snd) ` set (idents (AList.update h l ls))"
    using Cons.prems x by auto
  then show ?case using Cons x by auto
qed simp

lemma keeps_add_link [engine_keeps]:
  assumes "length (en_links s) < max_connections"
  shows "keeps s (add_link h flow port told s)"
proof -
  let ?t = "add_link h flow port told s" and ?n = "next_generation s"
  let ?l = "\<lparr>generation = ?n, bl_flow = flow, bl_port = port, notified = told, app_closed = False, created = en_clock s\<rparr>"
  note upd = idents_update [of h ?l "en_links s"] length_idents_update [of h ?l "en_links s"] generations_update [of "en_links s" ?l h]
    distinct_update [of "en_links s" h ?l]
  have "links_ok (next_generation ?t) (en_links ?t)" if "links_ok ?n (en_links s)"
  proof -
    have "?n \<notin> (fst \<circ> snd) ` set (idents (en_links s))" using that by (auto simp: links_ok_def)
    then have "distinct (map fst (idents (en_links ?t)))" "distinct (map (fst \<circ> snd) (idents (en_links ?t)))"
      using upd(3,4) that by (simp_all add: links_ok_def add_link_def)
    moreover have "length (idents (en_links ?t)) \<le> max_connections"
      using upd(2) assms by (simp add: add_link_def idents_def)
    moreover have "\<forall>x \<in> set (idents (en_links ?t)). fst (snd x) < next_generation ?t"
      using upd(1) that by (fastforce simp: links_ok_def add_link_def)
    ultimately show ?thesis by (simp add: links_ok_def)
  qed
  moreover have "later s ?t" using upd(1) by (fastforce simp: later_def add_link_def)
  ultimately show ?thesis by (simp add: keeps_def en_ready_def) (simp add: add_link_def)
qed

lemma keeps_world [engine_keeps]: "keeps s (s\<lparr>en_world := w\<rparr>)"
  by (rule keeps_same) simp_all

lemma keeps_accept_syn [engine_keeps]: "keeps s (en_accept_syn B flow s)"
proof -
  have "keeps (s\<lparr>en_world := w\<rparr>) (add_link h flow port told (s\<lparr>en_world := w\<rparr>))"
    if "\<not> max_connections \<le> length (en_links s)" for w h port told
    using that by (intro keeps_add_link) simp
  from keeps_trans [OF keeps_world this]
  show ?thesis
    by (auto simp: en_accept_syn_def intro: keeps_world split: prod.splits option.splits)
qed

lemma keeps_to_stack [engine_keeps]: "keeps s (en_to_stack p s)"
  by (rule keeps_same) (auto simp: en_to_stack_def)

lemma keeps_receive_ip [engine_keeps]: "keeps s (en_receive_ip B p s)"
  by (auto simp: en_receive_ip_def intro: engine_keeps keeps_trans split: option.splits)

lemma keeps_meow [engine_keeps]: "keeps s (en_meow B source data s)"
proof -
  have "keeps s (s\<lparr>meowed := True\<rparr>)" by (rule keeps_same) simp_all
  moreover have "keeps s (en_packet B source encode_meowed (en_add_peer B source disco s))" for disco
    by (rule keeps_trans [OF keeps_add_peer keeps_send(2)])
  ultimately show ?thesis
    by (auto simp: en_meow_def Let_def intro: engine_keeps split: option.splits)
qed

lemma keeps_world_send: "keeps s (en_packet B k b (s\<lparr>en_world := w\<rparr>))" "keeps s (en_send B x b (s\<lparr>en_world := w\<rparr>))"
  by (rule keeps_trans [OF keeps_world keeps_send(2)], rule keeps_trans [OF keeps_world keeps_send(1)])

lemma keeps_disco [engine_keeps]: "keeps s (en_disco B source data s)"
  by (auto simp: en_disco_def Let_def intro: engine_keeps keeps_world_send split: option.splits sum.splits prod.splits)

section \<open>A turn\<close>

lemma en_receive_ip_peers [simp]: "en_peers (en_receive_ip B p s) = en_peers s"
  by (simp add: en_receive_ip_def en_to_stack_def en_accept_syn_def add_link_def split: option.split prod.split)

lemma keeps_decapsulate: "en_decapsulate B fuel source data s = Inr t \<Longrightarrow> keeps s t"
proof (induction B fuel source data s rule: en_decapsulate.induct)
  case (2 B fuel source data s)
  obtain r w where r: "tunn_decapsulate B (en_world s) source None data = (r, w)" by fastforce
  let ?s = "s\<lparr>en_world := w\<rparr>"
  have known: "map_of (en_peers s) source \<noteq> None" using "2.prems" by (auto split: if_splits)
  show ?case
  proof (cases r)
    case (WriteToNetwork b)
    with "2.prems" r known have "en_decapsulate B fuel source [] (en_packet B source b ?s) = Inr t" by (simp split: if_splits)
    from keeps_trans [OF keeps_world_send(1) "2.IH"(1) [OF known r [symmetric] refl WriteToNetwork this]] show ?thesis .
  next
    case (WriteToTunnelV6 b)
    let ?t = "if en_source_allowed ?s source b then en_receive_ip B b ?s else ?s"
    have step: "keeps s ?t" by (auto intro: keeps_trans [OF keeps_world keeps_receive_ip] keeps_world)
    from WriteToTunnelV6 "2.prems" r known have "en_decapsulate B fuel source [] ?t = Inr t"
      by (auto simp: Let_def split: if_splits)
    from keeps_trans [OF step "2.IH"(2) [OF known r [symmetric] refl WriteToTunnelV6 this]] show ?thesis .
  qed (use "2.prems" r known keeps_world in \<open>auto split: if_splits\<close>)
qed simp

lemma decapsulate_no_panic: "map_of (en_peers s) source \<noteq> None \<Longrightarrow> en_decapsulate B fuel source data s \<noteq> Inl Panic"
proof (induction B fuel source data s rule: en_decapsulate.induct)
  case (2 B fuel source data s)
  obtain r w where r: "tunn_decapsulate B (en_world s) source None data = (r, w)" by fastforce
  show ?case
  proof (cases r)
    case (WriteToNetwork b)
    from "2.IH"(1) [OF "2.prems" r [symmetric] refl this] "2.prems" r this show ?thesis by simp
  next
    case (WriteToTunnelV6 b)
    from "2.IH"(2) [OF "2.prems" r [symmetric] refl this] "2.prems" r this show ?thesis
      by (cases "en_source_allowed (s\<lparr>en_world := w\<rparr>) source b") simp_all
  qed (use "2.prems" r in auto)
qed simp

lemma keeps_receive: "en_receive B fuel source data s = Inr t \<Longrightarrow> keeps s t"
  by (auto simp: en_receive_def intro: engine_keeps keeps_decapsulate split: if_splits)

lemma receive_no_panic: "en_receive B fuel source data s \<noteq> Inl Panic"
  by (simp add: en_receive_def decapsulate_no_panic)

lemma keeps_frame: "en_frame B fuel f s = Inr t \<Longrightarrow> keeps s t"
  by (auto simp: en_frame_def intro: engine_keeps keeps_receive keeps_same split: if_splits prod.splits)

lemma frame_no_panic: "en_frame B fuel f s \<noteq> Inl Panic"
  by (simp add: en_frame_def receive_no_panic split: prod.split)

lemma keeps_read_frames:
  "en_read_frames B fuel n s = Inr (r, t) \<Longrightarrow> keeps s t" "en_read_frames B fuel n s \<noteq> Inl Panic"
proof (induction B fuel n s arbitrary: r t rule: en_read_frames.induct)
  case (2 B fuel n s)
  {
    case 1
    show ?case
    proof (cases "\<exists>f ws. next_frame (en_ws s) = Ok (Some f, ws)")
      case True
      then obtain f ws where f: "next_frame (en_ws s) = Ok (Some f, ws)" by blast
      then obtain u where u: "en_frame B fuel f (s\<lparr>en_ws := ws\<rparr>) = Inr u" "en_read_frames B fuel n u = Inr (r, t)"
        using 1 by (auto simp: and_then_Inr_iff)
      have "keeps s (s\<lparr>en_ws := ws\<rparr>)"
        by (rule keeps_same) (use next_frame_Some [OF f] in auto)
      from keeps_trans [OF keeps_trans [OF this keeps_frame [OF u(1)]] "2.IH"(1) [OF f refl refl u]] show ?thesis .
    next
      case False
      with 1 show ?thesis by (auto split: sum.splits option.splits prod.splits)
    qed
  next
    case 2
    show ?case
    proof (cases "\<exists>f ws. next_frame (en_ws s) = Ok (Some f, ws)")
      case True
      then obtain f ws where f: "next_frame (en_ws s) = Ok (Some f, ws)" by blast
      then show ?thesis
        using "2.IH"(2) [OF f refl refl] frame_no_panic [of B fuel f "s\<lparr>en_ws := ws\<rparr>"]
        by (cases "en_frame B fuel f (s\<lparr>en_ws := ws\<rparr>)") auto
    next
      case False
      then show ?thesis by (auto split: sum.splits option.splits prod.splits)
    qed
  }
qed simp_all

lemma keeps_register [engine_keeps]: "keeps s (en_register B s)"
proof -
  have "keeps s (en_packet B k b (s\<lparr>last_meow := now\<rparr>))" for k b now
    by (rule keeps_same) simp_all
  then show ?thesis by (simp add: en_register_def split: option.split)
qed

lemma keeps_heartbeat [engine_keeps]: "keeps s (en_heartbeat B s)"
proof -
  have "keeps s (en_send B k b (s\<lparr>last_heartbeat := now, en_world := w\<rparr>))" for k b now w
    by (rule keeps_same) simp_all
  then show ?thesis by (simp add: en_heartbeat_def split: prod.split)
qed

text \<open>
  What the browser front end relies on: a hash map is iterated in some order of its keys, and the TCP
  stack uses the packet device only by its operations.
\<close>

definition browser_law :: "'w browser \<Rightarrow> bool" where
  "browser_law B \<longleftrightarrow>
     (\<forall>ks. set (hash_order B ks) = set ks) \<and>
     (\<forall>w t inp. \<exists>calls. case stack_poll B w t inp of (inp', out, w') \<Rightarrow> (inp', out) = foldl device_step (inp, []) calls)"

lemma device_steps:
  "foldl device_step (inp, out) calls = (inp', out') \<Longrightarrow>
   length inp' \<le> length inp \<and> (length out \<le> 256 \<longrightarrow> length out' \<le> 256)"
proof (induction calls arbitrary: inp out)
  case (Cons c calls)
  obtain i o' where step: "device_step (inp, out) c = (i, o')" by fastforce
  then have "length i \<le> length inp \<and> (length out \<le> 256 \<longrightarrow> length o' \<le> 256)"
    by (cases c) (auto split: if_splits list.splits option.splits)
  with Cons.IH [of i o'] Cons.prems step show ?case by fastforce
qed simp

lemma keeps_poll: "browser_law B \<Longrightarrow> keeps s (en_poll B s)"
proof -
  assume law: "browser_law B"
  obtain inp out w where p: "stack_poll B (en_world s) (en_clock s) (en_incoming s) = (inp, out, w)" by (metis surj_pair)
  from law have "\<exists>calls. case stack_poll B (en_world s) (en_clock s) (en_incoming s) of
      (inp', out, w') \<Rightarrow> (inp', out) = foldl device_step (en_incoming s, []) calls"
    unfolding browser_law_def by blast
  then obtain calls where "(inp, out) = foldl device_step (en_incoming s, []) calls" unfolding p by auto
  with device_steps [of "en_incoming s" "[]" calls inp out] have "length inp \<le> length (en_incoming s)" by simp
  then show ?thesis by (intro keeps_same) (auto simp: en_poll_def p)
qed

text \<open>A packet goes to a peer that is there.\<close>

lemma next_hop_known:
  assumes "browser_law B" "en_ready s" "en_next_hop B destination s = Some k"
  shows "map_of (en_peers s) k \<noteq> None"
proof (cases "en_server s")
  case None
  with assms(3) have "find (\<lambda>k. tc_addr_for_key k = destination) (hash_order B (map fst (en_peers s))) = Some k"
    by (simp add: en_next_hop_def)
  then obtain i where "i < length (hash_order B (map fst (en_peers s)))" "k = hash_order B (map fst (en_peers s)) ! i"
    unfolding find_Some_iff by blast
  then have "k \<in> set (hash_order B (map fst (en_peers s)))" by simp
  moreover have "set (hash_order B (map fst (en_peers s))) = set (map fst (en_peers s))"
    using assms(1) unfolding browser_law_def by blast
  ultimately show ?thesis by (simp add: map_of_eq_None_iff)
qed (use assms(2,3) in \<open>auto simp: en_next_hop_def en_ready_def\<close>)

lemma transmit_ok:
  assumes "browser_law B" "en_ready s"
  shows "\<exists>t. en_transmit B p s = Inr t \<and> keeps s t"
proof (cases "length p < 40 \<or> en_next_hop B (arr (slice 24 40 p)) s = None")
  case True
  then show ?thesis by (auto simp: en_transmit_def)
next
  case False
  then obtain k where k: "en_next_hop B (arr (slice 24 40 p)) s = Some k" "\<not> length p < 40" by auto
  obtain r w where "tunn_encapsulate B (en_world s) k p = (r, w)" by fastforce
  with k next_hop_known [OF assms k(1)] show ?thesis
    by (auto simp: en_transmit_def Let_def intro: keeps_world keeps_world_send split: tunn_result.split)
qed

lemma transmit_all_ok:
  "browser_law B \<Longrightarrow> en_ready s \<Longrightarrow> \<exists>t. en_transmit_all B ps s = Inr t \<and> keeps s t"
proof (induction ps arbitrary: s)
  case (Cons p ps)
  obtain u where u: "en_transmit B p s = Inr u" "keeps s u" using transmit_ok [OF Cons.prems] by blast
  then have "en_ready u" using Cons.prems(2) by (simp add: keeps_def)
  from Cons.IH [OF Cons.prems(1) this] u show ?case by (auto intro: keeps_trans)
qed simp

lemma flush_ok:
  assumes "browser_law B" "en_ready s"
  shows "\<exists>t. en_flush B s = Inr t \<and> keeps s t"
proof -
  have "keeps s (s\<lparr>en_outgoing := []\<rparr>)" by (rule keeps_same) simp_all
  moreover from this assms(2) have "en_ready (s\<lparr>en_outgoing := []\<rparr>)" by (simp add: keeps_def)
  ultimately show ?thesis
    using transmit_all_ok [OF assms(1), of "s\<lparr>en_outgoing := []\<rparr>" "en_outgoing s"]
    by (auto simp: en_flush_def intro: keeps_trans)
qed

lemma keeps_timers [engine_keeps]: "keeps s (en_timers B s)"
proof -
  have one: "keeps s (en_timer B k s)" for k s
    by (auto simp: en_timer_def Let_def intro: keeps_world keeps_world_send split: prod.split tunn_result.split)
  have all: "keeps s (fold (en_timer B) ks s)" for ks s
    by (induction ks arbitrary: s) (auto intro: keeps_trans one)
  have "keeps s (s\<lparr>en_last_timers := t\<rparr>)" for t by (rule keeps_same) simp_all
  from keeps_trans [OF this all] show ?thesis by (simp add: en_timers_def)
qed

lemma sweep_links_idents: "sweep_links B now ls w = (ls', accepted, removed, w') \<Longrightarrow> idents ls' = idents ls"
proof (induction ls arbitrary: w ls' accepted removed w')
  case (Cons x ls)
  obtain h l where x: "x = (h, l)" by fastforce
  obtain l' up gone v where one: "sweep_link B now h l w = (l', up, gone, v)" by (metis surj_pair)
  obtain ls2 acc2 rem2 w2 where rest: "sweep_links B now ls v = (ls2, acc2, rem2, w2)" by (metis surj_pair)
  have "generation l' = generation l \<and> bl_flow l' = bl_flow l \<and> bl_port l' = bl_port l"
    using one by (auto simp: sweep_link_def Let_def)
  with Cons x one rest Cons.IH [OF rest] show ?case by auto
qed simp

lemma keeps_sweep: "en_sweep B s = (accepted, t) \<Longrightarrow> keeps s t"
proof -
  assume sweep: "en_sweep B s = (accepted, t)"
  obtain ls acc removed w where l: "sweep_links B (en_clock s) (en_links s) (en_world s) = (ls, acc, removed, w)" by (metis surj_pair)
  note ids = sweep_links_idents [OF l]
  have t: "en_links t = filter (\<lambda>(h, l). h \<notin> set removed) ls" "next_generation t = next_generation s"
      "en_server t = en_server s" "en_local t = en_local s" "en_peers t = en_peers s" "en_closed t = en_closed s"
      "en_incoming t = en_incoming s" "en_ws t = en_ws s"
    using sweep l by (auto simp: en_sweep_def)
  have "later s t" using ids by (auto simp: later_def t idents_filter)
  moreover have "links_ok n (en_links s) \<Longrightarrow> links_ok n (en_links t)" for n
    using links_ok_filter [of n ls] links_ok_idents [OF ids] by (simp add: t)
  ultimately show ?thesis by (simp add: keeps_def en_ready_def t)
qed

lemma later_close [simp]: "later s (en_close B s)"
  by (simp add: later_def en_close_def)

lemma close_ok [simp]: "engine_ok (en_close B s)" "en_server (en_close B s) = en_server s" "en_local (en_close B s) = en_local s"
  by (simp_all add: engine_ok_def en_close_def)

text \<open>What a whole event keeps: it may also close the engine.\<close>

definition advances :: "'w engine \<Rightarrow> 'w engine \<Rightarrow> bool" where
  "advances s t \<longleftrightarrow> later s t \<and> en_server t = en_server s \<and> en_local t = en_local s \<and> (engine_ok s \<longrightarrow> engine_ok t)"

lemma advances_trans: "advances s t \<Longrightarrow> advances t u \<Longrightarrow> advances s u"
  by (auto simp: advances_def intro: later_trans)

lemma en_ready_ok: "en_ready s \<Longrightarrow> engine_ok s" "engine_ok s \<Longrightarrow> \<not> en_closed s \<Longrightarrow> en_ready s"
  by (simp_all add: engine_ok_def en_ready_def)

lemma keeps_advances: "keeps s t \<Longrightarrow> en_ready s \<Longrightarrow> advances s t"
  by (simp add: keeps_def advances_def en_ready_ok)

lemma advances_drain: "en_ready s \<Longrightarrow> advances s (en_drain B s)"
proof -
  assume "en_ready s"
  moreover have "keeps s (s\<lparr>drained_at := t\<rparr>)" for t by (rule keeps_same) simp_all
  moreover have "later s (en_close B (s\<lparr>drained_at := t\<rparr>))" for t by (simp add: later_def en_close_def)
  ultimately show ?thesis
    by (auto simp: en_drain_def Let_def keeps_advances) (simp_all add: advances_def keeps_advances)
qed

lemma tick_ok:
  assumes "browser_law B" "en_ready s"
  shows "en_tick B fuel s \<noteq> Inl Panic" "en_tick B fuel s = Inr (r, t) \<Longrightarrow> advances s t"
proof -
  let ?rest = "\<lambda>u. and_then (en_flush B (en_poll B (en_heartbeat B (en_register B u)))) (\<lambda>s.
    case en_sweep B (en_timers B s) of (accepted, s) \<Rightarrow> Inr (Ok accepted, en_drain B s))"
  have rest: "\<exists>a t. ?rest u = Inr (Ok a, t) \<and> advances u t" if u: "en_ready u" for u
  proof -
    let ?v = "en_poll B (en_heartbeat B (en_register B u))"
    have v: "keeps u ?v"
      by (intro keeps_trans [OF keeps_register keeps_trans [OF keeps_heartbeat keeps_poll]] assms(1))
    then obtain x where x: "en_flush B ?v = Inr x" "keeps ?v x"
      using flush_ok [OF assms(1), of ?v] u by (auto simp: keeps_def)
    obtain a y where y: "en_sweep B (en_timers B x) = (a, y)" by fastforce
    have "keeps u y"
      by (rule keeps_trans [OF v keeps_trans [OF x(2) keeps_trans [OF keeps_timers keeps_sweep [OF y]]]])
    then have "advances u (en_drain B y)"
      using u advances_trans [OF keeps_advances advances_drain] by (auto simp: keeps_def)
    with x y show ?thesis by auto
  qed
  have tick: "en_tick B fuel s = and_then (en_read_frames B fuel 512 s) (\<lambda>(r, u). case r of Inl e \<Rightarrow> Inr (Inl e, u) | Inr _ \<Rightarrow> ?rest u)"
    by (simp add: en_tick_def)
  have "(en_tick B fuel s \<noteq> Inl Panic) \<and> (\<forall>r t. en_tick B fuel s = Inr (r, t) \<longrightarrow> advances s t)"
  proof (cases "en_read_frames B fuel 512 s")
    case (Inl e)
    then show ?thesis using keeps_read_frames(2) [of B fuel 512 s] unfolding tick by auto
  next
    case (Inr x)
    then obtain q u where u: "en_read_frames B fuel 512 s = Inr (q, u)" by (cases x) auto
    note ready = keeps_read_frames(1) [OF u]
    then have "en_ready u" using assms(2) by (simp add: keeps_def)
    then obtain a t where "?rest u = Inr (Ok a, t)" "advances u t" using rest by blast
    moreover have "advances s u" using keeps_advances [OF ready assms(2)] .
    ultimately show ?thesis unfolding tick u by (cases q) (auto intro: advances_trans)
  qed
  then show "en_tick B fuel s \<noteq> Inl Panic" "en_tick B fuel s = Inr (r, t) \<Longrightarrow> advances s t" by blast+
qed

lemma advances_close: "advances s (en_close B s)"
  by (simp add: advances_def)

lemma advances_app_closed:
  "advances s (s\<lparr>en_world := w, en_links := map (\<lambda>(k, l). (k, if k = h then l\<lparr>app_closed := True\<rparr> else l)) (en_links s)\<rparr>)"
proof -
  let ?ls = "map (\<lambda>(k, l). (k, if k = h then l\<lparr>app_closed := True\<rparr> else l)) (en_links s)"
  have "links_ok n ?ls = links_ok n (en_links s)" for n by (rule links_ok_idents) (rule idents_close)
  then show ?thesis by (auto simp: advances_def later_def idents_close engine_ok_def en_ready_def)
qed

lemma advances_world: "advances s (s\<lparr>en_world := w\<rparr>)"
  by (auto simp: advances_def later_def engine_ok_def en_ready_def)

lemma advances_refl [simp]: "advances s s"
  by (simp add: advances_def)

lemma advances_announce: "announce B throws as s = (cs, t) \<Longrightarrow> advances s t"
proof (induction B throws as s arbitrary: cs t rule: announce.induct)
  case (2 B throws h g port as s)
  show ?case
  proof (cases "live_handle s h g")
    case True
    let ?u = "if throws g then s\<lparr>en_world := sock_close B (en_world s) h,
      en_links := map (\<lambda>(k, l). (k, if k = h then l\<lparr>app_closed := True\<rparr> else l)) (en_links s)\<rparr> else s"
    obtain ds where "announce B throws as ?u = (ds, t)" using "2.prems" True by (auto simp: Let_def split: prod.splits)
    moreover have "advances s ?u" by (simp add: advances_app_closed)
    ultimately show ?thesis using "2.IH"(2) True by (auto intro: advances_trans)
  qed (use "2.prems" "2.IH"(1) in auto)
qed simp

lemma turn_ok:
  assumes "browser_law B" "en_ready s"
  shows "engine_turn B fuel throws s \<noteq> Inl Panic" "engine_turn B fuel throws s = Inr (cs, t) \<Longrightarrow> advances s t"
proof -
  show "engine_turn B fuel throws s \<noteq> Inl Panic"
    using tick_ok(1) [OF assms, of fuel] by (cases "en_tick B fuel s") (auto simp: engine_turn_def)
  assume turn: "engine_turn B fuel throws s = Inr (cs, t)"
  then obtain r u where u: "en_tick B fuel s = Inr (r, u)"
      "(case r of Inr accepted \<Rightarrow> if has_callback u then announce B throws accepted u else ([], u)
        | Inl e \<Rightarrow> ([], en_close B u)) = (cs, t)"
    by (auto simp: engine_turn_def and_then_Inr_iff)
  have "advances u t" using u(2) advances_announce advances_close by (auto split: sum.splits if_splits)
  with tick_ok(2) [OF assms u(1)] show "advances s t" by (rule advances_trans)
qed

lemma advances_drained_flag: "advances s (s\<lparr>close_when_drained := b\<rparr>)"
  by (auto simp: advances_def later_def engine_ok_def en_ready_def)

section \<open>Runs\<close>

text \<open>A new connection comes with a queue within the limit.\<close>

fun event_ok :: "engine_event \<Rightarrow> bool" where
  "event_ok (Reconnected ws now throws) = (length (ws_queue ws) \<le> max_ws_queue)"
| "event_ok _ = True"

lemma on_ws_event_queue:
  "length (ws_queue ws) \<le> max_ws_queue \<Longrightarrow> length (ws_queue (on_ws_event ev ws)) \<le> max_ws_queue"
  "terminated ws \<Longrightarrow> terminated (on_ws_event ev ws)" "terminated ws \<Longrightarrow> ws_queue (on_ws_event ev ws) = ws_queue ws"
  by (cases ev; simp)+

lemma advances_arrives: "advances s (s\<lparr>en_ws := on_ws_event ev (en_ws s)\<rparr>)"
  by (auto simp: advances_def later_def engine_ok_def en_ready_def on_ws_event_queue)

lemma advances_dial: "\<not> en_closed s \<Longrightarrow> en_dial B destination port s = (r, t) \<Longrightarrow> advances s t"
proof -
  assume open_dial: "\<not> en_closed s" "en_dial B destination port s = (r, t)"
  have link: "keeps s (add_link h flow p told (s\<lparr>en_next_port := n, en_world := w\<rparr>))"
    if "length (en_links s) < max_connections" for h flow p told n w
    by (rule keeps_trans [OF _ keeps_add_link]) (use that in \<open>auto intro: keeps_same\<close>)
  have "keeps s t"
    using open_dial(2) link
    by (auto simp: en_dial_def Let_def not_le intro: keeps_world split: if_splits prod.splits sum.splits)
  with open_dial(1) show ?thesis by (auto simp: advances_def keeps_def en_ready_ok)
qed

lemma advances_conn:
  "advances s (snd (conn_read B c s))" "advances s (snd (conn_write B c data offset s))"
  "advances s (snd (conn_close_write B c s))" "advances s (conn_close B c s)"
proof -
  show "advances s (snd (conn_read B c s))" "advances s (snd (conn_write B c data offset s))"
    "advances s (snd (conn_close_write B c s))"
    by (auto simp: conn_read_def conn_write_def conn_close_write_def intro: advances_world split: prod.splits sum.splits)
  have "advances s (s\<lparr>en_world := w, en_links := map (\<lambda>(k, l). (k, if k = h then l\<lparr>app_closed := True\<rparr> else l)) (en_links s),
      close_when_drained := b\<rparr>)" for w h b
    using advances_trans [OF advances_app_closed [where s = s and w = w and h = h] advances_drained_flag [where b = b]] by simp
  then show "advances s (conn_close B c s)" by (simp add: conn_close_def)
qed

lemma reconnected_ready:
  "engine_ok s \<Longrightarrow> \<not> en_closed s \<Longrightarrow> length (ws_queue ws) \<le> max_ws_queue \<Longrightarrow>
   en_ready (s\<lparr>en_ws := ws, meowed := False, en_clock := now\<rparr>)"
  by (simp add: engine_ok_def en_ready_def)

lemma advances_from:
  "advances t u \<Longrightarrow> en_links t = en_links s \<Longrightarrow> next_generation t = next_generation s \<Longrightarrow> en_server t = en_server s \<Longrightarrow>
   en_local t = en_local s \<Longrightarrow> engine_ok t \<Longrightarrow> advances s u"
  by (simp add: advances_def later_def)

lemma step_ok:
  assumes "browser_law B" "engine_ok s" "event_ok e"
  shows "engine_step B fuel e s \<noteq> Inl Panic \<and> (\<forall>cs t. engine_step B fuel e s = Inr (cs, t) \<longrightarrow> advances s t)"
proof (cases e)
  case (LoopTurn now throws)
  show ?thesis
  proof (cases "en_closed s \<or> terminated (en_ws s)")
    case False
    then have "en_ready (s\<lparr>en_clock := now\<rparr>)" using assms(2) by (simp add: engine_ok_def en_ready_def)
    note turn = turn_ok [OF assms(1) this, of fuel throws] and ok = en_ready_ok(1) [OF this]
    have "advances s t" if "engine_turn B fuel throws (s\<lparr>en_clock := now\<rparr>) = Inr (cs, t)" for cs t
      using advances_from [OF turn(2) [OF that] _ _ _ _ ok] by simp
    with turn(1) False show ?thesis by (simp add: LoopTurn engine_step_def)
  qed (auto simp: LoopTurn engine_step_def)
next
  case (Reconnected ws now throws)
  show ?thesis
  proof (cases "en_closed s \<or> \<not> terminated (en_ws s)")
    case False
    then have "en_ready (s\<lparr>en_ws := ws, meowed := False, en_clock := now\<rparr>)"
      using reconnected_ready assms(2,3) Reconnected by auto
    note turn = turn_ok [OF assms(1) this, of fuel throws] and ok = en_ready_ok(1) [OF this]
    have "advances s t" if "engine_turn B fuel throws (s\<lparr>en_ws := ws, meowed := False, en_clock := now\<rparr>) = Inr (cs, t)" for cs t
      using advances_from [OF turn(2) [OF that] _ _ _ _ ok] by simp
    with turn(1) False show ?thesis by (simp add: Reconnected engine_step_def)
  qed (auto simp: Reconnected engine_step_def)
next
  case (DialOut destination port)
  then show ?thesis
    by (auto simp: engine_step_def intro: advances_dial split: if_splits prod.splits sum.splits)
qed (auto simp: engine_step_def advances_arrives advances_conn advances_close)

lemma run_ok:
  assumes "browser_law B" "engine_ok s" "list_all event_ok es"
  shows "engine_run B fuel es s \<noteq> Inl Panic \<and> (\<forall>cs t. engine_run B fuel es s = Inr (cs, t) \<longrightarrow> advances s t)"
  using assms(2,3)
proof (induction es arbitrary: s)
  case (Cons e es)
  note step = step_ok [OF assms(1) Cons.prems(1), of e fuel]
  show ?case
  proof (cases "engine_step B fuel e s")
    case (Inl x)
    with step Cons.prems(2) show ?thesis by auto
  next
    case (Inr x)
    then obtain cs t where t: "engine_step B fuel e s = Inr (cs, t)" by (cases x) auto
    with step Cons.prems(2) have a: "advances s t" by simp
    then have "engine_ok t" using Cons.prems(1) by (simp add: advances_def)
    with Cons.IH [of t] Cons.prems(2) have rec: "engine_run B fuel es t \<noteq> Inl Panic"
        "\<And>ds u. engine_run B fuel es t = Inr (ds, u) \<Longrightarrow> advances t u" by auto
    show ?thesis
    proof (cases "engine_run B fuel es t")
      case (Inl y)
      with rec t show ?thesis by auto
    next
      case (Inr y)
      with rec(2) [of "fst y" "snd y"] t a show ?thesis by (auto intro: advances_trans split: prod.splits)
    qed
  qed
qed simp

section \<open>Every run returns\<close>

text \<open>
  boringtun's contract, as for the actor: an empty call takes one of finitely many queued packets, and
  sending to the relay or listening on a socket puts none there. \<open>q\<close> is the length of the queue.
\<close>

definition browser_drains :: "'w browser \<Rightarrow> ('w \<Rightarrow> key \<Rightarrow> nat) \<Rightarrow> bool" where
  "browser_drains B q \<longleftrightarrow>
     (\<forall>w k src b w'. tunn_decapsulate B w k src [] = (WriteToNetwork b, w') \<or>
        tunn_decapsulate B w k src [] = (WriteToTunnelV6 b, w') \<longrightarrow> q w' k < q w k) \<and>
     (\<forall>w p. q (snd (ws_transmit B w p)) = q w) \<and> (\<forall>w ep. q (snd (sock_listen B w ep)) = q w)"

lemma browser_drainsD:
  assumes "browser_drains B q"
  shows "tunn_decapsulate B w k src [] = (WriteToNetwork b, w') \<Longrightarrow> q w' k < q w k"
    "tunn_decapsulate B w k src [] = (WriteToTunnelV6 b, w') \<Longrightarrow> q w' k < q w k"
    "q (snd (ws_transmit B w p)) = q w" "q (snd (sock_listen B w ep)) = q w"
  using assms unfolding browser_drains_def by blast+

lemma queue_en_packet: "browser_drains B q \<Longrightarrow> q (en_world (en_packet B k b s)) = q (en_world s)"
  using browser_drainsD(3) [of B q]
  by (auto simp: en_packet_def en_send_def ws_send_def split: prod.splits if_splits) (metis snd_conv)+

lemma queue_en_receive_ip: "browser_drains B q \<Longrightarrow> q (en_world (en_receive_ip B p s)) = q (en_world s)"
proof -
  assume drains: "browser_drains B q"
  have stack: "q (en_world (en_to_stack p t)) = q (en_world t)" for t by (simp add: en_to_stack_def)
  have "q (en_world (en_accept_syn B flow s)) = q (en_world s)" for flow
  proof (cases "sock_listen B (en_world s) (en_local s, snd (fst flow))")
    case (Pair so w)
    then have "q w = q (en_world s)"
      using browser_drainsD(4) [OF drains, of "en_world s" "(en_local s, snd (fst flow))"] by simp
    with Pair show ?thesis by (cases so) (auto simp: en_accept_syn_def add_link_def)
  qed
  with stack show ?thesis by (simp add: en_receive_ip_def split: option.split)
qed

lemma en_decapsulate_empty_returns:
  assumes "browser_drains B q"
  shows "map_of (en_peers s) k \<noteq> None \<Longrightarrow> q (en_world s) k < fuel \<Longrightarrow> \<exists>t. en_decapsulate B fuel k [] s = Inr t"
proof (induction fuel arbitrary: s)
  case (Suc fuel)
  obtain r w where r: "tunn_decapsulate B (en_world s) k None [] = (r, w)" by fastforce
  let ?s = "s\<lparr>en_world := w\<rparr>"
  show ?case
  proof (cases r)
    case (WriteToNetwork b)
    let ?t = "en_packet B k b ?s"
    have "q (en_world ?t) k < fuel"
      using browser_drainsD(1) [OF assms r [unfolded WriteToNetwork]] Suc.prems(2) queue_en_packet [OF assms, of k b ?s] by simp
    then have "\<exists>t. en_decapsulate B fuel k [] ?t = Inr t" using Suc.prems(1) by (intro Suc.IH) simp_all
    then show ?thesis using Suc.prems(1) r WriteToNetwork by (simp add: Let_def)
  next
    case (WriteToTunnelV6 b)
    let ?t = "if en_source_allowed ?s k b then en_receive_ip B b ?s else ?s"
    have "q (en_world ?t) k < fuel"
      using browser_drainsD(2) [OF assms r [unfolded WriteToTunnelV6]] Suc.prems(2) queue_en_receive_ip [OF assms, of b ?s] by simp
    then have "\<exists>t. en_decapsulate B fuel k [] ?t = Inr t" using Suc.prems(1) by (intro Suc.IH) simp_all
    then show ?thesis using Suc.prems(1) r WriteToTunnelV6 by (simp add: Let_def)
  qed (use Suc.prems(1) r in \<open>simp_all add: Let_def\<close>)
qed simp

lemma en_decapsulate_mono:
  "en_decapsulate B fuel k packet s = Inr t \<Longrightarrow> fuel \<le> fuel' \<Longrightarrow> en_decapsulate B fuel' k packet s = Inr t"
proof (induction fuel arbitrary: fuel' packet s)
  case (Suc fuel)
  then obtain n where n: "fuel' = Suc n" "fuel \<le> n" by (cases fuel') auto
  obtain r w where r: "tunn_decapsulate B (en_world s) k None packet = (r, w)" by fastforce
  show ?case using Suc.prems Suc.IH [OF _ n(2)] n(1) r
    by (cases r) (auto simp: Let_def split: if_splits)
qed simp

lemma settles_en_decapsulate:
  assumes "browser_drains B q" "map_of (en_peers s) k \<noteq> None"
  shows "settles (\<lambda>fuel. en_decapsulate B fuel k packet s)"
proof -
  obtain r w where r: "tunn_decapsulate B (en_world s) k None packet = (r, w)" by fastforce
  let ?s = "s\<lparr>en_world := w\<rparr>"
  have more: "settles (\<lambda>fuel. en_decapsulate B fuel k packet s)"
    if t: "map_of (en_peers t) k \<noteq> None" "\<And>n. en_decapsulate B (Suc n) k packet s = en_decapsulate B n k [] t" for t
  proof -
    obtain u where u: "en_decapsulate B (Suc (q (en_world t) k)) k [] t = Inr u"
      using en_decapsulate_empty_returns [OF assms(1) t(1), of "Suc (q (en_world t) k)"] by auto
    show ?thesis
    proof (rule settlesI [of "Suc (Suc (q (en_world t) k))" _ u])
      fix fuel assume "Suc (Suc (q (en_world t) k)) \<le> fuel"
      then obtain n where "fuel = Suc n" "Suc (q (en_world t) k) \<le> n" by (cases fuel) auto
      then show "en_decapsulate B fuel k packet s = Inr u" using t(2) en_decapsulate_mono [OF u] by simp
    qed
  qed
  show ?thesis
  proof (cases r)
    case (WriteToNetwork b)
    show ?thesis
      by (rule more [of "en_packet B k b ?s"]) (use assms(2) r WriteToNetwork in \<open>auto simp: Let_def\<close>)
  next
    case (WriteToTunnelV6 b)
    show ?thesis
      by (rule more [of "if en_source_allowed ?s k b then en_receive_ip B b ?s else ?s"])
        (use assms(2) r WriteToTunnelV6 in \<open>auto simp: Let_def\<close>)
  qed (rule settlesI [of 1 _ ?s], use assms(2) r in \<open>auto simp: Let_def Suc_le_eq dest!: gr0_implies_Suc\<close>)+
qed

lemma settles_en_frame: "browser_drains B q \<Longrightarrow> settles (\<lambda>fuel. en_frame B fuel f s)"
  by (cases f) (auto simp: en_frame_def en_receive_def intro!: settles_if settles_en_decapsulate)

lemma settles_en_read_frames: "browser_drains B q \<Longrightarrow> settles (\<lambda>fuel. en_read_frames B fuel n s)"
proof (induction n arbitrary: s)
  case (Suc n)
  show ?case
  proof (cases "\<exists>f ws. next_frame (en_ws s) = Ok (Some f, ws)")
    case True
    then obtain f ws where f: "next_frame (en_ws s) = Ok (Some f, ws)" by blast
    have "settles (\<lambda>fuel. and_then (en_frame B fuel f (s\<lparr>en_ws := ws\<rparr>)) (en_read_frames B fuel n))"
      by (intro settles_and_then settles_en_frame [OF Suc.prems] Suc.IH [OF Suc.prems])
    with f show ?thesis by simp
  next
    case False
    show ?thesis
    proof (cases "next_frame (en_ws s)")
      case (Inr y)
      obtain x ws where y: "y = (x, ws)" by fastforce
      with Inr False have "x = None" by (cases x) auto
      with Inr y show ?thesis by simp
    qed simp
  qed
qed simp

lemma settles_run:
  assumes "browser_law B" "browser_drains B q"
  shows "engine_ok s \<Longrightarrow> list_all event_ok es \<Longrightarrow> settles (\<lambda>fuel. engine_run B fuel es s)"
proof (induction es arbitrary: s)
  case (Cons e es)
  have tick: "settles (\<lambda>fuel. en_tick B fuel u)" if u: "en_ready u" for u
  proof -
    have "settles (\<lambda>_ :: nat. case x of (Inl e, v) \<Rightarrow> Inr (Inl e, v)
        | (Inr _, v) \<Rightarrow> and_then (en_flush B (en_poll B (en_heartbeat B (en_register B v)))) (\<lambda>s.
            case en_sweep B (en_timers B s) of (accepted, s) \<Rightarrow> Inr (Ok accepted, en_drain B s)))"
      if x: "en_read_frames B n 512 u = Inr x" for n x
    proof -
      obtain r v where v: "x = (r, v)" by fastforce
      with x have "keeps u v" using keeps_read_frames(1) [of B n 512 u r v] by simp
      with u have "en_ready v" by (simp add: keeps_def)
      moreover have "keeps v (en_poll B (en_heartbeat B (en_register B v)))"
        by (intro keeps_trans [OF keeps_register keeps_trans [OF keeps_heartbeat keeps_poll]] assms(1))
      ultimately obtain y where "en_flush B (en_poll B (en_heartbeat B (en_register B v))) = Inr y"
        using flush_ok [OF assms(1)] by (auto simp: keeps_def)
      then show ?thesis by (cases r) (auto simp: v split: prod.split)
    qed
    from settles_and_then [OF settles_en_read_frames [OF assms(2)] this]
    show ?thesis by (simp add: en_tick_def case_prod_unfold)
  qed
  have turn: "settles (\<lambda>fuel. engine_turn B fuel throws u)" if "en_ready u" for throws u
    unfolding engine_turn_def
    by (rule settles_and_then [OF tick [OF that]]) (simp split: prod.split)
  have step: "settles (\<lambda>fuel. engine_step B fuel e s)"
  proof (cases e)
    case (LoopTurn now throws)
    have "en_ready (s\<lparr>en_clock := now\<rparr>)" if "\<not> en_closed s" using that Cons.prems(1) by (simp add: engine_ok_def en_ready_def)
    then show ?thesis using turn by (cases "en_closed s \<or> terminated (en_ws s)") (simp_all add: LoopTurn engine_step_def)
  next
    case (Reconnected ws now throws)
    have "en_ready (s\<lparr>en_ws := ws, meowed := False, en_clock := now\<rparr>)" if "\<not> en_closed s"
      using reconnected_ready that Cons.prems Reconnected by auto
    then show ?thesis using turn by (cases "en_closed s \<or> \<not> terminated (en_ws s)") (simp_all add: Reconnected engine_step_def)
  qed (simp_all add: engine_step_def split: prod.split sum.split)
  have "settles (\<lambda>fuel. case x of (cs, s) \<Rightarrow> and_then (engine_run B fuel es s) (\<lambda>(cs', s). Inr (cs @ cs', s)))"
    if x: "engine_step B n e s = Inr x" for n x
  proof -
    obtain cs t where t: "x = (cs, t)" by fastforce
    with x step_ok [OF assms(1) Cons.prems(1), of e n] Cons.prems have "engine_ok t" by (auto simp: advances_def)
    with Cons.IH Cons.prems(2) have "settles (\<lambda>fuel. engine_run B fuel es t)" by simp
    then show ?thesis by (auto simp: t split: prod.split intro!: settles_and_then)
  qed
  from settles_and_then [OF step this] show ?case by (simp add: case_prod_unfold)
qed simp


lemma ref_browser_more [simp]:
  "tunn_decapsulate ref_browser w k src d = (TunnDone, w)" "sock_listen ref_browser w ep = (Some 3, w)"
  "ipv6_packet ref_browser = ref_ipv6_packet" "sock_connect ref_browser w a b = (Ok 3, w)"
  by (simp_all add: ref_browser_def env.defs browser.defs ref_env_def)

lemma ref_browser_laws: "browser_law ref_browser" "browser_drains ref_browser (\<lambda>_ _. 0)"
proof -
  have "foldl device_step (inp, []) (replicate (length inp) (Receive None)) = ([], [])" for inp
    by (induction inp) simp_all
  then have "\<exists>calls. ([], []) = foldl device_step (inp, []) calls" for inp by metis
  then show "browser_law ref_browser" by (simp add: browser_law_def)
  show "browser_drains ref_browser (\<lambda>_ _. 0)" by (simp add: browser_drains_def)
qed

definition ref_socket :: web_socket where
  "ref_socket = \<lparr>ws_queue = [], terminated = False, ws_sent = []\<rparr>"

definition ref_engine :: "unit engine" where
  "ref_engine =
     \<lparr>en_key = ref_key, en_region = \<lparr>region_id = 1, region_code = [], region_name = [], nodes = []\<rparr>,
      en_ws = ref_socket, en_local = tc_addr_for_key ref_key, en_server = None, has_callback = True, en_psk = None,
      en_peers = [], en_incoming = [], en_outgoing = [], en_links = [], meowed = False, en_closed = False,
      close_when_drained = False, drained_at = None, en_last_timers = 0, last_meow = 0, last_heartbeat = 0,
      en_next_port = 32768, next_generation = 1, en_clock = 0, en_world = ()\<rparr>"

lemma ref_engine_created:
  "engine_create ref_browser ref_key \<lparr>region_id = 1, region_code = [], region_name = [], nodes = []\<rparr> None None True
     ref_socket 0 () = Inr ref_engine"
proof -
  have "public ref_crypto ref_key = ref_key" by (simp add: public_def ref_crypto_def)
  then show ?thesis by (simp add: engine_create_def ref_engine_def)
qed


section \<open>Connection objects\<close>

lemma live_generation: "engine_ok s \<Longrightarrow> live_handle s h g \<Longrightarrow> g < next_generation s"
proof -
  assume ok: "engine_ok s" "live_handle s h g"
  then have links: "links_ok (next_generation s) (en_links s)"
    by (cases "en_closed s") (auto simp: engine_ok_def en_ready_def live_handle_def)
  with ok(2) show ?thesis unfolding live_handle_idents [OF links] by (auto simp: links_ok_def)
qed

lemma announce_given: "announce B throws as s = (cs, t) \<Longrightarrow> engine_ok s \<Longrightarrow> list_all (\<lambda>c. conn_generation c < next_generation t) cs"
proof (induction B throws as s arbitrary: cs t rule: announce.induct)
  case (2 B throws h g port as s)
  show ?case
  proof (cases "live_handle s h g")
    case True
    let ?u = "if throws g then s\<lparr>en_world := sock_close B (en_world s) h,
      en_links := map (\<lambda>(k, l). (k, if k = h then l\<lparr>app_closed := True\<rparr> else l)) (en_links s)\<rparr> else s"
    obtain ds where ds: "announce B throws as ?u = (ds, t)" "cs = conn_new h g port # ds"
      using "2.prems" True by (auto simp: Let_def split: prod.splits)
    have "advances s ?u" by (simp add: advances_app_closed)
    then have "engine_ok ?u" using "2.prems"(2) by (simp add: advances_def)
    with "2.IH"(2) ds True have "list_all (\<lambda>c. conn_generation c < next_generation t) ds" by simp
    moreover have "g < next_generation t"
      using live_generation [OF "2.prems"(2) True] advances_announce [OF ds(1)] by (simp add: advances_def later_def split: if_splits)
    ultimately show ?thesis by (simp add: ds(2) conn_new_def)
  qed (use "2.prems" "2.IH"(1) in auto)
qed simp

lemma turn_given:
  assumes "browser_law B" "en_ready s" "engine_turn B fuel throws s = Inr (cs, t)"
  shows "list_all (\<lambda>c. conn_generation c < next_generation t) cs"
proof -
  from assms(3) obtain r u where u: "en_tick B fuel s = Inr (r, u)"
      "(case r of Inr accepted \<Rightarrow> if has_callback u then announce B throws accepted u else ([], u)
        | Inl e \<Rightarrow> ([], en_close B u)) = (cs, t)"
    by (auto simp: engine_turn_def and_then_Inr_iff)
  have "engine_ok u" using tick_ok(2) [OF assms(1,2) u(1)] en_ready_ok(1) [OF assms(2)] by (simp add: advances_def)
  with u(2) announce_given show ?thesis by (cases r) (auto split: if_splits)
qed

lemma dial_given: "en_dial B destination port s = (Inr (h, g), t) \<Longrightarrow> g < next_generation t"
  by (auto simp: en_dial_def add_link_def Let_def split: if_splits prod.splits sum.splits)

lemma step_given:
  assumes "browser_law B" "engine_ok s" "event_ok e" "engine_step B fuel e s = Inr (cs, t)"
  shows "list_all (\<lambda>c. conn_generation c < next_generation t) cs"
proof (cases e)
  case (LoopTurn now throws)
  have "en_ready (s\<lparr>en_clock := now\<rparr>)" if "\<not> en_closed s" using that assms(2) by (simp add: engine_ok_def en_ready_def)
  with LoopTurn assms(4) turn_given [OF assms(1)] show ?thesis
    by (cases "en_closed s \<or> terminated (en_ws s)") (auto simp: engine_step_def)
next
  case (Reconnected ws now throws)
  have "en_ready (s\<lparr>en_ws := ws, meowed := False, en_clock := now\<rparr>)" if "\<not> en_closed s"
    using reconnected_ready that assms(2,3) Reconnected by auto
  with Reconnected assms(4) turn_given [OF assms(1)] show ?thesis
    by (cases "en_closed s \<or> \<not> terminated (en_ws s)") (auto simp: engine_step_def)
next
  case (DialOut destination port)
  with assms(4) dial_given [of B destination port s] show ?thesis
    by (auto simp: engine_step_def conn_new_def split: if_splits prod.splits sum.splits)
qed (use assms(4) in \<open>auto simp: engine_step_def\<close>)

lemma run_given:
  "browser_law B \<Longrightarrow> engine_ok s \<Longrightarrow> list_all event_ok es \<Longrightarrow> engine_run B fuel es s = Inr (cs, t) \<Longrightarrow>
   list_all (\<lambda>c. conn_generation c < next_generation t) cs"
proof (induction es arbitrary: s cs)
  case (Cons e es)
  from Cons.prems(4) obtain ds u gs where u: "engine_step B fuel e s = Inr (ds, u)" "engine_run B fuel es u = Inr (gs, t)" "cs = ds @ gs"
    by (auto simp: and_then_Inr_iff)
  have "advances s u" using step_ok [OF Cons.prems(1,2), of e fuel] Cons.prems(3) u(1) by simp
  then have ok: "engine_ok u" using Cons.prems(2) by (simp add: advances_def)
  have "next_generation u \<le> next_generation t"
    using run_ok [OF Cons.prems(1) ok, of es fuel] Cons.prems(3) u(2) by (simp add: advances_def later_def)
  moreover have "list_all (\<lambda>c. conn_generation c < next_generation u) ds"
    using step_given [OF Cons.prems(1,2) _ u(1)] Cons.prems(3) by simp
  ultimately have "list_all (\<lambda>c. conn_generation c < next_generation t) ds" by (auto simp: list_all_iff)
  with Cons.IH [OF Cons.prems(1) ok _ u(2)] Cons.prems(3) show ?case by (simp add: u(3))
qed simp

lemma engine_ok_links: "engine_ok s \<Longrightarrow> links_ok (next_generation s) (en_links s)"
  by (auto simp: engine_ok_def en_ready_def links_ok_def split: if_splits)

text \<open>
  C13. A connection object only ever reaches the connection it was made for, although the handles of
  sockets are used again: after any further run it is dead or its handle still has the very link it had,
  with the same flow and port. Once it is dead it stays dead, a read gives \<open>null\<close>, a write fails, and no
  method of it changes the engine any more.
\<close>

theorem connection_keeps_identity:
  assumes "browser_law B" "engine_ok s" "list_all event_ok es" "list_all event_ok es'"
    and given: "engine_run B fuel es s = Inr (cs, t)" "c \<in> set cs"
    and further: "engine_run B fuel' es' t = Inr (cs', u)"
  shows "(conn_live c u \<longrightarrow> (\<exists>flow port. (conn_handle c, conn_generation c, flow, port) \<in> set (idents (en_links t)) \<inter> set (idents (en_links u)))) \<and>
    (\<not> live_handle t (conn_handle c) (conn_generation c) \<longrightarrow>
       \<not> conn_live c u \<and> conn_read B c u = (Finally (Ok None), u) \<and>
       conn_write B c data offset u = (Err ''connection is closed'', u) \<and>
       snd (conn_close_write B c u) = u \<and> conn_close B c u = u)"
proof -
  have ok_t: "engine_ok t"
    using run_ok [OF assms(1,2,3), of fuel] given(1) assms(2) by (auto simp: advances_def)
  have tu: "advances t u" using run_ok [OF assms(1) ok_t assms(4), of fuel'] further by simp
  then have ok_u: "engine_ok u" and later: "later t u" using ok_t by (simp_all add: advances_def)
  have gen: "conn_generation c < next_generation t"
    using run_given [OF assms(1-3) given(1)] given(2) by (auto simp: list_all_iff)
  have same: "\<exists>flow port. (conn_handle c, conn_generation c, flow, port) \<in> set (idents (en_links t)) \<inter> set (idents (en_links u))"
    if "conn_live c u"
  proof -
    from that obtain flow port where "(conn_handle c, conn_generation c, flow, port) \<in> set (idents (en_links u))"
      using live_handle_idents [OF engine_ok_links [OF ok_u]] by (auto simp: conn_live_def)
    moreover from this later gen have "(conn_handle c, conn_generation c, flow, port) \<in> set (idents (en_links t))"
      by (fastforce simp: later_def)
    ultimately show ?thesis by blast
  qed
  moreover have "\<not> conn_live c u" if "\<not> live_handle t (conn_handle c) (conn_generation c)"
    using same that live_handle_idents [OF engine_ok_links [OF ok_t]] by blast
  ultimately show ?thesis
    by (auto simp: conn_read_def conn_write_def conn_close_write_def conn_close_def)
qed

text \<open>A dialed connection after the engine was closed.\<close>

theorem connection_keeps_identity_witness:
  "\<exists>c t u. engine_run ref_browser 1 [DialOut zeros 80, CloseEngine] ref_engine = Inr ([c], t) \<and>
     engine_run ref_browser 1 [ReadFrom c] t = Inr ([], u) \<and> conn_read ref_browser c u = (Finally (Ok None), u)"
proof -
  let ?c = "conn_new 3 1 80"
  have ok: "engine_ok ref_engine"
    by (simp add: engine_ok_def en_ready_def ref_engine_def peers_ok_def links_ok_def ref_socket_def)
  let ?es = "[DialOut zeros 80, CloseEngine]"
  obtain t where t: "engine_run ref_browser 1 ?es ref_engine = Inr ([?c], t)" "en_links t = []"
    by (simp add: engine_step_def ref_engine_def en_dial_def max_connections_def en_close_def add_link_def)
  obtain cs u where u: "engine_run ref_browser 1 [ReadFrom ?c] t = Inr (cs, u)" "cs = []"
    by (simp add: engine_step_def)
  have "\<not> live_handle t (conn_handle ?c) (conn_generation ?c)" by (simp add: live_handle_def t(2))
  with connection_keeps_identity [OF ref_browser_laws(1) ok _ _ t(1) _ u(1)]
  have "conn_read ref_browser ?c u = (Finally (Ok None), u)" by simp
  with t(1) u show ?thesis by blast
qed

end
