(* ===== verification/BrowserTraffic.thy ===== *)
theory BrowserTraffic
  imports BrowserEngine
begin

text \<open>
  Whom a browser server listens to: who becomes a peer, whose packets reach the TCP stack and for whom a
  socket is opened; and that listening and dialing agree.
\<close>

section \<open>What a relayed packet may change\<close>

text \<open>What the program relies on of smoltcp's parser, as for the actor.\<close>

definition browser_ipv6_law :: "'w browser \<Rightarrow> bool" where
  "browser_ipv6_law B \<longleftrightarrow>
     (\<forall>p ip. ipv6_packet B p = Some ip \<longrightarrow>
        40 \<le> length p \<and> octets (src_addr ip) = slice 8 24 p \<and> octets (dst_addr ip) = slice 24 40 p)"

text \<open>
  From one state to another, the stack and the links have only gained what belongs to a source: packets
  from its address to the own one, and links between the two.
\<close>

definition gains_from :: "key \<Rightarrow> 'w engine \<Rightarrow> 'w engine \<Rightarrow> bool" where
  "gains_from source s t \<longleftrightarrow>
     en_server t = en_server s \<and> en_local t = en_local s \<and>
     (\<forall>p \<in> set (en_incoming t). p \<in> set (en_incoming s) \<or>
        slice 8 24 p = octets (tc_addr_for_key source) \<and> slice 24 40 p = octets (en_local s)) \<and>
     (\<forall>x \<in> set (idents (en_links t)). x \<in> set (idents (en_links s)) \<or>
        (\<exists>h g lp rp. x = (h, g, ((en_local s, lp), (tc_addr_for_key source, rp)), lp)))"

lemma gains_refl [simp]: "gains_from source s s"
  by (simp add: gains_from_def)

lemma gains_trans: "gains_from source s t \<Longrightarrow> gains_from source t u \<Longrightarrow> gains_from source s u"
  by (fastforce simp: gains_from_def)

lemma gains_same:
  "en_incoming t = en_incoming s \<Longrightarrow> en_links t = en_links s \<Longrightarrow> en_server t = en_server s \<Longrightarrow> en_local t = en_local s \<Longrightarrow>
   gains_from source s t"
  by (simp add: gains_from_def)

lemma gains_accept_syn:
  assumes "fst (fst flow) = en_local s" "fst (snd flow) = tc_addr_for_key source"
  shows "gains_from source s (en_accept_syn B flow s)"
proof -
  have "gains_from source s (add_link h flow (snd (fst flow)) told (s\<lparr>en_world := w\<rparr>))" for h told w
    using idents_update [of h "\<lparr>generation = next_generation s, bl_flow = flow, bl_port = snd (fst flow), notified = told,
      app_closed = False, created = en_clock s\<rparr>" "en_links s"] assms
    by (cases flow) (fastforce simp: gains_from_def add_link_def)
  moreover have "gains_from source s (s\<lparr>en_world := w\<rparr>)" for w by (rule gains_same) simp_all
  ultimately show ?thesis by (simp add: en_accept_syn_def split: prod.split option.split)
qed

lemma gains_to_stack:
  "slice 8 24 p = octets (tc_addr_for_key source) \<Longrightarrow> slice 24 40 p = octets (en_local s) \<Longrightarrow>
   gains_from source s (en_to_stack p s)"
  by (auto simp: en_to_stack_def gains_from_def)

lemma gains_receive_ip:
  assumes "browser_ipv6_law B" "slice 8 24 p = octets (tc_addr_for_key source)"
  shows "gains_from source s (en_receive_ip B p s)"
proof (cases "ipv6_packet B p")
  case (Some ip)
  have ip: "octets (src_addr ip) = slice 8 24 p" "octets (dst_addr ip) = slice 24 40 p"
    using assms(1) Some unfolding browser_ipv6_law_def by blast+
  then have src: "src_addr ip = tc_addr_for_key source" using assms(2) by (metis octets_eq_iff)
  have syn: "gains_from source s (en_to_stack p (en_accept_syn B ((dst_addr ip, lp), (src_addr ip, rp)) s))"
    if "dst_addr ip = en_local s" for lp rp
  proof (rule gains_trans [OF gains_accept_syn gains_to_stack])
    show "slice 24 40 p = octets (en_local (en_accept_syn B ((dst_addr ip, lp), (src_addr ip, rp)) s))"
      using gains_accept_syn [of "((dst_addr ip, lp), (src_addr ip, rp))" s source B] ip(2) that src by (simp add: gains_from_def)
  qed (use that src assms(2) in simp_all)
  have "gains_from source s (en_to_stack p s)" if "dst_addr ip = en_local s"
    by (rule gains_to_stack) (use assms(2) ip(2) that in simp_all)
  with syn Some show ?thesis by (auto simp: en_receive_ip_def split: option.split)
qed (simp add: en_receive_ip_def)

lemma gains_world_packet: "gains_from source s (en_packet B k b (s\<lparr>en_world := w\<rparr>))" "gains_from source s (s\<lparr>en_world := w\<rparr>)"
  by (rule gains_same; simp)+

lemma gains_decapsulate:
  "browser_ipv6_law B \<Longrightarrow> en_server s = None \<Longrightarrow> en_decapsulate B fuel source data s = Inr t \<Longrightarrow>
   gains_from source s t \<and> en_peers t = en_peers s \<and> map_of (en_peers s) source \<noteq> None"
proof (induction B fuel source data s rule: en_decapsulate.induct)
  case (2 B fuel source data s)
  obtain r w where r: "tunn_decapsulate B (en_world s) source None data = (r, w)" by fastforce
  let ?s = "s\<lparr>en_world := w\<rparr>"
  have known: "map_of (en_peers s) source \<noteq> None" using "2.prems"(3) by (auto split: if_splits)
  show ?case
  proof (cases r)
    case (WriteToNetwork b)
    with "2.prems"(3) r known have "en_decapsulate B fuel source [] (en_packet B source b ?s) = Inr t" by (simp split: if_splits)
    from "2.IH"(1) [OF known r [symmetric] refl WriteToNetwork "2.prems"(1) _ this] "2.prems"(2) known
    show ?thesis using gains_trans [OF gains_world_packet(1)] by auto
  next
    case (WriteToTunnelV6 b)
    let ?t = "if en_source_allowed ?s source b then en_receive_ip B b ?s else ?s"
    have step: "gains_from source s ?t"
    proof (cases "en_source_allowed ?s source b")
      case True
      then have "slice 8 24 b = octets (tc_addr_for_key source)" using "2.prems"(2) by (simp add: en_source_allowed_def)
      with True gains_trans [OF gains_world_packet(2) gains_receive_ip [OF "2.prems"(1) this]] show ?thesis by simp
    qed (simp add: gains_world_packet)
    from WriteToTunnelV6 "2.prems"(3) r known have rec: "en_decapsulate B fuel source [] ?t = Inr t"
      by (auto simp: Let_def split: if_splits)
    have "en_server ?t = None" using step "2.prems"(2) by (simp add: gains_from_def)
    from "2.IH"(2) [OF known r [symmetric] refl WriteToTunnelV6 "2.prems"(1) this rec]
    have "gains_from source ?t t" "en_peers t = en_peers ?t" by blast+
    moreover have "en_peers ?t = en_peers s" by simp
    ultimately show ?thesis using gains_trans [OF step] known by simp
  qed (use "2.prems" r known gains_world_packet in \<open>auto split: if_splits\<close>)
qed simp

lemma meow_peers:
  "en_peers (en_meow B source data s) = en_peers s \<or>
   en_server s = None \<and> (\<exists>d rest. data = encode_meow_ping source d @ rest \<and> en_peers (en_meow B source data s) = en_peers s @ [(source, d)])"
proof (cases "en_server s")
  case None
  show ?thesis
  proof (cases "parse_meow_ping data")
    case (Some x)
    obtain node d where x: "x = (node, d)" by fastforce
    obtain rest where rest: "data = encode_meow_ping node d @ rest"
      using Some x parse_meow_ping_iff by blast
    have "en_peers (en_add_peer B source d s) = en_peers s \<or> en_peers (en_add_peer B source d s) = en_peers s @ [(source, d)]"
      by (simp add: en_add_peer_def)
    moreover have "en_peers (en_meow B source data s) = (if node = source then en_peers (en_add_peer B source d s) else en_peers s)"
      by (simp add: en_meow_def None Some x Let_def)
    ultimately show ?thesis using None rest by auto
  qed (simp add: en_meow_def None)
qed (simp add: en_meow_def)

lemma decapsulate_peers: "en_decapsulate B fuel source data s = Inr t \<Longrightarrow> en_peers t = en_peers s"
proof (induction B fuel source data s rule: en_decapsulate.induct)
  case (2 B fuel source data s)
  obtain r w where r: "tunn_decapsulate B (en_world s) source None data = (r, w)" by fastforce
  let ?s = "s\<lparr>en_world := w\<rparr>"
  have known: "map_of (en_peers s) source \<noteq> None" using "2.prems" by (auto split: if_splits)
  show ?case
  proof (cases r)
    case (WriteToNetwork b)
    with "2.prems" r known have "en_decapsulate B fuel source [] (en_packet B source b ?s) = Inr t" by (simp split: if_splits)
    from "2.IH"(1) [OF known r [symmetric] refl WriteToNetwork this] show ?thesis by simp
  next
    case (WriteToTunnelV6 b)
    let ?t = "if en_source_allowed ?s source b then en_receive_ip B b ?s else ?s"
    from WriteToTunnelV6 "2.prems" r known have "en_decapsulate B fuel source [] ?t = Inr t"
      by (auto simp: Let_def split: if_splits)
    from "2.IH"(2) [OF known r [symmetric] refl WriteToTunnelV6 this] show ?thesis by simp
  qed (use "2.prems" r known in \<open>auto split: if_splits\<close>)
qed simp

text \<open>
  C12. What a client makes a browser server do is attributed to the client's own key. A packet that the
  relay labels with a key adds at most that key to the peers, and only if it is that key's own
  registration, with the disco key it names; the packets that reach the TCP stack because of it come from
  the address of that key to the own address, the sockets opened for it are for such connections, and
  they need the key to be a peer already. A browser client never gains a peer.
\<close>

theorem browser_traffic_attributed:
  assumes "browser_ipv6_law B" "en_receive B fuel source data s = Inr t"
  shows "(en_server s = None \<longrightarrow>
      gains_from source s t \<and>
      (\<forall>k d. map_of (en_peers t) k = Some d \<and> map_of (en_peers s) k \<noteq> Some d \<longrightarrow>
         k = source \<and> (\<exists>rest. data = encode_meow_ping source d @ rest)) \<and>
      (map_of (en_peers s) source = None \<longrightarrow> en_incoming t = en_incoming s \<and> en_links t = en_links s)) \<and>
    (en_server s \<noteq> None \<longrightarrow> en_peers t = en_peers s)"
proof -
  have "t = en_meow B source data s \<or> t = en_disco B source data s \<or> t = s \<or>
      en_decapsulate B fuel source data s = Inr t"
    using assms(2) by (simp add: en_receive_def split: if_split_asm)
  then consider (meow) "t = en_meow B source data s" | (disco) "t = en_disco B source data s" | (unknown) "t = s"
    | (tunnel) "en_decapsulate B fuel source data s = Inr t" by blast
  then show ?thesis
  proof cases
    case meow
    have "gains_from source s t"
      by (rule gains_same) (simp_all add: meow en_meow_def en_add_peer_def Let_def split: option.split)
    moreover have "en_incoming t = en_incoming s" "en_links t = en_links s"
      by (simp_all add: meow en_meow_def en_add_peer_def Let_def split: option.split)
    moreover have "k = source \<and> (\<exists>rest. data = encode_meow_ping source d @ rest)"
      if "map_of (en_peers t) k = Some d" "map_of (en_peers s) k \<noteq> Some d" for k d
      using that meow_peers [of B source data s] by (auto simp: meow map_add_Some_iff split: if_splits)
    moreover have "en_server s \<noteq> None \<Longrightarrow> en_peers t = en_peers s"
      using meow_peers [of B source data s] by (auto simp: meow)
    ultimately show ?thesis by blast
  next
    case disco
    have "en_incoming t = en_incoming s" "en_links t = en_links s" "en_server t = en_server s" "en_local t = en_local s"
        "en_peers t = en_peers s"
      by (auto simp: disco en_disco_def Let_def split: option.splits sum.splits prod.splits)
    then show ?thesis by (simp add: gains_same)
  next
    case tunnel
    have "en_peers t = en_peers s" by (rule decapsulate_peers [OF tunnel])
    with gains_decapsulate [OF assms(1) _ tunnel] show ?thesis by auto
  qed simp
qed

text \<open>A registration.\<close>

theorem browser_traffic_attributed_witness:
  "\<exists>t. en_receive ref_browser 1 ref_key (encode_meow_ping ref_key ref_key) ref_engine = Inr t \<and>
     gains_from ref_key ref_engine t \<and> en_incoming t = []"
proof -
  have law: "browser_ipv6_law ref_browser"
    by (auto simp: browser_ipv6_law_def ref_ipv6_packet_def slice_def split: if_splits)
  have meow: "is_meow_packet (encode_meow_ping ref_key ref_key)"
    by (simp add: is_meow_packet_def encode_meow_ping_def)
  obtain t where t: "en_receive ref_browser 1 ref_key (encode_meow_ping ref_key ref_key) ref_engine = Inr t"
    by (simp add: en_receive_def meow)
  have "en_server ref_engine = None" "map_of (en_peers ref_engine) ref_key = None" "en_incoming ref_engine = []"
    by (simp_all add: ref_engine_def)
  with browser_traffic_attributed [OF law t] t show ?thesis by simp
qed

section \<open>Listening and dialing\<close>



end
