(* ===== verification/WebDemo.thy ===== *)
theory WebDemo
  imports Numbers Paths
begin

text \<open>
  The web demonstration (\<open>src/webdemo.rs\<close> with \<open>src/bin/tailcat-web.rs\<close> and \<open>tailcat-webdist.rs\<close>): the
  files it serves and under which encoding, the relay map it passes on, its options, and the calls that
  build a distribution.

  The router and the HTTP messages are the crate \<open>axum\<close>: a route for \<open>GET\<close> also answers \<open>HEAD\<close>, without the
  body, another method gets status 405 and another path 404. Files and tools are arguments.
\<close>

section \<open>The files\<close>

definition required_files :: "string list" where
  "required_files = [''index.html'', ''app.js'', ''tailcat.js'', ''main.wasm'']"

definition optional_files :: "string list" where
  "optional_files = [''main.wasm.gz'', ''main.wasm.zst'']"

text \<open>\<open>handler\<close> reads every file once; a required one must be there.\<close>

definition web_handler :: "(string \<Rightarrow> byte list option) \<Rightarrow> (string \<rightharpoonup> byte list) res" where
  "web_handler read =
     and_then (collect_results
        (\<lambda>name. case read name of Some bs \<Rightarrow> Ok (name, bs) | None \<Rightarrow> Err ''webdemo: incomplete dist'') required_files)
       (\<lambda>files. Ok (map_of files ++
          map_of (concat (map (\<lambda>name. case read name of Some bs \<Rightarrow> [(name, bs)] | None \<Rightarrow> []) optional_files))))"

section \<open>Encodings\<close>

text \<open>\<open>q.parse::<f32>()\<close> gives a number that is not positive; a positive one up to \<open>2\<^sup>-\<^sup>1\<^sup>5\<^sup>0\<close> rounds to zero.\<close>

definition not_positive_f32 :: "string \<Rightarrow> bool" where
  "not_positive_f32 s =
     (let (neg, t) =
        (case s of
           c # cs \<Rightarrow> if c = CHR ''+'' then (False, cs) else if c = CHR ''-'' then (True, cs) else (False, s)
         | [] \<Rightarrow> (False, []));
          l = map ascii_lower t
      in if l = ''inf'' \<or> l = ''infinity'' then neg
         else case parse_decimal t of Some x \<Rightarrow> neg \<or> x \<le> 1 / 2 ^ 150 | None \<Rightarrow> False)"

definition accepts_part :: "string \<Rightarrow> string \<Rightarrow> bool" where
  "accepts_part encoding part =
     (case split_on CHR '';'' (trim part) of
        [] \<Rightarrow> False
      | e # params \<Rightarrow>
          e = encoding \<and>
          list_all (\<lambda>p. case strip_prefix ''q='' (trim p) of Some q \<Rightarrow> \<not> not_positive_f32 q | None \<Rightarrow> True) params)"

definition accepts :: "string \<Rightarrow> string \<Rightarrow> bool" where
  "accepts header encoding = list_ex (accepts_part encoding) (split_on CHR '','' header)"

section \<open>Answers\<close>

type_synonym http_headers = "(string \<times> string) list"

type_synonym http_reply = "nat \<times> http_headers \<times> byte list"

definition asset_name :: "string \<Rightarrow> string" where
  "asset_name path = (if path = ''/'' then ''index.html'' else dropWhile (\<lambda>c. c = CHR ''/'') path)"

text \<open>The first encoding of the two that the client accepts and that is there.\<close>

definition encoded_file :: "(string \<rightharpoonup> byte list) \<Rightarrow> string \<Rightarrow> (string \<times> string) option" where
  "encoded_file files enc =
     find (\<lambda>(encoding, file). accepts enc encoding \<and> files file \<noteq> None)
       [(''zstd'', ''main.wasm.zst''), (''gzip'', ''main.wasm.gz'')]"

text \<open>\<open>assets.files[name]\<close> panics for a name that is not there.\<close>

definition file_at :: "(string \<rightharpoonup> byte list) \<Rightarrow> string \<Rightarrow> stop + byte list" where
  "file_at files name = (case files name of Some bs \<Rightarrow> Inr bs | None \<Rightarrow> Inl Panic)"

definition size_text :: "byte list \<Rightarrow> string" where
  "size_text bs = dec (length bs)"

definition asset :: "(string \<rightharpoonup> byte list) \<Rightarrow> string \<Rightarrow> string option \<Rightarrow> stop + http_reply" where
  "asset files path accept =
     (let name = asset_name path in
      if name = ''main.wasm''
      then and_then (file_at files name) (\<lambda>plain.
           let choice = encoded_file files (case accept of Some h \<Rightarrow> h | None \<Rightarrow> []);
               actual = (case choice of Some (encoding, file) \<Rightarrow> file | None \<Rightarrow> name)
           in and_then (file_at files actual) (\<lambda>body.
           Inr (200,
             [(''content-type'', ''application/wasm''), (''vary'', ''Accept-Encoding''),
              (''x-uncompressed-size'', size_text plain)] @
             (case choice of Some (encoding, file) \<Rightarrow> [(''content-encoding'', encoding)] | None \<Rightarrow> []) @
             [(''x-compressed-size'', size_text body), (''content-length'', size_text body)], body)))
      else and_then (file_at files name) (\<lambda>body.
           Inr (200,
             [(''content-type'',
               if ends_with name ''.js'' then ''text/javascript; charset=utf-8'' else ''text/html; charset=utf-8''),
              (''content-length'', size_text body)], body)))"

definition web_routes :: "string list" where
  "web_routes = [''/'', ''/app.js'', ''/tailcat.js'', ''/main.wasm'']"

text \<open>What the upstream answers to the passed on request, with its status and body.\<close>

definition proxy_mode :: "string option \<Rightarrow> string" where
  "proxy_mode header = (case header of Some m \<Rightarrow> m | None \<Rightarrow> ''client'')"

definition derp_map_proxy :: "(string \<Rightarrow> (nat \<times> byte list res) res) \<Rightarrow> string option \<Rightarrow> http_reply" where
  "derp_map_proxy upstream mode =
     (case upstream (proxy_mode mode) of
        Inr (status, Inr bytes) \<Rightarrow> (status, [(''content-type'', ''application/json'')], bytes)
      | Inr (status, Inl (Error e)) \<Rightarrow> (502, [(''content-type'', ''text/plain; charset=utf-8'')], as_bytes e)
      | Inl (Error e) \<Rightarrow> (502, [(''content-type'', ''text/plain; charset=utf-8'')], as_bytes e))"

record web_request =
  web_method :: string
  web_path :: string
  accept_encoding :: "string option"
  tailcat_mode :: "string option"

definition web_respond ::
  "(string \<rightharpoonup> byte list) \<Rightarrow> (string \<Rightarrow> (nat \<times> byte list res) res) \<Rightarrow> web_request \<Rightarrow> stop + http_reply" where
  "web_respond files upstream r =
     (if web_path r \<notin> set web_routes \<union> {''/derpmap.json''} then Inr (404, [], [])
      else if web_method r \<notin> {''GET'', ''HEAD''} then Inr (405, [], [])
      else and_then
        (if web_path r = ''/derpmap.json'' then Inr (derp_map_proxy upstream (tailcat_mode r))
         else asset files (web_path r) (accept_encoding r))
        (\<lambda>(status, headers, body). Inr (status, headers, if web_method r = ''HEAD'' then [] else body)))"

section \<open>Options\<close>

definition option_names :: "string list" where
  "option_names = [''o'', ''web-dir'', ''listen'', ''derpmap-url'', ''dist'']"

definition undashed :: "string \<Rightarrow> string" where
  "undashed s = dropWhile (\<lambda>c. c = CHR ''-'') s"

fun web_options :: "string list \<Rightarrow> (string \<rightharpoonup> string) \<Rightarrow> (string \<rightharpoonup> string) res" where
  "web_options [] options = Ok options"
| "web_options (arg # rest) options =
     (if arg \<in> {''-h'', ''--help''} then web_options rest (options(''help'' \<mapsto> []))
      else case split_once CHR ''='' arg of
        Some (key, val) \<Rightarrow>
          if undashed key \<in> set option_names then web_options rest (options(undashed key \<mapsto> val))
          else Err ''unknown option''
      | None \<Rightarrow>
          (case rest of
             [] \<Rightarrow> Err ''missing value''
           | val # rest' \<Rightarrow>
               if undashed arg \<in> set option_names then web_options rest' (options(undashed arg \<mapsto> val))
               else Err ''unknown option''))"

text \<open>
  \<open>main\<close> of the two programs: nothing for a request for help, and otherwise whether the directory is made and
  removed again, the directory, the sources, the address to listen on and the address of the relay map; or the directory
  to make and the sources.
\<close>

definition option_or :: "(string \<rightharpoonup> string) \<Rightarrow> string \<Rightarrow> string \<Rightarrow> string" where
  "option_or options key val = (case options key of Some v \<Rightarrow> v | None \<Rightarrow> val)"

record web_plan =
  plan_generated :: bool
  plan_dist :: string
  plan_sources :: string
  plan_listen :: string
  plan_map_url :: string

definition tailcat_web :: "string \<Rightarrow> string \<Rightarrow> string list \<Rightarrow> web_plan option res" where
  "tailcat_web temporary default_url args =
     and_then (web_options args Map.empty) (\<lambda>options.
     Ok (if options ''help'' \<noteq> None then None
         else Some \<lparr>plan_generated = (options ''dist'' = None), plan_dist = option_or options ''dist'' temporary,
                    plan_sources = option_or options ''web-dir'' ''web'',
                    plan_listen = option_or options ''listen'' ''localhost:8080'',
                    plan_map_url = option_or options ''derpmap-url'' default_url\<rparr>))"

definition tailcat_webdist :: "string list \<Rightarrow> (string \<times> string) option res" where
  "tailcat_webdist args =
     and_then (web_options args Map.empty) (\<lambda>options.
     if options ''help'' \<noteq> None then Ok None
     else case options ''o'' of
       None \<Rightarrow> Err ''-o output directory is required''
     | Some out \<Rightarrow> Ok (Some (out, option_or options ''web-dir'' ''web'')))"

section \<open>Building a distribution\<close>

datatype build_call =
    RunTool string "string list"
  | CreateDir string
  | RenameFile string string
  | CopyFile string string
  | ReadFile string
  | WriteGzip string
  | WriteZstd string

text \<open>The calls made until the first that fails.\<close>

fun do_calls :: "(build_call \<Rightarrow> bool) \<Rightarrow> build_call list \<Rightarrow> build_call list \<times> bool" where
  "do_calls ok [] = ([], True)"
| "do_calls ok (c # cs) = (if ok c then apfst ((#) c) (do_calls ok cs) else ([c], False))"

record checkout =
  canonical :: "string \<Rightarrow> string option"
  parent_of :: "string \<Rightarrow> string option"
  is_directory :: "string \<Rightarrow> bool"
  is_regular :: "string \<Rightarrow> bool"

definition browser_source_root :: "checkout \<Rightarrow> string \<Rightarrow> string res" where
  "browser_source_root D web =
     (case parent_of D web of
        Some src \<Rightarrow>
          if is_directory D web \<and> is_regular D (push src ''wasm/Cargo.toml'') then Ok src
          else Err ''browser builds require a full source checkout''
      | None \<Rightarrow> Err ''browser builds require a full source checkout'')"

definition compress_wasm :: "string \<Rightarrow> build_call list" where
  "compress_wasm path = [ReadFile path, WriteGzip (path @ ''.gz''), WriteZstd (path @ ''.zst'')]"

definition build_calls :: "string \<Rightarrow> string \<Rightarrow> string \<Rightarrow> build_call list" where
  "build_calls src web out =
     [RunTool ''cargo''
        [''build'', ''--locked'', ''--release'', ''--target'', ''wasm32-unknown-unknown'', ''--manifest-path'',
         push src ''wasm/Cargo.toml'', ''--target-dir'', push src ''wasm/target''],
      CreateDir out,
      RunTool ''wasm-bindgen''
        [push src ''wasm/target/wasm32-unknown-unknown/release/tailcat_web.wasm'', ''--target'', ''web'',
         ''--out-name'', ''tailcat'', ''--out-dir'', out],
      RenameFile (push out ''tailcat_bg.wasm'') (push out ''main.wasm''),
      CopyFile (push web ''index.html'') (push out ''index.html''),
      CopyFile (push web ''app.js'') (push out ''app.js'')] @
     compress_wasm (push out ''main.wasm'')"

definition build_dist :: "checkout \<Rightarrow> (build_call \<Rightarrow> bool) \<Rightarrow> string \<Rightarrow> string \<Rightarrow> build_call list \<times> bool" where
  "build_dist D ok web_dir out =
     (case canonical D web_dir of
        None \<Rightarrow> ([], False)
      | Some web \<Rightarrow>
          (case browser_source_root D web of
             Inl e \<Rightarrow> ([], False)
           | Inr src \<Rightarrow> do_calls ok (build_calls src web out)))"


section \<open>What is served\<close>

lemma web_handler_files:
  assumes "web_handler read = Ok files"
  shows "name \<in> set required_files \<Longrightarrow> \<exists>bs. read name = Some bs \<and> files name = Some bs"
    and "name \<in> set optional_files \<Longrightarrow> files name = read name"
  using assms
  by (auto simp: web_handler_def required_files_def optional_files_def map_add_def split: option.splits)

lemma asset_name_routes:
  "path \<in> set web_routes \<Longrightarrow> asset_name path \<in> set required_files"
  "asset_name path = ''main.wasm'' \<Longrightarrow> path \<in> set web_routes \<Longrightarrow> path = ''/main.wasm''"
  by (auto simp: web_routes_def asset_name_def required_files_def)

lemma encoded_file_Some:
  "encoded_file files enc = Some (encoding, file) \<Longrightarrow>
   (encoding, file) \<in> {(''zstd'', ''main.wasm.zst''), (''gzip'', ''main.wasm.gz'')} \<and> accepts enc encoding \<and>
   files file \<noteq> None \<and> file \<in> set optional_files"
  by (auto simp: encoded_file_def optional_files_def find_Some_iff nth_Cons' split: if_splits)

text \<open>The file behind an answer, and how it is encoded.\<close>

lemma asset_served:
  assumes "web_handler read = Ok files" and "path \<in> set web_routes"
  shows "\<exists>headers body name. asset files path accept = Inr (200, headers, body) \<and> read name = Some body \<and>
    map_of headers ''content-length'' = Some (size_text body) \<and>
    (name = asset_name path \<and> map_of headers ''content-encoding'' = None \<or>
     (\<exists>encoding. path = ''/main.wasm'' \<and>
        (encoding, name) \<in> {(''zstd'', ''main.wasm.zst''), (''gzip'', ''main.wasm.gz'')} \<and>
        (\<exists>h. accept = Some h \<and> accepts h encoding) \<and> map_of headers ''content-encoding'' = Some encoding))"
proof -
  obtain bs where bs: "read (asset_name path) = Some bs" "files (asset_name path) = Some bs"
    using web_handler_files(1) [OF assms(1) asset_name_routes(1) [OF assms(2)]] by blast
  let ?enc = "case accept of Some h \<Rightarrow> h | None \<Rightarrow> []"
  show ?thesis
  proof (cases "asset_name path = ''main.wasm'' \<and> encoded_file files ?enc \<noteq> None")
    case True
    then obtain encoding fname where choice: "encoded_file files ?enc = Some (encoding, fname)" by auto
    note chosen = encoded_file_Some [OF choice]
    then obtain body where body: "files fname = Some body" "read fname = Some body"
      using web_handler_files(2) [OF assms(1), of fname] by auto
    have "\<not> accepts [] encoding" using chosen by (auto simp: accepts_def accepts_part_def trim_def)
    with chosen have "\<exists>h. accept = Some h \<and> accepts h encoding" by (cases accept) auto
    moreover have "path = ''/main.wasm''" using asset_name_routes(2) True assms(2) by blast
    ultimately show ?thesis using True bs body chosen choice
      by (auto simp: asset_def file_at_def Let_def)
  next
    case False
    with bs show ?thesis by (auto simp: asset_def file_at_def Let_def split: option.splits)
  qed
qed


definition sample_dist :: "string \<Rightarrow> byte list option" where
  "sample_dist =
     map_of [(''index.html'', [1]), (''app.js'', [2]), (''tailcat.js'', [3]), (''main.wasm'', [4, 4]), (''main.wasm.gz'', [5])]"


end
