(* ===== verification/Listing.thy ===== *)
theory Listing
  imports Clients FilesProps
begin

text \<open>
  \<open>tailcat ls\<close>: the native SSH and SFTP client (\<open>probe_no_auth\<close>, \<open>list_files\<close> of
  \<open>src/services/mod.rs\<close>), what \<open>ls\<close> of \<open>src/cli/clients.rs\<close> prints, and the listing of a directory of the file
  service from end to end.

  The client side of SSH and SFTP is the crates \<open>russh\<close> and \<open>russh_sftp\<close>: the record holds what their calls
  return. The texts of times are those of \<open>chrono\<close>.
\<close>

record sftp_client =
  ssh_handshake :: "unit res"
  ssh_auth_none :: "string \<Rightarrow> bool res"
  ssh_open_session :: "unit res"
  ssh_subsystem :: "string \<Rightarrow> unit res"
  sftp_new :: "unit res"
  sftp_metadata :: "string \<Rightarrow> file_attrs res"
  attrs_is_dir :: "file_attrs \<Rightarrow> bool"
  sftp_read_dir :: "string \<Rightarrow> entry list res"
  sftp_close :: "unit res"
  ssh_disconnect :: "string \<Rightarrow> unit res"

definition probe_no_auth :: "sftp_client \<Rightarrow> string \<Rightarrow> bool res" where
  "probe_no_auth C user =
     and_then (ssh_handshake C) (\<lambda>_.
     and_then (ssh_auth_none C user) (\<lambda>accepted.
     and_then (ssh_disconnect C ''probe complete'') (\<lambda>_. Ok accepted)))"

text \<open>An entry without attributes has the attributes of the crate's default, all unset.\<close>

definition no_attrs :: file_attrs where
  "no_attrs = \<lparr>fa_size = None, fa_uid = None, fa_gid = None, fa_permissions = None, fa_atime = None, fa_mtime = None\<rparr>"

type_synonym list_entry = "string \<times> file_attrs"

definition to_list_entry :: "entry \<Rightarrow> list_entry" where
  "to_list_entry e = (fst e, case snd e of Some a \<Rightarrow> a | None \<Rightarrow> no_attrs)"

definition by_name :: "list_entry list \<Rightarrow> list_entry list" where
  "by_name es = sort_key (\<lambda>e. map of_char (fst e) :: nat list) es"

definition list_files :: "sftp_client \<Rightarrow> string \<Rightarrow> list_entry list res" where
  "list_files C path0 =
     and_then (context_of ''SSH handshake'' (ssh_handshake C)) (\<lambda>_.
     and_then (ssh_auth_none C []) (\<lambda>accepted.
     if \<not> accepted then Err ''SSH server refused authentication-free access''
     else and_then (ssh_open_session C) (\<lambda>_.
     and_then (ssh_subsystem C ''sftp'') (\<lambda>_.
     and_then (context_of ''opening SFTP session'' (sftp_new C)) (\<lambda>_.
     let path = (if path0 = [] then ''.'' else path0) in
     and_then (context_of ''stat'' (sftp_metadata C path)) (\<lambda>attrs.
     and_then
       (if attrs_is_dir C attrs then and_then (sftp_read_dir C path) (\<lambda>es. Ok (map to_list_entry es))
        else Ok [(case strip_prefix ''./'' path of Some rest \<Rightarrow> rest | None \<Rightarrow> path, attrs)]) (\<lambda>es.
     and_then (sftp_close C) (\<lambda>_.
     and_then (ssh_disconnect C []) (\<lambda>_. Ok (by_name es))))))))))"

text \<open>A line of \<open>ls\<close>; a number is padded with blanks on the left to twelve characters.\<close>

definition padded :: "nat \<Rightarrow> string \<Rightarrow> string" where
  "padded w s = replicate (w - length s) CHR '' '' @ s"

definition ls_line :: "(u32 \<Rightarrow> string) \<Rightarrow> bool \<Rightarrow> list_entry \<Rightarrow> string" where
  "ls_line time long e =
     (case e of (file, attrs) \<Rightarrow>
        let mode = (case fa_permissions attrs of Some m \<Rightarrow> m | None \<Rightarrow> 0);
            name = ls_name file mode
        in if \<not> long then name
           else mode_string mode @ '' '' @
                padded 12 (dec (case fa_size attrs of Some n \<Rightarrow> unat n | None \<Rightarrow> 0)) @ '' '' @
                time (case fa_mtime attrs of Some t \<Rightarrow> t | None \<Rightarrow> 0) @ '' '' @ name)"

text \<open>
  \<open>ls\<close>: what reaching the address, its port 22 and the listing give; the timeout is one of the errors of
  the listing.
\<close>

definition ls :: "(u32 \<Rightarrow> string) \<Rightarrow> (string \<Rightarrow> (string \<Rightarrow> list_entry list res) res) \<Rightarrow> args \<Rightarrow> string list res" where
  "ls time connect a =
     and_then (ls_target a) (\<lambda>(host, path).
     and_then (connect host) (\<lambda>listing.
     and_then (listing path) (\<lambda>es. Ok (map (ls_line time (long_flag a)) es))))"


section \<open>From the directory to the printed lines\<close>

text \<open>What a client has that asks for a directory until the end of file.\<close>

fun read_until_end :: "response list \<Rightarrow> entry list option" where
  "read_until_end (RsName i es # rs) = map_option ((@) es) (read_until_end rs)"
| "read_until_end (RsError i Eof # rs) = Some []"
| "read_until_end rs = None"

lemma read_until_end_names:
  "read_until_end (map (RsName i) chunks @ rs) = map_option ((@) (concat chunks)) (read_until_end rs)"
  by (induction chunks) (auto simp: option.map_comp comp_def option.map_id0 [unfolded id_def])

lemma session_run_append:
  "fst (session_run D (qs @ rs) s) = fst (session_run D qs s) @ fst (session_run D rs (snd (session_run D qs s)))"
  by (induction qs arbitrary: s) (simp_all add: case_prod_beta)

lemma session_run_fewer:
  "n \<le> m \<Longrightarrow> fst (session_run D (replicate n r) s) = take n (fst (session_run D (replicate m r) s))"
proof -
  assume "n \<le> m"
  then have "replicate m r = replicate n r @ replicate (m - n) r" by (simp add: replicate_add [symmetric])
  moreover have "length (fst (session_run D (replicate n r) s)) = n"
    by (induction n arbitrary: s) (simp_all add: case_prod_beta)
  ultimately show ?thesis by (simp add: session_run_append)
qed

lemma read_directory:
  assumes "map_of (handles s) h = Some (DirHandle es 0)" and "initialized s"
    and "read_until_end (fst (session_run D (replicate n (RqReadDir i h)) s)) = Some got"
  shows "got = es"
proof -
  from readdir_rest [OF assms(1) _ assms(2), of D i] obtain chunks where chunks: "concat chunks = es"
    and run: "fst (session_run D (replicate (Suc (length chunks)) (RqReadDir i h)) s) = map (RsName i) chunks @ [RsError i Eof]"
    by auto
  show ?thesis
  proof (cases "n \<le> length chunks")
    case True
    then have "fst (session_run D (replicate n (RqReadDir i h)) s) = map (RsName i) (take n chunks) @ []"
      using session_run_fewer [of n "Suc (length chunks)" D "RqReadDir i h" s] run by (simp add: take_map)
    then have "read_until_end (fst (session_run D (replicate n (RqReadDir i h)) s)) = None"
      using read_until_end_names [of i "take n chunks" "[]"] by simp
    with assms(3) show ?thesis by simp
  next
    case False
    then have "replicate n (RqReadDir i h) =
        replicate (Suc (length chunks)) (RqReadDir i h) @ replicate (n - Suc (length chunks)) (RqReadDir i h)"
      by (simp add: replicate_add [symmetric] del: replicate.simps)
    then have "\<exists>rs. fst (session_run D (replicate n (RqReadDir i h)) s) = map (RsName i) chunks @ RsError i Eof # rs"
      using run by (simp only: session_run_append) simp
    with assms(3) chunks show ?thesis by (auto simp: read_until_end_names)
  qed
qed

lemma list_files_directory:
  assumes "list_files C path = Ok out" and "path \<noteq> []" and "sftp_metadata C path = Ok attrs" and "attrs_is_dir C attrs"
  shows "\<exists>es. sftp_read_dir C path = Ok es \<and> out = by_name (map to_list_entry es)"
proof -
  from assms have "\<exists>es. and_then (sftp_read_dir C path) (\<lambda>es. Ok (map to_list_entry es)) = Ok es \<and> out = by_name es"
    unfolding list_files_def
    by (auto simp: and_then_Inr_iff Let_def split: if_splits)
  then show ?thesis by (auto simp: and_then_Inr_iff)
qed

text \<open>
  C38. What \<open>tailcat ls\<close> prints for a directory of a tailcat server is the directory: when the server's session
  opens it, the client reads the handle to the end of file, and the command succeeds, there is one line for every name the
  directory holds, in the byte order of the names.
\<close>

theorem ls_prints_directory:
  assumes "process D (RqOpenDir j path) s = (RsHandle j h, t)" and "initialized s" and "path_of s path = Inr p"
    and "fst (fs_list D (disk s) (rooted s) (CReadDir p)) = Inr (map Inr names)"
    and "ls_target a = Ok (host, path)" and "connect host = Ok (list_files C)"
    and "sftp_metadata C path = Ok attrs" and "attrs_is_dir C attrs"
    and "sftp_read_dir C path = Ok got"
    and "read_until_end (fst (session_run D (replicate n (RqReadDir i h)) t)) = Some got"
    and "ls time connect a = Ok printed"
  shows "\<exists>es. printed = map (ls_line time (long_flag a)) es \<and> mset (map fst es) = mset names \<and>
    sorted (map (\<lambda>e. map of_char (fst e) :: nat list) es)"
proof -
  have "rq_opendir D j path s = (Inr (RsHandle j h), t)"
    using assms(1,2) by (auto simp: process_def dispatch_def split: prod.splits sum.splits)
  from this assms(3,4) obtain es where es: "map_of (handles t) h = Some (DirHandle es 0)" "mset (map fst es) = mset names"
    and t: "initialized t"
    by (rule opendir_handle) (auto simp: assms(2))
  from read_directory [OF es(1) t assms(10)] have got: "got = es" .
  have "path \<noteq> []" using assms(5) by (auto simp: ls_target_def Let_def split: list.splits if_splits prod.splits)
  moreover have "ls time connect a = and_then (list_files C path) (\<lambda>es. Ok (map (ls_line time (long_flag a)) es))"
    using assms(5,6) by (simp add: ls_def)
  with assms(11) obtain out where out: "list_files C path = Ok out" "printed = map (ls_line time (long_flag a)) out"
    by (auto simp: and_then_Inr_iff)
  ultimately have sorted: "out = by_name (map to_list_entry got)"
    using list_files_directory [OF out(1) _ assms(7,8)] assms(9) by simp
  have "mset (map fst out) = mset (map fst (map to_list_entry got))"
    by (simp add: sorted by_name_def image_mset.compositionality)
  also have "\<dots> = mset names" using es(2) got by (simp add: to_list_entry_def comp_def)
  finally show ?thesis using out(2) sorted by (intro exI [of _ out]) (simp add: by_name_def)
qed


text \<open>A share of two files, and a client whose calls all succeed.\<close>

definition sample_client :: "entry list \<Rightarrow> sftp_client" where
  "sample_client es =
     \<lparr>ssh_handshake = Ok (), ssh_auth_none = (\<lambda>_. Ok True), ssh_open_session = Ok (), ssh_subsystem = (\<lambda>_. Ok ()),
      sftp_new = Ok (), sftp_metadata = (\<lambda>_. Ok no_attrs), attrs_is_dir = (\<lambda>_. True), sftp_read_dir = (\<lambda>_. Ok es),
      sftp_close = Ok (), ssh_disconnect = (\<lambda>_. Ok ())\<rparr>"

lemma sample_client_lists: "path \<noteq> [] \<Longrightarrow> list_files (sample_client es) path = Ok (by_name (map to_list_entry es))"
  by (simp add: list_files_def sample_client_def)

theorem ls_prints_directory_witness:
  "\<exists>got es. ls (\<lambda>_. []) (\<lambda>_. Ok (list_files (sample_client got))) ((default_args None)\<lparr>positional := [''host'']\<rparr>) =
     Ok (map (ls_line (\<lambda>_. []) False) es) \<and> mset (map fst es) = {#''b'', ''a''#}"
proof -
  let ?D = "ref_disk\<lparr>fs_list := \<lambda>w _ _. (Inr [Inr ''b'', Inr ''a''], w)\<rparr>"
  let ?s = "(files_new ''/h'' (Some ReadOnly) ())\<lparr>initialized := True\<rparr>"
  have dot: "relative ''.'' = Inr ''.''" by (simp add: relative_def)
  then have p: "path_of ?s ''.'' = Inr ''.''" by (simp add: path_of_def files_new_def)
  have "\<exists>h t. process ?D (RqOpenDir 1 ''.'') ?s = (RsHandle 1 h, t)"
    by (simp add: process_def dispatch_def rq_opendir_def files_new_def then_do_def give_def path_of_def dot checked_def
        ask_def ref_disk_def metadata_def add_handle_def Let_def)
  then obtain h t where o: "process ?D (RqOpenDir 1 ''.'') ?s = (RsHandle 1 h, t)" by blast
  have l: "fst (fs_list ?D (disk ?s) (rooted ?s) (CReadDir ''.'')) = Inr (map Inr [''b'', ''a''])" by simp
  have i: "initialized ?s" by simp
  from listing_complete [OF o i p l, of 2] obtain chunks
    where "fst (session_run ?D (replicate (Suc (length chunks)) (RqReadDir 2 h)) t) = map (RsName 2) chunks @ [RsError 2 Eof]"
    by auto
  then have run: "read_until_end (fst (session_run ?D (replicate (Suc (length chunks)) (RqReadDir 2 h)) t)) =
      Some (concat chunks)"
    by (simp only: read_until_end_names) simp
  let ?C = "sample_client (concat chunks)" and ?a = "(default_args None)\<lparr>positional := [''host'']\<rparr>"
  have target: "ls_target ?a = Ok (''host'', ''.'')"
    by (simp add: ls_target_def split_remote_arg_def)
  have long: "long_flag ?a = False" by (simp add: default_args_def)
  have printed: "ls (\<lambda>_. []) (\<lambda>_. Ok (list_files ?C)) ?a =
      Ok (map (ls_line (\<lambda>_. []) False) (by_name (map to_list_entry (concat chunks))))"
    by (simp add: ls_def target sample_client_lists long)
  have client: "sftp_metadata ?C ''.'' = Ok no_attrs" "attrs_is_dir ?C no_attrs" "sftp_read_dir ?C ''.'' = Ok (concat chunks)"
    by (simp_all add: sample_client_def)
  from ls_prints_directory [OF o i p l target refl client run printed] long
  obtain es where "map (ls_line (\<lambda>_. []) False) (by_name (map to_list_entry (concat chunks))) = map (ls_line (\<lambda>_. []) False) es"
    "mset (map fst es) = {#''b'', ''a''#}" by auto
  with printed show ?thesis by (intro exI [of _ "concat chunks"] exI [of _ es]) simp
qed

end
